(* ===== verification/Prelude.thy ===== *)
theory Prelude
  imports Main "HOL-Library.Sublist" "HOL-Library.Multiset"
begin

text \<open>
  Shared vocabulary of the development: Go strings as byte lists with the functions of
  package strings and strconv that the sources call, signed 64-bit wrap-around, pointer
  updates on slices of pointers, and sort.SliceStable. The collections below gather the
  facts that the component theories hand to the simplifier.
\<close>

named_theorems frame_simps \<open>which fields an operation leaves alone\<close>
named_theorems go_simps \<open>evaluation rules for the Go library functions on concrete inputs\<close>

section \<open>Signed 64-bit integers\<close>

text \<open>int64 values are kept as integers; every addition the sources do on a counter wraps.\<close>

definition wrap64 :: "int \<Rightarrow> int" where
  "wrap64 x = (x + 2 ^ 63) mod 2 ^ 64 - 2 ^ 63"

lemma wrap64_id [simp]: "- (2 ^ 63) \<le> x \<Longrightarrow> x < 2 ^ 63 \<Longrightarrow> wrap64 x = x"
  by (simp add: wrap64_def)

lemma wrap64_range: "- (2 ^ 63) \<le> wrap64 x \<and> wrap64 x < 2 ^ 63"
proof -
  have "0 \<le> (x + 2 ^ 63) mod 2 ^ 64" "(x + 2 ^ 63) mod 2 ^ 64 < 2 ^ 64" by simp_all
  then show ?thesis unfolding wrap64_def by simp
qed

section \<open>Strings\<close>

text \<open>
  A Go string is its bytes. \<open>to_lower\<close> is strings.ToLower as far as an ASCII test on the
  result can see: ASCII letters, and the two code points outside ASCII whose lower case is
  an ASCII letter (U+0130 and U+212A, given by their UTF-8 bytes). Other bytes stay.
\<close>

definition byte :: "nat \<Rightarrow> char" where
  "byte n = char_of n"

definition code :: "char \<Rightarrow> nat" where
  "code c = of_char c"

lemma code_byte [simp]: "code (byte n) = n mod 256"
  by (simp add: code_def byte_def)

lemma byte_code [simp]: "byte (code c) = c"
  by (simp add: code_def byte_def)

lemma byte_eq_iff [go_simps]: "byte n = c \<longleftrightarrow> n mod 256 = code c" "c = byte n \<longleftrightarrow> n mod 256 = code c"
  by (simp_all add: byte_def code_def char_of_eq_iff take_bit_eq_mod eq_commute [of c])

lemma code_of_char [go_simps]: "code c = of_char c"
  by (simp add: code_def)

definition lower_char :: "char \<Rightarrow> char" where
  "lower_char c = (if 65 \<le> code c \<and> code c \<le> 90 then byte (code c + 32) else c)"

fun to_lower :: "string \<Rightarrow> string" where
  "to_lower [] = []"
| "to_lower (c # cs) =
     (if code c = 0xC4 \<and> take 1 cs = [byte 0xB0] then CHR ''i'' # to_lower (drop 1 cs)
      else if code c = 0xE2 \<and> take 2 cs = [byte 0x84, byte 0xAA]
        then CHR ''k'' # to_lower (drop 2 cs)
      else lower_char c # to_lower cs)"

definition contains :: "string \<Rightarrow> string \<Rightarrow> bool" where
  "contains s sub = sublist sub s"

definition has_prefix :: "string \<Rightarrow> string \<Rightarrow> bool" where
  "has_prefix s p = prefix p s"

text \<open>strings.TrimSpace strips the UTF-8 encodings of the code points of unicode.IsSpace.\<close>

definition space_seqs :: "string list" where
  "space_seqs =
     map (\<lambda>n. [byte n]) [9, 10, 11, 12, 13, 32]
     @ [[byte 0xC2, byte 0x85], [byte 0xC2, byte 0xA0], [byte 0xE1, byte 0x9A, byte 0x80]]
     @ map (\<lambda>n. [byte 0xE2, byte 0x80, byte n])
         [0x80, 0x81, 0x82, 0x83, 0x84, 0x85, 0x86, 0x87, 0x88, 0x89, 0x8A, 0xA8, 0xA9, 0xAF]
     @ [[byte 0xE2, byte 0x81, byte 0x9F], [byte 0xE3, byte 0x80, byte 0x80]]"

definition leading_space :: "string list \<Rightarrow> string \<Rightarrow> nat" where
  "leading_space seqs s =
     (case List.find (\<lambda>w. prefix w s) seqs of None \<Rightarrow> 0 | Some w \<Rightarrow> length w)"

lemma leading_space_le: "leading_space seqs s \<le> length s"
  by (auto simp: leading_space_def find_Some_iff prefix_length_le split: option.splits)

function trim_left_with :: "string list \<Rightarrow> string \<Rightarrow> string" where
  "trim_left_with seqs s =
     (if leading_space seqs s = 0 then s else trim_left_with seqs (drop (leading_space seqs s) s))"
  by pat_completeness auto
termination
proof (relation "measure (\<lambda>(seqs, s). length s)")
  fix seqs s
  assume "leading_space seqs s \<noteq> 0"
  then show "((seqs, drop (leading_space seqs s) s), (seqs, s)) \<in> measure (\<lambda>(seqs, s). length s)"
    using leading_space_le [of seqs s] by simp
qed simp

declare trim_left_with.simps [simp del]

lemmas trim_eval [go_simps] = trim_left_with.simps [of _ "_ # _"] trim_left_with.simps [of _ "[]"]

definition trim_space :: "string \<Rightarrow> string" where
  "trim_space s = rev (trim_left_with (map rev space_seqs) (rev (trim_left_with space_seqs s)))"

definition trim_right_char :: "char \<Rightarrow> string \<Rightarrow> string" where
  "trim_right_char c s = rev (dropWhile ((=) c) (rev s))"

fun split_on :: "char \<Rightarrow> string \<Rightarrow> string list" where
  "split_on sep [] = [[]]"
| "split_on sep (c # cs) =
     (if c = sep then [] # split_on sep cs
      else case split_on sep cs of [] \<Rightarrow> [[c]] | w # ws \<Rightarrow> (c # w) # ws)"

lemma split_on_nonempty [simp]: "split_on sep s \<noteq> []"
  by (cases s) (auto split: list.splits)

fun join :: "string \<Rightarrow> string list \<Rightarrow> string" where
  "join sep [] = []"
| "join sep [w] = w"
| "join sep (w # ws) = w @ sep @ join sep ws"

subsection \<open>Decimal numbers\<close>

definition is_digit :: "char \<Rightarrow> bool" where
  "is_digit c \<longleftrightarrow> 48 \<le> code c \<and> code c \<le> 57"

definition digit_char :: "nat \<Rightarrow> char" where
  "digit_char d = byte (48 + d)"

fun nat_string :: "nat \<Rightarrow> string" where
  "nat_string n = (if n < 10 then [digit_char n] else nat_string (n div 10) @ [digit_char (n mod 10)])"

declare nat_string.simps [simp del]

definition int_string :: "int \<Rightarrow> string" where
  "int_string i = (if i < 0 then CHR ''-'' # nat_string (nat (- i)) else nat_string (nat i))"

definition digits_value :: "string \<Rightarrow> nat" where
  "digits_value = foldl (\<lambda>a c. 10 * a + (code c - 48)) 0"

text \<open>strconv.ParseInt(s, 10, 64), and strconv.Atoi on a 64-bit platform.\<close>

definition parse_int64 :: "string \<Rightarrow> int option" where
  "parse_int64 s =
     (let neg = (take 1 s = ''-'');
          body = (if neg \<or> take 1 s = ''+'' then drop 1 s else s);
          v = (if neg then - int (digits_value body) else int (digits_value body))
      in if body = [] \<or> \<not> list_all is_digit body then None
         else if v < - (2 ^ 63) \<or> 2 ^ 63 \<le> v then None else Some v)"

lemma digits_value_snoc: "digits_value (s @ [c]) = 10 * digits_value s + (code c - 48)"
  by (simp add: digits_value_def)

lemma digits_value_nat_string [simp]: "digits_value (nat_string n) = n"
proof (induction n rule: nat_string.induct)
  case (1 n)
  show ?case
  proof (cases "n < 10")
    case True
    then show ?thesis
      by (simp add: nat_string.simps [of n] digits_value_def digit_char_def)
  next
    case False
    then show ?thesis using 1
      by (subst nat_string.simps) (simp add: digits_value_snoc digit_char_def)
  qed
qed

lemma nat_string_inject [simp]: "nat_string m = nat_string n \<longleftrightarrow> m = n"
  by (metis digits_value_nat_string)

lemma nat_string_digits: "list_all is_digit (nat_string n)"
proof (induction n rule: nat_string.induct)
  case (1 n)
  show ?case
  proof (cases "n < 10")
    case True
    then show ?thesis
      by (simp add: nat_string.simps [of n] is_digit_def digit_char_def)
  next
    case False
    then have "list_all is_digit (nat_string (n div 10))" using 1 by simp
    then show ?thesis using False
      by (simp add: nat_string.simps [of n])
        (simp add: is_digit_def digit_char_def less_Suc_eq_le [symmetric])
  qed
qed

lemma nat_string_nonempty [simp]: "nat_string n \<noteq> []"
  by (subst nat_string.simps) simp

lemma parse_int64_nat_string: "int n < 2 ^ 63 \<Longrightarrow> parse_int64 (nat_string n) = Some (int n)"
proof -
  assume n: "int n < 2 ^ 63"
  obtain c cs where s: "nat_string n = c # cs" by (meson nat_string_nonempty neq_Nil_conv)
  then have "is_digit c" using nat_string_digits [of n] by simp
  then have "c \<noteq> CHR ''-''" "c \<noteq> CHR ''+''" by (auto simp: is_digit_def code_def)
  moreover have "digits_value (c # cs) = n" using s by (metis digits_value_nat_string)
  ultimately show ?thesis using n nat_string_digits [of n]
    by (simp add: parse_int64_def Let_def s)
qed

section \<open>Slices of pointers\<close>

text \<open>
  A lookup that returns the first matching pointer, and the update of what it points to,
  act on the first matching element of the list.
\<close>

fun update_first :: "('a \<Rightarrow> bool) \<Rightarrow> ('a \<Rightarrow> 'a) \<Rightarrow> 'a list \<Rightarrow> 'a list" where
  "update_first P f [] = []"
| "update_first P f (x # xs) = (if P x then f x # xs else x # update_first P f xs)"

lemma length_update_first [simp]: "length (update_first P f xs) = length xs"
  by (induction xs) auto

lemma map_update_first: "(\<And>x. P x \<Longrightarrow> g (f x) = g x) \<Longrightarrow> map g (update_first P f xs) = map g xs"
  by (induction xs) auto

lemma update_first_none: "\<forall>x \<in> set xs. \<not> P x \<Longrightarrow> update_first P f xs = xs"
  by (induction xs) auto

lemma update_first_split:
  "List.find P xs = Some x \<Longrightarrow>
   \<exists>us vs. xs = us @ x # vs \<and> (\<forall>u \<in> set us. \<not> P u) \<and> P x \<and> update_first P f xs = us @ f x # vs"
proof (induction xs)
  case (Cons y ys)
  show ?case
  proof (cases "P y")
    case True
    then show ?thesis using Cons.prems by (intro exI [of _ "[]"] exI [of _ ys]) simp
  next
    case False
    then obtain us vs where "ys = us @ x # vs" "\<forall>u \<in> set us. \<not> P u" "P x"
      "update_first P f ys = us @ f x # vs"
      using Cons by auto
    then show ?thesis using False by (intro exI [of _ "y # us"] exI [of _ vs]) simp
  qed
qed simp

lemma find_append: "List.find P (xs @ ys) = (case List.find P xs of None \<Rightarrow> List.find P ys | Some x \<Rightarrow> Some x)"
  by (induction xs) auto

lemma find_SomeD: "List.find P xs = Some x \<Longrightarrow> x \<in> set xs \<and> P x"
  by (induction xs) (auto split: if_splits)

lemma find_cong_set: "(\<And>x. x \<in> set xs \<Longrightarrow> P x = Q x) \<Longrightarrow> List.find P xs = List.find Q xs"
  by (induction xs) auto

end
