(* ===== verification/Float64.thy ===== *)
theory Float64
  imports Complex_Main "HOL-Library.Log_Nat" Prelude
begin

text \<open>
  Go's float64: IEEE 754 binary64 with round-to-nearest, ties to even, on exact rationals.
  \<open>fround\<close> is executable; the facts the components use are that it is monotone, that it
  is the identity on every value with at most 53 significant bits, and the order it leaves
  on numbers. The two zeros are one value here: the sources never divide by a computed zero.
\<close>

datatype float64 = Fin rat | PInf | NInf | NaN

definition pow2 :: "int \<Rightarrow> rat" where
  "pow2 k = (if 0 \<le> k then 2 ^ nat k else 1 / 2 ^ nat (- k))"

definition round_even :: "rat \<Rightarrow> int" where
  "round_even x =
     (let f = \<lfloor>x\<rfloor>; r = x - of_int f
      in if r < 1 / 2 then f
         else if 1 / 2 < r then f + 1
         else if even f then f else f + 1)"

definition rat_log2 :: "rat \<Rightarrow> int" where
  "rat_log2 x =
     (let (n, d) = quotient_of x; k = bitlen n - bitlen d
      in if pow2 k * of_int d \<le> of_int n then k else k - 1)"

definition quantum :: "rat \<Rightarrow> int" where
  "quantum x = max (rat_log2 \<bar>x\<bar> - 52) (- 1074)"

definition round_at :: "int \<Rightarrow> rat \<Rightarrow> rat" where
  "round_at q x = of_int (round_even (x / pow2 q)) * pow2 q"

definition fround :: "rat \<Rightarrow> float64" where
  "fround x =
     (if x = 0 then Fin 0
      else let v = round_at (quantum x) x
           in if pow2 1024 \<le> v then PInf
              else if v \<le> - pow2 1024 then NInf
              else Fin v)"

lemma pow2_pos [simp]: "0 < pow2 k"
  by (simp add: pow2_def)

lemma pow2_nonzero [simp]: "pow2 k \<noteq> 0"
  using pow2_pos [of k] by (metis less_irrefl)

lemma pow2_powi: "pow2 k = 2 powi k"
  by (simp add: pow2_def power_int_def power_one_over inverse_eq_divide)

lemma pow2_add: "pow2 (a + b) = pow2 a * pow2 b"
  by (simp add: pow2_powi power_int_add)

lemma pow2_mono: "a \<le> b \<Longrightarrow> pow2 a \<le> pow2 b"
  by (simp add: pow2_powi power_int_increasing)

lemma pow2_strict_mono: "a < b \<Longrightarrow> pow2 a < pow2 b"
  by (simp add: pow2_powi power_int_strict_increasing)

lemma pow2_less_cancel: "pow2 a < pow2 b \<longleftrightarrow> a < b"
  using pow2_mono [of b a] pow2_strict_mono [of a b] by (meson not_less)

lemma pow2_multiple: "q \<le> k \<Longrightarrow> pow2 k = of_int (2 ^ nat (k - q)) * pow2 q"
proof -
  assume "q \<le> k"
  then have "pow2 k = pow2 (k - q) * pow2 q" by (simp flip: pow2_add)
  with \<open>q \<le> k\<close> show ?thesis by (simp add: pow2_def [of "k - q"])
qed

lemma bitlen_pow2_bounds:
  assumes "0 < n"
  shows "pow2 (bitlen n - 1) \<le> of_int n" and "of_int n < pow2 (bitlen n)"
proof -
  have b: "2 ^ nat (bitlen n - 1) \<le> n" "n < 2 ^ nat (bitlen n)"
    using bitlen_bounds [OF assms] by auto
  have p: "0 \<le> bitlen n - 1" using assms by (simp add: bitlen_def floorlog_def)
  have "(of_int (2 ^ nat (bitlen n - 1)) :: rat) \<le> of_int n" using b(1) of_int_le_iff by blast
  then show "pow2 (bitlen n - 1) \<le> of_int n" using p by (simp add: pow2_def)
  have "(of_int n :: rat) < of_int (2 ^ nat (bitlen n))" using b(2) of_int_less_iff by blast
  then show "of_int n < pow2 (bitlen n)" using p by (simp add: pow2_def)
qed

lemma rat_log2_bounds:
  assumes "0 < x"
  shows "pow2 (rat_log2 x) \<le> x" and "x < pow2 (rat_log2 x + 1)"
proof -
  obtain n d where q: "quotient_of x = (n, d)" by (cases "quotient_of x")
  have d: "0 < d" using quotient_of_denom_pos [OF q] .
  have x: "x = of_int n / of_int d" using quotient_of_div [OF q] .
  have n: "0 < n" using assms d unfolding x by (simp add: zero_less_divide_iff)
  define k where "k = bitlen n - bitlen d"
  note bn = bitlen_pow2_bounds [OF n] and bd = bitlen_pow2_bounds [OF d]
  have up: "of_int n < pow2 (k + 1) * of_int d"
  proof -
    have "pow2 (k + 1) * pow2 (bitlen d - 1) = pow2 (bitlen n)"
      by (simp add: k_def flip: pow2_add)
    moreover have "pow2 (k + 1) * pow2 (bitlen d - 1) \<le> pow2 (k + 1) * of_int d"
      using bd(1) by (intro mult_left_mono) (simp_all add: less_imp_le)
    ultimately show ?thesis using bn(2) by simp
  qed
  have low: "pow2 (k - 1) * of_int d \<le> of_int n"
  proof -
    have "pow2 (k - 1) * pow2 (bitlen d) = pow2 (bitlen n - 1)"
      by (simp add: k_def flip: pow2_add)
    moreover have "pow2 (k - 1) * of_int d \<le> pow2 (k - 1) * pow2 (bitlen d)"
      using bd(2) by (intro mult_left_mono) (simp_all add: less_imp_le)
    ultimately show ?thesis using bn(1) by simp
  qed
  have l: "rat_log2 (of_int n / of_int d) = (if pow2 k * of_int d \<le> of_int n then k else k - 1)"
    using q by (simp add: rat_log2_def k_def Let_def flip: x)
  show "pow2 (rat_log2 x) \<le> x" using low d unfolding x l by (simp add: pos_le_divide_eq)
  show "x < pow2 (rat_log2 x + 1)" using up d unfolding x l by (simp add: pos_divide_less_eq)
qed

lemma rat_log2_mono:
  assumes "0 < x" "x \<le> y"
  shows "rat_log2 x \<le> rat_log2 y"
proof -
  have "pow2 (rat_log2 x) < pow2 (rat_log2 y + 1)"
    using rat_log2_bounds(1) [of x] rat_log2_bounds(2) [of y] assms by linarith
  then show ?thesis by (simp add: pow2_less_cancel)
qed

lemma round_even_of_int [simp]: "round_even (of_int k) = k"
  by (simp add: round_even_def)

lemma round_even_mono: "x \<le> y \<Longrightarrow> round_even x \<le> round_even y"
proof -
  assume xy: "x \<le> y"
  then have f: "\<lfloor>x\<rfloor> \<le> \<lfloor>y\<rfloor>" by (rule floor_mono)
  show ?thesis
  proof (cases "\<lfloor>x\<rfloor> = \<lfloor>y\<rfloor>")
    case True
    then show ?thesis using xy by (auto simp: round_even_def Let_def)
  next
    case False
    with f have "\<lfloor>x\<rfloor> + 1 \<le> \<lfloor>y\<rfloor>" by simp
    moreover have "round_even x \<le> \<lfloor>x\<rfloor> + 1" by (simp add: round_even_def Let_def)
    moreover have "\<lfloor>y\<rfloor> \<le> round_even y" by (simp add: round_even_def Let_def)
    ultimately show ?thesis by linarith
  qed
qed

lemma round_even_minus: "round_even (- x) = - round_even x"
proof (cases "x = of_int \<lfloor>x\<rfloor>")
  case True
  then show ?thesis by (metis of_int_minus round_even_of_int)
next
  case False
  have fl: "\<lfloor>- x\<rfloor> = - \<lfloor>x\<rfloor> - 1"
    using False by (intro floor_unique) (simp_all, linarith+)
  have "of_int \<lfloor>x\<rfloor> < x" using False by (metis floor_correct order_less_le)
  then show ?thesis
    by (auto simp: round_even_def Let_def fl)
qed

lemma round_at_multiple [simp]: "round_at q (of_int k * pow2 q) = of_int k * pow2 q"
  by (simp add: round_at_def)

lemma round_at_pow2 [simp]: "q \<le> k \<Longrightarrow> round_at q (pow2 k) = pow2 k"
  by (metis pow2_multiple round_at_multiple)

lemma round_at_mono: "x \<le> y \<Longrightarrow> round_at q x \<le> round_at q y"
  by (simp add: round_at_def round_even_mono divide_right_mono less_imp_le)

lemma round_at_minus: "round_at q (- x) = - round_at q x"
  by (simp add: round_at_def round_even_minus)

lemma round_at_0 [simp]: "round_at q 0 = 0"
  using round_at_multiple [of q 0] by simp

lemma quantum_minus: "quantum (- x) = quantum x"
  by (simp add: quantum_def)

lemma round_pos_mono:
  assumes "0 < x" "x \<le> y"
  shows "round_at (quantum x) x \<le> round_at (quantum y) y"
proof (cases "quantum x = quantum y")
  case True
  with assms show ?thesis by (simp add: round_at_mono)
next
  case False
  have y: "0 < y" using assms by linarith
  have lm: "rat_log2 x \<le> rat_log2 y" using assms by (rule rat_log2_mono)
  have qx: "quantum x = max (rat_log2 x - 52) (- 1074)" and
    qy: "quantum y = max (rat_log2 y - 52) (- 1074)"
    using assms y by (simp_all add: quantum_def)
  have lt: "rat_log2 x < rat_log2 y" and le: "quantum x \<le> rat_log2 y" "quantum y \<le> rat_log2 y"
    using False lm unfolding qx qy by linarith+
  have "x \<le> pow2 (rat_log2 y)"
    using rat_log2_bounds(2) [OF assms(1)] pow2_mono [of "rat_log2 x + 1" "rat_log2 y"] lt by simp
  then have "round_at (quantum x) x \<le> pow2 (rat_log2 y)"
    using round_at_mono [of x "pow2 (rat_log2 y)" "quantum x"] le by simp
  also have "pow2 (rat_log2 y) \<le> round_at (quantum y) y"
    using round_at_mono [OF rat_log2_bounds(1) [OF y], of "quantum y"] le by simp
  finally show ?thesis .
qed

definition rnd :: "rat \<Rightarrow> rat" where
  "rnd x = round_at (quantum x) x"

lemma rnd_0 [simp]: "rnd 0 = 0"
  by (simp add: rnd_def)

lemma rnd_minus: "rnd (- x) = - rnd x"
  by (simp add: rnd_def quantum_minus round_at_minus)

lemma rnd_nonneg: "0 \<le> x \<Longrightarrow> 0 \<le> rnd x"
  using round_at_mono [of 0 x "quantum x"] by (simp add: rnd_def)

lemma rnd_mono: "x \<le> y \<Longrightarrow> rnd x \<le> rnd y"
proof -
  assume xy: "x \<le> y"
  consider "0 < x" | "x \<le> 0" "0 \<le> y" | "y < 0" by linarith
  then show ?thesis
  proof cases
    case 1
    with xy show ?thesis by (simp add: rnd_def round_pos_mono)
  next
    case 2
    have "rnd x \<le> 0" using rnd_nonneg [of "- x"] 2 by (simp add: rnd_minus)
    with rnd_nonneg [of y] 2 show ?thesis by linarith
  next
    case 3
    have "rnd (- y) \<le> rnd (- x)" using 3 xy by (simp add: rnd_def round_pos_mono)
    then show ?thesis by (simp add: rnd_minus)
  qed
qed

lemma fround_eq:
  "fround x = (if pow2 1024 \<le> rnd x then PInf else if rnd x \<le> - pow2 1024 then NInf else Fin (rnd x))"
  by (auto simp: fround_def rnd_def Let_def dest: leD)

section \<open>Exact values\<close>

lemma rnd_exact:
  assumes m: "\<bar>m\<bar> \<le> 2 ^ 53" and k: "- 1074 \<le> k"
  shows "rnd (of_int m * pow2 k) = of_int m * pow2 k"
proof (cases "m = 0")
  case False
  define x where "x = of_int m * pow2 k"
  define l where "l = rat_log2 \<bar>x\<bar>"
  have abs: "\<bar>x\<bar> = of_int \<bar>m\<bar> * pow2 k" by (simp add: x_def abs_mult less_imp_le)
  have pos: "0 < \<bar>x\<bar>" using False by (simp add: x_def)
  have "(of_int \<bar>m\<bar> :: rat) \<le> of_int (2 ^ 53)" using m of_int_le_iff by blast
  then have up: "\<bar>x\<bar> \<le> pow2 (53 + k)"
    unfolding abs pow2_add by (intro mult_right_mono) (simp_all add: pow2_def [of 53] less_imp_le)
  have ll: "pow2 l \<le> \<bar>x\<bar>" using rat_log2_bounds(1) [OF pos] by (simp add: l_def)
  then have "pow2 l < pow2 (53 + k + 1)" using up pow2_strict_mono [of "53 + k" "53 + k + 1"] by linarith
  then have l53: "l \<le> 53 + k" by (simp add: pow2_less_cancel)
  have q: "quantum x = max (l - 52) (- 1074)" by (simp add: quantum_def l_def)
  show ?thesis
  proof (cases "l = 53 + k")
    case True
    then have "\<bar>x\<bar> = pow2 l" using up ll by simp
    then have "x = pow2 l \<or> x = - pow2 l" by linarith
    moreover have "quantum x \<le> l" using True k by (simp add: q)
    ultimately have "rnd x = x" by (auto simp: rnd_def round_at_minus)
    then show ?thesis by (simp add: x_def)
  next
    case False
    then have "quantum x \<le> k" using l53 k by (simp add: q)
    then have "pow2 k = of_int (2 ^ nat (k - quantum x)) * pow2 (quantum x)"
      by (rule pow2_multiple)
    then have "x = of_int (m * 2 ^ nat (k - quantum x)) * pow2 (quantum x)"
      unfolding x_def of_int_mult by (metis mult.assoc)
    then have "rnd x = x" unfolding rnd_def by (metis round_at_multiple)
    then show ?thesis by (simp add: x_def)
  qed
qed simp

lemma fround_dyadic:
  assumes "x * 2 ^ j = of_int m" "\<bar>m\<bar> \<le> 2 ^ 53" "j \<le> 1074"
  shows "fround x = Fin x"
proof -
  have p: "pow2 (- int j) = 1 / 2 ^ j" by (cases "j = 0") (simp_all add: pow2_def)
  have x: "x = of_int m * pow2 (- int j)" using assms(1) by (simp add: p field_simps)
  have r: "rnd x = x" unfolding x by (rule rnd_exact) (use assms in simp_all)
  have "\<bar>x\<bar> \<le> \<bar>of_int m\<bar>"
    unfolding x abs_mult p by (intro mult_left_le) (simp_all add: field_simps)
  moreover have "(of_int \<bar>m\<bar> :: rat) \<le> of_int (2 ^ 53)" using assms(2) of_int_le_iff by blast
  moreover have "(of_int (2 ^ 53) :: rat) < pow2 1024"
    using pow2_strict_mono [of 53 1024] by (simp add: pow2_def [of 53])
  ultimately have "\<bar>x\<bar> < pow2 1024" by linarith
  then have "\<not> pow2 1024 \<le> x" "\<not> x \<le> - pow2 1024" by linarith+
  then show ?thesis by (simp only: fround_eq r if_False)
qed

lemma fround_int: "\<bar>i\<bar> \<le> 2 ^ 53 \<Longrightarrow> fround (of_int i) = Fin (of_int i)"
  using fround_dyadic [of "of_int i" 0 i] by simp

lemma fround_numerals [simp]:
  "fround 0 = Fin 0" "fround 1 = Fin 1" "fround 2 = Fin 2"
  "fround (- 1) = Fin (- 1)" "fround (- 2) = Fin (- 2)"
  using fround_int [of 0] fround_int [of 1] fround_int [of 2] fround_int [of "- 1"]
    fround_int [of "- 2"] by simp_all

lemma rat_log2_unique:
  assumes "pow2 k \<le> x" "x < pow2 (k + 1)"
  shows "rat_log2 x = k"
proof -
  have "0 < x" using assms(1) pow2_pos [of k] by linarith
  note b = rat_log2_bounds [OF this]
  have "pow2 k < pow2 (rat_log2 x + 1)" "pow2 (rat_log2 x) < pow2 (k + 1)" using b assms by linarith+
  then show ?thesis by (simp add: pow2_less_cancel)
qed

lemma fround_between:
  assumes "a \<le> x" "x \<le> b" "fround a = Fin a" "fround b = Fin b"
  obtains v where "fround x = Fin v" "a \<le> v" "v \<le> b"
proof -
  have a: "rnd a = a" "- pow2 1024 < a" and b: "rnd b = b" "b < pow2 1024"
    using assms(3,4) by (auto simp: fround_eq split: if_splits)
  have "a \<le> rnd x" "rnd x \<le> b" using rnd_mono [OF assms(1)] rnd_mono [OF assms(2)] a b by simp_all
  then show thesis using a b that by (simp add: fround_eq)
qed

section \<open>Comparison and arithmetic\<close>

fun flt :: "float64 \<Rightarrow> float64 \<Rightarrow> bool" where
  "flt (Fin a) (Fin b) = (a < b)"
| "flt (Fin a) PInf = True"
| "flt NInf (Fin b) = True"
| "flt NInf PInf = True"
| "flt _ _ = False"

definition feq :: "float64 \<Rightarrow> float64 \<Rightarrow> bool" where
  "feq a b \<longleftrightarrow> a = b \<and> a \<noteq> NaN"

definition fle :: "float64 \<Rightarrow> float64 \<Rightarrow> bool" where
  "fle a b \<longleftrightarrow> flt a b \<or> feq a b"

fun fneg :: "float64 \<Rightarrow> float64" where
  "fneg (Fin a) = Fin (- a)"
| "fneg PInf = NInf"
| "fneg NInf = PInf"
| "fneg NaN = NaN"

fun fadd :: "float64 \<Rightarrow> float64 \<Rightarrow> float64" where
  "fadd (Fin a) (Fin b) = fround (a + b)"
| "fadd NaN b = NaN"
| "fadd a NaN = NaN"
| "fadd PInf NInf = NaN"
| "fadd NInf PInf = NaN"
| "fadd PInf b = PInf"
| "fadd NInf b = NInf"
| "fadd a PInf = PInf"
| "fadd a NInf = NInf"

definition fsub :: "float64 \<Rightarrow> float64 \<Rightarrow> float64" where
  "fsub a b = fadd a (fneg b)"

text \<open>Division by a positive finite constant, the only division the modelled code does.\<close>

fun fdiv_const :: "float64 \<Rightarrow> rat \<Rightarrow> float64" where
  "fdiv_const (Fin a) c = fround (a / c)"
| "fdiv_const x c = x"

definition f_of_int :: "int \<Rightarrow> float64" where
  "f_of_int i = fround (of_int i)"

text \<open>
  Conversion to int64 truncates; outside the range of int64 the result is left to the
  implementation, here the parameter \<open>oob\<close>.
\<close>

definition trunc_int64 :: "(float64 \<Rightarrow> int) \<Rightarrow> float64 \<Rightarrow> int" where
  "trunc_int64 oob f =
     (case f of
        Fin x \<Rightarrow> (let t = (if 0 \<le> x then \<lfloor>x\<rfloor> else \<lceil>x\<rceil>)
                  in if - (2 ^ 63) \<le> t \<and> t < 2 ^ 63 then t else oob f)
      | _ \<Rightarrow> oob f)"

lemma flt_irrefl [simp]: "\<not> flt a a"
  by (cases a) auto

lemma flt_NaN [simp]: "\<not> flt NaN a" "\<not> flt a NaN"
  by (cases a; simp)+

lemma fle_NaN [simp]: "\<not> fle NaN a" "\<not> fle a NaN"
  by (simp_all add: fle_def feq_def)

lemma fle_Fin [simp]: "fle (Fin a) (Fin b) \<longleftrightarrow> a \<le> b"
  by (auto simp: fle_def feq_def)

lemma feq_Fin [simp]: "feq (Fin a) (Fin b) \<longleftrightarrow> a = b"
  by (simp add: feq_def)

lemma flt_asym: "flt a b \<Longrightarrow> \<not> flt b a"
  by (cases a; cases b) auto

lemma flt_negtrans: "b \<noteq> NaN \<Longrightarrow> \<not> flt a b \<Longrightarrow> \<not> flt b c \<Longrightarrow> \<not> flt a c"
  by (cases a; cases b; cases c) auto

lemma feq_iff_not_flt: "a \<noteq> NaN \<Longrightarrow> b \<noteq> NaN \<Longrightarrow> \<not> feq a b \<longleftrightarrow> flt a b \<or> flt b a"
  by (cases a; cases b) (auto simp: feq_def)

lemma fle_trans: "fle a b \<Longrightarrow> fle b c \<Longrightarrow> fle a c"
  by (cases a; cases b; cases c) (auto simp: fle_def feq_def)

lemma fle_total: "a \<noteq> NaN \<Longrightarrow> b \<noteq> NaN \<Longrightarrow> fle a b \<or> fle b a"
  by (cases a; cases b) (auto simp: fle_def feq_def)

lemma not_flt_fle: "a \<noteq> NaN \<Longrightarrow> b \<noteq> NaN \<Longrightarrow> \<not> flt a b \<longleftrightarrow> fle b a"
  by (cases a; cases b) (auto simp: fle_def feq_def)

lemma fround_not_NaN [simp]: "fround x \<noteq> NaN"
  by (simp add: fround_eq)

lemma fround_mono: "x \<le> y \<Longrightarrow> fle (fround x) (fround y)"
  using rnd_mono [of x y] by (auto simp: fround_eq fle_def feq_def)

lemma f_of_int_exact [simp]: "\<bar>i\<bar> \<le> 2 ^ 53 \<Longrightarrow> f_of_int i = Fin (of_int i)"
  by (simp add: f_of_int_def fround_int)

lemma f_of_int_mono: "i \<le> j \<Longrightarrow> fle (f_of_int i) (f_of_int j)"
  by (simp add: f_of_int_def fround_mono)

lemma f_of_int_not_NaN [simp]: "f_of_int i \<noteq> NaN"
  by (simp add: f_of_int_def)

end
