(* ===== verification/Storage_Types.thy ===== *)
theory Storage_Types
  imports Prelude Float64
begin

text \<open>
  The data of internal/storage/types.go: quota windows, quota state, accounts and the pool,
  with the lookups of internal/storage/storage.go. A pointer to a scalar or struct is an
  option, a Go \<open>any\<close> the datatype of the dynamic types the sources distinguish, and
  a map of raw JSON messages an association list.
\<close>

datatype any =
    ANil
  | ABool bool
  | AFloat float64
  | AFloat32 float64
  | AInt int
  | AInt64 int
  | AStr string
  | AArr "any list"
  | AObj "(string \<times> any) list"

type_synonym raw_map = "(string \<times> string) list"

record QuotaWindow =
  Fraction :: "float64 option"
  ResetTime :: any
  WExtra :: raw_map

record QuotaState =
  Gemini5H :: "QuotaWindow option"
  GeminiWeekly :: "QuotaWindow option"
  ThirdParty5H :: "QuotaWindow option"
  ThirdPartyWeekly :: "QuotaWindow option"
  RemainingFraction :: "float64 option"
  QResetTime :: any
  QUpdatedAt :: "int option"
  QExtra :: raw_map

record Account =
  ID :: string
  Name :: string
  Email :: string
  AccessToken :: string
  RefreshToken :: string
  IDToken :: string
  TokenExpiry :: "float64 option"
  CreatedAt :: "int option"
  UpdatedAt :: "int option"
  Status :: string
  ValidationURL :: "string option"
  RateLimitedUntil :: "float64 option"
  RequestCount :: int
  GenCount :: "int option"
  ErrorCount :: int
  LastUsedAt :: "int option"
  LastQuota :: "QuotaState option"
  Quota :: "float64 option"
  Gemini5HPct :: "float64 option"
  GeminiWeeklyPct :: "float64 option"
  Gemini5HReset :: any
  GeminiWeeklyReset :: any
  Gemini5HResetSec :: "float64 option"
  GeminiWeeklyResetSec :: "float64 option"
  AExtra :: raw_map

record Pool =
  Version :: int
  Strategy :: string
  ActiveAccountID :: "string option"
  RoundRobinLastAccountID :: "string option"
  Accounts :: "Account list"
  PExtra :: raw_map

text \<open>The zero values that a composite literal leaves in the fields it does not name.\<close>

definition zero_window :: QuotaWindow where
  "zero_window = \<lparr>Fraction = None, ResetTime = ANil, WExtra = []\<rparr>"

definition zero_quota :: QuotaState where
  "zero_quota = \<lparr>Gemini5H = None, GeminiWeekly = None, ThirdParty5H = None, ThirdPartyWeekly = None,
     RemainingFraction = None, QResetTime = ANil, QUpdatedAt = None, QExtra = []\<rparr>"

definition zero_account :: Account where
  "zero_account = \<lparr>ID = [], Name = [], Email = [], AccessToken = [], RefreshToken = [], IDToken = [],
     TokenExpiry = None, CreatedAt = None, UpdatedAt = None, Status = [], ValidationURL = None,
     RateLimitedUntil = None, RequestCount = 0, GenCount = None, ErrorCount = 0, LastUsedAt = None,
     LastQuota = None, Quota = None, Gemini5HPct = None, GeminiWeeklyPct = None,
     Gemini5HReset = ANil, GeminiWeeklyReset = ANil, Gemini5HResetSec = None,
     GeminiWeeklyResetSec = None, AExtra = []\<rparr>"

definition NewEmptyPool :: Pool where
  "NewEmptyPool = \<lparr>Version = 1, Strategy = ''max_quota'', ActiveAccountID = None,
     RoundRobinLastAccountID = None, Accounts = [], PExtra = []\<rparr>"

definition GetHits :: "Account \<Rightarrow> int" where
  "GetHits a = (case GenCount a of Some g \<Rightarrow> g | None \<Rightarrow> RequestCount a)"

section \<open>Lookup by identity\<close>

definition same_account :: "Account \<Rightarrow> Account \<Rightarrow> bool" where
  "same_account account a \<longleftrightarrow>
     (ID account \<noteq> [] \<and> ID a = ID account) \<or> (Email account \<noteq> [] \<and> Email a = Email account)"

definition FindAccount :: "Pool \<Rightarrow> Account \<Rightarrow> Account option" where
  "FindAccount pool account = List.find (same_account account) (Accounts pool)"

text \<open>A transaction body that mutates what FindAccount returned, if anything.\<close>

definition update_account :: "Account \<Rightarrow> (Account \<Rightarrow> Account) \<Rightarrow> Pool \<Rightarrow> Pool" where
  "update_account account f pool =
     pool\<lparr>Accounts := update_first (same_account account) f (Accounts pool)\<rparr>"

lemma update_account_absent: "FindAccount pool account = None \<Longrightarrow> update_account account f pool = pool"
  by (simp add: update_account_def FindAccount_def find_None_iff update_first_none)

lemma update_account_frame [frame_simps]:
  "Strategy (update_account account f pool) = Strategy pool"
  "ActiveAccountID (update_account account f pool) = ActiveAccountID pool"
  "RoundRobinLastAccountID (update_account account f pool) = RoundRobinLastAccountID pool"
  by (simp_all add: update_account_def)

lemma FindAccount_in: "FindAccount pool account = Some a \<Longrightarrow> a \<in> set (Accounts pool)"
  by (simp add: FindAccount_def find_SomeD)

section \<open>Account identifiers\<close>

definition account_id :: "nat \<Rightarrow> string" where
  "account_id n = ''acc_'' @ nat_string n"

lemma account_id_inject [simp]: "account_id m = account_id n \<longleftrightarrow> m = n"
  by (simp add: account_id_def)

definition used_ids :: "Account option list \<Rightarrow> string list" where
  "used_ids accounts =
     List.map_filter (\<lambda>a. case a of None \<Rightarrow> None | Some b \<Rightarrow> if ID b = [] then None else Some (ID b)) accounts"

lemma some_id_free: "\<exists>k \<le> length used. account_id (n + k) \<notin> set used"
proof (rule ccontr)
  assume "\<not> ?thesis"
  then have "(\<lambda>k. account_id (n + k)) ` {..length used} \<subseteq> set used" by auto
  then have "card ((\<lambda>k. account_id (n + k)) ` {..length used}) \<le> card (set used)"
    by (rule card_mono [OF finite_set])
  moreover have "card ((\<lambda>k. account_id (n + k)) ` {..length used}) = Suc (length used)"
    by (subst card_image) (auto simp: inj_on_def)
  ultimately show False using card_length [of used] by linarith
qed

text \<open>
  The search loop has no bound in the source. It stops because only finitely many names are
  taken: the measure is the distance to the first free one.
\<close>

function next_free :: "string list \<Rightarrow> nat \<Rightarrow> string" where
  "next_free used n =
     (if account_id n \<notin> set used then account_id n else next_free used (n + 1))"
  by pat_completeness auto
termination
proof (relation "measure (\<lambda>(used, n). LEAST k. account_id (n + k) \<notin> set used)")
  fix used :: "string list" and n :: nat
  assume "\<not> account_id n \<notin> set used"
  define P where "P k \<longleftrightarrow> account_id (n + k) \<notin> set used" for k
  have "\<exists>k. P k" using some_id_free [of used n] by (auto simp: P_def)
  then have "P (LEAST k. P k)" by (rule LeastI_ex)
  moreover have "\<not> P 0" using \<open>\<not> account_id n \<notin> set used\<close> by (simp add: P_def)
  ultimately obtain m where m: "(LEAST k. P k) = Suc m" by (cases "LEAST k. P k") auto
  then have "account_id (n + 1 + m) \<notin> set used" using \<open>P (LEAST k. P k)\<close> by (simp add: P_def)
  then have "(LEAST k. account_id (n + 1 + k) \<notin> set used) \<le> m" by (rule Least_le)
  then show "((used, n + 1), (used, n)) \<in> measure (\<lambda>(used, n). LEAST k. account_id (n + k) \<notin> set used)"
    using m by (simp add: P_def)
qed simp

declare next_free.simps [simp del]

definition NextAccountID :: "Account option list \<Rightarrow> string" where
  "NextAccountID accounts = next_free (used_ids accounts) 1"

lemma next_free_least:
  "\<exists>k \<ge> n. next_free used n = account_id k \<and> account_id k \<notin> set used
      \<and> (\<forall>j. n \<le> j \<and> j < k \<longrightarrow> account_id j \<in> set used)"
proof (induction used n rule: next_free.induct)
  case (1 used n)
  show ?case
  proof (cases "account_id n \<notin> set used")
    case True
    then show ?thesis by (subst next_free.simps) auto
  next
    case False
    then obtain k where k: "n + 1 \<le> k" "next_free used (n + 1) = account_id k"
      "account_id k \<notin> set used" "\<forall>j. n + 1 \<le> j \<and> j < k \<longrightarrow> account_id j \<in> set used"
      using 1 by auto
    have "account_id j \<in> set used" if "n \<le> j" "j < k" for j
      using that k(4) False by (cases "j = n") auto
    then show ?thesis using k False by (subst next_free.simps) (auto intro!: exI [of _ k])
  qed
qed

lemma used_ids_Some [simp]: "set (used_ids (map Some as)) = ID ` set as - {[]}"
  by (induction as) (auto simp: used_ids_def List.map_filter_def)

lemma NextAccountID_fresh: "a \<in> set as \<Longrightarrow> ID a \<noteq> NextAccountID (map Some as)"
proof -
  assume a: "a \<in> set as"
  obtain k where k: "NextAccountID (map Some as) = account_id k" "account_id k \<notin> set (used_ids (map Some as))"
    unfolding NextAccountID_def using next_free_least [of 1] by blast
  have "ID a \<in> ID ` set as" using a by (rule imageI)
  then show ?thesis using k by (auto simp: account_id_def)
qed

end
