(* ===== verification/Observability.thy ===== *)
theory Observability
  imports Prelude "HOL-Library.Word"
begin

text \<open>
  internal/observability/metrics.go: the process counters, which are 64-bit and wrap, the
  in-flight count per account with its idempotent done functions, and the display of a number
  with thousands separators.
\<close>

section \<open>Counters\<close>

record Metrics =
  GenerationRequests :: "64 word"
  GenerationSuccess :: "64 word"
  RoutingDecisions :: "64 word"
  FailoverAttempts :: "64 word"
  FailoverSuccess :: "64 word"
  RestrictedSkips :: "64 word"
  QuotaRefreshAttempts :: "64 word"
  QuotaRefreshSuccess :: "64 word"
  QuotaRefreshFailure :: "64 word"
  AuthRefreshAttempts :: "64 word"
  AuthRefreshSuccess :: "64 word"
  AuthRefreshFailure :: "64 word"
  PersistenceErrors :: "64 word"
  NoReplayPrevented :: "64 word"

definition Reset_metrics :: Metrics where
  "Reset_metrics = \<lparr>GenerationRequests = 0, GenerationSuccess = 0, RoutingDecisions = 0,
     FailoverAttempts = 0, FailoverSuccess = 0, RestrictedSkips = 0, QuotaRefreshAttempts = 0,
     QuotaRefreshSuccess = 0, QuotaRefreshFailure = 0, AuthRefreshAttempts = 0,
     AuthRefreshSuccess = 0, AuthRefreshFailure = 0, PersistenceErrors = 0, NoReplayPrevented = 0\<rparr>"

definition RecordGenerationRequest :: "Metrics \<Rightarrow> Metrics" where
  "RecordGenerationRequest m = m\<lparr>GenerationRequests := GenerationRequests m + 1\<rparr>"

definition RecordGenerationSuccess :: "Metrics \<Rightarrow> Metrics" where
  "RecordGenerationSuccess m = m\<lparr>GenerationSuccess := GenerationSuccess m + 1\<rparr>"

definition RecordRoutingDecision :: "Metrics \<Rightarrow> Metrics" where
  "RecordRoutingDecision m = m\<lparr>RoutingDecisions := RoutingDecisions m + 1\<rparr>"

definition RecordFailoverAttempt :: "Metrics \<Rightarrow> Metrics" where
  "RecordFailoverAttempt m = m\<lparr>FailoverAttempts := FailoverAttempts m + 1\<rparr>"

definition RecordFailoverSuccess :: "Metrics \<Rightarrow> Metrics" where
  "RecordFailoverSuccess m = m\<lparr>FailoverSuccess := FailoverSuccess m + 1\<rparr>"

definition RecordRestrictedSkip :: "Metrics \<Rightarrow> Metrics" where
  "RecordRestrictedSkip m = m\<lparr>RestrictedSkips := RestrictedSkips m + 1\<rparr>"

definition RecordAuthRefreshAttempt :: "Metrics \<Rightarrow> Metrics" where
  "RecordAuthRefreshAttempt m = m\<lparr>AuthRefreshAttempts := AuthRefreshAttempts m + 1\<rparr>"

definition RecordAuthRefreshSuccess :: "Metrics \<Rightarrow> Metrics" where
  "RecordAuthRefreshSuccess m = m\<lparr>AuthRefreshSuccess := AuthRefreshSuccess m + 1\<rparr>"

definition RecordAuthRefreshFailure :: "Metrics \<Rightarrow> Metrics" where
  "RecordAuthRefreshFailure m = m\<lparr>AuthRefreshFailure := AuthRefreshFailure m + 1\<rparr>"

definition RecordPersistenceError :: "Metrics \<Rightarrow> Metrics" where
  "RecordPersistenceError m = m\<lparr>PersistenceErrors := PersistenceErrors m + 1\<rparr>"

definition RecordNoReplayPrevented :: "Metrics \<Rightarrow> Metrics" where
  "RecordNoReplayPrevented m = m\<lparr>NoReplayPrevented := NoReplayPrevented m + 1\<rparr>"

definition RecordQuotaRefreshAttempt :: "Metrics \<Rightarrow> Metrics" where
  "RecordQuotaRefreshAttempt m = m\<lparr>QuotaRefreshAttempts := QuotaRefreshAttempts m + 1\<rparr>"

definition RecordQuotaRefreshSuccess :: "Metrics \<Rightarrow> Metrics" where
  "RecordQuotaRefreshSuccess m = m\<lparr>QuotaRefreshSuccess := QuotaRefreshSuccess m + 1\<rparr>"

definition RecordQuotaRefreshFailure :: "Metrics \<Rightarrow> Metrics" where
  "RecordQuotaRefreshFailure m = m\<lparr>QuotaRefreshFailure := QuotaRefreshFailure m + 1\<rparr>"

section \<open>Numbers for display\<close>

text \<open>The loop that copies the groups of three digits from index rem on.\<close>

function copy_groups :: "string \<Rightarrow> nat \<Rightarrow> string \<Rightarrow> string" where
  "copy_groups s i out =
     (if i < length s
      then copy_groups s (i + 3) ((if out = [] then out else out @ '','') @ take 3 (drop i s))
      else out)"
  by pat_completeness auto
termination by (relation "measure (\<lambda>(s, i, out). length s - i)") auto

declare copy_groups.simps [simp del]

definition FormatNumber :: "64 word \<Rightarrow> string" where
  "FormatNumber n =
     (let s = nat_string (unat n)
      in if length s \<le> 3 then s
         else let rem = length s mod 3
              in copy_groups s rem (if 0 < rem then take rem s else []))"

section \<open>In-flight generations\<close>

text \<open>
  The state is the map of counts and, for every done function handed out, the account it was
  made for and whether its sync.Once has fired. An empty account id gets a done function that
  does nothing.
\<close>

record InFlight =
  Counts :: "string \<Rightarrow> int option"
  Dones :: "(string \<times> bool) list"

definition StartInFlightGeneration :: "string \<Rightarrow> InFlight \<Rightarrow> InFlight" where
  "StartInFlightGeneration i s =
     (if i = [] then s\<lparr>Dones := Dones s @ [([], True)]\<rparr>
      else s\<lparr>Counts := (Counts s)(i \<mapsto> wrap64 ((case Counts s i of None \<Rightarrow> 0 | Some v \<Rightarrow> v) + 1)),
             Dones := Dones s @ [(i, False)]\<rparr>)"

definition call_done :: "nat \<Rightarrow> InFlight \<Rightarrow> InFlight" where
  "call_done k s =
     (if length (Dones s) \<le> k then s
      else case Dones s ! k of (i, fired) \<Rightarrow>
        if fired then s
        else s\<lparr>Dones := (Dones s)[k := (i, True)],
               Counts := (case Counts s i of
                            None \<Rightarrow> Counts s
                          | Some v \<Rightarrow> if v \<le> 1 then (Counts s)(i := None)
                                     else (Counts s)(i \<mapsto> v - 1))\<rparr>)"

definition GetInFlightGeneration :: "string \<Rightarrow> InFlight \<Rightarrow> int" where
  "GetInFlightGeneration i s = (case Counts s i of None \<Rightarrow> 0 | Some v \<Rightarrow> v)"

inductive flight_step :: "InFlight \<Rightarrow> InFlight \<Rightarrow> bool" where
  start: "int (length (Dones s)) < 2 ^ 62 \<Longrightarrow> flight_step s (StartInFlightGeneration i s)"
| finish: "flight_step s (call_done k s)"

definition flight_init :: InFlight where
  "flight_init = \<lparr>Counts = Map.empty, Dones = []\<rparr>"

definition open_flights :: "string \<Rightarrow> InFlight \<Rightarrow> nat" where
  "open_flights i s = length (filter (\<lambda>d. d = (i, False)) (Dones s))"

definition flight_inv :: "InFlight \<Rightarrow> bool" where
  "flight_inv s \<longleftrightarrow> ([], False) \<notin> set (Dones s) \<and> int (length (Dones s)) \<le> 2 ^ 62 \<and>
     (\<forall>i. Counts s i = (if open_flights i s = 0 then None else Some (int (open_flights i s))))"

lemma open_flights_update:
  "k < length ds \<Longrightarrow> ds ! k = (j, False) \<Longrightarrow>
     length (filter (\<lambda>d. d = (i, False)) (ds[k := (j, True)])) + (if i = j then 1 else 0)
     = length (filter (\<lambda>d. d = (i, False)) ds)"
proof (induction ds arbitrary: k)
  case (Cons d ds)
  then show ?case by (cases k) auto
qed simp

lemma open_flights_le: "open_flights i s \<le> length (Dones s)"
  by (simp add: open_flights_def)

lemma flight_step_inv: "flight_step s t \<Longrightarrow> flight_inv s \<Longrightarrow> flight_inv t"
proof (induction rule: flight_step.induct)
  case (start s i)
  have "int (open_flights i s) + 1 < 2 ^ 63"
    using start(1) open_flights_le [of i s] by simp
  then show ?case
    using start by (auto simp: flight_inv_def StartInFlightGeneration_def open_flights_def)
next
  case (finish s k)
  show ?case
  proof (cases "length (Dones s) \<le> k \<or> snd (Dones s ! k)")
    case True
    then show ?thesis using finish by (auto simp: call_done_def split: prod.splits)
  next
    case False
    then obtain j where j: "k < length (Dones s)" "Dones s ! k = (j, False)"
      by (cases "Dones s ! k") auto
    note upd = open_flights_update [OF j]
    have pos: "0 < open_flights j s" using upd [of j]
      by (auto simp: open_flights_def simp del: length_greater_0_conv length_0_conv)
    have "j \<noteq> []" using finish j nth_mem [OF j(1)] by (auto simp: flight_inv_def)
    moreover have "set ((Dones s)[k := (j, True)]) \<subseteq> insert (j, True) (set (Dones s))"
      by (rule set_update_subset_insert)
    ultimately have names: "([], False) \<notin> set ((Dones s)[k := (j, True)])"
      using finish by (auto simp: flight_inv_def)
    have c: "Counts s j = Some (int (open_flights j s))"
      using finish pos by (simp add: flight_inv_def)
    have t: "Dones (call_done k s) = (Dones s)[k := (j, True)]"
      "Counts (call_done k s) = (if open_flights j s = 1 then (Counts s)(j := None)
         else (Counts s)(j \<mapsto> int (open_flights j s) - 1))"
      using j c pos by (auto simp: call_done_def)
    have o: "open_flights i (call_done k s) = open_flights i s - (if i = j then 1 else 0)" for i
      using upd [of i] by (simp add: open_flights_def t split: if_splits)
    have "Counts (call_done k s) i = (if open_flights i (call_done k s) = 0 then None
        else Some (int (open_flights i (call_done k s))))" for i
      using finish pos by (auto simp: t o flight_inv_def of_nat_diff)
    then show ?thesis using finish names by (simp add: flight_inv_def t)
  qed
qed

lemma flight_init_inv: "flight_inv flight_init"
  by (simp add: flight_inv_def flight_init_def open_flights_def)

section \<open>Properties\<close>

text \<open>After any sequence of starts and calls of done functions, repeated calls included, the
  in-flight count of an account is the number of its done functions that have not fired, and the
  map holds no entry for an account without requests in flight.\<close>

theorem in_flight_balanced:
  assumes "flight_step\<^sup>*\<^sup>* flight_init s" "i \<noteq> []"
  shows "GetInFlightGeneration i s = int (length (filter (\<lambda>d. d = (i, False)) (Dones s)))
       \<and> (Counts s i = None \<longleftrightarrow> (i, False) \<notin> set (Dones s))"
proof -
  have "flight_inv s"
    using assms(1) by (induction rule: rtranclp_induct) (auto simp: flight_init_inv intro: flight_step_inv)
  moreover have "open_flights i s = 0 \<longleftrightarrow> (i, False) \<notin> set (Dones s)"
    by (auto simp: open_flights_def filter_empty_conv)
  ultimately show ?thesis
    by (auto simp: flight_inv_def GetInFlightGeneration_def open_flights_def)
qed

theorem in_flight_balanced_witness:
  "GetInFlightGeneration ''acc_1'' (call_done 0 (call_done 0
     (StartInFlightGeneration ''acc_1'' (StartInFlightGeneration ''acc_1'' flight_init)))) = 1"
proof -
  have "flight_step\<^sup>*\<^sup>* flight_init (call_done 0 (call_done 0
     (StartInFlightGeneration ''acc_1'' (StartInFlightGeneration ''acc_1'' flight_init))))"
    by (rule rtranclp.rtrancl_into_rtrancl, rule rtranclp.rtrancl_into_rtrancl,
        rule rtranclp.rtrancl_into_rtrancl, rule rtranclp.rtrancl_into_rtrancl, rule rtranclp.rtrancl_refl)
      (rule flight_step.intros; simp add: flight_init_def StartInFlightGeneration_def)+
  from in_flight_balanced [OF this, of "''acc_1''"] show ?thesis
    by (simp add: call_done_def StartInFlightGeneration_def flight_init_def)
qed

end
