(* ===== verification/Http.thy ===== *)
theory Http
  imports Prelude "HOL-Library.AList"
begin

text \<open>
  The HTTP layer of internal/proxy: errors, header maps, request bodies (ReadRequestBody), header
  filtering (proxy.go), the response committer (commitment.go), SendBuffered and SendStream
  (proxy.go, stream.go) and the timeout test (transport.go). A header map is an association list
  from canonical names to values; a body is the bytes a reader yields and the error it ends with,
  None for io.EOF; the response writer is the list of calls it received.
\<close>

section \<open>Errors\<close>

datatype gerror =
    ErrNew string
  | ErrWrap string gerror
  | DeadlineExceeded
  | Canceled
  | NetError bool
  | URLError gerror
  | MaxBytesError int
  | EOF
  | UnexpectedEOF

definition ErrCommittedStream :: gerror where
  "ErrCommittedStream = ErrNew ''stream committed to downstream; failover prohibited''"

definition ErrClientDisconnected :: gerror where
  "ErrClientDisconnected = ErrNew ''client disconnected; failover prohibited''"

definition ErrAmbiguousTransport :: gerror where
  "ErrAmbiguousTransport = ErrNew ''ambiguous transport failure; failover prohibited''"

fun errors_is :: "gerror \<Rightarrow> gerror \<Rightarrow> bool" where
  "errors_is (ErrWrap m e) t = (ErrWrap m e = t \<or> errors_is e t)"
| "errors_is (URLError e) t = (URLError e = t \<or> errors_is e t)"
| "errors_is e t = (e = t)"

text \<open>The Timeout method of the errors that implement net.Error.\<close>

fun is_net_error :: "gerror \<Rightarrow> bool" where
  "is_net_error (NetError b) = True"
| "is_net_error DeadlineExceeded = True"
| "is_net_error (URLError e) = True"
| "is_net_error _ = False"

fun timeout_method :: "gerror \<Rightarrow> bool" where
  "timeout_method (NetError b) = b"
| "timeout_method DeadlineExceeded = True"
| "timeout_method (URLError e) = timeout_method e"
| "timeout_method _ = False"

fun as_net_error :: "gerror \<Rightarrow> gerror option" where
  "as_net_error (ErrWrap m e) = as_net_error e"
| "as_net_error e = (if is_net_error e then Some e else None)"

fun as_url_error :: "gerror \<Rightarrow> gerror option" where
  "as_url_error (ErrWrap m e) = as_url_error e"
| "as_url_error (URLError e) = Some e"
| "as_url_error _ = None"

definition IsTimeoutError :: "gerror option \<Rightarrow> bool" where
  "IsTimeoutError err =
     (case err of None \<Rightarrow> False | Some e \<Rightarrow>
        if errors_is e DeadlineExceeded then True
        else if (case as_net_error e of None \<Rightarrow> False | Some n \<Rightarrow> timeout_method n) then True
        else case as_url_error e of None \<Rightarrow> False | Some u \<Rightarrow>
               if errors_is u DeadlineExceeded then True
               else if is_net_error u \<and> timeout_method u then True
               else False)"

section \<open>Header maps\<close>

type_synonym header = "(string \<times> string list) list"

definition is_lower :: "char \<Rightarrow> bool" where
  "is_lower c \<longleftrightarrow> 97 \<le> code c \<and> code c \<le> 122"

definition is_upper :: "char \<Rightarrow> bool" where
  "is_upper c \<longleftrightarrow> 65 \<le> code c \<and> code c \<le> 90"

definition token_char :: "char \<Rightarrow> bool" where
  "token_char c \<longleftrightarrow> is_lower c \<or> is_upper c \<or> is_digit c
     \<or> code c \<in> set [33, 35, 36, 37, 38, 39, 42, 43, 45, 46, 94, 95, 96, 124, 126]"

fun canonical_bytes :: "bool \<Rightarrow> string \<Rightarrow> string" where
  "canonical_bytes up [] = []"
| "canonical_bytes up (c # cs) =
     (let d = (if up \<and> is_lower c then byte (code c - 32)
               else if \<not> up \<and> is_upper c then byte (code c + 32) else c)
      in d # canonical_bytes (c = CHR ''-'') cs)"

definition canonical :: "string \<Rightarrow> string" where
  "canonical s = (if s = [] \<or> \<not> list_all token_char s then s else canonical_bytes True s)"

definition h_lookup :: "header \<Rightarrow> string \<Rightarrow> string list" where
  "h_lookup h k = (case map_of h k of None \<Rightarrow> [] | Some vs \<Rightarrow> vs)"

definition h_values :: "header \<Rightarrow> string \<Rightarrow> string list" where
  "h_values h k = h_lookup h (canonical k)"

definition h_get :: "header \<Rightarrow> string \<Rightarrow> string" where
  "h_get h k = (case h_values h k of [] \<Rightarrow> [] | v # vs \<Rightarrow> v)"

definition h_add :: "string \<Rightarrow> string \<Rightarrow> header \<Rightarrow> header" where
  "h_add k v h = AList.update (canonical k) (h_lookup h (canonical k) @ [v]) h"

definition h_set :: "string \<Rightarrow> string \<Rightarrow> header \<Rightarrow> header" where
  "h_set k v h = AList.update (canonical k) [v] h"

definition h_del :: "string \<Rightarrow> header \<Rightarrow> header" where
  "h_del k h = AList.delete (canonical k) h"

lemma h_lookup_set: "h_lookup (h_set k v h) j = (if j = canonical k then [v] else h_lookup h j)"
  by (simp add: h_lookup_def h_set_def update_conv')

lemma h_lookup_add:
  "h_lookup (h_add k v h) j = (if j = canonical k then h_lookup h j @ [v] else h_lookup h j)"
  by (simp add: h_lookup_def h_add_def update_conv')

section \<open>Requests\<close>

record Request =
  RMethod :: string
  RURL :: "(string \<times> string) option" \<comment> \<open>RequestURI() and Path of the URL\<close>
  RHeader :: header
  RContentLength :: int
  RBody :: "string \<times> gerror option"

definition maxRequestBodyBytes :: int where "maxRequestBodyBytes = 64 * 2 ^ 20"

definition read_full :: "nat \<Rightarrow> string \<times> gerror option \<Rightarrow> string \<times> gerror option" where
  "read_full n r =
     (if n \<le> length (fst r) then (take n (fst r), None)
      else case snd r of
             Some e \<Rightarrow> (fst r, Some e)
           | None \<Rightarrow> (fst r, Some (if fst r = [] then EOF else UnexpectedEOF)))"

definition read_all :: "string \<times> gerror option \<Rightarrow> gerror + string" where
  "read_all r = (case snd r of Some e \<Rightarrow> Inl e | None \<Rightarrow> Inr (fst r))"

definition max_bytes_reader :: "int \<Rightarrow> string \<times> gerror option \<Rightarrow> string \<times> gerror option" where
  "max_bytes_reader n r =
     (if n < int (length (fst r)) then (take (nat n) (fst r), Some (MaxBytesError n)) else r)"

definition ReadRequestBody :: "Request \<Rightarrow> gerror + string" where
  "ReadRequestBody r =
     (if maxRequestBodyBytes < RContentLength r then Inl (MaxBytesError maxRequestBodyBytes)
      else
        let body = max_bytes_reader maxRequestBodyBytes (RBody r);
            contentLengths = h_values (RHeader r) ''Content-Length'';
            te = h_get (RHeader r) ''Transfer-Encoding''
        in if contentLengths \<noteq> [] \<and> te \<noteq> []
           then Inl (ErrNew ''both Content-Length and Transfer-Encoding are present'')
           else if 1 < length contentLengths \<and> \<not> list_all (\<lambda>cl. cl = hd contentLengths) (tl contentLengths)
           then Inl (ErrNew ''conflicting Content-Length headers'')
           else if contentLengths \<noteq> [] then
             (case parse_int64 (trim_space (hd contentLengths)) of
                None \<Rightarrow> Inl (ErrNew ''invalid Content-Length'')
              | Some clVal \<Rightarrow>
                  if clVal < 0 then Inl (ErrNew ''negative Content-Length'')
                  else if maxRequestBodyBytes < clVal then Inl (MaxBytesError maxRequestBodyBytes)
                  else case read_full (nat clVal) body of
                      (buf, err) \<Rightarrow>
                        if err \<noteq> None \<and> err \<noteq> Some EOF
                        then Inl (ErrWrap ''unexpected EOF in request body'' (the err))
                        else if int (length buf) < clVal then Inl (ErrNew ''unexpected EOF in request body'')
                        else Inr buf)
           else if te \<noteq> [] \<and>
             (let codings = map (\<lambda>c. to_lower (trim_space c)) (split_on (CHR '','') te)
              in length codings \<noteq> 1 \<or> hd codings \<noteq> ''chunked'')
           then Inl (ErrNew ''unsupported Transfer-Encoding'')
           else read_all body)"

definition request_path :: "Request \<Rightarrow> string option" where
  "request_path r = (case RURL r of None \<Rightarrow> None | Some (uri, path) \<Rightarrow> Some (if uri = [] then path else uri))"

definition IsGenerationRequest :: "Request option \<Rightarrow> bool" where
  "IsGenerationRequest r =
     (case r of None \<Rightarrow> False | Some q \<Rightarrow>
       (case request_path q of None \<Rightarrow> False | Some path \<Rightarrow> contains (to_lower path) ''generatecontent''))"

definition IsStreamRequest :: "Request option \<Rightarrow> bool" where
  "IsStreamRequest r =
     (case r of None \<Rightarrow> False | Some q \<Rightarrow>
        if IsGenerationRequest (Some q) then True
        else let path = (case request_path q of None \<Rightarrow> [] | Some p \<Rightarrow> p)
             in contains (to_lower path) ''stream''
                \<or> contains (to_lower (h_get (RHeader q) ''Accept'')) ''text/event-stream'')"

section \<open>Header filtering\<close>

definition hopByHopHeaders :: "string list" where
  "hopByHopHeaders =
     [''connection'', ''keep-alive'', ''proxy-authenticate'', ''proxy-authorization'',
      ''proxy-connection'', ''te'', ''trailer'', ''transfer-encoding'', ''upgrade'']"

definition HopByHopNames :: "header \<Rightarrow> string list" where
  "HopByHopNames headers =
     hopByHopHeaders
     @ concat (map (\<lambda>val. filter (\<lambda>t. t \<noteq> []) (map (\<lambda>part. to_lower (trim_space part)) (split_on (CHR '','') val)))
         (h_values headers ''Connection''))"

text \<open>The nested loops that add every value of every header whose name is not excluded.\<close>

definition add_all :: "string \<Rightarrow> string list \<Rightarrow> header \<Rightarrow> header" where
  "add_all k vv h = foldl (\<lambda>h v. h_add k v h) h vv"

definition copy_headers :: "string list \<Rightarrow> header \<Rightarrow> header \<Rightarrow> header" where
  "copy_headers excluded src h =
     foldl (\<lambda>h (k, vv). if to_lower k \<in> set excluded then h else add_all k vv h) h src"

definition FilterRequestHeaders :: "string \<Rightarrow> Request \<Rightarrow> string \<Rightarrow> string \<Rightarrow> header" where
  "FilterRequestHeaders backendHost r accessToken clientUA =
     (let excluded = HopByHopNames (RHeader r)
            @ [''host'', ''content-length'', ''authorization'', ''accept-encoding'', ''expect'']
            @ (if IsGenerationRequest (Some r) then [''idempotency-key'', ''x-idempotency-key''] else []);
          headers = copy_headers excluded (RHeader r) []
      in h_set ''Accept-Encoding'' ''identity''
           (h_set ''User-Agent'' clientUA
             (h_set ''Authorization'' (''Bearer '' @ accessToken)
               (h_set ''Host'' backendHost headers))))"

definition FilterResponseHeaders :: "header \<Rightarrow> header" where
  "FilterResponseHeaders headers =
     copy_headers (HopByHopNames headers @ [''content-length'', ''transfer-encoding'']) headers []"

section \<open>The response committer\<close>

datatype CommitState = NotCommitted | HeadersCommitted | BodyCommitted | StreamCommitted

datatype wcall = CallHeader int | CallWrite string | CallFlush

record committer =
  cstate :: CommitState
  cstatus :: int
  cheader :: header
  ccalls :: "wcall list"
  cflusher :: bool

definition NewResponseCommitter :: "bool \<Rightarrow> committer" where
  "NewResponseCommitter flusher =
     \<lparr>cstate = NotCommitted, cstatus = 0, cheader = [], ccalls = [], cflusher = flusher\<rparr>"

definition IsCommitted :: "committer \<Rightarrow> bool" where
  "IsCommitted c \<longleftrightarrow> cstate c \<noteq> NotCommitted"

definition WriteHeader :: "int \<Rightarrow> committer \<Rightarrow> committer" where
  "WriteHeader status c =
     (let c1 = (if cstate c = NotCommitted then c\<lparr>cstate := HeadersCommitted, cstatus := status\<rparr> else c)
      in c1\<lparr>ccalls := ccalls c1 @ [CallHeader status]\<rparr>)"

definition Write :: "string \<Rightarrow> committer \<Rightarrow> committer" where
  "Write b c =
     (let c1 = (if cstate c = NotCommitted then c\<lparr>cstate := HeadersCommitted\<rparr> else c)
      in c1\<lparr>ccalls := ccalls c1 @ [CallWrite b]\<rparr>)"

definition MarkStream :: "committer \<Rightarrow> committer" where
  "MarkStream c = c\<lparr>cstate := StreamCommitted\<rparr>"

definition MarkBody :: "committer \<Rightarrow> committer" where
  "MarkBody c = c\<lparr>cstate := BodyCommitted\<rparr>"

definition Flush :: "committer \<Rightarrow> committer" where
  "Flush c = (if cflusher c then c\<lparr>ccalls := ccalls c @ [CallFlush]\<rparr> else c)"

definition add_headers :: "header \<Rightarrow> committer \<Rightarrow> committer" where
  "add_headers hs c = c\<lparr>cheader := foldl (\<lambda>h (k, vv). add_all k vv h) (cheader c) hs\<rparr>"

definition set_header :: "string \<Rightarrow> string \<Rightarrow> committer \<Rightarrow> committer" where
  "set_header k v c = c\<lparr>cheader := h_set k v (cheader c)\<rparr>"

text \<open>http.Error of the standard library.\<close>

definition http_error :: "string \<Rightarrow> int \<Rightarrow> committer \<Rightarrow> committer" where
  "http_error msg status c =
     (let c1 = c\<lparr>cheader := h_set ''X-Content-Type-Options'' ''nosniff''
                  (h_set ''Content-Type'' ''text/plain; charset=utf-8''
                    (h_del ''Content-Length'' (cheader c)))\<rparr>
      in Write (msg @ [byte 10]) (WriteHeader status c1))"

definition SendBuffered :: "int \<Rightarrow> header \<Rightarrow> string \<Rightarrow> committer \<Rightarrow> committer" where
  "SendBuffered status headers body c =
     (let c1 = add_headers (FilterResponseHeaders headers) c;
          c2 = set_header ''Content-Length'' (nat_string (length body)) c1;
          c3 = set_header ''Connection'' ''close'' c2;
          c4 = WriteHeader status c3;
          c5 = Write body c4
      in Flush (MarkBody c5))"

text \<open>
  A response body as the reads of SendStream see it: \<open>More bs\<close> is a read that returns bytes and
  no error, \<open>Last bs None\<close> one that returns io.EOF and \<open>Last bs (Some e)\<close> one that fails. The
  writes that the client no longer accepts are given by their number.
\<close>

datatype stream = More string stream | Last string "gerror option"

fun copy_stream :: "(nat \<Rightarrow> bool) \<Rightarrow> nat \<Rightarrow> stream \<Rightarrow> committer \<Rightarrow> int \<Rightarrow> committer \<times> (gerror + int)" where
  "copy_stream fails k (More bs rest) c sent =
     (if bs = [] then copy_stream fails k rest c sent
      else let c1 = Write bs c
           in if fails k then (c1, Inl ErrClientDisconnected)
              else copy_stream fails (k + 1) rest (Flush c1) (wrap64 (sent + int (length bs))))"
| "copy_stream fails k (Last bs e) c sent =
     (let c1 = (if bs = [] then c else Write bs c)
      in if bs \<noteq> [] \<and> fails k then (c1, Inl ErrClientDisconnected)
         else let c2 = (if bs = [] then c1 else Flush c1)
              in case e of
                   Some err \<Rightarrow> (c2, Inl (ErrWrap ''stream truncated'' ErrCommittedStream))
                 | None \<Rightarrow> (c2, Inr (wrap64 (sent + int (length bs)))))"

definition expected_length :: "header \<Rightarrow> int option" where
  "expected_length headers =
     (let cl = h_get headers ''Content-Length'' in if cl = [] then None else parse_int64 cl)"

definition SendStream ::
  "(nat \<Rightarrow> bool) \<Rightarrow> int \<Rightarrow> header \<Rightarrow> stream \<Rightarrow> committer \<Rightarrow> committer \<times> gerror option" where
  "SendStream fails status headers response c =
     (let c1 = add_headers (FilterResponseHeaders headers) c;
          c2 = set_header ''Transfer-Encoding'' ''chunked'' c1;
          c3 = set_header ''Connection'' ''close'' c2;
          c4 = Flush (MarkStream (WriteHeader status c3))
      in case copy_stream fails 0 response c4 0 of
           (c5, Inl e) \<Rightarrow> (c5, Some e)
         | (c5, Inr sent) \<Rightarrow>
             (case expected_length headers of
                None \<Rightarrow> (c5, None)
              | Some n \<Rightarrow> if sent \<noteq> n then (c5, Some (ErrWrap ''length mismatch'' ErrCommittedStream)) else (c5, None)))"

section \<open>Header facts\<close>

lemma h_lookup_add_all:
  "h_lookup (add_all k vv h) j = (if j = canonical k then h_lookup h j @ vv else h_lookup h j)"
  by (induction vv arbitrary: h) (simp_all add: add_all_def h_lookup_add)

text \<open>Header maps that net/http builds: one entry per name, every name in canonical form.\<close>

definition canonical_map :: "header \<Rightarrow> bool" where
  "canonical_map h \<longleftrightarrow> distinct (map fst h) \<and> list_all (\<lambda>kv. canonical (fst kv) = fst kv) h"

lemma h_lookup_Cons: "h_lookup ((k, vv) # h) j = (if j = k then vv else h_lookup h j)"
  by (simp add: h_lookup_def)

lemma h_lookup_empty [simp]: "h_lookup [] k = []"
  by (simp add: h_lookup_def)

lemma h_lookup_absent: "j \<notin> fst ` set h \<Longrightarrow> h_lookup h j = []"
  by (induction h) (auto simp: h_lookup_def)

lemma copy_headers_Cons:
  "copy_headers ex ((k, vv) # src) h = copy_headers ex src (if to_lower k \<in> set ex then h else add_all k vv h)"
  by (simp add: copy_headers_def)

lemma copy_headers_lookup:
  "canonical_map src \<Longrightarrow>
   h_lookup (copy_headers ex src h) j = h_lookup h j @ (if to_lower j \<in> set ex then [] else h_lookup src j)"
proof (induction src arbitrary: h)
  case Nil
  then show ?case by (simp add: copy_headers_def h_lookup_def)
next
  case (Cons kv src)
  obtain k vv where kv: "kv = (k, vv)" by (cases kv)
  have k: "canonical k = k" "k \<notin> fst ` set src" "canonical_map src"
    using Cons.prems by (auto simp: canonical_map_def kv)
  show ?case
    using Cons.IH [OF k(3)] k h_lookup_absent [OF k(2)]
    by (auto simp: kv copy_headers_Cons h_lookup_Cons h_lookup_add_all)
qed

section \<open>Stream facts\<close>

fun stream_bytes :: "stream \<Rightarrow> string" where
  "stream_bytes (More bs rest) = bs @ stream_bytes rest"
| "stream_bytes (Last bs e) = bs"

fun stream_end :: "stream \<Rightarrow> gerror option" where
  "stream_end (More bs rest) = stream_end rest"
| "stream_end (Last bs e) = e"

definition written :: "committer \<Rightarrow> string" where
  "written c = concat (map (\<lambda>w. case w of CallWrite b \<Rightarrow> b | _ \<Rightarrow> []) (ccalls c))"

definition status_lines :: "committer \<Rightarrow> int list" where
  "status_lines c = concat (map (\<lambda>w. case w of CallHeader n \<Rightarrow> [n] | _ \<Rightarrow> []) (ccalls c))"

lemma committer_simps [simp]:
  "written (WriteHeader n c) = written c" "written (MarkStream c) = written c"
  "written (MarkBody c) = written c" "written (Flush c) = written c"
  "written (add_headers hs c) = written c" "written (set_header k v c) = written c"
  "written (Write b c) = written c @ b"
  "status_lines (WriteHeader n c) = status_lines c @ [n]" "status_lines (MarkStream c) = status_lines c"
  "status_lines (MarkBody c) = status_lines c" "status_lines (Flush c) = status_lines c"
  "status_lines (add_headers hs c) = status_lines c" "status_lines (set_header k v c) = status_lines c"
  "status_lines (Write b c) = status_lines c"
  by (simp_all add: written_def status_lines_def WriteHeader_def MarkStream_def MarkBody_def Flush_def
      add_headers_def set_header_def Write_def Let_def)

lemma cstate_simps [simp]:
  "cstate (WriteHeader n c) = (if cstate c = NotCommitted then HeadersCommitted else cstate c)"
  "cstate (Write b c) = (if cstate c = NotCommitted then HeadersCommitted else cstate c)"
  "cstate (MarkStream c) = StreamCommitted" "cstate (MarkBody c) = BodyCommitted"
  "cstate (Flush c) = cstate c" "cstate (add_headers hs c) = cstate c" "cstate (set_header k v c) = cstate c"
  by (simp_all add: WriteHeader_def MarkStream_def MarkBody_def Flush_def add_headers_def set_header_def
      Write_def Let_def)

lemma http_error_simps [simp]:
  "status_lines (http_error m n c) = status_lines c @ [n]" "written (http_error m n c) = written c @ m @ [byte 10]"
  "IsCommitted (http_error m n c)"
proof -
  have "written (c\<lparr>cheader := h\<rparr>) = written c" "status_lines (c\<lparr>cheader := h\<rparr>) = status_lines c" for h
    by (simp_all add: written_def status_lines_def)
  then show "status_lines (http_error m n c) = status_lines c @ [n]"
    "written (http_error m n c) = written c @ m @ [byte 10]" "IsCommitted (http_error m n c)"
    by (simp_all add: http_error_def Let_def IsCommitted_def)
qed

lemma SendBuffered_simps [simp]:
  "status_lines (SendBuffered n hs b c) = status_lines c @ [n]"
  "written (SendBuffered n hs b c) = written c @ b" "IsCommitted (SendBuffered n hs b c)"
  by (simp_all add: SendBuffered_def Let_def IsCommitted_def)

lemma wrap64_add: "wrap64 (wrap64 a + b) = wrap64 (a + b)"
proof -
  have "(wrap64 a + b + 2 ^ 63) mod 2 ^ 64 = (a + b + 2 ^ 63) mod 2 ^ 64"
    unfolding wrap64_def by (simp add: mod_simps algebra_simps)
  then show ?thesis by (simp add: wrap64_def)
qed

lemma wrap64_add_left: "wrap64 (b + wrap64 a) = wrap64 (a + b)"
  using wrap64_add [of a b] by (simp add: add.commute)

lemma errors_is_refl [simp]: "errors_is e e"
  by (cases e) simp_all

lemma copy_stream_state:
  "copy_stream fails k resp c sent = (c', r) \<Longrightarrow> cstate c = StreamCommitted \<Longrightarrow>
     cstate c' = StreamCommitted \<and> status_lines c' = status_lines c
     \<and> (\<forall>e. r = Inl e \<longrightarrow> e = ErrClientDisconnected \<or> errors_is e ErrCommittedStream)"
  by (induction fails k resp c sent rule: copy_stream.induct)
    (auto simp: Let_def split: if_splits option.splits)

lemma copy_stream_ok:
  "copy_stream fails k resp c sent = (c', Inr n) \<Longrightarrow> wrap64 sent = sent \<Longrightarrow>
     written c' = written c @ stream_bytes resp \<and> stream_end resp = None
     \<and> n = wrap64 (sent + int (length (stream_bytes resp)))"
proof (induction fails k resp c sent rule: copy_stream.induct)
  case (1 fails k bs rest c sent)
  have idem: "wrap64 (wrap64 x) = wrap64 x" for x using wrap64_add [of x 0] by simp
  show ?case
  proof (cases "bs = []")
    case True
    then show ?thesis using 1 by simp
  next
    case False
    then have ok: "\<not> fails k" using 1 by (auto simp: Let_def)
    then show ?thesis using 1 False idem by (simp add: Let_def wrap64_add wrap64_add_left ac_simps)
  qed
next
  case (2 fails k bs e c sent)
  then show ?case by (auto simp: Let_def split: if_splits option.splits)
qed

lemma SendStream_state:
  "SendStream fails n hs resp c = (c', r) \<Longrightarrow>
     IsCommitted c' \<and> status_lines c' = status_lines c @ [n]
     \<and> (\<forall>e. r = Some e \<longrightarrow> e = ErrClientDisconnected \<or> errors_is e ErrCommittedStream)"
  by (auto simp: SendStream_def Let_def IsCommitted_def dest!: copy_stream_state
      split: prod.splits sum.splits option.splits if_splits)

lemma canonical_bytes_lower:
  "list_all token_char s \<Longrightarrow> to_lower (canonical_bytes up s) = to_lower s"
proof -
  have plain: "to_lower s = map lower_char s" if "list_all (\<lambda>c. code c < 128) s" for s
    using that by (induction s) auto
  have tok: "code c < 128" if "token_char c" for c
    using that by (auto simp: token_char_def is_lower_def is_upper_def is_digit_def)
  have case_change: "lower_char (byte (code c - 32)) = lower_char c" if "is_lower c" for c
  proof -
    have n: "code c - 32 < 256" "code c - 32 + 32 = code c" "65 \<le> code c - 32" "code c - 32 \<le> 90" "\<not> code c \<le> 90"
      using that unfolding is_lower_def by linarith+
    show ?thesis unfolding lower_char_def code_byte mod_less [OF n(1)] using n by simp
  qed
  have case_change2: "lower_char (byte (code c + 32)) = lower_char c" if "is_upper c" for c
    using that by (simp add: is_upper_def lower_char_def)
  have "list_all (\<lambda>c. code c < 128) (canonical_bytes up s) \<and> map lower_char (canonical_bytes up s) = map lower_char s"
    if "list_all token_char s"
    using that
  proof (induction s arbitrary: up)
    case (Cons c cs)
    then show ?case using tok [of c]
      by (auto simp: Let_def case_change case_change2) (auto simp: is_lower_def is_upper_def)
  qed simp
  moreover assume "list_all token_char s"
  moreover from this have "list_all (\<lambda>c. code c < 128) s" by (auto simp: list_all_iff tok)
  ultimately show ?thesis by (simp add: plain)
qed

lemma to_lower_canonical: "to_lower (canonical k) = to_lower k"
  by (simp add: canonical_def canonical_bytes_lower)

definition set_names :: "string list" where
  "set_names = [''Host'', ''Authorization'', ''User-Agent'', ''Accept-Encoding'']"

lemma canonical_set_names:
  "canonical ''Host'' = ''Host''" "canonical ''Authorization'' = ''Authorization''"
  "canonical ''User-Agent'' = ''User-Agent''" "canonical ''Accept-Encoding'' = ''Accept-Encoding''"
  by (simp_all add: canonical_def token_char_def is_lower_def is_upper_def go_simps)

section \<open>Properties\<close>

text \<open>A request body that is accepted is at most 64 MiB long and is what the client sent: with a
  Content-Length header, the header is a number, all its copies agree, no Transfer-Encoding is
  present and the body is that many of the bytes received; without one, it is all of them.\<close>

theorem accepted_body:
  assumes "ReadRequestBody r = Inr body"
  shows "int (length body) \<le> maxRequestBodyBytes
       \<and> (case h_values (RHeader r) ''Content-Length'' of
            [] \<Rightarrow> RBody r = (body, None)
          | cl # cls \<Rightarrow> set cls \<subseteq> {cl} \<and> h_get (RHeader r) ''Transfer-Encoding'' = []
              \<and> parse_int64 (trim_space cl) = Some (int (length body))
              \<and> body = take (length body) (fst (RBody r)))"
proof -
  let ?m = "max_bytes_reader maxRequestBodyBytes (RBody r)"
  have len: "int (length (fst ?m)) \<le> maxRequestBodyBytes"
    by (simp add: max_bytes_reader_def maxRequestBodyBytes_def)
  have all: "read_all ?m = Inr body \<Longrightarrow> RBody r = (body, None)"
    by (cases "RBody r") (auto simp: read_all_def max_bytes_reader_def split: if_splits option.splits)
  have pre: "take n (fst ?m) = take n (fst (RBody r))" if "int n \<le> maxRequestBodyBytes" for n
    using that by (auto simp: max_bytes_reader_def min_def)
  have full: "length b = n \<Longrightarrow> read_full n ?m = (b, e) \<Longrightarrow> b = take n (fst ?m)" for n b e
    by (auto simp: read_full_def split: if_splits option.splits)
  show ?thesis
  proof (cases "h_values (RHeader r) ''Content-Length''")
    case Nil
    then have "read_all ?m = Inr body"
      using assms by (auto simp: ReadRequestBody_def Let_def split: if_splits)
    then show ?thesis using all [OF \<open>read_all ?m = Inr body\<close>] len Nil
      by (auto simp: read_all_def split: option.splits)
  next
    case (Cons cl cls)
    have "\<exists>v e. parse_int64 (trim_space cl) = Some v \<and> 0 \<le> v \<and> v \<le> maxRequestBodyBytes
        \<and> read_full (nat v) ?m = (body, e) \<and> v \<le> int (length body)
        \<and> set cls \<subseteq> {cl} \<and> h_get (RHeader r) ''Transfer-Encoding'' = []"
      using assms Cons
      by (auto simp: ReadRequestBody_def Let_def list_all_iff not_less split: if_splits option.splits prod.splits)
    then obtain v e where v: "parse_int64 (trim_space cl) = Some v" "0 \<le> v" "v \<le> maxRequestBodyBytes"
      and b: "read_full (nat v) ?m = (body, e)" "v \<le> int (length body)"
      and h: "set cls \<subseteq> {cl}" "h_get (RHeader r) ''Transfer-Encoding'' = []"
      by blast
    have "length body \<le> nat v" using b(1) by (auto simp: read_full_def split: if_splits option.splits)
    then have "int (length body) = v" using b(2) v(2) by linarith
    then show ?thesis using full [OF _ b(1)] pre [of "nat v"] v h Cons by auto
  qed
qed

theorem accepted_body_witness:
  "ReadRequestBody \<lparr>RMethod = ''POST'', RURL = Some (''/v1'', ''/v1''), RHeader = [(''Content-Length'', [''2''])],
     RContentLength = 2, RBody = (''abc'', None)\<rparr> = Inr ''ab'' \<and> ''ab'' = take 2 ''abc''"
proof -
  have "canonical ''Content-Length'' = ''Content-Length''" "canonical ''Transfer-Encoding'' = ''Transfer-Encoding''"
    "trim_space ''2'' = ''2''"
    by (simp_all add: canonical_def token_char_def is_lower_def is_upper_def trim_space_def
        leading_space_def space_seqs_def go_simps)
  then have ok: "ReadRequestBody \<lparr>RMethod = ''POST'', RURL = Some (''/v1'', ''/v1''),
     RHeader = [(''Content-Length'', [''2''])], RContentLength = 2, RBody = (''abc'', None)\<rparr> = Inr ''ab''"
    by (simp add: ReadRequestBody_def Let_def maxRequestBodyBytes_def max_bytes_reader_def h_values_def h_get_def
        h_lookup_def parse_int64_def is_digit_def digits_value_def read_full_def go_simps)
  with accepted_body [OF ok] show ?thesis by (simp add: h_values_def h_lookup_def)
qed

text \<open>The request sent upstream carries the proxy's own Host, Authorization, User-Agent and
  Accept-Encoding, never the client's credentials; of the client's other headers it carries exactly
  those that are not hop-by-hop, not named by Connection, not Content-Length or Expect and, on
  generation requests, not idempotency keys, each with all its values.\<close>

theorem forwarded_headers:
  assumes "canonical_map (RHeader r)"
  shows "h_lookup (FilterRequestHeaders host r token ua) ''Authorization'' = [''Bearer '' @ token]
       \<and> h_lookup (FilterRequestHeaders host r token ua) ''Host'' = [host]
       \<and> h_lookup (FilterRequestHeaders host r token ua) ''User-Agent'' = [ua]
       \<and> h_lookup (FilterRequestHeaders host r token ua) ''Accept-Encoding'' = [''identity'']
       \<and> (k \<notin> set set_names \<longrightarrow>
           h_lookup (FilterRequestHeaders host r token ua) k =
             (if to_lower k \<in> set (HopByHopNames (RHeader r))
                 \<or> to_lower k \<in> {''host'', ''content-length'', ''authorization'', ''accept-encoding'', ''expect''}
                 \<or> IsGenerationRequest (Some r) \<and> to_lower k \<in> {''idempotency-key'', ''x-idempotency-key''}
              then [] else h_lookup (RHeader r) k))"
  by (simp add: FilterRequestHeaders_def Let_def h_lookup_set canonical_set_names set_names_def)
    (auto simp: copy_headers_lookup [OF assms])

theorem forwarded_headers_witness:
  "h_lookup (FilterRequestHeaders ''h'' \<lparr>RMethod = ''GET'', RURL = None,
       RHeader = [(''Authorization'', [''secret'']), (''Accept'', [''x''])], RContentLength = 0, RBody = ([], None)\<rparr>
     ''t'' ''u'') ''Authorization'' = [''Bearer t'']"
  using forwarded_headers [of "\<lparr>RMethod = ''GET'', RURL = None,
       RHeader = [(''Authorization'', [''secret'']), (''Accept'', [''x''])], RContentLength = 0, RBody = ([], None)\<rparr>"
      "''h''" "''t''" "''u''" "''Accept''"]
  by (simp add: canonical_map_def canonical_def token_char_def is_lower_def is_upper_def go_simps)

text \<open>A stream sent without an error has delivered exactly the bytes upstream sent, in order and
  to the end, and as many as its Content-Length promised; when it fails, the error is one of the
  two that forbid replay. In both cases one status line was sent and the response is committed.\<close>

theorem SendStream_faithful:
  assumes "SendStream fails n hs resp c = (c', r)"
  shows "cstate c' = StreamCommitted \<and> status_lines c' = status_lines c @ [n]
       \<and> (case r of
            None \<Rightarrow> written c' = written c @ stream_bytes resp \<and> stream_end resp = None
              \<and> pred_option (\<lambda>m. m = wrap64 (int (length (stream_bytes resp)))) (expected_length hs)
          | Some e \<Rightarrow> e = ErrClientDisconnected \<or> errors_is e ErrCommittedStream)"
proof -
  let ?c = "Flush (MarkStream (WriteHeader n (set_header ''Connection'' ''close''
      (set_header ''Transfer-Encoding'' ''chunked'' (add_headers (FilterResponseHeaders hs) c)))))"
  obtain c5 q where q: "copy_stream fails 0 resp ?c 0 = (c5, q)" by (cases "copy_stream fails 0 resp ?c 0")
  have st: "cstate c5 = StreamCommitted" "status_lines c5 = status_lines c @ [n]"
    using copy_stream_state [OF q] by simp_all
  show ?thesis
  proof (cases q)
    case (Inl e)
    then have "c' = c5" "r = Some e" using assms q by (simp_all add: SendStream_def Let_def)
    then show ?thesis using st copy_stream_state [OF q] Inl by auto
  next
    case (Inr m)
    have ok: "written c5 = written c @ stream_bytes resp" "stream_end resp = None"
      "m = wrap64 (int (length (stream_bytes resp)))"
      using copy_stream_ok [OF q [unfolded Inr]] by simp_all
    have "c' = c5" "r = (case expected_length hs of None \<Rightarrow> None
        | Some k \<Rightarrow> if m \<noteq> k then Some (ErrWrap ''length mismatch'' ErrCommittedStream) else None)"
      using assms q Inr by (auto simp: SendStream_def Let_def split: option.splits if_splits)
    then show ?thesis using st ok by (auto split: option.splits)
  qed
qed

theorem SendStream_faithful_witness:
  "cstate (fst (SendStream (\<lambda>k. False) 200 [] (More ''ab'' (Last ''c'' None)) (NewResponseCommitter True))) = StreamCommitted"
  using SendStream_faithful [of "\<lambda>k. False" 200 "[]" "More ''ab'' (Last ''c'' None)" "NewResponseCommitter True"]
  by (cases "SendStream (\<lambda>k. False) 200 [] (More ''ab'' (Last ''c'' None)) (NewResponseCommitter True)") simp

end
