(* ===== verification/Pool_Store.thy ===== *)
theory Pool_Store
  imports Storage_Types Observability Http
begin

text \<open>
  PoolTransaction of internal/storage/storage.go as a state transformer on the stored pool and
  the process counters: everything that can fail around the mutator (directories, opening the
  database, BEGIN IMMEDIATE, reading, writing, COMMIT) is one optional error. The interface
  \<open>atomic_store\<close> says what the callers rely on, all or nothing; every invariant of the pool that
  the mutators keep is then kept by the transactions, failed ones included. The invariant that
  all operations of the development keep is \<open>pool_wf\<close>.
\<close>

record store =
  spool :: Pool
  smetrics :: Metrics

type_synonym 'r mutator = "Pool \<Rightarrow> gerror + ('r \<times> Pool)"

definition count_persistence_error :: "store \<Rightarrow> store" where
  "count_persistence_error s = s\<lparr>smetrics := RecordPersistenceError (smetrics s)\<rparr>"

definition PoolTransaction :: "gerror option \<Rightarrow> 'r mutator \<Rightarrow> store \<Rightarrow> (gerror + 'r) \<times> store" where
  "PoolTransaction failure f s =
     (case failure of
        Some e \<Rightarrow> (Inl e, count_persistence_error s)
      | None \<Rightarrow> (case f (spool s) of
                   Inl e \<Rightarrow> (Inl e, count_persistence_error s)
                 | Inr (r, p) \<Rightarrow> (Inr r, s\<lparr>spool := p\<rparr>)))"

locale atomic_store =
  fixes commit :: "gerror option \<Rightarrow> 'r mutator \<Rightarrow> store \<Rightarrow> (gerror + 'r) \<times> store"
  assumes abort: "fst (commit x f s) = Inl e \<Longrightarrow> spool (snd (commit x f s)) = spool s"
    and success: "fst (commit x f s) = Inr r \<Longrightarrow> f (spool s) = Inr (r, spool (snd (commit x f s)))"
begin

lemma keeps:
  assumes "\<And>r p. f (spool s) = Inr (r, p) \<Longrightarrow> I (spool s) \<Longrightarrow> I p" "I (spool s)"
  shows "I (spool (snd (commit x f s)))"
  using assms abort [of x f s] success [of x f s] by (cases "fst (commit x f s)") auto

lemma all_or_nothing:
  "(\<exists>e. fst (commit x f s) = Inl e \<and> spool (snd (commit x f s)) = spool s)
   \<or> (\<exists>r. fst (commit x f s) = Inr r \<and> f (spool s) = Inr (r, spool (snd (commit x f s))))"
  using abort [of x f s] success [of x f s] by (cases "fst (commit x f s)") auto

end

interpretation pool_tx: atomic_store PoolTransaction
  by unfold_locales (auto simp: PoolTransaction_def count_persistence_error_def split: option.splits sum.splits prod.splits)

lemma PoolTransaction_None [simp]:
  "PoolTransaction None (\<lambda>p. Inr (r p, f p)) s = (Inr (r (spool s)), s\<lparr>spool := f (spool s)\<rparr>)"
  by (simp add: PoolTransaction_def)

section \<open>The invariant of the pool\<close>

definition ids :: "Pool \<Rightarrow> string list" where
  "ids p = map ID (Accounts p)"

definition pool_wf :: "Pool \<Rightarrow> bool" where
  "pool_wf p \<longleftrightarrow> distinct (ids p) \<and> [] \<notin> set (ids p)
     \<and> (case ActiveAccountID p of None \<Rightarrow> True | Some i \<Rightarrow> i \<in> set (ids p))"

lemma pool_wf_same_ids:
  "pool_wf p \<Longrightarrow> ids q = ids p \<Longrightarrow> (\<And>i. ActiveAccountID q = Some i \<Longrightarrow> i \<in> set (ids p)) \<Longrightarrow> pool_wf q"
  by (auto simp: pool_wf_def split: option.splits)

lemma pool_wf_active: "pool_wf p \<Longrightarrow> ActiveAccountID p = Some i \<Longrightarrow> i \<in> set (ids p)"
  by (simp add: pool_wf_def)

lemma pool_wf_set_active: "pool_wf p \<Longrightarrow> i \<in> set (ids p) \<Longrightarrow> pool_wf (p\<lparr>ActiveAccountID := Some i\<rparr>)"
  by (simp add: pool_wf_def ids_def)

lemma ids_update_account [simp]:
  "(\<And>a. ID (f a) = ID a) \<Longrightarrow> ids (update_account account f p) = ids p"
  by (simp add: ids_def update_account_def map_update_first)

lemma pool_wf_update_account:
  "(\<And>a. ID (f a) = ID a) \<Longrightarrow> pool_wf p \<Longrightarrow> pool_wf (update_account account f p)"
  by (rule pool_wf_same_ids) (auto simp: pool_wf_def frame_simps split: option.splits)

lemma FindAccount_ids: "FindAccount p account = Some a \<Longrightarrow> ID a \<in> set (ids p)"
  by (auto simp: ids_def dest: FindAccount_in)

lemma ids_frame [simp]:
  "ids (p\<lparr>ActiveAccountID := x\<rparr>) = ids p" "ids (p\<lparr>RoundRobinLastAccountID := x\<rparr>) = ids p"
  by (simp_all add: ids_def)

lemma pool_wf_cursor [simp]: "pool_wf (p\<lparr>RoundRobinLastAccountID := x\<rparr>) = pool_wf p"
  by (cases "ActiveAccountID p") (simp_all add: pool_wf_def)

end
