(* ===== verification/Quota.thy ===== *)
theory Quota
  imports Storage_Types
begin

text \<open>
  internal/quota/quota.go: parsing of quota fractions and reset times, the freshness classes,
  the reset-aware capacity state of an account, refresh backoff, and the classification of
  quota errors. Library parsers whose grammar the sources do not fix (strconv.ParseFloat,
  time.Parse by layout) and the conversion of an out-of-range float to int64 are the fields of
  \<open>go_std\<close>, an argument of every definition that uses them.
\<close>

record go_std =
  parse_float :: "string \<Rightarrow> float64 option"
  time_parse :: "string \<Rightarrow> string \<Rightarrow> (int \<times> int) option"
  int64_oob :: "float64 \<Rightarrow> int"

definition RFC3339 :: string where "RFC3339 = ''2006-01-02T15:04:05Z07:00''"
definition RFC3339Nano :: string where "RFC3339Nano = ''2006-01-02T15:04:05.999999999Z07:00''"

section \<open>Configuration constants\<close>

definition StrategyMaxQuota :: string where "StrategyMaxQuota = ''max_quota''"
definition StrategyLeastUsed :: string where "StrategyLeastUsed = ''least_used''"
definition StrategyRoundRobin :: string where "StrategyRoundRobin = ''round_robin''"

definition Window5HSecs :: rat where "Window5HSecs = 18000"
definition Window7DSecs :: rat where "Window7DSecs = 604800"
definition QuotaFreshMaxAge :: float64 where "QuotaFreshMaxAge = Fin 60"
definition QuotaAgingMaxAge :: float64 where "QuotaAgingMaxAge = Fin 300"
definition DepletedThreshold :: float64 where "DepletedThreshold = fround (5 / 1000)"

text \<open>Durations in seconds.\<close>

definition QuotaRefreshBackoff :: "int list" where
  "QuotaRefreshBackoff = [30, 60, 120, 240, 300]"

section \<open>Parsing\<close>

definition clamp_fraction :: "float64 \<Rightarrow> float64 option" where
  "clamp_fraction f =
     (if f = NaN \<or> f = PInf \<or> f = NInf then None
      else if flt f (Fin 0) then Some (Fin 0)
      else if flt (Fin 1) f then Some (Fin 1)
      else Some f)"

definition ParseQuotaFraction :: "go_std \<Rightarrow> any \<Rightarrow> float64 option" where
  "ParseQuotaFraction std v =
     (case v of
        ANil \<Rightarrow> None
      | AFloat f \<Rightarrow> clamp_fraction f
      | AFloat32 f \<Rightarrow> clamp_fraction f
      | AInt i \<Rightarrow> clamp_fraction (f_of_int i)
      | AInt64 i \<Rightarrow> clamp_fraction (f_of_int i)
      | AStr s \<Rightarrow> (case parse_float std (trim_space s) of None \<Rightarrow> None | Some f \<Rightarrow> clamp_fraction f)
      | _ \<Rightarrow> None)"

definition upper_char :: "char \<Rightarrow> char" where
  "upper_char c = (if 97 \<le> code c \<and> code c \<le> 122 then byte (code c - 32) else c)"

fun replace_first_Z :: "string \<Rightarrow> string" where
  "replace_first_Z [] = []"
| "replace_first_Z (c # cs) = (if c = CHR ''Z'' then ''+00:00'' @ cs else c # replace_first_Z cs)"

definition parse_time_string :: "go_std \<Rightarrow> string \<Rightarrow> float64 option" where
  "parse_time_string std v =
     (let str = trim_space v; upper = map upper_char str
      in if str = [] then None
         else if upper = ''N/A'' \<or> upper = ''NONE'' \<or> upper = ''NULL'' \<or> upper = ''READY'' then None
         else case parse_float std str of Some num \<Rightarrow> Some num | None \<Rightarrow>
           (let clean = replace_first_Z str
            in case time_parse std RFC3339 str of Some (s, n) \<Rightarrow> Some (f_of_int s) | None \<Rightarrow>
               (case time_parse std RFC3339Nano str of
                  Some (s, n) \<Rightarrow> Some (fdiv_const (f_of_int (wrap64 (s * 1000000000 + n))) 1000000000)
                | None \<Rightarrow>
               (case time_parse std ''2006-01-02T15:04:05-07:00'' clean of
                  Some (s, n) \<Rightarrow> Some (f_of_int s)
                | None \<Rightarrow>
               (case time_parse std ''2006-01-02T15:04:05'' clean of
                  Some (s, n) \<Rightarrow> Some (f_of_int s)
                | None \<Rightarrow> None)))))"

definition ParseISOOrTimestamp :: "go_std \<Rightarrow> any \<Rightarrow> float64 option" where
  "ParseISOOrTimestamp std val =
     (case val of
        ANil \<Rightarrow> None
      | AFloat f \<Rightarrow> Some f
      | AFloat32 f \<Rightarrow> Some f
      | AInt i \<Rightarrow> Some (f_of_int i)
      | AInt64 i \<Rightarrow> Some (f_of_int i)
      | AStr s \<Rightarrow> parse_time_string std s
      | _ \<Rightarrow> None)"

lemma clamp_fraction_range:
  "clamp_fraction f = Some g \<Longrightarrow> \<exists>v. g = Fin v \<and> 0 \<le> v \<and> v \<le> 1"
  by (cases f) (auto simp: clamp_fraction_def split: if_splits)

lemma ParseQuotaFraction_range:
  "ParseQuotaFraction std v = Some g \<Longrightarrow> \<exists>x. g = Fin x \<and> 0 \<le> x \<and> x \<le> 1"
  by (auto simp: ParseQuotaFraction_def dest: clamp_fraction_range split: any.splits option.splits)

section \<open>Freshness\<close>

record FreshnessInfo =
  Class :: string
  Rank :: int
  Age :: "float64 option"

definition window_passed :: "go_std \<Rightarrow> float64 \<Rightarrow> QuotaWindow option \<Rightarrow> bool" where
  "window_passed std now w =
     (case w of None \<Rightarrow> False
      | Some q \<Rightarrow> ResetTime q \<noteq> ANil \<and>
          (case ParseISOOrTimestamp std (ResetTime q) of None \<Rightarrow> False | Some ts \<Rightarrow> fle ts now))"

definition unknown_freshness :: FreshnessInfo where
  "unknown_freshness = \<lparr>Class = ''unknown'', Rank = 0, Age = None\<rparr>"

definition Freshness :: "go_std \<Rightarrow> Account option \<Rightarrow> float64 \<Rightarrow> FreshnessInfo" where
  "Freshness std acc now =
     (case acc of None \<Rightarrow> unknown_freshness | Some a \<Rightarrow>
      (case LastQuota a of None \<Rightarrow> unknown_freshness | Some lq \<Rightarrow>
      (case QUpdatedAt lq of None \<Rightarrow> unknown_freshness | Some u \<Rightarrow>
       if u \<le> 0 then unknown_freshness
       else
         let age0 = fsub now (f_of_int u);
             age = (if flt age0 (Fin 0) then Fin 0 else age0);
             resetPassed = (window_passed std now (Gemini5H lq) \<or> window_passed std now (GeminiWeekly lq));
             cr = (if resetPassed \<or> flt QuotaAgingMaxAge age then (''stale'', 1)
                   else if flt QuotaFreshMaxAge age then (''aging'', 2)
                   else (''fresh'', 3))
         in \<lparr>Class = fst cr, Rank = snd cr, Age = Some age\<rparr>)))"

definition FreshnessRank :: "go_std \<Rightarrow> Account option \<Rightarrow> float64 \<Rightarrow> int" where
  "FreshnessRank std acc now =
     (let c = Class (Freshness std acc now)
      in if c = ''fresh'' \<or> c = ''aging'' then 2 else if c = ''stale'' then 1 else 0)"

definition RefreshNeeded :: "go_std \<Rightarrow> Account option \<Rightarrow> float64 \<Rightarrow> bool" where
  "RefreshNeeded std acc now \<longleftrightarrow> Class (Freshness std acc now) \<noteq> ''fresh''"

section \<open>Capacity\<close>

record CapacityState =
  Q5 :: "float64 option"
  Q7 :: "float64 option"
  R5 :: float64
  R7 :: float64
  Pace5 :: "float64 option"
  Pace7 :: "float64 option"
  WorstPace :: float64
  TotalPace :: float64
  RawFloor :: float64
  Q5Known :: bool
  Q7Known :: bool
  KnownWindowCount :: int
  LegacyFractionKnown :: bool
  IsDepleted :: bool
  Reset5Time :: "int option"
  Reset7Time :: "int option"

record fractions =
  fq5 :: "float64 option"
  fq7 :: "float64 option"
  fq5Known :: bool
  fq7Known :: bool
  flegacy :: bool

definition has_explicit_windows :: "Account \<Rightarrow> bool" where
  "has_explicit_windows acc =
     (case LastQuota acc of None \<Rightarrow> False | Some lq \<Rightarrow> Gemini5H lq \<noteq> None \<or> GeminiWeekly lq \<noteq> None)"

definition window_fraction :: "go_std \<Rightarrow> QuotaWindow option \<Rightarrow> float64 option" where
  "window_fraction std w =
     (case w of None \<Rightarrow> None | Some q \<Rightarrow>
       (case Fraction q of None \<Rightarrow> None | Some f \<Rightarrow> ParseQuotaFraction std (AFloat f)))"

definition pct_fraction :: "go_std \<Rightarrow> float64 option \<Rightarrow> float64 option" where
  "pct_fraction std p =
     (case p of None \<Rightarrow> None | Some f \<Rightarrow> ParseQuotaFraction std (AFloat (fdiv_const f 100)))"

definition legacy_fraction :: "go_std \<Rightarrow> Account \<Rightarrow> float64 option" where
  "legacy_fraction std acc =
     (let l = (case LastQuota acc of None \<Rightarrow> None | Some lq \<Rightarrow>
                 (case RemainingFraction lq of None \<Rightarrow> None | Some f \<Rightarrow> ParseQuotaFraction std (AFloat f)))
      in case l of Some f \<Rightarrow> Some f | None \<Rightarrow>
           (case Quota acc of None \<Rightarrow> None | Some f \<Rightarrow> ParseQuotaFraction std (AFloat f)))"

definition capacity_fractions :: "go_std \<Rightarrow> Account \<Rightarrow> fractions" where
  "capacity_fractions std acc =
     (let q5 = (case LastQuota acc of None \<Rightarrow> None | Some lq \<Rightarrow> window_fraction std (Gemini5H lq));
          q7 = (case LastQuota acc of None \<Rightarrow> None | Some lq \<Rightarrow> window_fraction std (GeminiWeekly lq))
      in if has_explicit_windows acc
         then \<lparr>fq5 = q5, fq7 = q7, fq5Known = (q5 \<noteq> None), fq7Known = (q7 \<noteq> None), flegacy = False\<rparr>
         else case legacy_fraction std acc of
           Some l \<Rightarrow> \<lparr>fq5 = Some l, fq7 = Some l, fq5Known = (q5 \<noteq> None), fq7Known = (q7 \<noteq> None), flegacy = True\<rparr>
         | None \<Rightarrow>
             (let p5 = (if Gemini5HPct acc = None then q5 else pct_fraction std (Gemini5HPct acc));
                  p7 = (if GeminiWeeklyPct acc = None then q7 else pct_fraction std (GeminiWeeklyPct acc))
              in \<lparr>fq5 = p5, fq7 = p7, fq5Known = (p5 \<noteq> None), fq7Known = (p7 \<noteq> None), flegacy = False\<rparr>))"

definition capacity_resets :: "Account \<Rightarrow> bool \<Rightarrow> any \<times> any" where
  "capacity_resets acc legacyFractionKnown =
     (let r5 = (case LastQuota acc of None \<Rightarrow> ANil | Some lq \<Rightarrow>
                  (case Gemini5H lq of None \<Rightarrow> ANil | Some w \<Rightarrow> ResetTime w));
          r7 = (case LastQuota acc of None \<Rightarrow> ANil | Some lq \<Rightarrow>
                  (case GeminiWeekly lq of None \<Rightarrow> ANil | Some w \<Rightarrow> ResetTime w))
      in case LastQuota acc of
           Some lq \<Rightarrow> if legacyFractionKnown then (QResetTime lq, QResetTime lq)
                      else if \<not> has_explicit_windows acc then (Gemini5HReset acc, GeminiWeeklyReset acc)
                      else (r5, r7)
         | None \<Rightarrow> (Gemini5HReset acc, GeminiWeeklyReset acc))"

definition ratio_of_remaining :: "float64 \<Rightarrow> rat \<Rightarrow> float64" where
  "ratio_of_remaining rem windowSecs =
     (if fle rem (Fin 0) then Fin 1
      else let ratio = fdiv_const rem windowSecs
           in if flt (Fin 1) ratio then Fin 1 else ratio)"

definition resetRatio :: "go_std \<Rightarrow> float64 \<Rightarrow> float64 option \<Rightarrow> any \<Rightarrow> rat \<Rightarrow> float64" where
  "resetRatio std now secVal reset windowSecs =
     (case secVal of
        Some rem \<Rightarrow> ratio_of_remaining rem windowSecs
      | None \<Rightarrow>
          (case ParseISOOrTimestamp std reset of
             None \<Rightarrow> Fin 1
           | Some ts \<Rightarrow> ratio_of_remaining (fsub ts now) windowSecs))"

text \<open>The loop that finds the least element, starting from the first one.\<close>

definition least_float :: "float64 list \<Rightarrow> float64" where
  "least_float xs = foldl (\<lambda>m x. if flt x m then x else m) (hd xs) xs"

definition sum_float :: "float64 list \<Rightarrow> float64" where
  "sum_float xs = foldl fadd (Fin 0) xs"

definition reset_time :: "go_std \<Rightarrow> float64 \<Rightarrow> float64 option \<Rightarrow> any \<Rightarrow> int option" where
  "reset_time std now sec reset =
     (case sec of
        Some s \<Rightarrow> Some (trunc_int64 (int64_oob std) (fadd now s))
      | None \<Rightarrow>
          if reset = ANil then None
          else map_option (trunc_int64 (int64_oob std)) (ParseISOOrTimestamp std reset))"

definition opt_list :: "'a option \<Rightarrow> 'a list" where
  "opt_list x = (case x of None \<Rightarrow> [] | Some y \<Rightarrow> [y])"

definition capacity :: "go_std \<Rightarrow> Account \<Rightarrow> float64 \<Rightarrow> CapacityState" where
  "capacity std acc now =
     (let fr = capacity_fractions std acc;
          rs = capacity_resets acc (flegacy fr);
          r5 = resetRatio std now (Gemini5HResetSec acc) (fst rs) Window5HSecs;
          r7 = resetRatio std now (GeminiWeeklyResetSec acc) (snd rs) Window7DSecs;
          pace5 = map_option (\<lambda>q. fsub q r5) (fq5 fr);
          pace7 = map_option (\<lambda>q. fsub q r7) (fq7 fr);
          knownPaces = opt_list pace5 @ opt_list pace7;
          knownFractions = opt_list (fq5 fr) @ opt_list (fq7 fr);
          rawFloor = (if knownFractions = [] then Fin 0 else least_float knownFractions)
      in \<lparr>Q5 = fq5 fr, Q7 = fq7 fr, R5 = r5, R7 = r7, Pace5 = pace5, Pace7 = pace7,
          WorstPace = (if knownPaces = [] then NInf else least_float knownPaces),
          TotalPace = (if knownPaces = [] then NInf else sum_float knownPaces),
          RawFloor = rawFloor,
          Q5Known = fq5Known fr, Q7Known = fq7Known fr,
          KnownWindowCount =
            (if flegacy fr then 1
             else (if fq5Known fr then 1 else 0) + (if fq7Known fr then 1 else 0)),
          LegacyFractionKnown = flegacy fr,
          IsDepleted = (knownFractions \<noteq> [] \<and> fle rawFloor DepletedThreshold),
          Reset5Time = reset_time std now (Gemini5HResetSec acc) (fst rs),
          Reset7Time = reset_time std now (GeminiWeeklyResetSec acc) (snd rs)\<rparr>)"

definition ComputeCapacityState :: "go_std \<Rightarrow> Account option \<Rightarrow> float64 \<Rightarrow> CapacityState" where
  "ComputeCapacityState std acc now =
     (case acc of
        Some a \<Rightarrow> capacity std a now
      | None \<Rightarrow> \<lparr>Q5 = None, Q7 = None, R5 = Fin 0, R7 = Fin 0, Pace5 = None, Pace7 = None,
          WorstPace = NInf, TotalPace = NInf, RawFloor = Fin 0, Q5Known = False, Q7Known = False,
          KnownWindowCount = 0, LegacyFractionKnown = False, IsDepleted = False,
          Reset5Time = None, Reset7Time = None\<rparr>)"

section \<open>Backoff, quota errors, Retry-After\<close>

definition NextBackoffDelay :: "int \<Rightarrow> int" where
  "NextBackoffDelay attempt =
     (let a = (if attempt < 0 then 0 else attempt)
      in if int (length QuotaRefreshBackoff) \<le> a then last QuotaRefreshBackoff
         else QuotaRefreshBackoff ! nat a)"

definition quota_markers :: "string list" where
  "quota_markers =
     [''resource_exhausted'', ''quota_exceeded'', ''rate_limit_exceeded'',
      ''quota exceeded'', ''quota exhausted'', ''exceeded your current quota'',
      ''insufficient quota'']"

definition IsQuotaError :: "int \<Rightarrow> string \<Rightarrow> bool" where
  "IsQuotaError status body =
     (if status = 429 then True
      else if status \<noteq> 403 then False
      else list_ex (contains (to_lower body)) quota_markers)"

definition clamp_retry :: "int \<Rightarrow> int" where
  "clamp_retry s = (if s < 5 then 5 else if 86400 < s then 86400 else s)"

definition retry_layouts :: "string list" where
  "retry_layouts =
     [''Mon, 02 Jan 2006 15:04:05 MST'', ''Mon, 02 Jan 2006 15:04:05 -0700'',
      ''Monday, 02-Jan-06 15:04:05 MST'', ''Mon Jan _2 15:04:05 2006'']"

text \<open>
  \<open>until t\<close> is the whole number of seconds from the current time to the parsed
  instant, int64(time.Until(t).Seconds()).
\<close>

fun retry_date :: "go_std \<Rightarrow> (int \<times> int \<Rightarrow> int) \<Rightarrow> string \<Rightarrow> string list \<Rightarrow> int option" where
  "retry_date std until raw [] = None"
| "retry_date std until raw (l # ls) =
     (case time_parse std l raw of
        Some t \<Rightarrow> Some (clamp_retry (until t))
      | None \<Rightarrow> retry_date std until raw ls)"

definition ParseRetryAfter :: "go_std \<Rightarrow> (int \<times> int \<Rightarrow> int) \<Rightarrow> string \<Rightarrow> int \<Rightarrow> int" where
  "ParseRetryAfter std until raw0 defaultSec =
     (let raw = trim_space raw0
      in if raw = [] then defaultSec
         else case parse_int64 raw of
           Some seconds \<Rightarrow> clamp_retry seconds
         | None \<Rightarrow> (case retry_date std until raw retry_layouts of Some s \<Rightarrow> s | None \<Rightarrow> defaultSec))"

section \<open>The compatibility fields of a quota state\<close>

fun min_known :: "float64 \<times> any \<Rightarrow> (float64 \<times> any) list \<Rightarrow> float64 \<times> any" where
  "min_known m [] = m"
| "min_known m (x # xs) = min_known (if flt (fst x) (fst m) then x else m) xs"

definition known_windows :: "QuotaState \<Rightarrow> (float64 \<times> any) list" where
  "known_windows q =
     List.map_filter (\<lambda>w. case w of None \<Rightarrow> None | Some v \<Rightarrow>
        (case Fraction v of None \<Rightarrow> None | Some f \<Rightarrow> Some (f, ResetTime v))) [Gemini5H q, GeminiWeekly q]"

definition recomputeCompatQuota :: "QuotaState \<Rightarrow> QuotaState" where
  "recomputeCompatQuota q =
     (case known_windows q of
        [] \<Rightarrow> q\<lparr>RemainingFraction := None, QResetTime := ANil\<rparr>
      | k # ks \<Rightarrow>
          (let m = min_known k (k # ks)
           in q\<lparr>RemainingFraction := Some (fst m), QResetTime := snd m\<rparr>))"

definition DisplayQuotaFractions :: "go_std \<Rightarrow> QuotaState option \<Rightarrow> float64 option \<times> float64 option" where
  "DisplayQuotaFractions std q =
     (case q of None \<Rightarrow> (None, None) | Some s \<Rightarrow>
       (if Gemini5H s = None \<and> GeminiWeekly s = None \<and> RemainingFraction s \<noteq> None
        then (let l = ParseQuotaFraction std (AFloat (the (RemainingFraction s))) in (l, l))
        else (window_fraction std (Gemini5H s), window_fraction std (GeminiWeekly s))))"

section \<open>Range facts\<close>

definition in_range :: "rat \<Rightarrow> rat \<Rightarrow> float64 \<Rightarrow> bool" where
  "in_range a b f \<longleftrightarrow> (case f of Fin v \<Rightarrow> a \<le> v \<and> v \<le> b | _ \<Rightarrow> False)"

lemma in_rangeE: "in_range a b f \<Longrightarrow> (\<And>v. f = Fin v \<Longrightarrow> a \<le> v \<Longrightarrow> v \<le> b \<Longrightarrow> thesis) \<Longrightarrow> thesis"
  by (auto simp: in_range_def split: float64.splits)

lemma in_range_Fin [simp]: "in_range a b (Fin v) \<longleftrightarrow> a \<le> v \<and> v \<le> b"
  by (simp add: in_range_def)

lemma in_range_fround:
  "a \<le> x \<Longrightarrow> x \<le> b \<Longrightarrow> fround a = Fin a \<Longrightarrow> fround b = Fin b \<Longrightarrow> in_range a b (fround x)"
  by (erule (3) fround_between) simp

lemma ParseQuotaFraction_in_range: "ParseQuotaFraction std v = Some g \<Longrightarrow> in_range 0 1 g"
  using ParseQuotaFraction_range by fastforce

lemma window_fraction_in_range: "window_fraction std w = Some g \<Longrightarrow> in_range 0 1 g"
  by (auto simp: window_fraction_def dest: ParseQuotaFraction_in_range split: option.splits)

lemma pct_fraction_in_range: "pct_fraction std w = Some g \<Longrightarrow> in_range 0 1 g"
  by (auto simp: pct_fraction_def dest: ParseQuotaFraction_in_range split: option.splits)

lemma legacy_fraction_in_range: "legacy_fraction std a = Some g \<Longrightarrow> in_range 0 1 g"
  by (auto simp: legacy_fraction_def Let_def dest: ParseQuotaFraction_in_range split: option.splits)

lemma capacity_fractions_in_range:
  "fq5 (capacity_fractions std a) = Some g \<Longrightarrow> in_range 0 1 g"
  "fq7 (capacity_fractions std a) = Some g \<Longrightarrow> in_range 0 1 g"
  by (auto simp: capacity_fractions_def Let_def split: option.splits if_splits
      dest: window_fraction_in_range pct_fraction_in_range legacy_fraction_in_range)

lemma ratio_of_remaining_in_range:
  assumes "rem \<noteq> NaN" "0 < w"
  shows "in_range 0 1 (ratio_of_remaining rem w)"
proof (cases rem)
  case (Fin x)
  show ?thesis
  proof (cases "x \<le> 0")
    case True
    then show ?thesis by (simp add: ratio_of_remaining_def Fin)
  next
    case False
    then have "0 \<le> x / w" using assms(2) by simp
    then have nn: "fle (Fin 0) (fround (x / w))" using fround_mono [of 0 "x / w"] by simp
    show ?thesis
    proof (cases "flt (Fin 1) (fround (x / w))")
      case True
      then show ?thesis using False by (simp add: ratio_of_remaining_def Fin Let_def)
    next
      case le: False
      then have "fle (fround (x / w)) (Fin 1)" by (simp add: not_flt_fle)
      with nn have "in_range 0 1 (fround (x / w))"
        by (cases "fround (x / w)") (auto simp: fle_def feq_def)
      then show ?thesis using False le by (simp add: ratio_of_remaining_def Fin Let_def)
    qed
  qed
qed (use assms in \<open>simp_all add: ratio_of_remaining_def fle_def feq_def Let_def\<close>)

lemma fsub_in_range:
  assumes "in_range 0 1 q" "in_range 0 1 r"
  shows "in_range (- 1) 1 (fsub q r)"
  using assms by (auto elim!: in_rangeE simp: fsub_def intro!: in_range_fround)

lemma fadd_in_range:
  assumes "in_range (- 1) 1 q" "in_range (- 1) 1 r"
  shows "in_range (- 2) 2 (fadd q r)"
  using assms by (auto elim!: in_rangeE intro!: in_range_fround)

lemma fadd_zero_in_range: "in_range (- 1) 1 q \<Longrightarrow> in_range (- 1) 1 (fadd (Fin 0) q)"
  by (auto elim!: in_rangeE intro!: in_range_fround)

lemma in_range_weaken: "in_range a b f \<Longrightarrow> c \<le> a \<Longrightarrow> b \<le> d \<Longrightarrow> in_range c d f"
  by (auto elim!: in_rangeE)

lemma least_float_two [simp]:
  "least_float [a] = a"
  "least_float [a, b] = (if flt b a then b else a)"
  by (simp_all add: least_float_def)

lemma sum_float_two [simp]:
  "sum_float [a] = fadd (Fin 0) a"
  "sum_float [a, b] = fadd (fadd (Fin 0) a) b"
  by (simp_all add: sum_float_def)

section \<open>Capacity facts\<close>

text \<open>No value that a reset time or a remaining time comes from is the float NaN.\<close>

definition resets_numeric :: "go_std \<Rightarrow> Account \<Rightarrow> bool" where
  "resets_numeric std a \<longleftrightarrow>
     (let rs = capacity_resets a (flegacy (capacity_fractions std a))
      in Gemini5HResetSec a \<noteq> Some NaN \<and> GeminiWeeklyResetSec a \<noteq> Some NaN
         \<and> ParseISOOrTimestamp std (fst rs) \<noteq> Some NaN \<and> ParseISOOrTimestamp std (snd rs) \<noteq> Some NaN)"

lemma fsub_Fin_not_NaN: "ts \<noteq> NaN \<Longrightarrow> fsub ts (Fin n) \<noteq> NaN"
  by (cases ts) (simp_all add: fsub_def)

lemma resetRatio_in_range:
  assumes "sec \<noteq> Some NaN" "ParseISOOrTimestamp std reset \<noteq> Some NaN" "0 < w"
  shows "in_range 0 1 (resetRatio std (Fin n) sec reset w)"
  using assms by (auto simp: resetRatio_def intro!: ratio_of_remaining_in_range fsub_Fin_not_NaN split: option.splits)

lemma windows_positive [simp]: "0 < Window5HSecs" "0 < Window7DSecs"
  by (simp_all add: Window5HSecs_def Window7DSecs_def)

lemma capacity_sel [simp]:
  "Q5 (capacity std a now) = fq5 (capacity_fractions std a)"
  "Q7 (capacity std a now) = fq7 (capacity_fractions std a)"
  "Q5Known (capacity std a now) = fq5Known (capacity_fractions std a)"
  "Q7Known (capacity std a now) = fq7Known (capacity_fractions std a)"
  "LegacyFractionKnown (capacity std a now) = flegacy (capacity_fractions std a)"
  by (simp_all add: capacity_def Let_def)

lemma capacity_R:
  "R5 (capacity std a now) = resetRatio std now (Gemini5HResetSec a)
     (fst (capacity_resets a (flegacy (capacity_fractions std a)))) Window5HSecs"
  "R7 (capacity std a now) = resetRatio std now (GeminiWeeklyResetSec a)
     (snd (capacity_resets a (flegacy (capacity_fractions std a)))) Window7DSecs"
  by (simp_all add: capacity_def Let_def)

lemma capacity_pace:
  "Pace5 (capacity std a now) = map_option (\<lambda>q. fsub q (R5 (capacity std a now))) (Q5 (capacity std a now))"
  "Pace7 (capacity std a now) = map_option (\<lambda>q. fsub q (R7 (capacity std a now))) (Q7 (capacity std a now))"
  by (simp_all add: capacity_def Let_def)

lemma capacity_aggregate:
  "WorstPace (capacity std a now) =
     (let ps = opt_list (Pace5 (capacity std a now)) @ opt_list (Pace7 (capacity std a now))
      in if ps = [] then NInf else least_float ps)"
  "TotalPace (capacity std a now) =
     (let ps = opt_list (Pace5 (capacity std a now)) @ opt_list (Pace7 (capacity std a now))
      in if ps = [] then NInf else sum_float ps)"
  "RawFloor (capacity std a now) =
     (let fs = opt_list (Q5 (capacity std a now)) @ opt_list (Q7 (capacity std a now))
      in if fs = [] then Fin 0 else least_float fs)"
  by (simp_all add: capacity_def Let_def)

lemma capacity_R_in_range:
  assumes "resets_numeric std a"
  shows "in_range 0 1 (R5 (capacity std a (Fin n)))" "in_range 0 1 (R7 (capacity std a (Fin n)))"
  using assms by (auto simp: capacity_R resets_numeric_def Let_def intro!: resetRatio_in_range)

lemma capacity_pace_in_range:
  assumes "resets_numeric std a"
  shows "Pace5 (capacity std a (Fin n)) = Some p \<Longrightarrow> in_range (- 1) 1 p"
    and "Pace7 (capacity std a (Fin n)) = Some p \<Longrightarrow> in_range (- 1) 1 p"
  using capacity_R_in_range [OF assms, of n]
  by (auto simp: capacity_pace intro!: fsub_in_range dest: capacity_fractions_in_range)

lemma RawFloor_in_range: "in_range 0 1 (RawFloor (capacity std a now))"
  by (auto simp: capacity_aggregate opt_list_def Let_def dest: capacity_fractions_in_range split: option.splits)

lemma no_pace_iff:
  "Pace5 (capacity std a now) = None \<longleftrightarrow> Q5 (capacity std a now) = None"
  "Pace7 (capacity std a now) = None \<longleftrightarrow> Q7 (capacity std a now) = None"
  by (simp_all add: capacity_pace)

lemma WorstPace_in_range:
  assumes "resets_numeric std a"
  shows "Q5 (capacity std a (Fin n)) = None \<and> Q7 (capacity std a (Fin n)) = None
           \<and> WorstPace (capacity std a (Fin n)) = NInf
       \<or> in_range (- 1) 1 (WorstPace (capacity std a (Fin n)))"
  using capacity_pace_in_range [OF assms, of n] no_pace_iff [of std a "Fin n"]
  by (auto simp: capacity_aggregate(1) opt_list_def Let_def split: option.splits simp del: capacity_sel)

lemma TotalPace_in_range:
  assumes "resets_numeric std a"
  shows "Q5 (capacity std a (Fin n)) = None \<and> Q7 (capacity std a (Fin n)) = None
           \<and> TotalPace (capacity std a (Fin n)) = NInf
       \<or> in_range (- 2) 2 (TotalPace (capacity std a (Fin n)))"
  using capacity_pace_in_range [OF assms, of n] no_pace_iff [of std a "Fin n"]
  by (auto simp: capacity_aggregate(2) opt_list_def Let_def split: option.splits simp del: capacity_sel
      intro: fadd_in_range fadd_zero_in_range in_range_weaken)

lemma IsDepleted_eq:
  "IsDepleted (capacity std a now) \<longleftrightarrow>
     (opt_list (Q5 (capacity std a now)) @ opt_list (Q7 (capacity std a now)) \<noteq> []
      \<and> fle (RawFloor (capacity std a now)) DepletedThreshold)"
  by (simp add: capacity_def Let_def)

lemma opt_list_simps [simp]: "opt_list None = []" "opt_list (Some x) = [x]"
  by (simp_all add: opt_list_def)

lemma no_known_pace:
  "Q5 (capacity std a now) = None \<and> Q7 (capacity std a now) = None \<Longrightarrow>
     WorstPace (capacity std a now) = NInf \<and> TotalPace (capacity std a now) = NInf"
  by (simp add: capacity_aggregate capacity_pace)

lemma fle_least: "in_range 0 1 a \<Longrightarrow> in_range 0 1 b \<Longrightarrow>
    fle (if flt b a then b else a) t \<longleftrightarrow> fle a t \<or> fle b t"
  by (cases t) (auto elim!: in_rangeE simp: fle_def feq_def)

section \<open>Freshness facts\<close>

lemma fle_trans_Fin: "fle t (Fin x) \<Longrightarrow> x \<le> y \<Longrightarrow> fle t (Fin y)"
  by (cases t) (auto simp: fle_def feq_def)

lemma window_passed_mono: "x \<le> y \<Longrightarrow> window_passed std (Fin x) w \<Longrightarrow> window_passed std (Fin y) w"
  by (auto simp: window_passed_def intro: fle_trans_Fin split: option.splits)

lemma age_mono: "x \<le> y \<Longrightarrow> fle (fsub (Fin x) u) (fsub (Fin y) u) \<or> u = NaN"
  by (cases u) (auto simp: fsub_def fround_mono, auto simp: fle_def feq_def)

lemma flt_fle_trans: "flt a b \<Longrightarrow> fle b c \<Longrightarrow> flt a c"
  by (cases a; cases b; cases c) (auto simp: fle_def feq_def)

lemma clamped_age_mono:
  assumes "fle a b" "flt (Fin t) (if flt a (Fin 0) then Fin 0 else a)"
  shows "flt (Fin t) (if flt b (Fin 0) then Fin 0 else b)"
  using assms by (cases a; cases b) (auto simp: fle_def feq_def split: if_splits)

text \<open>The three classes are decided by whether a reset has passed and by two age limits.\<close>

definition fresh_age :: "float64 \<Rightarrow> int \<Rightarrow> float64" where
  "fresh_age now u = (let d = fsub now (f_of_int u) in if flt d (Fin 0) then Fin 0 else d)"

lemma fresh_age_mono: "x \<le> y \<Longrightarrow> flt (Fin t) (fresh_age (Fin x) u) \<Longrightarrow> flt (Fin t) (fresh_age (Fin y) u)"
  unfolding fresh_age_def Let_def using age_mono [of x y "f_of_int u"] clamped_age_mono by auto

definition timed_quota :: "Account option \<Rightarrow> (QuotaState \<times> int) option" where
  "timed_quota acc =
     (case acc of None \<Rightarrow> None | Some a \<Rightarrow> (case LastQuota a of None \<Rightarrow> None | Some lq \<Rightarrow>
      (case QUpdatedAt lq of None \<Rightarrow> None | Some u \<Rightarrow> if u \<le> 0 then None else Some (lq, u))))"

lemma FreshnessRank_eq:
  "FreshnessRank std acc now =
     (case timed_quota acc of None \<Rightarrow> 0 | Some (lq, u) \<Rightarrow>
        if window_passed std now (Gemini5H lq) \<or> window_passed std now (GeminiWeekly lq)
           \<or> flt QuotaAgingMaxAge (fresh_age now u) then 1 else 2)"
  by (simp add: FreshnessRank_def Freshness_def timed_quota_def unknown_freshness_def fresh_age_def Let_def
      split: option.splits)

section \<open>Properties\<close>

definition demo_std :: go_std where
  "demo_std = \<lparr>parse_float = (\<lambda>s. if s = ''nan'' then Some NaN else None),
     time_parse = (\<lambda>l s. if s = ''soon'' then Some (100, 0) else None), int64_oob = (\<lambda>f. - (2 ^ 63))\<rparr>"

definition windowed_account :: "string \<Rightarrow> rat \<Rightarrow> any \<Rightarrow> Account" where
  "windowed_account i q reset =
     zero_account\<lparr>ID := i, LastQuota := Some (zero_quota\<lparr>
        Gemini5H := Some (zero_window\<lparr>Fraction := Some (Fin q), ResetTime := reset\<rparr>),
        QUpdatedAt := Some 1000\<rparr>)\<rparr>"

text \<open>The capacity of an account with numeric reset data is bounded: the reset ratios lie in
  [0,1], each pace in [-1,1], the raw floor in [0,1]; the worst pace lies in [-1,1] and the total
  pace in [-2,2], or both are minus infinity and no fraction is known. Rounding of the float
  operations is included.\<close>

theorem capacity_bounds:
  assumes "resets_numeric std a"
  shows "in_range 0 1 (R5 (capacity std a (Fin n))) \<and> in_range 0 1 (R7 (capacity std a (Fin n)))
       \<and> pred_option (in_range (- 1) 1) (Pace5 (capacity std a (Fin n)))
       \<and> pred_option (in_range (- 1) 1) (Pace7 (capacity std a (Fin n)))
       \<and> in_range 0 1 (RawFloor (capacity std a (Fin n)))
       \<and> (if Q5 (capacity std a (Fin n)) = None \<and> Q7 (capacity std a (Fin n)) = None
          then WorstPace (capacity std a (Fin n)) = NInf \<and> TotalPace (capacity std a (Fin n)) = NInf
          else in_range (- 1) 1 (WorstPace (capacity std a (Fin n)))
             \<and> in_range (- 2) 2 (TotalPace (capacity std a (Fin n))))"
  using capacity_R_in_range [OF assms, of n] capacity_pace_in_range [OF assms, of n]
    RawFloor_in_range [of std a "Fin n"] WorstPace_in_range [OF assms, of n] TotalPace_in_range [OF assms, of n]
    no_known_pace [of std a "Fin n"]
  by (auto simp: pred_option_def simp del: capacity_sel)

theorem capacity_bounds_witness:
  "in_range 0 1 (R5 (capacity demo_std (windowed_account ''a'' (1/2) (AInt 9000)) (Fin 0)))"
  using capacity_bounds [of demo_std "windowed_account ''a'' (1/2) (AInt 9000)" 0]
  by (simp add: resets_numeric_def windowed_account_def zero_account_def zero_quota_def zero_window_def
      capacity_resets_def capacity_fractions_def has_explicit_windows_def window_fraction_def
      ParseQuotaFraction_def clamp_fraction_def ParseISOOrTimestamp_def Let_def)

text \<open>An account counts as depleted exactly when one of its known window fractions is at
  or below the depletion threshold; an account with no known fraction is never depleted.\<close>

theorem depleted_iff:
  "IsDepleted (ComputeCapacityState std acc now) \<longleftrightarrow>
     (\<exists>a q. acc = Some a \<and> fle q DepletedThreshold \<and>
        (fq5 (capacity_fractions std a) = Some q \<or> fq7 (capacity_fractions std a) = Some q))"
proof (cases acc)
  case None
  then show ?thesis by (simp add: ComputeCapacityState_def)
next
  case (Some a)
  have "IsDepleted (capacity std a now) \<longleftrightarrow>
     (\<exists>q. fle q DepletedThreshold \<and>
        (fq5 (capacity_fractions std a) = Some q \<or> fq7 (capacity_fractions std a) = Some q))"
    using capacity_fractions_in_range [of std a]
    by (cases "fq5 (capacity_fractions std a)"; cases "fq7 (capacity_fractions std a)")
      (auto simp: IsDepleted_eq capacity_aggregate fle_least simp del: if_split)
  then show ?thesis by (simp add: ComputeCapacityState_def Some)
qed

text \<open>Quota data only grows older: as time passes without a refresh, the freshness rank
  the scheduler uses never rises.\<close>

theorem freshness_rank_antitone:
  assumes "now \<le> later"
  shows "FreshnessRank std acc (Fin later) \<le> FreshnessRank std acc (Fin now)"
  using window_passed_mono [OF assms] fresh_age_mono [OF assms]
  by (auto simp: FreshnessRank_eq QuotaAgingMaxAge_def split: option.splits)

theorem freshness_rank_antitone_witness:
  "FreshnessRank demo_std (Some (windowed_account ''a'' 1 (AInt 9000))) (Fin 10000)
     \<le> FreshnessRank demo_std (Some (windowed_account ''a'' 1 (AInt 9000))) (Fin 1000)"
  using freshness_rank_antitone [of 1000 10000 demo_std "Some (windowed_account ''a'' 1 (AInt 9000))"] by simp

text \<open>The cooldown that a Retry-After header asks for is kept between 5 seconds and one day;
  a missing or unreadable header gives the default.\<close>

theorem retry_after_clamped:
  "(ParseRetryAfter std until raw d = d \<and> parse_int64 (trim_space raw) = None
    \<or> 5 \<le> ParseRetryAfter std until raw d \<and> ParseRetryAfter std until raw d \<le> 86400)
   \<and> (parse_int64 (trim_space raw) = Some s \<longrightarrow> ParseRetryAfter std until raw d = max 5 (min 86400 s))"
proof -
  have d: "retry_date std until r ls = Some s \<Longrightarrow> 5 \<le> s \<and> s \<le> 86400" for r ls s
    by (induction ls) (auto simp: clamp_retry_def split: option.splits)
  show ?thesis
  proof (cases "parse_int64 (trim_space raw)")
    case None
    then show ?thesis using d [of "trim_space raw" retry_layouts]
      by (auto simp: ParseRetryAfter_def Let_def split: option.splits)
  next
    case (Some k)
    then have "trim_space raw \<noteq> []" by (auto simp: parse_int64_def Let_def)
    then show ?thesis using Some by (auto simp: ParseRetryAfter_def Let_def clamp_retry_def)
  qed
qed

theorem retry_after_clamped_witness: "ParseRetryAfter demo_std (\<lambda>t. 0) '' 2 '' 300 = 5"
proof -
  have "trim_space '' 2 '' = ''2''"
    by (simp add: trim_space_def leading_space_def space_seqs_def go_simps)
  then have "parse_int64 (trim_space '' 2 '') = Some 2"
    by (simp add: parse_int64_def is_digit_def digits_value_def go_simps)
  then show ?thesis using retry_after_clamped [of demo_std "\<lambda>t. 0" "'' 2 ''" 300 2] by simp
qed

end
