(* ===== verification/Auth.thy ===== *)
theory Auth
  imports Pool_Store Quota
begin

text \<open>
  internal/auth/auth.go: the classification of error responses, JWT payloads, the persistence of
  selected account fields, and the token refresh with its compare-and-set write. Parameters are
  the JSON decoders of the response bodies, base64 and what the environment answers: the clock,
  the lock, the token endpoint and what other processes do to the pool meanwhile.
\<close>

section \<open>Error classes\<close>

definition validation_markers :: "string list" where
  "validation_markers = [''validation_required'', ''verify your account'', ''verify your account to continue'']"

definition IsValidationError :: "int \<Rightarrow> string \<Rightarrow> bool" where
  "IsValidationError status body =
     (if status \<noteq> 403 then False else list_ex (contains (to_lower body)) validation_markers)"

definition auth_markers :: "string list" where
  "auth_markers = [''unauthenticated'', ''invalid_grant'', ''access_token_expired'', ''account is disabled'', ''user disabled'']"

definition IsAuthError :: "int \<Rightarrow> string \<Rightarrow> bool" where
  "IsAuthError status body =
     (if status = 401 then True
      else if status = 403 then list_ex (contains (to_lower body)) auth_markers
      else False)"

record error_detail =
  dmetadata :: "(string \<times> string) list"
  dlinks :: "(string \<times> string) list" \<comment> \<open>description and URL\<close>

fun first_verify_link :: "(string \<times> string) list \<Rightarrow> string option" where
  "first_verify_link [] = None"
| "first_verify_link ((desc, url) # ls) =
     (if contains (to_lower desc) ''verify'' \<or> contains (to_lower url) ''verify'' then Some url
      else first_verify_link ls)"

fun validation_url :: "error_detail list \<Rightarrow> string" where
  "validation_url [] = []"
| "validation_url (d # ds) =
     (case map_of (dmetadata d) ''validation_url'' of
        Some u \<Rightarrow> if u \<noteq> [] then u
                  else (case first_verify_link (dlinks d) of Some l \<Rightarrow> l | None \<Rightarrow> validation_url ds)
      | None \<Rightarrow> (case first_verify_link (dlinks d) of Some l \<Rightarrow> l | None \<Rightarrow> validation_url ds))"

definition ExtractValidationURL :: "(string \<Rightarrow> error_detail list option) \<Rightarrow> string \<Rightarrow> string" where
  "ExtractValidationURL parse body = (case parse body of None \<Rightarrow> [] | Some ds \<Rightarrow> validation_url ds)"

definition DecodeJWTPayload ::
  "(string \<Rightarrow> string option) \<Rightarrow> (string \<Rightarrow> (string \<times> any) list option) \<Rightarrow> string \<Rightarrow> (string \<times> any) list" where
  "DecodeJWTPayload b64url json jwt =
     (let parts = split_on (CHR ''.'') jwt
      in if length parts < 2 then []
         else let payload = parts ! 1;
                  r = length payload mod 4;
                  padded = (if r \<noteq> 0 then payload @ replicate (4 - r) (CHR ''='') else payload)
              in case b64url padded of None \<Rightarrow> []
                 | Some d \<Rightarrow> (case json d of None \<Rightarrow> [] | Some claims \<Rightarrow> claims))"

definition provider_codes :: "string list" where
  "provider_codes = [''invalid_grant'', ''invalid_client'', ''invalid_request'', ''unauthorized_client'', ''access_denied'']"

definition safeProviderReason :: "(string \<Rightarrow> (string \<times> string) option) \<Rightarrow> string \<Rightarrow> string" where
  "safeProviderReason parse body =
     (case parse body of None \<Rightarrow> []
      | Some (code0, err) \<Rightarrow>
          (let code1 = (if code0 = [] then err else code0)
           in if code1 = [] then []
              else if code1 \<in> set provider_codes then '': '' @ code1 else []))"

section \<open>Persisting account fields\<close>

definition copy_fields :: "Account \<Rightarrow> bool \<Rightarrow> bool \<Rightarrow> bool \<Rightarrow> Account \<Rightarrow> Account" where
  "copy_fields account updateTokens updateStatus updateQuota stored =
     (let s1 = (if updateTokens then
                  (let t1 = stored\<lparr>AccessToken := AccessToken account\<rparr>;
                       t2 = (if RefreshToken account \<noteq> [] then t1\<lparr>RefreshToken := RefreshToken account\<rparr> else t1);
                       t3 = t2\<lparr>TokenExpiry := TokenExpiry account, UpdatedAt := UpdatedAt account\<rparr>
                   in if IDToken account \<noteq> [] then t3\<lparr>IDToken := IDToken account\<rparr> else t3)
                else stored);
          s2 = (if updateStatus
                then s1\<lparr>Status := Status account, ValidationURL := ValidationURL account,
                        RateLimitedUntil := RateLimitedUntil account\<rparr>
                else s1)
      in if updateQuota then s2\<lparr>LastQuota := LastQuota account\<rparr> else s2)"

definition persist_fields :: "Account \<Rightarrow> bool \<Rightarrow> bool \<Rightarrow> bool \<Rightarrow> unit mutator" where
  "persist_fields account ut us uq pool =
     (case FindAccount pool account of
        None \<Rightarrow> Inl (ErrNew (''account does not exist in pool: '' @ ID account))
      | Some _ \<Rightarrow> Inr ((), update_account account (copy_fields account ut us uq) pool))"

definition PersistAccountFields ::
  "gerror option \<Rightarrow> Account \<Rightarrow> bool \<Rightarrow> bool \<Rightarrow> bool \<Rightarrow> store \<Rightarrow> (gerror + unit) \<times> store" where
  "PersistAccountFields failure account ut us uq = PoolTransaction failure (persist_fields account ut us uq)"

section \<open>Token refresh\<close>

definition ErrInvalidCredentials :: gerror where
  "ErrInvalidCredentials = ErrNew ''account credentials rejected''"

record refresh_env =
  now_first :: int
  now_locked :: int
  lock_failure :: "gerror option"
  load_failure :: "gerror option"
  others_before :: "Pool \<Rightarrow> Pool" \<comment> \<open>other processes, before the pool is read\<close>
  others_during :: "Pool \<Rightarrow> Pool" \<comment> \<open>other processes, during the request\<close>
  token_reply :: "string \<Rightarrow> gerror + (int \<times> (gerror + string))" \<comment> \<open>by refresh token: status and body\<close>
  rejection_field :: "string \<Rightarrow> string"
  envelope_field :: "string \<Rightarrow> (string \<times> string) option"
  token_fields :: "string \<Rightarrow> gerror + (string \<times> string \<times> float64)"
  write_failure :: "gerror option"

definition valid_for_two_minutes :: "Account \<Rightarrow> int \<Rightarrow> bool" where
  "valid_for_two_minutes account now =
     (AccessToken account \<noteq> [] \<and>
      (case TokenExpiry account of None \<Rightarrow> False | Some x \<Rightarrow> flt (Fin 120) (fsub x (f_of_int now))))"

definition adopt_stored :: "Account \<Rightarrow> Account \<Rightarrow> Account" where
  "adopt_stored stored account =
     (let a1 = (if AccessToken stored \<noteq> [] then account\<lparr>AccessToken := AccessToken stored\<rparr> else account);
          a2 = (if RefreshToken stored \<noteq> [] then a1\<lparr>RefreshToken := RefreshToken stored\<rparr> else a1);
          a3 = (if TokenExpiry stored \<noteq> None then a2\<lparr>TokenExpiry := TokenExpiry stored\<rparr> else a2);
          a4 = (if UpdatedAt stored \<noteq> None then a3\<lparr>UpdatedAt := UpdatedAt stored\<rparr> else a3)
      in if IDToken stored \<noteq> [] then a4\<lparr>IDToken := IDToken stored\<rparr> else a4)"

definition store_tokens :: "Account \<Rightarrow> string \<Rightarrow> string \<Rightarrow> unit mutator" where
  "store_tokens account rf expected pool =
     (case FindAccount pool account of
        None \<Rightarrow> Inl (ErrNew ''credentials changed during token refresh'')
      | Some stored \<Rightarrow>
          if RefreshToken stored \<noteq> rf \<or> AccessToken stored \<noteq> expected
          then Inl (ErrNew ''credentials changed during token refresh'')
          else Inr ((), update_account account
                 (\<lambda>a. a\<lparr>AccessToken := AccessToken account, RefreshToken := RefreshToken account,
                        TokenExpiry := TokenExpiry account, UpdatedAt := UpdatedAt account\<rparr>) pool))"

text \<open>The result of a refresh: the token or the error, the caller's account, and the store.\<close>

type_synonym refresh_result = "(gerror + string) \<times> Account \<times> store"

definition count :: "(Metrics \<Rightarrow> Metrics) \<Rightarrow> store \<Rightarrow> store" where
  "count f s = s\<lparr>smetrics := f (smetrics s)\<rparr>"

definition received :: "refresh_env \<Rightarrow> string \<Rightarrow> string \<Rightarrow> float64 \<Rightarrow> Account \<Rightarrow> Account" where
  "received env tok rt expires account =
     (let expiresIn = (if fle expires (Fin 0) then Fin 3600 else expires);
          a1 = account\<lparr>AccessToken := tok\<rparr>;
          a2 = (if rt \<noteq> [] then a1\<lparr>RefreshToken := rt\<rparr> else a1)
      in a2\<lparr>TokenExpiry := Some (fadd (f_of_int (now_locked env)) expiresIn),
            UpdatedAt := Some (now_locked env)\<rparr>)"

definition accept_tokens :: "refresh_env \<Rightarrow> Account \<Rightarrow> string \<Rightarrow> string \<times> string \<times> float64 \<Rightarrow> store \<Rightarrow> refresh_result" where
  "accept_tokens env account rf res s =
     (case res of (tok, rt, expires) \<Rightarrow>
       (if tok = [] then (Inl (ErrNew ''Token refresh failed: No access_token returned''), account, count RecordAuthRefreshFailure s)
        else
          let a3 = received env tok rt expires account
          in case PoolTransaction (write_failure env) (store_tokens a3 rf (AccessToken account))
                    (s\<lparr>spool := others_during env (spool s)\<rparr>) of
               (Inl e, s1) \<Rightarrow> (Inl (ErrWrap ''failed to persist refreshed tokens'' e), account, s1)
             | (Inr _, s1) \<Rightarrow> (Inr tok, a3, count RecordAuthRefreshSuccess s1)))"

definition request_tokens :: "refresh_env \<Rightarrow> Account \<Rightarrow> store \<Rightarrow> refresh_result" where
  "request_tokens env account s =
     (let s1 = count RecordAuthRefreshAttempt s; rf = RefreshToken account
      in case token_reply env rf of
           Inl e \<Rightarrow> (Inl (ErrWrap ''token refresh network request failed'' e), account, count RecordAuthRefreshFailure s1)
         | Inr (status, Inl e) \<Rightarrow> (Inl (ErrWrap ''failed to read token refresh response'' e), account, count RecordAuthRefreshFailure s1)
         | Inr (status, Inr body) \<Rightarrow>
             if status < 200 \<or> 300 \<le> status then
               (if status = 400 \<and> rejection_field env body = ''invalid_grant''
                then (Inl (ErrWrap ''invalid_grant'' ErrInvalidCredentials), account, count RecordAuthRefreshFailure s1)
                else (Inl (ErrNew (''token refresh failed'' @ safeProviderReason (envelope_field env) body)), account,
                      count RecordAuthRefreshFailure s1))
             else (case token_fields env body of
                     Inl e \<Rightarrow> (Inl (ErrWrap ''failed to parse token refresh JSON'' e), account, count RecordAuthRefreshFailure s1)
                   | Inr res \<Rightarrow> accept_tokens env account rf res s1))"

definition refresh_locked :: "refresh_env \<Rightarrow> Account \<Rightarrow> store \<Rightarrow> refresh_result" where
  "refresh_locked env account s0 =
     (let s = s0\<lparr>spool := others_before env (spool s0)\<rparr>
      in case load_failure env of
           Some e \<Rightarrow> (Inl (ErrWrap ''failed to load pool state'' e), account, s)
         | None \<Rightarrow>
             (case FindAccount (spool s) account of
                None \<Rightarrow> (Inl (ErrNew (''account not found: '' @ ID account)), account, s)
              | Some stored \<Rightarrow>
                  let acc = adopt_stored stored account
                  in if valid_for_two_minutes acc (now_locked env) then (Inr (AccessToken acc), acc, s)
                     else if RefreshToken acc = [] then (Inl (ErrWrap ''missing refresh_token'' ErrInvalidCredentials), acc, s)
                     else request_tokens env acc s))"

definition RefreshToken_op :: "refresh_env \<Rightarrow> Account option \<Rightarrow> store \<Rightarrow> (gerror + string) \<times> Account option \<times> store" where
  "RefreshToken_op env account s =
     (case account of
        None \<Rightarrow> (Inl (ErrNew ''nil account''), None, s)
      | Some a \<Rightarrow>
          if valid_for_two_minutes a (now_first env) then (Inr (AccessToken a), Some a, s)
          else if RefreshToken a = [] then (Inl (ErrWrap ''missing refresh_token'' ErrInvalidCredentials), Some a, s)
          else case lock_failure env of
                 Some e \<Rightarrow> (Inl e, Some a, s)
               | None \<Rightarrow> (case refresh_locked env a s of (r, a1, s1) \<Rightarrow> (r, Some a1, s1)))"

section \<open>Facts\<close>

lemma spool_count [simp]: "spool (count f s) = spool s"
  by (simp add: count_def)

lemma pool_wf_persist_fields: "persist_fields account ut us uq p = Inr (r, q) \<Longrightarrow> pool_wf p \<Longrightarrow> pool_wf q"
  by (auto simp: persist_fields_def copy_fields_def Let_def intro!: pool_wf_update_account split: option.splits)

lemma pool_wf_store_tokens: "store_tokens account rf x p = Inr (r, q) \<Longrightarrow> pool_wf p \<Longrightarrow> pool_wf q"
  by (auto simp: store_tokens_def intro!: pool_wf_update_account split: option.splits if_splits)

definition new_tokens :: "Account \<Rightarrow> Account \<Rightarrow> Account" where
  "new_tokens b a = a\<lparr>AccessToken := AccessToken b, RefreshToken := RefreshToken b,
      TokenExpiry := TokenExpiry b, UpdatedAt := UpdatedAt b\<rparr>"

lemma store_tokens_Inr:
  "store_tokens b rf x p = Inr (u, q) \<Longrightarrow>
     \<exists>stored. FindAccount p b = Some stored \<and> RefreshToken stored = rf \<and> AccessToken stored = x
       \<and> q = update_account b (new_tokens b) p"
  by (auto simp: store_tokens_def new_tokens_def [abs_def] split: option.splits if_splits)

lemma accept_tokens_cases:
  assumes "accept_tokens env account rf res s = (r, b, s')"
  shows "(\<exists>e. r = Inl e) \<and> b = account \<and> spool s' \<in> {spool s, others_during env (spool s)}
       \<or> (\<exists>stored. r = Inr (AccessToken b) \<and> AccessToken b \<noteq> []
           \<and> FindAccount (others_during env (spool s)) b = Some stored \<and> RefreshToken stored = rf
           \<and> AccessToken stored = AccessToken account
           \<and> spool s' = update_account b (new_tokens b) (others_during env (spool s)))"
proof -
  obtain tok rt expires where res: "res = (tok, rt, expires)" by (cases res)
  define b1 where "b1 = received env tok rt expires account"
  have b1: "AccessToken b1 = tok" by (simp add: b1_def received_def Let_def)
  show ?thesis
  proof (cases "tok = []")
    case True
    then show ?thesis using assms by (auto simp: accept_tokens_def res)
  next
    case False
    let ?tx = "PoolTransaction (write_failure env) (store_tokens b1 rf (AccessToken account))
        (s\<lparr>spool := others_during env (spool s)\<rparr>)"
    have eq: "accept_tokens env account rf res s =
        (case ?tx of (Inl e, s1) \<Rightarrow> (Inl (ErrWrap ''failed to persist refreshed tokens'' e), account, s1)
                   | (Inr _, s1) \<Rightarrow> (Inr tok, b1, count RecordAuthRefreshSuccess s1))"
      unfolding b1_def using False by (simp add: accept_tokens_def res Let_def)
    show ?thesis
      using pool_tx.all_or_nothing [of "write_failure env" "store_tokens b1 rf (AccessToken account)"
          "s\<lparr>spool := others_during env (spool s)\<rparr>"] assms False b1
      unfolding eq by (cases ?tx) (auto dest!: store_tokens_Inr)
  qed
qed

section \<open>Properties\<close>

text \<open>C21: A token refresh writes to the pool only through a compare-and-set: if it changes the
  pool, the request succeeded with a 2xx answer for the refresh token that is stored at the time of
  the write, only the four token fields of that account change, and the token returned is the one
  stored; on every other path the pool is left as the other processes made it.\<close>

theorem refresh_compare_and_set:
  assumes "RefreshToken_op env (Some a) s = (r, acc, s')"
  shows "spool s' \<in> {spool s, others_before env (spool s), others_during env (others_before env (spool s))}
       \<or> (\<exists>b stored status body. acc = Some b \<and> r = Inr (AccessToken b)
           \<and> FindAccount (others_during env (others_before env (spool s))) b = Some stored
           \<and> token_reply env (RefreshToken stored) = Inr (status, Inr body) \<and> 200 \<le> status \<and> status < 300
           \<and> spool s' = update_account b (new_tokens b) (others_during env (others_before env (spool s))))"
  using assms
  by (auto simp: RefreshToken_op_def refresh_locked_def request_tokens_def Let_def
      split: if_splits option.splits prod.splits sum.splits
      dest!: accept_tokens_cases)


definition demo_refresh :: refresh_env where
  "demo_refresh = \<lparr>now_first = 0, now_locked = 0, lock_failure = None, load_failure = None,
     others_before = id, others_during = id, token_reply = (\<lambda>rt. Inr (200, Inr rt)),
     rejection_field = (\<lambda>b. []), envelope_field = (\<lambda>b. None),
     token_fields = (\<lambda>b. Inr (''fresh'', [], Fin 0)), write_failure = None\<rparr>"

definition demo_account :: Account where
  "demo_account = zero_account\<lparr>ID := ''acc_1'', RefreshToken := ''rt''\<rparr>"

definition demo_store :: store where
  "demo_store = \<lparr>spool = NewEmptyPool\<lparr>Accounts := [demo_account]\<rparr>, smetrics = Reset_metrics\<rparr>"

theorem refresh_compare_and_set_witness:
  "\<exists>b. fst (snd (RefreshToken_op demo_refresh (Some demo_account) demo_store)) = Some b
     \<and> spool (snd (snd (RefreshToken_op demo_refresh (Some demo_account) demo_store)))
       = update_account b (new_tokens b) (spool demo_store)
     \<and> fst (RefreshToken_op demo_refresh (Some demo_account) demo_store) = Inr ''fresh''"
proof -
  obtain r acc s' where eq: "RefreshToken_op demo_refresh (Some demo_account) demo_store = (r, acc, s')"
    by (metis prod_cases3)
  have run: "r = Inr ''fresh''" "spool s' \<noteq> spool demo_store"
    using eq
    by (simp_all add: RefreshToken_op_def refresh_locked_def request_tokens_def accept_tokens_def received_def
        demo_refresh_def demo_account_def demo_store_def zero_account_def valid_for_two_minutes_def adopt_stored_def
        FindAccount_def same_account_def store_tokens_def PoolTransaction_def count_def update_account_def
        NewEmptyPool_def Let_def)
      (auto simp: demo_account_def zero_account_def)
  have "others_before demo_refresh = id" "others_during demo_refresh = id" by (simp_all add: demo_refresh_def)
  then show ?thesis using refresh_compare_and_set [OF eq] run eq by auto
qed

end
