(* ===== verification/Stable_Sort.thy ===== *)
theory Stable_Sort
  imports Prelude
begin

text \<open>
  sort.SliceStable with a comparison function: the insertion sort it runs on blocks of up
  to 20 elements, which is also its result on longer slices whenever the comparison is a
  strict weak order. The interface \<open>weak_order_on\<close> states what a comparison owes the
  sort; under it the result is ordered and elements that compare equal keep their order.
\<close>

fun ins_right :: "('a \<Rightarrow> 'a \<Rightarrow> bool) \<Rightarrow> 'a \<Rightarrow> 'a list \<Rightarrow> 'a list" where
  "ins_right before x [] = [x]"
| "ins_right before x (y # ys) = (if before x y then y # ins_right before x ys else x # y # ys)"

definition slice_stable :: "('a \<Rightarrow> 'a \<Rightarrow> bool) \<Rightarrow> 'a list \<Rightarrow> 'a list" where
  "slice_stable before xs = rev (foldl (\<lambda>acc x. ins_right before x acc) [] xs)"

lemma mset_ins_right: "mset (ins_right before x ys) = add_mset x (mset ys)"
  by (induction ys) auto

lemma set_ins_right [simp]: "set (ins_right before x ys) = insert x (set ys)"
  by (induction ys) auto

lemma mset_foldl_ins_right:
  "mset (foldl (\<lambda>acc x. ins_right before x acc) acc xs) = mset acc + mset xs"
  by (induction xs arbitrary: acc) (simp_all add: mset_ins_right)

lemma mset_slice_stable [simp]: "mset (slice_stable before xs) = mset xs"
  by (simp add: slice_stable_def mset_foldl_ins_right)

lemma set_slice_stable [simp]: "set (slice_stable before xs) = set xs"
  by (metis mset_slice_stable set_mset_mset)

lemma length_slice_stable [simp]: "length (slice_stable before xs) = length xs"
  by (metis mset_slice_stable size_mset)

lemma distinct_slice_stable [simp]: "distinct (slice_stable before xs) = distinct xs"
  by (metis mset_slice_stable distinct_count_atmost_1 set_mset_mset)

text \<open>A comparison that puts one part of the elements before the rest sorts the parts apart.\<close>

lemma ins_right_first:
  "(\<And>y. y \<in> set ns \<Longrightarrow> before x y) \<Longrightarrow> ins_right before x (ns @ ps) = ns @ ins_right before x ps"
  by (induction ns) auto

lemma ins_right_second:
  "(\<And>y. y \<in> set ps \<Longrightarrow> \<not> before x y) \<Longrightarrow> ins_right before x (ns @ ps) = ins_right before x ns @ ps"
proof (induction ns)
  case Nil
  then show ?case by (cases ps) auto
qed auto

lemma foldl_ins_right_parts:
  assumes "\<And>x y. x \<in> A \<Longrightarrow> y \<in> A \<Longrightarrow> P x \<Longrightarrow> \<not> P y \<Longrightarrow> before x y \<and> \<not> before y x"
    "set xs \<subseteq> A" "set ps \<subseteq> A" "set ns \<subseteq> A" "\<forall>x \<in> set ps. P x" "\<forall>y \<in> set ns. \<not> P y"
  shows "foldl (\<lambda>acc x. ins_right before x acc) (ns @ ps) xs
       = foldl (\<lambda>acc x. ins_right before x acc) ns (filter (\<lambda>x. \<not> P x) xs)
         @ foldl (\<lambda>acc x. ins_right before x acc) ps (filter P xs)"
  using assms(2-)
proof (induction xs arbitrary: ns ps)
  case (Cons x xs)
  show ?case
  proof (cases "P x")
    case True
    have "ins_right before x (ns @ ps) = ns @ ins_right before x ps"
      using assms(1) True Cons.prems by (intro ins_right_first) auto
    then show ?thesis using True Cons.IH [of "ins_right before x ps" ns] Cons.prems by simp
  next
    case False
    have "ins_right before x (ns @ ps) = ins_right before x ns @ ps"
      using assms(1) False Cons.prems by (intro ins_right_second) auto
    then show ?thesis using False Cons.IH [of ps "ins_right before x ns"] Cons.prems by simp
  qed
qed simp

lemma slice_stable_parts:
  assumes "\<And>x y. x \<in> set xs \<Longrightarrow> y \<in> set xs \<Longrightarrow> P x \<Longrightarrow> \<not> P y \<Longrightarrow> before x y \<and> \<not> before y x"
  shows "slice_stable before xs
       = slice_stable before (filter P xs) @ slice_stable before (filter (\<lambda>x. \<not> P x) xs)"
  using foldl_ins_right_parts [where A = "set xs" and P = P and before = before and ns = "[]" and ps = "[]", of xs]
    assms by (simp add: slice_stable_def)

lemma ins_right_cong:
  "(\<And>y. y \<in> set ys \<Longrightarrow> before x y = before' x y) \<Longrightarrow> ins_right before x ys = ins_right before' x ys"
  by (induction ys) auto

lemma slice_stable_cong:
  assumes "\<And>x y. x \<in> set xs \<Longrightarrow> y \<in> set xs \<Longrightarrow> before x y = before' x y"
  shows "slice_stable before xs = slice_stable before' xs"
proof -
  have "foldl (\<lambda>acc x. ins_right before x acc) acc zs = foldl (\<lambda>acc x. ins_right before' x acc) acc zs"
    if "set zs \<subseteq> set xs" "set acc \<subseteq> set xs" for acc zs
    using that
  proof (induction zs arbitrary: acc)
    case (Cons z zs)
    have "ins_right before z acc = ins_right before' z acc"
      using assms Cons.prems by (intro ins_right_cong) auto
    then show ?case using Cons by simp
  qed simp
  from this [of xs "[]"] show ?thesis by (simp add: slice_stable_def)
qed

lemma foldl_ins_right_False: "foldl (\<lambda>acc x. ins_right (\<lambda>a b. False) x acc) acc xs = rev xs @ acc"
proof (induction xs arbitrary: acc)
  case (Cons x xs)
  then show ?case by (cases acc) simp_all
qed simp

lemma slice_stable_False [simp]: "slice_stable (\<lambda>a b. False) xs = xs"
  by (simp add: slice_stable_def foldl_ins_right_False)

section \<open>The contract of a comparison\<close>

locale weak_order_on =
  fixes D :: "'a \<Rightarrow> bool" and before :: "'a \<Rightarrow> 'a \<Rightarrow> bool"
  assumes asym: "D x \<Longrightarrow> D y \<Longrightarrow> before x y \<Longrightarrow> \<not> before y x"
    and negtrans: "D x \<Longrightarrow> D y \<Longrightarrow> D z \<Longrightarrow> \<not> before x y \<Longrightarrow> \<not> before y z \<Longrightarrow> \<not> before x z"
begin

definition same :: "'a \<Rightarrow> 'a \<Rightarrow> bool" where
  "same x y \<longleftrightarrow> \<not> before x y \<and> \<not> before y x"

lemma ins_right_sorted:
  assumes "D x" "\<forall>y \<in> set ys. D y" "sorted_wrt (\<lambda>a b. \<not> before a b) ys"
  shows "sorted_wrt (\<lambda>a b. \<not> before a b) (ins_right before x ys)"
  using assms
proof (induction ys)
  case (Cons y ys)
  have D: "D y" "\<forall>z \<in> set ys. D z" "D x" using Cons.prems by simp_all
  show ?case
  proof (cases "before x y")
    case True
    then have "\<not> before y x" using asym D by blast
    then show ?thesis using True Cons by simp
  next
    case False
    then have "\<forall>z \<in> set ys. \<not> before x z" using negtrans [of x y] D Cons.prems(3) by simp
    then show ?thesis using False Cons.prems(3) by simp
  qed
qed simp

lemma ins_right_same:
  assumes "D c" "D x" "\<forall>y \<in> set ys. D y"
  shows "filter (same c) (ins_right before x ys) = filter (same c) (x # ys)"
  using assms
proof (induction ys)
  case (Cons y ys)
  show ?case
  proof (cases "before x y")
    case True
    then have "\<not> (same c x \<and> same c y)"
      using negtrans [of x c y] Cons.prems by (auto simp: same_def)
    then show ?thesis using True Cons by auto
  qed simp
qed simp

lemma foldl_sorted_same:
  assumes "\<forall>x \<in> set xs. D x" "\<forall>y \<in> set acc. D y" "sorted_wrt (\<lambda>a b. \<not> before a b) acc"
  shows "sorted_wrt (\<lambda>a b. \<not> before a b) (foldl (\<lambda>acc x. ins_right before x acc) acc xs)
       \<and> (D c \<longrightarrow> filter (same c) (foldl (\<lambda>acc x. ins_right before x acc) acc xs)
                   = rev (filter (same c) xs) @ filter (same c) acc)"
  using assms
proof (induction xs arbitrary: acc)
  case (Cons x xs)
  then show ?case
    using Cons.IH [of "ins_right before x acc"] ins_right_sorted [of x acc] ins_right_same [of c x acc]
    by auto
qed simp

lemma slice_stable_sorted:
  assumes "\<forall>x \<in> set xs. D x"
  shows "sorted_wrt (\<lambda>a b. \<not> before b a) (slice_stable before xs)"
  using foldl_sorted_same [OF assms, of "[]"] by (simp add: slice_stable_def sorted_wrt_rev)

lemma slice_stable_same:
  assumes "\<forall>x \<in> set xs. D x" "D c"
  shows "filter (same c) (slice_stable before xs) = filter (same c) xs"
  using foldl_sorted_same [OF assms(1), of "[]" c] assms(2)
  by (simp add: slice_stable_def flip: rev_filter)

end

text \<open>Comparisons built field by field: compare by the first field that differs.\<close>

definition lex_less :: "('a \<Rightarrow> 'a \<Rightarrow> bool) \<Rightarrow> ('a \<Rightarrow> 'a \<Rightarrow> bool) \<Rightarrow> ('a \<Rightarrow> 'a \<Rightarrow> bool) \<Rightarrow> 'a \<Rightarrow> 'a \<Rightarrow> bool"
  where "lex_less ne lt rest a b = (if ne a b then lt a b else rest a b)"

lemma weak_order_on_lex:
  assumes "weak_order_on D lt" "weak_order_on D rest"
    and ne: "\<And>a b. D a \<Longrightarrow> D b \<Longrightarrow> ne a b \<longleftrightarrow> lt a b \<or> lt b a"
  shows "weak_order_on D (lex_less ne lt rest)"
proof -
  note l = weak_order_on.asym [OF assms(1)] weak_order_on.negtrans [OF assms(1)]
  note r = weak_order_on.asym [OF assms(2)] weak_order_on.negtrans [OF assms(2)]
  show ?thesis
  proof
    fix x y assume "D x" "D y" "lex_less ne lt rest x y"
    then show "\<not> lex_less ne lt rest y x"
      using ne [of x y] ne [of y x] l(1) [of x y] r(1) [of x y] by (auto simp: lex_less_def split: if_splits)
  next
    fix x y z assume D: "D x" "D y" "D z"
      and n: "\<not> lex_less ne lt rest x y" "\<not> lex_less ne lt rest y z"
    have "\<not> lt x y" "\<not> lt y z" using n ne [OF D(1,2)] ne [OF D(2,3)] by (auto simp: lex_less_def split: if_splits)
    show "\<not> lex_less ne lt rest x z"
    proof (cases "ne x z")
      case True
      then show ?thesis using l(2) [OF D] \<open>\<not> lt x y\<close> \<open>\<not> lt y z\<close> by (simp add: lex_less_def)
    next
      case False
      then have "\<not> lt x z" "\<not> lt z x" using ne [OF D(1,3)] by simp_all
      then have "\<not> lt y x" "\<not> lt z y"
        using l(2) [OF D(2) D(3) D(1)] l(2) [OF D(3) D(1) D(2)]
          \<open>\<not> lt x y\<close> \<open>\<not> lt y z\<close> by simp_all
      then have "\<not> ne x y" "\<not> ne y z"
        using ne [OF D(1,2)] ne [OF D(2,3)] \<open>\<not> lt x y\<close> \<open>\<not> lt y z\<close> by simp_all
      then show ?thesis using False n r(2) [OF D] by (simp add: lex_less_def)
    qed
  qed
qed

lemma weak_order_on_key: "weak_order_on D (\<lambda>a b. (f a :: 'k :: linorder) < f b)"
  by unfold_locales auto

lemma weak_order_on_key_desc: "weak_order_on D (\<lambda>a b. (f b :: 'k :: linorder) < f a)"
  by unfold_locales auto

text \<open>Comparisons by stage: a rank first, then the comparison of the common stage.\<close>

lemma weak_order_on_staged:
  fixes st :: "'a \<Rightarrow> nat"
  assumes "\<And>n. weak_order_on (\<lambda>a. D a \<and> st a = n) (cmp n)"
  shows "weak_order_on D (\<lambda>a b. if st a \<noteq> st b then st a < st b else cmp (st a) a b)"
proof
  fix x y
  assume "D x" "D y" "if st x \<noteq> st y then st x < st y else cmp (st x) x y"
  then show "\<not> (if st y \<noteq> st x then st y < st x else cmp (st y) y x)"
    using weak_order_on.asym [OF assms [of "st x"], of x y] by (auto split: if_splits)
next
  fix x y z
  assume "D x" "D y" "D z"
    "\<not> (if st x \<noteq> st y then st x < st y else cmp (st x) x y)"
    "\<not> (if st y \<noteq> st z then st y < st z else cmp (st y) y z)"
  then show "\<not> (if st x \<noteq> st z then st x < st z else cmp (st x) x z)"
    using weak_order_on.negtrans [OF assms [of "st x"], of x y z] by (auto split: if_splits)
qed

lemma weak_order_on_subset: "weak_order_on D b \<Longrightarrow> (\<And>x. D' x \<Longrightarrow> D x) \<Longrightarrow> weak_order_on D' b"
  unfolding weak_order_on_def by blast

lemma weak_order_on_False: "weak_order_on D (\<lambda>a b. False)"
  by unfold_locales auto

end
