(* ===== verification/Accounts.thy ===== *)
theory Accounts
  imports Auth Stable_Sort
begin

text \<open>
  internal/accounts/accounts.go and login_identity.go: display names, target selectors, and the
  operations on the pool that also keep the native token file of the agy CLI in step with the
  active account. The state is the store and the account whose credentials the native file holds.
  Parameters: the token refresher, the writer of the native file, the quota prober, the decoders
  of tokens, and what other processes do to the pool between two accesses.
\<close>

section \<open>Names and selectors\<close>

definition isDigits :: "string \<Rightarrow> bool" where
  "isDigits s \<longleftrightarrow> s \<noteq> [] \<and> list_all is_digit s"

definition DisplayAccountName :: "Account option \<Rightarrow> string" where
  "DisplayAccountName account =
     (case account of None \<Rightarrow> ''Account'' | Some a \<Rightarrow>
       (let friendly = trim_space (Name a)
        in if friendly \<noteq> [] then friendly
           else let accountID = trim_space (ID a)
                in if has_prefix accountID ''acc_'' \<and> isDigits (drop 4 accountID)
                   then (case parse_int64 (drop 4 accountID) of
                           Some n \<Rightarrow> ''Account '' @ int_string n
                         | None \<Rightarrow> ''Account'')
                   else ''Account''))"

definition matches_target :: "string \<Rightarrow> Account \<Rightarrow> bool" where
  "matches_target t a \<longleftrightarrow> ID a = t \<or> Email a = t \<or> Name a = t"

definition FindAccountByTarget :: "Account list \<Rightarrow> string \<Rightarrow> Account option" where
  "FindAccountByTarget accounts target =
     (let t = trim_space target
      in if t = [] then None
         else case (if isDigits t then parse_int64 t else None) of
           Some idx \<Rightarrow> (if 0 \<le> idx - 1 \<and> idx - 1 < int (length accounts) then Some (accounts ! nat (idx - 1)) else None)
         | None \<Rightarrow> List.find (matches_target t) accounts)"

section \<open>Synchronisation with the native token file\<close>

record aworld =
  wstore :: store
  wnative :: "Account option"

record account_env =
  unix_now :: int
  refresher :: "Account \<Rightarrow> store \<Rightarrow> (gerror + string) \<times> Account \<times> store"
  write_native :: "Account \<Rightarrow> gerror option"
  prober :: "(Pool \<Rightarrow> Pool) option"
  load_error :: "nat \<Rightarrow> gerror option"
  between :: "Pool \<Rightarrow> Pool"
  tx_error :: "gerror option"

definition needs_refresh :: "int \<Rightarrow> Account \<Rightarrow> bool" where
  "needs_refresh now a \<longleftrightarrow> AccessToken a = [] \<or>
     (case TokenExpiry a of None \<Rightarrow> True | Some x \<Rightarrow> fle (fsub x (f_of_int now)) (Fin 120))"

definition syncAccountToAgy :: "account_env \<Rightarrow> Account \<Rightarrow> aworld \<Rightarrow> gerror option \<times> aworld" where
  "syncAccountToAgy env account w =
     (let (r, a1, s1) = (if needs_refresh (unix_now env) account then refresher env account (wstore w)
                         else (Inr [], account, wstore w));
          w1 = w\<lparr>wstore := s1\<rparr>
      in case r of
           Inl e \<Rightarrow> (Some (ErrWrap (''failed to refresh account '' @ ID account) e), w1)
         | Inr _ \<Rightarrow> (case write_native env a1 of
                       Some e \<Rightarrow> (Some (ErrWrap (''failed to write native agy token for account '' @ ID account) e), w1)
                     | None \<Rightarrow> (None, w1\<lparr>wnative := Some a1\<rparr>)))"

definition join_errors :: "gerror \<Rightarrow> gerror option \<Rightarrow> gerror" where
  "join_errors e r = (case r of None \<Rightarrow> e | Some x \<Rightarrow> ErrWrap ''restore native identity'' e)"

section \<open>Removing an account\<close>

definition remove_from_pool :: "string \<Rightarrow> Account mutator" where
  "remove_from_pool target pool =
     (case FindAccountByTarget (Accounts pool) target of
        None \<Rightarrow> Inl (ErrNew (''account not found: '' @ target))
      | Some found \<Rightarrow>
          (let rest = filter (\<lambda>a. ID a \<noteq> ID found) (Accounts pool);
               p1 = pool\<lparr>Accounts := rest\<rparr>;
               p2 = (if ActiveAccountID p1 = Some (ID found)
                     then p1\<lparr>ActiveAccountID := (case rest of [] \<Rightarrow> None | a # as \<Rightarrow> Some (ID a))\<rparr> else p1);
               p3 = (if RoundRobinLastAccountID p2 = Some (ID found)
                     then p2\<lparr>RoundRobinLastAccountID := None\<rparr> else p2)
           in Inr (found, p3)))"

definition replacement_for :: "Pool \<Rightarrow> Account \<Rightarrow> Account option" where
  "replacement_for pool found =
     (if ActiveAccountID pool = Some (ID found)
      then List.find (\<lambda>c. ID c \<noteq> ID found) (Accounts pool) else None)"

definition removeAccountLocked :: "account_env \<Rightarrow> string \<Rightarrow> aworld \<Rightarrow> (gerror + Account) \<times> aworld" where
  "removeAccountLocked env target w =
     (case load_error env 0 of Some e \<Rightarrow> (Inl e, w) | None \<Rightarrow>
      (case FindAccountByTarget (Accounts (spool (wstore w))) target of
         None \<Rightarrow> (Inl (ErrNew (''account not found: '' @ target)), w)
       | Some found \<Rightarrow>
           (let replacement = replacement_for (spool (wstore w)) found;
                (serr, w1) = (case replacement of None \<Rightarrow> (None, w) | Some r \<Rightarrow> syncAccountToAgy env r w)
            in case serr of
                 Some e \<Rightarrow> (Inl (ErrWrap ''cannot remove active account: replacement synchronization failed'' e), w1)
               | None \<Rightarrow>
                   (let st = wstore w1;
                        (r, st1) = PoolTransaction (tx_error env) (remove_from_pool target)
                                     (st\<lparr>spool := between env (spool st)\<rparr>);
                        w2 = w1\<lparr>wstore := st1\<rparr>
                    in case r of
                         Inr removed \<Rightarrow> (Inr removed, w2)
                       | Inl e \<Rightarrow>
                           (if replacement \<noteq> None
                            then (let (rb, w3) = syncAccountToAgy env found w2 in (Inl (join_errors e rb), w3))
                            else (Inl e, w2))))))"

section \<open>Switching the active account\<close>

definition switch_score :: "float64 \<Rightarrow> Account \<Rightarrow> int \<times> float64" where
  "switch_score now a =
     (if Status a = ''validation_required'' \<or> Status a = ''auth_error'' then (- 2, Fin 0)
      else if (case RateLimitedUntil a of None \<Rightarrow> False | Some u \<Rightarrow> flt now u) then (- 1, Fin 0)
      else (1, case LastQuota a of None \<Rightarrow> Fin 0 | Some q \<Rightarrow>
                 (case RemainingFraction q of None \<Rightarrow> Fin 0 | Some f \<Rightarrow> f)))"

definition better_candidate :: "float64 \<Rightarrow> Account \<Rightarrow> Account \<Rightarrow> bool" where
  "better_candidate now candidate selected =
     (let (bestTier, bestFrac) = switch_score now selected;
          (candidateTier, candidateFrac) = switch_score now candidate
      in candidateTier > bestTier \<or> (candidateTier = bestTier \<and> flt bestFrac candidateFrac))"

definition auto_select :: "float64 \<Rightarrow> Account list \<Rightarrow> Account option" where
  "auto_select now accounts =
     (case accounts of
        [] \<Rightarrow> None
      | a # as \<Rightarrow> Some (foldl (\<lambda>sel c. if better_candidate now c sel then c else sel) a as))"

definition activate :: "string \<Rightarrow> unit mutator" where
  "activate i p =
     (case FindAccountByTarget (Accounts p) i of
        None \<Rightarrow> Inl (ErrNew (''account no longer exists: '' @ i))
      | Some current \<Rightarrow> Inr ((), p\<lparr>ActiveAccountID := Some (ID current)\<rparr>))"

definition switchAccountLocked :: "account_env \<Rightarrow> string \<Rightarrow> aworld \<Rightarrow> (gerror + Account) \<times> aworld" where
  "switchAccountLocked env target w0 =
     (case load_error env 0 of Some e \<Rightarrow> (Inl e, w0) | None \<Rightarrow>
      if Accounts (spool (wstore w0)) = [] then (Inl (ErrNew ''account pool is empty''), w0)
      else
        let isAuto = (target = [] \<or> target = ''auto'');
            probing = isAuto \<and> prober env \<noteq> None;
            w = (if probing then w0\<lparr>wstore := (wstore w0)\<lparr>spool := the (prober env) (spool (wstore w0))\<rparr>\<rparr> else w0)
        in case (if probing then load_error env 1 else None) of Some e \<Rightarrow> (Inl e, w) | None \<Rightarrow>
           (let pool = spool (wstore w);
                selected = (if isAuto then auto_select (f_of_int (unix_now env)) (Accounts pool)
                            else FindAccountByTarget (Accounts pool) target);
                previous = (case ActiveAccountID pool of None \<Rightarrow> None
                            | Some i \<Rightarrow> FindAccountByTarget (Accounts pool) i)
            in case selected of
                 None \<Rightarrow> (Inl (ErrNew (''account not found: '' @ target)), w)
               | Some sel \<Rightarrow>
                   (case syncAccountToAgy env sel w of
                      (Some e, w1) \<Rightarrow> (Inl e, w1)
                    | (None, w1) \<Rightarrow>
                        (let st = wstore w1;
                             (r, st1) = PoolTransaction (tx_error env) (activate (ID sel))
                                          (st\<lparr>spool := between env (spool st)\<rparr>);
                             w2 = w1\<lparr>wstore := st1\<rparr>
                         in case r of
                              Inr _ \<Rightarrow> (Inr sel, w2)
                            | Inl e \<Rightarrow>
                                (case previous of
                                   None \<Rightarrow> (Inl e, w2)
                                 | Some p \<Rightarrow> (let (rb, w3) = syncAccountToAgy env p w2 in (Inl (join_errors e rb), w3)))))))"

section \<open>Renaming, importing and logging in\<close>

definition rename_in_pool :: "string \<Rightarrow> string \<Rightarrow> Account mutator" where
  "rename_in_pool target name pool =
     (case FindAccountByTarget (Accounts pool) target of
        None \<Rightarrow> Inl (ErrNew (''account not found: '' @ target))
      | Some found \<Rightarrow> Inr (found\<lparr>Name := name\<rparr>,
          pool\<lparr>Accounts := update_first (\<lambda>a. a = found) (\<lambda>a. a\<lparr>Name := name\<rparr>) (Accounts pool)\<rparr>))"

definition RenameAccount :: "gerror option \<Rightarrow> string \<Rightarrow> string \<Rightarrow> store \<Rightarrow> (gerror + Account) \<times> store" where
  "RenameAccount failure target newName s =
     (let name = trim_space newName
      in if name = [] then (Inl (ErrNew ''account name cannot be empty''), s)
         else PoolTransaction failure (rename_in_pool target name) s)"

record credentials =
  c_email :: string
  c_access :: string
  c_refresh :: string
  c_id :: string

definition import_account :: "credentials \<Rightarrow> int \<Rightarrow> Account mutator" where
  "import_account c now pool =
     (let upd = (\<lambda>a. a\<lparr>RefreshToken := c_refresh c, AccessToken := c_access c, TokenExpiry := Some (Fin 0),
                       IDToken := c_id c\<rparr>)
      in case List.find (\<lambda>a. Email a = c_email c) (Accounts pool) of
           Some a \<Rightarrow> Inr (upd a, pool\<lparr>Accounts := update_first (\<lambda>a. Email a = c_email c) upd (Accounts pool)\<rparr>)
         | None \<Rightarrow>
             (let acc = zero_account\<lparr>ID := NextAccountID (map Some (Accounts pool)), Email := c_email c,
                          RefreshToken := c_refresh c, AccessToken := c_access c, TokenExpiry := Some (Fin 0),
                          IDToken := c_id c, CreatedAt := Some now\<rparr>;
                  p1 = pool\<lparr>Accounts := Accounts pool @ [acc]\<rparr>
              in Inr (acc, if ActiveAccountID p1 = None then p1\<lparr>ActiveAccountID := Some (ID acc)\<rparr> else p1)))"

definition login_account :: "credentials \<Rightarrow> float64 \<Rightarrow> int \<Rightarrow> Account mutator" where
  "login_account c expiresIn now pool =
     (let expiryTS = fadd (f_of_int now) expiresIn;
          upd = (\<lambda>a. a\<lparr>RefreshToken := c_refresh c, AccessToken := c_access c, TokenExpiry := Some expiryTS,
                       IDToken := c_id c, UpdatedAt := Some now, Status := [], ValidationURL := None,
                       RateLimitedUntil := None\<rparr>)
      in case List.find (\<lambda>a. Email a = c_email c) (Accounts pool) of
           Some a \<Rightarrow> Inr (upd a, pool\<lparr>Accounts := update_first (\<lambda>a. Email a = c_email c) upd (Accounts pool)\<rparr>)
         | None \<Rightarrow>
             (let acc = zero_account\<lparr>ID := NextAccountID (map Some (Accounts pool)), Email := c_email c,
                          RefreshToken := c_refresh c, AccessToken := c_access c, TokenExpiry := Some expiryTS,
                          IDToken := c_id c, CreatedAt := Some now, UpdatedAt := Some now\<rparr>;
                  p1 = pool\<lparr>Accounts := Accounts pool @ [acc]\<rparr>
              in Inr (acc, if ActiveAccountID p1 = None then p1\<lparr>ActiveAccountID := Some (ID acc)\<rparr> else p1)))"

section \<open>Facts about the mutators\<close>

lemma FindAccountByTarget_in: "FindAccountByTarget as t = Some a \<Longrightarrow> a \<in> set as"
  by (auto simp: FindAccountByTarget_def Let_def dest: find_SomeD split: if_splits option.splits)

lemma map_filter_ID: "map ID (filter (\<lambda>a. ID a \<noteq> i) as) = filter (\<lambda>j. j \<noteq> i) (map ID as)"
  by (induction as) auto

lemma remove_from_pool_Inr:
  assumes "remove_from_pool target p = Inr (removed, q)"
  shows "FindAccountByTarget (Accounts p) target = Some removed
       \<and> Accounts q = filter (\<lambda>a. ID a \<noteq> ID removed) (Accounts p)
       \<and> ActiveAccountID q = (if ActiveAccountID p = Some (ID removed)
            then (case Accounts q of [] \<Rightarrow> None | a # as \<Rightarrow> Some (ID a)) else ActiveAccountID p)
       \<and> RoundRobinLastAccountID q = (if RoundRobinLastAccountID p = Some (ID removed) then None
            else RoundRobinLastAccountID p)"
  using assms by (auto simp: remove_from_pool_def Let_def split: option.splits)

lemma pool_wf_remove:
  assumes "remove_from_pool target p = Inr (removed, q)" "pool_wf p"
  shows "pool_wf q"
proof -
  note r = remove_from_pool_Inr [OF assms(1)]
  then have i: "ids q = filter (\<lambda>j. j \<noteq> ID removed) (ids p)" by (simp add: ids_def map_filter_ID)
  have "i \<in> set (ids q)" if "ActiveAccountID q = Some i" for i
  proof (cases "ActiveAccountID p = Some (ID removed)")
    case True
    then have a: "(case Accounts q of [] \<Rightarrow> None | a # as \<Rightarrow> Some (ID a)) = Some i" using r that by simp
    show ?thesis
    proof (cases "Accounts q")
      case (Cons b bs)
      then show ?thesis using a by (simp add: ids_def)
    qed (use a in simp)
  next
    case False
    then show ?thesis using r that pool_wf_active [OF assms(2), of i] i by auto
  qed
  then show ?thesis using assms(2) i by (auto simp: pool_wf_def split: option.splits)
qed

lemma pool_wf_activate: "activate i p = Inr (u, q) \<Longrightarrow> pool_wf p \<Longrightarrow> pool_wf q"
  by (auto simp: activate_def ids_def intro!: pool_wf_set_active dest: FindAccountByTarget_in
      split: option.splits)

lemma pool_wf_update_first:
  "(\<And>a. ID (f a) = ID a) \<Longrightarrow> pool_wf p \<Longrightarrow> pool_wf (p\<lparr>Accounts := update_first P f (Accounts p)\<rparr>)"
  by (rule pool_wf_same_ids) (auto simp: ids_def map_update_first pool_wf_def split: option.splits)

lemma pool_wf_rename: "rename_in_pool t n p = Inr (u, q) \<Longrightarrow> pool_wf p \<Longrightarrow> pool_wf q"
  by (auto simp: rename_in_pool_def intro!: pool_wf_update_first split: option.splits)

lemma NextAccountID_nonempty [simp]: "NextAccountID as \<noteq> []"
  using next_free_least [of 1 "used_ids as"] by (auto simp: NextAccountID_def account_id_def)

lemma pool_wf_add:
  assumes "pool_wf p" "ID acc = i" "i = NextAccountID (map Some (Accounts p))"
  shows "pool_wf (p\<lparr>Accounts := Accounts p @ [acc]\<rparr>)"
    "pool_wf (p\<lparr>Accounts := Accounts p @ [acc], ActiveAccountID := Some i\<rparr>)"
proof -
  have "i \<notin> set (ids p)"
  proof
    assume "i \<in> set (ids p)"
    then obtain a where "a \<in> set (Accounts p)" "ID a = i" by (auto simp: ids_def)
    then show False using NextAccountID_fresh [of a "Accounts p"] assms(3) by simp
  qed
  then show "pool_wf (p\<lparr>Accounts := Accounts p @ [acc]\<rparr>)"
    "pool_wf (p\<lparr>Accounts := Accounts p @ [acc], ActiveAccountID := Some i\<rparr>)"
    using assms NextAccountID_nonempty [of "map Some (Accounts p)"]
    by (auto simp: pool_wf_def ids_def simp del: NextAccountID_nonempty split: option.splits)
qed

lemma pool_wf_import: "import_account c now p = Inr (u, q) \<Longrightarrow> pool_wf p \<Longrightarrow> pool_wf q"
  by (auto simp: import_account_def Let_def intro!: pool_wf_update_first pool_wf_add
      split: option.splits if_splits)

lemma pool_wf_login: "login_account c x now p = Inr (u, q) \<Longrightarrow> pool_wf p \<Longrightarrow> pool_wf q"
  by (auto simp: login_account_def Let_def intro!: pool_wf_update_first pool_wf_add
      split: option.splits if_splits)

section \<open>Automatic selection\<close>

lemma switch_rank_weak_order:
  "weak_order_on (\<lambda>a. snd (switch_score now a) \<noteq> NaN) (better_candidate now)"
  by unfold_locales (auto simp: better_candidate_def case_prod_beta Let_def dest: flt_asym flt_negtrans)

interpretation switch_rank: weak_order_on "\<lambda>a. snd (switch_score now a) \<noteq> NaN" "better_candidate now" for now
  by (rule switch_rank_weak_order)

lemma foldl_best:
  assumes "\<forall>a \<in> insert s (set as). snd (switch_score now a) \<noteq> NaN"
  shows "foldl (\<lambda>sel c. if better_candidate now c sel then c else sel) s as \<in> insert s (set as)
       \<and> (\<forall>a \<in> insert s (set as). \<not> better_candidate now a
            (foldl (\<lambda>sel c. if better_candidate now c sel then c else sel) s as))"
  using assms
proof (induction as arbitrary: s)
  case Nil
  then show ?case using switch_rank.asym [where now = now and x = s and y = s] by auto
next
  case (Cons c as)
  define s' where "s' = (if better_candidate now c s then c else s)"
  define b where "b = foldl (\<lambda>sel c. if better_candidate now c sel then c else sel) s' as"
  have D: "\<forall>a \<in> insert s' (set as). snd (switch_score now a) \<noteq> NaN"
    using Cons.prems by (auto simp: s'_def)
  have b: "b \<in> insert s' (set as)" "\<forall>a \<in> insert s' (set as). \<not> better_candidate now a b"
    using Cons.IH [OF D] by (simp_all add: b_def)
  have nt: "\<not> better_candidate now x y \<Longrightarrow> \<not> better_candidate now y z \<Longrightarrow> \<not> better_candidate now x z"
    if "x \<in> {s, c, s', b}" "y \<in> {s, c, s', b}" "z \<in> {s, c, s', b}" for x y z
    using that switch_rank.negtrans [where now = now and x = x and y = y and z = z] Cons.prems D b by auto
  have "\<not> better_candidate now s s'" "\<not> better_candidate now c s'"
    using switch_rank.asym [where now = now and x = c and y = s] switch_rank.asym [where now = now and x = c and y = c]
      switch_rank.asym [where now = now and x = s and y = s] Cons.prems by (auto simp: s'_def)
  then have "\<not> better_candidate now s b" "\<not> better_candidate now c b"
    using nt [of s s' b] nt [of c s' b] b by auto
  moreover have "b \<in> insert s (set (c # as))" using b(1) by (auto simp: s'_def)
  ultimately show ?case using b by (simp add: s'_def b_def)
qed

section \<open>Properties\<close>

text \<open>Removing an account takes exactly the selected account out of the pool, keeps the others
  in order, moves the active account to the first one left when the active one went, and never
  leaves the active account or the round-robin cursor pointing at the removed one.\<close>

theorem remove_account_effect:
  assumes "remove_from_pool target p = Inr (removed, q)" "pool_wf p"
  shows "FindAccountByTarget (Accounts p) target = Some removed
       \<and> Accounts q = filter (\<lambda>a. a \<noteq> removed) (Accounts p)
       \<and> ActiveAccountID q \<noteq> Some (ID removed) \<and> RoundRobinLastAccountID q \<noteq> Some (ID removed)
       \<and> (ActiveAccountID q = None \<longleftrightarrow> ActiveAccountID p = None \<or> ActiveAccountID p = Some (ID removed) \<and> Accounts q = [])"
proof -
  note r = remove_from_pool_Inr [OF assms(1)]
  then have "removed \<in> set (Accounts p)" using FindAccountByTarget_in by blast
  then have "\<forall>a \<in> set (Accounts p). ID a = ID removed \<longrightarrow> a = removed"
    using assms(2) by (auto simp: pool_wf_def ids_def distinct_map inj_on_def)
  then have "Accounts q = filter (\<lambda>a. a \<noteq> removed) (Accounts p)"
    using r by (auto intro!: filter_cong)
  moreover have "ActiveAccountID q \<noteq> Some (ID removed)"
  proof (cases "Accounts q")
    case (Cons b bs)
    then have "b \<in> set (filter (\<lambda>a. ID a \<noteq> ID removed) (Accounts p))" using r by (metis list.set_intros(1))
    moreover from this have "ID b \<noteq> ID removed" by simp
    moreover have "ActiveAccountID q = (if ActiveAccountID p = Some (ID removed)
        then (case Accounts q of [] \<Rightarrow> None | a # as \<Rightarrow> Some (ID a)) else ActiveAccountID p)"
      using r by blast
    then have "ActiveAccountID q = (if ActiveAccountID p = Some (ID removed) then Some (ID b) else ActiveAccountID p)"
      unfolding Cons by simp
    ultimately show ?thesis by (auto split: if_splits)
  qed (use r in auto)
  ultimately show ?thesis using r by (auto split: list.splits)
qed

definition two_accounts :: Pool where
  "two_accounts = NewEmptyPool\<lparr>Accounts := [zero_account\<lparr>ID := ''acc_1'', Name := ''acc_2''\<rparr>, zero_account\<lparr>ID := ''acc_2''\<rparr>],
     ActiveAccountID := Some ''acc_2''\<rparr>"

lemma target_evals:
  "trim_space ''2'' = ''2''" "trim_space ''acc_2'' = ''acc_2''" "trim_space ''acc_1'' = ''acc_1''"
  "isDigits ''2''" "\<not> isDigits ''acc_2''" "\<not> isDigits ''acc_1''" "parse_int64 ''2'' = Some 2"
  by (simp_all add: trim_space_def leading_space_def space_seqs_def isDigits_def is_digit_def parse_int64_def
      digits_value_def go_simps)

theorem remove_account_effect_witness:
  "\<exists>q. remove_from_pool ''2'' two_accounts = Inr (zero_account\<lparr>ID := ''acc_2''\<rparr>, q)
     \<and> ActiveAccountID q \<noteq> Some ''acc_2''"
proof -
  obtain q where q: "remove_from_pool ''2'' two_accounts = Inr (zero_account\<lparr>ID := ''acc_2''\<rparr>, q)"
    by (simp add: remove_from_pool_def FindAccountByTarget_def target_evals two_accounts_def NewEmptyPool_def Let_def)
  moreover have "pool_wf two_accounts"
    by (simp add: pool_wf_def ids_def two_accounts_def NewEmptyPool_def)
  ultimately show ?thesis using remove_account_effect [OF q] by simp
qed

text \<open>Automatic switching selects an account of the pool that no other beats: none has a better
  tier, and none of the same tier has a larger remaining fraction.\<close>

theorem auto_select_best:
  assumes "\<forall>a \<in> set accounts. snd (switch_score now a) \<noteq> NaN" "accounts \<noteq> []"
  shows "\<exists>sel \<in> set accounts. auto_select now accounts = Some sel
       \<and> (\<forall>a \<in> set accounts. fst (switch_score now a) \<le> fst (switch_score now sel)
            \<and> (fst (switch_score now a) = fst (switch_score now sel)
                \<longrightarrow> fle (snd (switch_score now a)) (snd (switch_score now sel))))"
proof -
  obtain s as where as: "accounts = s # as" using assms(2) by (cases accounts) auto
  define b where "b = foldl (\<lambda>sel c. if better_candidate now c sel then c else sel) s as"
  have b: "b \<in> set accounts" "\<forall>a \<in> set accounts. \<not> better_candidate now a b"
    using foldl_best [of s as now] assms(1) by (simp_all add: as b_def)
  have "fst (switch_score now a) \<le> fst (switch_score now b)
      \<and> (fst (switch_score now a) = fst (switch_score now b)
          \<longrightarrow> fle (snd (switch_score now a)) (snd (switch_score now b)))" if "a \<in> set accounts" for a
  proof -
    have "\<not> better_candidate now a b" "snd (switch_score now a) \<noteq> NaN" "snd (switch_score now b) \<noteq> NaN"
      using b that assms(1) by auto
    then show ?thesis by (auto simp: better_candidate_def case_prod_beta not_flt_fle)
  qed
  then show ?thesis using b(1) by (intro bexI [of _ b]) (auto simp: auto_select_def as b_def)
qed

theorem auto_select_best_witness:
  "\<exists>sel. auto_select (Fin 0) (Accounts two_accounts) = Some sel"
  using auto_select_best [of "Accounts two_accounts" "Fin 0"]
  by (auto simp: two_accounts_def switch_score_def zero_account_def)

section \<open>Switching\<close>

text \<open>An identifier that selects only accounts that carry it as their ID.\<close>

definition unshadowed :: "Pool \<Rightarrow> string \<Rightarrow> bool" where
  "unshadowed p i \<longleftrightarrow> i \<noteq> [] \<and> trim_space i = i \<and> \<not> isDigits i
     \<and> list_all (\<lambda>a. matches_target i a = (ID a = i)) (Accounts p)"

lemma activate_unshadowed:
  assumes "activate i p = Inr (u, q)" "unshadowed p i"
  shows "ActiveAccountID q = Some i"
proof -
  obtain a where a: "FindAccountByTarget (Accounts p) i = Some a" "q = p\<lparr>ActiveAccountID := Some (ID a)\<rparr>"
    using assms(1) by (auto simp: activate_def split: option.splits)
  then have "List.find (matches_target i) (Accounts p) = Some a"
    using assms(2) by (simp add: FindAccountByTarget_def unshadowed_def)
  then have "a \<in> set (Accounts p)" "matches_target i a" by (simp_all add: find_SomeD)
  then have "ID a = i" using assms(2) by (auto simp: unshadowed_def list_all_iff)
  then show ?thesis using a by simp
qed

lemma syncAccountToAgy_ok:
  "syncAccountToAgy env a w = (None, w1) \<Longrightarrow>
     \<exists>b. wnative w1 = Some b \<and> (b = a \<or> (\<exists>r s. refresher env a (wstore w) = (Inr r, b, s)))"
  by (auto simp: syncAccountToAgy_def Let_def split: prod.splits sum.splits option.splits if_splits)

lemma switchAccountLocked_ok:
  assumes "switchAccountLocked env target w = (Inr sel, w')"
  shows "\<exists>w0 w1 p q. syncAccountToAgy env sel w0 = (None, w1) \<and> activate (ID sel) p = Inr ((), q)
      \<and> p = between env (spool (wstore w1)) \<and> spool (wstore w') = q \<and> wnative w' = wnative w1"
proof -
  have tx: "\<exists>q. activate (ID sel) p = Inr ((), q) \<and> spool st1 = q"
    if "PoolTransaction x (activate (ID sel)) (st\<lparr>spool := p\<rparr>) = (Inr u, st1)" for x st p u st1
    using pool_tx.success [of x "activate (ID sel)" "st\<lparr>spool := p\<rparr>" u] that by simp
  show ?thesis
    using assms
    by (auto simp: switchAccountLocked_def Let_def
        split: option.splits if_splits prod.splits sum.splits dest!: tx) blast+
qed

text \<open>When switching succeeds and no other account is named or addressed like the selected
  account's ID, the pool's active account is the one returned and the native token file holds the
  credentials of that same account.\<close>

theorem switch_account_consistent:
  assumes "switchAccountLocked env target w = (Inr sel, w')"
    and "\<And>a s r b s'. refresher env a s = (Inr r, b, s') \<Longrightarrow> ID b = ID a"
    and "\<And>p. unshadowed (between env p) (ID sel)"
  shows "ActiveAccountID (spool (wstore w')) = Some (ID sel) \<and> (\<exists>b. wnative w' = Some b \<and> ID b = ID sel)"
proof -
  obtain w0 w1 p q where w: "syncAccountToAgy env sel w0 = (None, w1)" "activate (ID sel) p = Inr ((), q)"
    "p = between env (spool (wstore w1))" "spool (wstore w') = q" "wnative w' = wnative w1"
    using switchAccountLocked_ok [OF assms(1)] by blast
  have "ActiveAccountID q = Some (ID sel)"
    using activate_unshadowed [OF w(2)] assms(3) w(3) by simp
  moreover obtain b where "wnative w1 = Some b" "b = sel \<or> (\<exists>r s. refresher env sel (wstore w0) = (Inr r, b, s))"
    using syncAccountToAgy_ok [OF w(1)] by blast
  ultimately show ?thesis using w assms(2) by fastforce
qed

definition calm_env :: account_env where
  "calm_env = \<lparr>unix_now = 0, refresher = (\<lambda>a s. (Inr ''tok'', a, s)), write_native = (\<lambda>a. None), prober = None,
     load_error = (\<lambda>n. None), between = id, tx_error = None\<rparr>"

definition two_world :: aworld where
  "two_world = \<lparr>wstore = \<lparr>spool = two_accounts, smetrics = Reset_metrics\<rparr>, wnative = None\<rparr>"

definition settled_env :: account_env where
  "settled_env = calm_env\<lparr>between := (\<lambda>p. NewEmptyPool\<lparr>Accounts := [zero_account\<lparr>ID := ''acc_2''\<rparr>]\<rparr>)\<rparr>"

lemmas switch_evals = switchAccountLocked_def FindAccountByTarget_def syncAccountToAgy_def needs_refresh_def
  activate_def PoolTransaction_def matches_target_def target_evals two_world_def two_accounts_def
  NewEmptyPool_def zero_account_def

theorem switch_account_consistent_witness:
  "ActiveAccountID (spool (wstore (snd (switchAccountLocked settled_env ''2'' two_world)))) = Some ''acc_2''"
proof -
  have "fst (switchAccountLocked settled_env ''2'' two_world) = Inr (zero_account\<lparr>ID := ''acc_2''\<rparr>)"
    by (simp add: switch_evals settled_env_def calm_env_def Let_def)
  then obtain w' where w: "switchAccountLocked settled_env ''2'' two_world = (Inr (zero_account\<lparr>ID := ''acc_2''\<rparr>), w')"
    by (metis prod.collapse)
  have "unshadowed (between settled_env p) ''acc_2''" for p
    by (simp add: unshadowed_def settled_env_def calm_env_def NewEmptyPool_def matches_target_def target_evals zero_account_def)
  then show ?thesis
    using switch_account_consistent [OF w] w by (simp add: settled_env_def calm_env_def)
qed


end
