(* ===== verification/Scheduler.thy ===== *)
theory Scheduler
  imports Quota Stable_Sort "HOL-Library.Char_ord" "HOL-Library.List_Lexorder"
begin

text \<open>
  internal/scheduler/scheduler.go: which accounts may serve a generation request and in which
  order they are tried. The comparisons are written as the source writes them; each is shown
  to be a strict weak order on accounts whose paces are not the float NaN, by interpreting the
  contract of \<open>Stable_Sort\<close>, so that the facts about sort.SliceStable apply. Go compares
  strings byte by byte, which is the order of \<open>List_Lexorder\<close> over \<open>Char_ord\<close>.
\<close>

section \<open>Tiers\<close>

definition FiveHourReserveFloor :: float64 where "FiveHourReserveFloor = fround (15 / 100)"
definition WeeklyReserveFloor :: float64 where "WeeklyReserveFloor = fround (10 / 100)"

definition at_or_below :: "float64 option \<Rightarrow> float64 \<Rightarrow> bool" where
  "at_or_below q limit = (case q of None \<Rightarrow> False | Some f \<Rightarrow> fle f limit)"

definition IsReserveCapacity :: "CapacityState \<Rightarrow> bool" where
  "IsReserveCapacity cap =
     (if IsDepleted cap then False
      else if Q5Known cap \<and> at_or_below (Q5 cap) FiveHourReserveFloor then True
      else if Q7Known cap \<and> at_or_below (Q7 cap) WeeklyReserveFloor then True
      else False)"

definition IsReserveCandidate :: "go_std \<Rightarrow> Account option \<Rightarrow> float64 \<Rightarrow> bool" where
  "IsReserveCandidate std acc now =
     (if acc = None then False else IsReserveCapacity (ComputeCapacityState std acc now))"

definition restricted_status :: "string \<Rightarrow> bool" where
  "restricted_status s \<longleftrightarrow> s = ''validation_required'' \<or> s = ''auth_error''"

definition IsRestricted :: "Account option \<Rightarrow> bool" where
  "IsRestricted acc = (case acc of None \<Rightarrow> False | Some a \<Rightarrow> restricted_status (Status a))"

definition in_cooldown :: "float64 \<Rightarrow> Account \<Rightarrow> bool" where
  "in_cooldown now a = (case RateLimitedUntil a of None \<Rightarrow> False | Some u \<Rightarrow> flt now u)"

record tiers =
  eligible :: "Account list"
  depleted :: "Account list"
  cooldown :: "Account list"

fun split_tiers :: "go_std \<Rightarrow> float64 \<Rightarrow> Account option list \<Rightarrow> tiers \<Rightarrow> tiers" where
  "split_tiers std now [] t = t"
| "split_tiers std now (c # cs) t =
     (case c of
        None \<Rightarrow> split_tiers std now cs t
      | Some acc \<Rightarrow>
          if IsRestricted (Some acc) then split_tiers std now cs t
          else if in_cooldown now acc
            then split_tiers std now cs (t\<lparr>cooldown := cooldown t @ [acc]\<rparr>)
          else if IsDepleted (ComputeCapacityState std (Some acc) now)
            then split_tiers std now cs (t\<lparr>depleted := depleted t @ [acc]\<rparr>)
          else split_tiers std now cs (t\<lparr>eligible := eligible t @ [acc]\<rparr>))"

section \<open>Comparisons\<close>

definition leastUsedCompare :: "go_std \<Rightarrow> float64 \<Rightarrow> Account \<Rightarrow> Account \<Rightarrow> bool" where
  "leastUsedCompare std now a b =
     (if GetHits a \<noteq> GetHits b then GetHits a < GetHits b
      else let capA = ComputeCapacityState std (Some a) now; capB = ComputeCapacityState std (Some b) now
      in if KnownWindowCount capA \<noteq> KnownWindowCount capB then KnownWindowCount capA > KnownWindowCount capB
      else let rankA = FreshnessRank std (Some a) now; rankB = FreshnessRank std (Some b) now
      in if rankA \<noteq> rankB then rankA > rankB
      else if \<not> feq (WorstPace capA) (WorstPace capB) then flt (WorstPace capB) (WorstPace capA)
      else if \<not> feq (TotalPace capA) (TotalPace capB) then flt (TotalPace capB) (TotalPace capA)
      else if \<not> feq (RawFloor capA) (RawFloor capB) then flt (RawFloor capB) (RawFloor capA)
      else ID a < ID b)"

definition maxQuotaCompare :: "go_std \<Rightarrow> float64 \<Rightarrow> Account \<Rightarrow> Account \<Rightarrow> bool" where
  "maxQuotaCompare std now a b =
     (let capA = ComputeCapacityState std (Some a) now; capB = ComputeCapacityState std (Some b) now
      in if KnownWindowCount capA \<noteq> KnownWindowCount capB then KnownWindowCount capA > KnownWindowCount capB
      else let rankA = FreshnessRank std (Some a) now; rankB = FreshnessRank std (Some b) now
      in if rankA \<noteq> rankB then rankA > rankB
      else if \<not> feq (WorstPace capA) (WorstPace capB) then flt (WorstPace capB) (WorstPace capA)
      else if \<not> feq (TotalPace capA) (TotalPace capB) then flt (TotalPace capB) (TotalPace capA)
      else if \<not> feq (RawFloor capA) (RawFloor capB) then flt (RawFloor capB) (RawFloor capA)
      else GetHits a < GetHits b)"

definition depletedCompare :: "go_std \<Rightarrow> float64 \<Rightarrow> Account \<Rightarrow> Account \<Rightarrow> bool" where
  "depletedCompare std now a b =
     (let capA = ComputeCapacityState std (Some a) now; capB = ComputeCapacityState std (Some b) now
      in if \<not> feq (RawFloor capA) (RawFloor capB) then flt (RawFloor capB) (RawFloor capA)
      else GetHits a < GetHits b)"

section \<open>Ordering\<close>

fun index_of_id :: "string \<Rightarrow> Account list \<Rightarrow> nat option" where
  "index_of_id lastID [] = None"
| "index_of_id lastID (a # as) =
     (if ID a = lastID then Some 0 else map_option Suc (index_of_id lastID as))"

definition rotate_after :: "Pool option \<Rightarrow> Account list \<Rightarrow> Account list" where
  "rotate_after pool as =
     (case pool of None \<Rightarrow> as | Some p \<Rightarrow>
      (case RoundRobinLastAccountID p of None \<Rightarrow> as | Some lastID \<Rightarrow>
      (case index_of_id lastID as of None \<Rightarrow> as
       | Some i \<Rightarrow> drop (i + 1) as @ take (i + 1) as)))"

definition max_quota_order :: "go_std \<Rightarrow> float64 \<Rightarrow> Account list \<Rightarrow> Account list" where
  "max_quota_order std now as =
     (let healthy = filter (\<lambda>a. \<not> IsReserveCandidate std (Some a) now) as;
          reserve = filter (\<lambda>a. IsReserveCandidate std (Some a) now) as
      in slice_stable (maxQuotaCompare std now) healthy @ slice_stable (maxQuotaCompare std now) reserve)"

definition order_eligible ::
  "go_std \<Rightarrow> string \<Rightarrow> Pool option \<Rightarrow> float64 \<Rightarrow> Account list \<Rightarrow> Account list" where
  "order_eligible std strategy pool now as =
     (if strategy = StrategyLeastUsed then slice_stable (leastUsedCompare std now) as
      else if strategy = StrategyRoundRobin then rotate_after pool as
      else max_quota_order std now as)"

definition OrderCandidates ::
  "go_std \<Rightarrow> Account option list \<Rightarrow> string \<Rightarrow> Pool option \<Rightarrow> float64 \<Rightarrow> Account list" where
  "OrderCandidates std candidates strategy pool now =
     (let t = split_tiers std now candidates \<lparr>eligible = [], depleted = [], cooldown = []\<rparr>
      in order_eligible std strategy pool now (eligible t)
         @ slice_stable (depletedCompare std now) (depleted t) @ cooldown t)"

section \<open>The tiers as filters\<close>

definition routable :: "Account option list \<Rightarrow> Account list" where
  "routable cs = filter (\<lambda>a. \<not> restricted_status (Status a)) (List.map_filter id cs)"

datatype tier = Healthy | Reserve | Depleted_Tier | Cooldown

primrec tier_rank :: "tier \<Rightarrow> nat" where
  "tier_rank Healthy = 0"
| "tier_rank Reserve = 1"
| "tier_rank Depleted_Tier = 2"
| "tier_rank Cooldown = 3"

text \<open>The tier of an account: what the routing rule says of one account alone.\<close>

definition account_tier :: "go_std \<Rightarrow> float64 \<Rightarrow> Account \<Rightarrow> tier" where
  "account_tier std now a =
     (if in_cooldown now a then Cooldown
      else if IsDepleted (capacity std a now) then Depleted_Tier
      else if IsReserveCapacity (capacity std a now) then Reserve
      else Healthy)"

lemma split_tiers_filter:
  "split_tiers std now cs t =
     \<lparr>eligible = eligible t @ filter (\<lambda>a. account_tier std now a \<in> {Healthy, Reserve}) (routable cs),
      depleted = depleted t @ filter (\<lambda>a. account_tier std now a = Depleted_Tier) (routable cs),
      cooldown = cooldown t @ filter (\<lambda>a. account_tier std now a = Cooldown) (routable cs)\<rparr>"
proof (induction cs arbitrary: t)
  case Nil
  then show ?case by (simp add: routable_def List.map_filter_def)
next
  case (Cons c cs)
  then show ?case
    by (cases c) (simp_all add: routable_def List.map_filter_def IsRestricted_def account_tier_def
        ComputeCapacityState_def)
qed

lemma IsReserveCandidate_tier:
  "account_tier std now a \<in> {Healthy, Reserve} \<Longrightarrow>
     IsReserveCandidate std (Some a) now \<longleftrightarrow> account_tier std now a = Reserve"
  by (auto simp: account_tier_def IsReserveCandidate_def ComputeCapacityState_def split: if_splits)

lemma max_quota_order_tiers:
  "max_quota_order std now (filter (\<lambda>a. account_tier std now a \<in> {Healthy, Reserve}) as) =
     slice_stable (maxQuotaCompare std now) (filter (\<lambda>a. account_tier std now a = Healthy) as)
     @ slice_stable (maxQuotaCompare std now) (filter (\<lambda>a. account_tier std now a = Reserve) as)"
proof -
  have "filter (\<lambda>a. \<not> IsReserveCandidate std (Some a) now)
          (filter (\<lambda>a. account_tier std now a \<in> {Healthy, Reserve}) as)
        = filter (\<lambda>a. account_tier std now a = Healthy) as"
    "filter (\<lambda>a. IsReserveCandidate std (Some a) now)
          (filter (\<lambda>a. account_tier std now a \<in> {Healthy, Reserve}) as)
        = filter (\<lambda>a. account_tier std now a = Reserve) as"
    by (auto simp: IsReserveCandidate_tier intro!: filter_cong)
  then show ?thesis by (simp add: max_quota_order_def Let_def)
qed

lemma OrderCandidates_tiers:
  "OrderCandidates std cs strategy pool now =
     order_eligible std strategy pool now
       (filter (\<lambda>a. account_tier std now a \<in> {Healthy, Reserve}) (routable cs))
     @ slice_stable (depletedCompare std now) (filter (\<lambda>a. account_tier std now a = Depleted_Tier) (routable cs))
     @ filter (\<lambda>a. account_tier std now a = Cooldown) (routable cs)"
  by (simp add: OrderCandidates_def split_tiers_filter Let_def)

lemma mset_rotated: "mset (drop n xs @ take n xs) = mset xs"
  by (metis append_take_drop_id mset_append union_commute)

lemma rotate_after_mset [simp]: "mset (rotate_after pool as) = mset as"
  by (simp add: rotate_after_def mset_rotated split: option.splits del: mset_append)

lemma mset_order_eligible [simp]: "mset (order_eligible std strategy pool now as) = mset as"
  by (simp add: order_eligible_def max_quota_order_def Let_def)

section \<open>The routing order\<close>

text \<open>
  The order the strategies aim at, as one comparison: first the stage of the two accounts, then
  the ranking of that stage. The cooldown stage keeps the order of the pool.
\<close>

definition stage :: "string \<Rightarrow> tier \<Rightarrow> nat" where
  "stage strategy t = (if strategy = StrategyLeastUsed \<and> t = Reserve then 0 else tier_rank t)"

definition stage_compare :: "go_std \<Rightarrow> string \<Rightarrow> float64 \<Rightarrow> nat \<Rightarrow> Account \<Rightarrow> Account \<Rightarrow> bool" where
  "stage_compare std strategy now n a b =
     (if n = 3 then False
      else if n = 2 then depletedCompare std now a b
      else if strategy = StrategyLeastUsed then leastUsedCompare std now a b
      else maxQuotaCompare std now a b)"

definition routing_before :: "go_std \<Rightarrow> string \<Rightarrow> float64 \<Rightarrow> Account \<Rightarrow> Account \<Rightarrow> bool" where
  "routing_before std strategy now a b =
     (let m = stage strategy (account_tier std now a); n = stage strategy (account_tier std now b)
      in if m \<noteq> n then m < n else stage_compare std strategy now m a b)"

lemma slice_stable_stage:
  assumes "\<forall>a \<in> set as. stage strategy (account_tier std now a) = n"
  shows "slice_stable (routing_before std strategy now) as = slice_stable (stage_compare std strategy now n) as"
  using assms by (intro slice_stable_cong) (simp add: routing_before_def)

lemma slice_stable_below:
  "slice_stable (routing_before std strategy now) as =
     slice_stable (routing_before std strategy now) (filter (\<lambda>a. stage strategy (account_tier std now a) \<le> n) as)
     @ slice_stable (routing_before std strategy now) (filter (\<lambda>a. \<not> stage strategy (account_tier std now a) \<le> n) as)"
  by (rule slice_stable_parts) (simp add: routing_before_def Let_def)

lemma stage_cases:
  "stage strategy t \<le> 0 \<longleftrightarrow> t = Healthy \<or> strategy = StrategyLeastUsed \<and> t = Reserve"
  "stage strategy t \<le> Suc 0 \<longleftrightarrow> t = Healthy \<or> t = Reserve"
  "stage strategy t \<le> 2 \<longleftrightarrow> t \<noteq> Cooldown"
  by (cases t; simp add: stage_def)+

lemma order_eligible_routing:
  assumes "strategy \<noteq> StrategyRoundRobin"
  shows "order_eligible std strategy pool now (filter (\<lambda>a. account_tier std now a \<in> {Healthy, Reserve}) as)
    = slice_stable (routing_before std strategy now) (filter (\<lambda>a. account_tier std now a \<in> {Healthy, Reserve}) as)"
proof (cases "strategy = StrategyLeastUsed")
  case True
  have "slice_stable (routing_before std strategy now) (filter (\<lambda>a. account_tier std now a \<in> {Healthy, Reserve}) as)
      = slice_stable (stage_compare std strategy now 0) (filter (\<lambda>a. account_tier std now a \<in> {Healthy, Reserve}) as)"
    by (rule slice_stable_stage) (auto simp: stage_def True)
  moreover have "stage_compare std strategy now 0 = leastUsedCompare std now"
    by (simp add: stage_compare_def True fun_eq_iff)
  ultimately show ?thesis by (simp add: order_eligible_def True)
next
  case False
  let ?E = "filter (\<lambda>a. account_tier std now a \<in> {Healthy, Reserve}) as"
  have cmp: "stage_compare std strategy now n = maxQuotaCompare std now" if "n < 2" for n
    using that False by (simp add: stage_compare_def fun_eq_iff)
  have "filter (\<lambda>a. stage strategy (account_tier std now a) \<le> 0) ?E = filter (\<lambda>a. account_tier std now a = Healthy) as"
    "filter (\<lambda>a. \<not> stage strategy (account_tier std now a) \<le> 0) ?E = filter (\<lambda>a. account_tier std now a = Reserve) as"
    unfolding filter_filter stage_cases using False by (auto intro!: filter_cong)
  then have "slice_stable (routing_before std strategy now) ?E =
      slice_stable (routing_before std strategy now) (filter (\<lambda>a. account_tier std now a = Healthy) as)
      @ slice_stable (routing_before std strategy now) (filter (\<lambda>a. account_tier std now a = Reserve) as)"
    using slice_stable_below [of std strategy now ?E 0] by metis
  also have "slice_stable (routing_before std strategy now) (filter (\<lambda>a. account_tier std now a = Healthy) as)
      = slice_stable (maxQuotaCompare std now) (filter (\<lambda>a. account_tier std now a = Healthy) as)"
    using slice_stable_stage [of "filter (\<lambda>a. account_tier std now a = Healthy) as" strategy std now 0]
      False cmp [of 0] by (simp add: stage_def)
  also have "slice_stable (routing_before std strategy now) (filter (\<lambda>a. account_tier std now a = Reserve) as)
      = slice_stable (maxQuotaCompare std now) (filter (\<lambda>a. account_tier std now a = Reserve) as)"
    using slice_stable_stage [of "filter (\<lambda>a. account_tier std now a = Reserve) as" strategy std now 1]
      False cmp [of 1] by (simp add: stage_def)
  finally show ?thesis using assms False max_quota_order_tiers [of std now as]
    by (simp add: order_eligible_def)
qed

lemma slice_stable_depleted:
  "slice_stable (routing_before std strategy now) (filter (\<lambda>a. account_tier std now a = Depleted_Tier) as)
   = slice_stable (depletedCompare std now) (filter (\<lambda>a. account_tier std now a = Depleted_Tier) as)"
  using slice_stable_stage [of "filter (\<lambda>a. account_tier std now a = Depleted_Tier) as" strategy std now 2]
  by (simp add: stage_def stage_compare_def [abs_def])

lemma slice_stable_cooldown:
  "slice_stable (routing_before std strategy now) (filter (\<lambda>a. account_tier std now a = Cooldown) as)
   = filter (\<lambda>a. account_tier std now a = Cooldown) as"
  using slice_stable_stage [of "filter (\<lambda>a. account_tier std now a = Cooldown) as" strategy std now 3]
  by (simp add: stage_def stage_compare_def [abs_def])

lemma OrderCandidates_as_sort:
  assumes "strategy \<noteq> StrategyRoundRobin"
  shows "OrderCandidates std cs strategy pool now = slice_stable (routing_before std strategy now) (routable cs)"
proof -
  let ?s = "slice_stable (routing_before std strategy now)" and ?t = "account_tier std now"
  let ?R = "routable cs" and ?st = "\<lambda>a. stage strategy (account_tier std now a)"
  have f: "filter (\<lambda>a. ?st a \<le> Suc 0) ?R = filter (\<lambda>a. ?t a \<in> {Healthy, Reserve}) ?R"
    "filter (\<lambda>a. ?st a \<le> 2) (filter (\<lambda>a. \<not> ?st a \<le> Suc 0) ?R) = filter (\<lambda>a. ?t a = Depleted_Tier) ?R"
    "filter (\<lambda>a. \<not> ?st a \<le> 2) (filter (\<lambda>a. \<not> ?st a \<le> Suc 0) ?R) = filter (\<lambda>a. ?t a = Cooldown) ?R"
    unfolding filter_filter stage_cases by (auto intro!: filter_cong) (metis tier.exhaust)+
  have "?s ?R = ?s (filter (\<lambda>a. ?t a \<in> {Healthy, Reserve}) ?R)
      @ ?s (filter (\<lambda>a. ?t a = Depleted_Tier) ?R) @ ?s (filter (\<lambda>a. ?t a = Cooldown) ?R)"
    using slice_stable_below [of std strategy now ?R "Suc 0"]
      slice_stable_below [of std strategy now "filter (\<lambda>a. \<not> ?st a \<le> Suc 0) ?R" 2]
    unfolding f by metis
  then show ?thesis
    unfolding OrderCandidates_tiers order_eligible_routing [OF assms] slice_stable_depleted slice_stable_cooldown
    by metis
qed

section \<open>The comparisons are strict weak orders on numeric rankings\<close>

definition numeric_ranking :: "go_std \<Rightarrow> float64 \<Rightarrow> Account \<Rightarrow> bool" where
  "numeric_ranking std now a \<longleftrightarrow>
     WorstPace (capacity std a now) \<noteq> NaN \<and> TotalPace (capacity std a now) \<noteq> NaN
     \<and> RawFloor (capacity std a now) \<noteq> NaN"

lemma weak_order_on_float_desc:
  "(\<And>a. D a \<Longrightarrow> f a \<noteq> NaN) \<Longrightarrow> weak_order_on D (\<lambda>a b. flt (f b) (f a))"
  by unfold_locales (auto dest: flt_asym flt_negtrans)

lemma weak_order_on_lex_float:
  assumes "\<And>a. D a \<Longrightarrow> f a \<noteq> NaN" "weak_order_on D rest"
  shows "weak_order_on D (lex_less (\<lambda>a b. \<not> feq (f a) (f b)) (\<lambda>a b. flt (f b) (f a)) rest)"
  using assms(1) by (intro weak_order_on_lex weak_order_on_float_desc assms) (auto simp: feq_iff_not_flt)

lemma weak_order_on_lex_key:
  "weak_order_on D rest \<Longrightarrow>
   weak_order_on D (lex_less (\<lambda>a b. f a \<noteq> f b) (\<lambda>a b. (f a :: int) < f b) rest)"
  by (intro weak_order_on_lex weak_order_on_key) auto

lemma weak_order_on_lex_key_desc:
  "weak_order_on D rest \<Longrightarrow>
   weak_order_on D (lex_less (\<lambda>a b. f a \<noteq> f b) (\<lambda>a b. (f b :: int) < f a) rest)"
  by (intro weak_order_on_lex weak_order_on_key_desc) auto

definition ranking_before :: "go_std \<Rightarrow> float64 \<Rightarrow> (Account \<Rightarrow> Account \<Rightarrow> bool) \<Rightarrow> Account \<Rightarrow> Account \<Rightarrow> bool" where
  "ranking_before std now last_rule =
     lex_less (\<lambda>a b. KnownWindowCount (capacity std a now) \<noteq> KnownWindowCount (capacity std b now))
              (\<lambda>a b. KnownWindowCount (capacity std b now) < KnownWindowCount (capacity std a now))
     (lex_less (\<lambda>a b. FreshnessRank std (Some a) now \<noteq> FreshnessRank std (Some b) now)
               (\<lambda>a b. FreshnessRank std (Some b) now < FreshnessRank std (Some a) now)
     (lex_less (\<lambda>a b. \<not> feq (WorstPace (capacity std a now)) (WorstPace (capacity std b now)))
               (\<lambda>a b. flt (WorstPace (capacity std b now)) (WorstPace (capacity std a now)))
     (lex_less (\<lambda>a b. \<not> feq (TotalPace (capacity std a now)) (TotalPace (capacity std b now)))
               (\<lambda>a b. flt (TotalPace (capacity std b now)) (TotalPace (capacity std a now)))
     (lex_less (\<lambda>a b. \<not> feq (RawFloor (capacity std a now)) (RawFloor (capacity std b now)))
               (\<lambda>a b. flt (RawFloor (capacity std b now)) (RawFloor (capacity std a now)))
     last_rule))))"

lemma compare_ranking:
  "maxQuotaCompare std now = ranking_before std now (\<lambda>a b. GetHits a < GetHits b)"
  "leastUsedCompare std now =
     lex_less (\<lambda>a b. GetHits a \<noteq> GetHits b) (\<lambda>a b. GetHits a < GetHits b)
       (ranking_before std now (\<lambda>a b. ID a < ID b))"
  "depletedCompare std now =
     lex_less (\<lambda>a b. \<not> feq (RawFloor (capacity std a now)) (RawFloor (capacity std b now)))
       (\<lambda>a b. flt (RawFloor (capacity std b now)) (RawFloor (capacity std a now)))
       (\<lambda>a b. GetHits a < GetHits b)"
  by (simp_all add: fun_eq_iff maxQuotaCompare_def leastUsedCompare_def depletedCompare_def
      ranking_before_def lex_less_def ComputeCapacityState_def Let_def)

lemma weak_order_on_ranking:
  "weak_order_on (numeric_ranking std now) rest \<Longrightarrow>
   weak_order_on (numeric_ranking std now) (ranking_before std now rest)"
  unfolding ranking_before_def
  by (intro weak_order_on_lex_key_desc weak_order_on_lex_float) (simp_all add: numeric_ranking_def)

lemma weak_order_on_compare:
  "weak_order_on (numeric_ranking std now) (maxQuotaCompare std now)"
  "weak_order_on (numeric_ranking std now) (leastUsedCompare std now)"
  "weak_order_on (numeric_ranking std now) (depletedCompare std now)"
  unfolding compare_ranking
  by (intro weak_order_on_lex_key weak_order_on_ranking weak_order_on_key weak_order_on_lex_float;
      simp add: numeric_ranking_def)+

lemma weak_order_on_stage_compare:
  "weak_order_on (numeric_ranking std now) (stage_compare std strategy now n)"
proof -
  have "stage_compare std strategy now n =
      (if n = 3 then (\<lambda>a b. False) else if n = 2 then depletedCompare std now
       else if strategy = StrategyLeastUsed then leastUsedCompare std now else maxQuotaCompare std now)"
    by (simp add: fun_eq_iff stage_compare_def)
  then show ?thesis by (simp add: weak_order_on_compare weak_order_on_False)
qed

interpretation routing: weak_order_on "numeric_ranking std now" "routing_before std strategy now"
  for std now strategy
proof -
  show "weak_order_on (numeric_ranking std now) (routing_before std strategy now)"
    unfolding routing_before_def [abs_def] Let_def
    by (rule weak_order_on_staged) (rule weak_order_on_subset [OF weak_order_on_stage_compare], simp)
qed

definition tied :: "go_std \<Rightarrow> string \<Rightarrow> float64 \<Rightarrow> Account \<Rightarrow> Account \<Rightarrow> bool" where
  "tied std strategy now a b \<longleftrightarrow> \<not> routing_before std strategy now a b \<and> \<not> routing_before std strategy now b a"

lemma routing_same: "routing.same std strategy now = tied std strategy now"
  by (simp add: fun_eq_iff routing.same_def tied_def)

lemma resets_numeric_ranking: "resets_numeric std a \<Longrightarrow> numeric_ranking std (Fin n) a"
  using WorstPace_in_range [of std a n] TotalPace_in_range [of std a n] RawFloor_in_range [of std a "Fin n"]
  by (auto simp: numeric_ranking_def in_range_def)

section \<open>Round robin\<close>

lemma index_of_id_Some:
  "index_of_id lastID as = Some i \<Longrightarrow> i < length as \<and> ID (as ! i) = lastID"
  by (induction as arbitrary: i) (auto split: if_splits)

lemma index_of_id_nth:
  "distinct (map ID as) \<Longrightarrow> i < length as \<Longrightarrow> index_of_id (ID (as ! i)) as = Some i"
proof (induction as arbitrary: i)
  case (Cons a as)
  then show ?case by (cases i) auto
qed simp

section \<open>Properties\<close>

primrec serving_rank :: "tier \<Rightarrow> nat" where
  "serving_rank Healthy = 0"
| "serving_rank Reserve = 0"
| "serving_rank Depleted_Tier = 1"
| "serving_rank Cooldown = 2"

lemma mset_tier_parts:
  "mset (filter (\<lambda>a. t a = Healthy \<or> t a = Reserve) as)
   + (mset (filter (\<lambda>a. t a = Depleted_Tier) as) + mset (filter (\<lambda>a. t a = Cooldown) as)) = mset as"
proof (induction as)
  case (Cons a as)
  then show ?case by (cases "t a") simp_all
qed simp

lemma mset_OrderCandidates:
  "mset (OrderCandidates std candidates strategy pool now) = mset (routable candidates)"
  by (simp add: OrderCandidates_tiers mset_tier_parts del: mset_filter)

lemma length_OrderCandidates:
  "length (OrderCandidates std candidates strategy pool now) = length (routable candidates)"
  using arg_cong [OF mset_OrderCandidates, of size] by simp

lemma OrderCandidates_unrestricted:
  "a \<in> set (OrderCandidates std candidates strategy pool now) \<Longrightarrow> \<not> IsRestricted (Some a)"
  using set_mset_mset [of "OrderCandidates std candidates strategy pool now"]
  by (auto simp: mset_OrderCandidates routable_def IsRestricted_def)

lemma sorted_map_const: "(\<And>x. x \<in> set xs \<Longrightarrow> f x = c) \<Longrightarrow> sorted (map f xs)" for c :: nat
  by (induction xs) auto

lemma set_order_eligible [simp]: "set (order_eligible std strategy pool now as) = set as"
  by (metis mset_order_eligible set_mset_mset)

text \<open>Every strategy only reorders: the candidates tried for a generation request are the
  accounts of the pool without the nil entries and without the accounts that need validation
  or failed authentication, each as often as it occurs, and none is lost.\<close>

theorem OrderCandidates_permutation:
  "mset (OrderCandidates std candidates strategy pool now)
     = mset (filter (\<lambda>a. Status a \<noteq> ''validation_required'' \<and> Status a \<noteq> ''auth_error'')
              (List.map_filter id candidates))"
  by (simp add: mset_OrderCandidates routable_def restricted_status_def)

text \<open>Whatever the strategy and the quota data, accounts that can serve now come before
  depleted ones, and those before the accounts in cooldown.\<close>

theorem OrderCandidates_tier_order:
  "sorted (map (\<lambda>a. serving_rank (account_tier std now a))
     (OrderCandidates std candidates strategy pool now))"
proof -
  let ?f = "\<lambda>a. serving_rank (account_tier std now a)"
  have const: "sorted (map ?f xs)" if "\<forall>a \<in> set xs. ?f a = n" for xs n
    using that by (intro sorted_map_const [where c = n]) simp
  note tiers = OrderCandidates_tiers [of std candidates strategy pool now]
  show ?thesis unfolding tiers map_append sorted_append
    by (intro conjI const [where n = 0] const [where n = 1] const [where n = 2]) auto
qed



text \<open>When no reset time of a candidate is the float NaN, the chosen order is sorted by the
  routing order, so no account is tried before one that outranks it, and accounts that rank
  equal keep the order they have in the pool.\<close>

theorem OrderCandidates_sorted_stable:
  assumes "strategy \<noteq> StrategyRoundRobin" and "\<forall>a \<in> set (routable candidates). resets_numeric std a"
  shows "sorted_wrt (\<lambda>a b. \<not> routing_before std strategy (Fin now) b a)
           (OrderCandidates std candidates strategy pool (Fin now))
       \<and> (c \<in> set (routable candidates) \<longrightarrow>
           filter (tied std strategy (Fin now) c) (OrderCandidates std candidates strategy pool (Fin now))
           = filter (tied std strategy (Fin now) c) (routable candidates))"
  using assms(2)
    routing.slice_stable_sorted [where std = std and now = "Fin now" and strategy = strategy and xs = "routable candidates"]
    routing.slice_stable_same [where std = std and now = "Fin now" and strategy = strategy and c = c
      and xs = "routable candidates"]
  by (simp add: OrderCandidates_as_sort [OF assms(1)] resets_numeric_ranking routing_same)

theorem OrderCandidates_sorted_stable_witness:
  "sorted_wrt (\<lambda>a b. \<not> routing_before demo_std StrategyLeastUsed (Fin 0) b a)
     (OrderCandidates demo_std [Some (zero_account\<lparr>RequestCount := 2\<rparr>), Some zero_account] StrategyLeastUsed None (Fin 0))"
  using OrderCandidates_sorted_stable [of StrategyLeastUsed
      "[Some (zero_account\<lparr>RequestCount := 2\<rparr>), Some zero_account]" demo_std 0 None zero_account]
  by (simp add: StrategyLeastUsed_def StrategyRoundRobin_def routable_def List.map_filter_def
      resets_numeric_def zero_account_def capacity_resets_def ParseISOOrTimestamp_def Let_def)

section \<open>A reset time that parses as NaN\<close>

lemma some_dyadics: "fround (1 / 8) = Fin (1 / 8)" "fround (3 / 16) = Fin (3 / 16)"
  "fround (- (3 / 4)) = Fin (- (3 / 4))" "f_of_int 18000 = Fin 18000"
  using fround_dyadic [of "1 / 8" 3 1] fround_dyadic [of "3 / 16" 4 3]
    fround_dyadic [of "- (3 / 4)" 2 "- 3"] fround_int [of 18000] by (simp_all add: f_of_int_def)

lemma thresholds:
  "\<exists>v. DepletedThreshold = Fin v \<and> v \<le> 1 / 8" "\<exists>v. FiveHourReserveFloor = Fin v \<and> v \<le> 3 / 16"
proof -
  obtain v where "fround (5 / 1000) = Fin v" "v \<le> 1 / 8"
    by (rule fround_between [of 0 "5 / 1000" "1 / 8", OF _ _ fround_numerals(1) some_dyadics(1)]) auto
  then show "\<exists>v. DepletedThreshold = Fin v \<and> v \<le> 1 / 8" unfolding DepletedThreshold_def by blast
  obtain w where "fround (15 / 100) = Fin w" "w \<le> 3 / 16"
    by (rule fround_between [of 0 "15 / 100" "3 / 16", OF _ _ fround_numerals(1) some_dyadics(2)]) auto
  then show "\<exists>v. FiveHourReserveFloor = Fin v \<and> v \<le> 3 / 16" unfolding FiveHourReserveFloor_def by blast
qed

lemma not_low:
  assumes "1 / 4 \<le> q"
  shows "\<not> fle (Fin q) DepletedThreshold" "\<not> fle (Fin q) FiveHourReserveFloor"
proof -
  obtain v w where "DepletedThreshold = Fin v" "v \<le> 1 / 8" "FiveHourReserveFloor = Fin w" "w \<le> 3 / 16"
    using thresholds by blast
  note t = this
  show "\<not> fle (Fin q) DepletedThreshold" unfolding t(1) using t(2) assms by simp
  show "\<not> fle (Fin q) FiveHourReserveFloor" unfolding t(3) using t(4) assms by simp
qed

lemmas windowed_defs = windowed_account_def zero_account_def zero_quota_def zero_window_def
  capacity_def capacity_resets_def capacity_fractions_def has_explicit_windows_def window_fraction_def
  ParseQuotaFraction_def clamp_fraction_def

lemma nan_reset:
  "parse_float std ''nan'' = Some NaN \<Longrightarrow> ParseISOOrTimestamp std (AStr ''nan'') = Some NaN"
proof -
  have "trim_space ''nan'' = ''nan''" "map upper_char ''nan'' = ''NAN''"
    by (simp_all add: trim_space_def leading_space_def space_seqs_def upper_char_def go_simps)
  then show "parse_float std ''nan'' = Some NaN \<Longrightarrow> ParseISOOrTimestamp std (AStr ''nan'') = Some NaN"
    by (simp add: ParseISOOrTimestamp_def parse_time_string_def Let_def)
qed

lemma windowed_capacity:
  assumes "1 / 4 \<le> q" "q \<le> 1" "resetRatio std now None reset Window5HSecs = r"
  shows "KnownWindowCount (capacity std (windowed_account i q reset) now) = 1"
    "WorstPace (capacity std (windowed_account i q reset) now) = fsub (Fin q) r"
    "IsDepleted (capacity std (windowed_account i q reset) now) = False"
    "IsReserveCapacity (capacity std (windowed_account i q reset) now) = False"
  using assms not_low [of q]
  by (simp_all add: windowed_defs Let_def IsReserveCapacity_def at_or_below_def)

lemma windowed_rank:
  "\<not> window_passed std (Fin 0) (Some (zero_window\<lparr>Fraction := Some (Fin q), ResetTime := reset\<rparr>)) \<Longrightarrow>
   FreshnessRank std (Some (windowed_account i q reset)) (Fin 0) = 2"
  using fround_int [of "- 1000"] fround_int [of "1000"]
  by (simp add: FreshnessRank_eq timed_quota_def windowed_account_def fresh_age_def zero_quota_def
     zero_account_def window_passed_def f_of_int_def fsub_def QuotaAgingMaxAge_def)


definition full_horizon :: any where "full_horizon = AInt 18000"

lemma full_ratio: "resetRatio std (Fin 0) None full_horizon Window5HSecs = Fin 1"
  by (simp add: resetRatio_def full_horizon_def ParseISOOrTimestamp_def some_dyadics fsub_def ratio_of_remaining_def
     Window5HSecs_def Let_def) (use fround_int [of 18000] in simp)

lemma nan_ratio:
  "parse_float std ''nan'' = Some NaN \<Longrightarrow> resetRatio std (Fin 0) None (AStr ''nan'') Window5HSecs = NaN"
  by (simp add: resetRatio_def nan_reset fsub_def ratio_of_remaining_def Let_def)

text \<open>C38: strconv.ParseFloat reads the text "nan" as a number, so a reset time with this text gives
  an account a pace that compares equal to every other. One such account between two others
  leaves the account that the routing order puts first at the end of the candidate list.\<close>

theorem nan_reset_hides_better_account:
  assumes "parse_float std ''nan'' = Some NaN"
  shows "routing_before std StrategyMaxQuota (Fin 0) (windowed_account ''best'' 1 full_horizon)
           (windowed_account ''low'' (1 / 4) full_horizon)
       \<and> OrderCandidates std
           [Some (windowed_account ''low'' (1 / 4) full_horizon), Some (windowed_account ''odd'' 1 (AStr ''nan'')),
            Some (windowed_account ''best'' 1 full_horizon)] StrategyMaxQuota None (Fin 0)
         = [windowed_account ''low'' (1 / 4) full_horizon, windowed_account ''odd'' 1 (AStr ''nan''),
            windowed_account ''best'' 1 full_horizon]"
proof -
  let ?low = "windowed_account ''low'' (1 / 4) full_horizon"
  let ?odd = "windowed_account ''odd'' 1 (AStr ''nan'')"
  let ?best = "windowed_account ''best'' 1 full_horizon"
  note cap = windowed_capacity [OF _ _ full_ratio] windowed_capacity [OF _ _ nan_ratio [OF assms]]
  have tier: "account_tier std (Fin 0) a = Healthy" if "a \<in> {?low, ?odd, ?best}" for a
    using that by (auto simp: account_tier_def in_cooldown_def cap) (simp_all add: windowed_account_def zero_account_def)
  have rank: "FreshnessRank std (Some ?low) (Fin 0) = 2" "FreshnessRank std (Some ?odd) (Fin 0) = 2"
    "FreshnessRank std (Some ?best) (Fin 0) = 2"
    using nan_reset [OF assms]
    by (simp_all add: windowed_rank window_passed_def full_horizon_def)
      (simp_all add: windowed_rank window_passed_def ParseISOOrTimestamp_def some_dyadics)
  have pace: "WorstPace (capacity std ?low (Fin 0)) = Fin (- (3 / 4))"
    "WorstPace (capacity std ?odd (Fin 0)) = NaN" "WorstPace (capacity std ?best (Fin 0)) = Fin 0"
    "KnownWindowCount (capacity std ?low (Fin 0)) = 1" "KnownWindowCount (capacity std ?odd (Fin 0)) = 1"
    "KnownWindowCount (capacity std ?best (Fin 0)) = 1"
    by (simp_all add: cap fsub_def some_dyadics)
  have cmp: "maxQuotaCompare std (Fin 0) ?best ?low" "\<not> maxQuotaCompare std (Fin 0) ?odd ?low"
    "\<not> maxQuotaCompare std (Fin 0) ?best ?odd"
    by (simp_all add: maxQuotaCompare_def ComputeCapacityState_def pace rank feq_def Let_def)
  have before: "routing_before std StrategyMaxQuota (Fin 0) a b = maxQuotaCompare std (Fin 0) a b"
    if "a \<in> {?low, ?odd, ?best}" "b \<in> {?low, ?odd, ?best}" for a b
    using tier [OF that(1)] tier [OF that(2)]
    by (simp add: routing_before_def stage_def stage_compare_def StrategyMaxQuota_def StrategyLeastUsed_def)
  have "routable [Some ?low, Some ?odd, Some ?best] = [?low, ?odd, ?best]"
    by (simp add: routable_def List.map_filter_def restricted_status_def windowed_account_def zero_account_def)
  moreover have "StrategyMaxQuota \<noteq> StrategyRoundRobin"
    by (simp add: StrategyMaxQuota_def StrategyRoundRobin_def)
  moreover have "routing_before std StrategyMaxQuota (Fin 0) ?best ?low"
    "\<not> routing_before std StrategyMaxQuota (Fin 0) ?odd ?low"
    "\<not> routing_before std StrategyMaxQuota (Fin 0) ?best ?odd"
    using cmp by (simp_all add: before)
  ultimately show ?thesis by (simp add: OrderCandidates_as_sort slice_stable_def)
qed


theorem nan_reset_hides_better_account_witness:
  "map ID (OrderCandidates demo_std
     [Some (windowed_account ''low'' (1 / 4) full_horizon), Some (windowed_account ''odd'' 1 (AStr ''nan'')),
      Some (windowed_account ''best'' 1 full_horizon)] StrategyMaxQuota None (Fin 0)) = [''low'', ''odd'', ''best'']"
  using nan_reset_hides_better_account [of demo_std]
  by (simp add: demo_std_def) (simp add: windowed_account_def zero_account_def)

end
