(* ===== verification/Failover.thy ===== *)
theory Failover
  imports Auth Scheduler
begin

text \<open>
  internal/proxy/failover.go: what a finished attempt writes to the pool. Each operation is a
  mutator run by PoolTransaction; \<open>now\<close> is the clock in seconds at the call.
\<close>

section \<open>Mutators\<close>

definition bump_hits :: "int option \<Rightarrow> int option" where
  "bump_hits g = Some (case g of None \<Rightarrow> 1 | Some n \<Rightarrow> wrap64 (n + 1))"

definition record_success :: "Account \<Rightarrow> bool \<Rightarrow> int \<Rightarrow> unit mutator" where
  "record_success account isGeneration now pool =
     (case FindAccount pool account of
        None \<Rightarrow> Inr ((), pool)
      | Some stored \<Rightarrow>
          (let p1 = update_account account
                      (\<lambda>a. let b = a\<lparr>RequestCount := wrap64 (RequestCount a + 1)\<rparr>
                           in if isGeneration then b\<lparr>GenCount := bump_hits (GenCount b), LastUsedAt := Some now\<rparr> else b)
                      pool;
               activeID = (case ActiveAccountID p1 of None \<Rightarrow> [] | Some i \<Rightarrow> i);
               active = List.find (\<lambda>a. ID a = activeID) (Accounts p1)
           in if activeID = [] \<or>
                 (case active of None \<Rightarrow> False
                  | Some act \<Rightarrow> (case RateLimitedUntil act of None \<Rightarrow> False | Some u \<Rightarrow> flt (f_of_int now) u)
                               \<and> ID stored \<noteq> ID act)
              then Inr ((), p1\<lparr>ActiveAccountID := Some (ID stored)\<rparr>)
              else Inr ((), p1)))"

definition record_quota_error :: "Account \<Rightarrow> int \<Rightarrow> int \<Rightarrow> unit mutator" where
  "record_quota_error account delay now pool =
     Inr ((), update_account account
       (\<lambda>a. a\<lparr>RateLimitedUntil := Some (fadd (f_of_int now) (f_of_int delay)),
              LastQuota := map_option (\<lambda>q. q\<lparr>QUpdatedAt := Some 0\<rparr>) (LastQuota a),
              ErrorCount := wrap64 (ErrorCount a + 1)\<rparr>) pool)"

definition record_validation_error :: "Account \<Rightarrow> string \<Rightarrow> int \<Rightarrow> unit mutator" where
  "record_validation_error account vURL now pool =
     Inr ((), update_account account
       (\<lambda>a. a\<lparr>Status := ''validation_required'',
              ValidationURL := (if vURL \<noteq> [] then Some vURL else ValidationURL a),
              RateLimitedUntil := Some (fadd (f_of_int now) (Fin 86400)),
              ErrorCount := wrap64 (ErrorCount a + 1),
              LastQuota := map_option (\<lambda>q. q\<lparr>RemainingFraction := Some (Fin 0)\<rparr>) (LastQuota a)\<rparr>) pool)"

definition record_auth_error :: "Account \<Rightarrow> int \<Rightarrow> unit mutator" where
  "record_auth_error account now pool =
     Inr ((), update_account account
       (\<lambda>a. a\<lparr>Status := ''auth_error'',
              RateLimitedUntil := Some (fadd (f_of_int now) (Fin 3600)),
              ErrorCount := wrap64 (ErrorCount a + 1),
              LastQuota := map_option (\<lambda>q. q\<lparr>RemainingFraction := Some (Fin 0)\<rparr>) (LastQuota a)\<rparr>) pool)"

section \<open>Operations\<close>

definition RecordSuccess :: "gerror option \<Rightarrow> int \<Rightarrow> Account \<Rightarrow> bool \<Rightarrow> store \<Rightarrow> gerror option \<times> store" where
  "RecordSuccess failure now account isGeneration s =
     (case PoolTransaction failure (record_success account isGeneration now) s of
        (Inl e, s1) \<Rightarrow> (Some e, s1) | (Inr _, s1) \<Rightarrow> (None, s1))"

definition RecordQuotaError ::
  "go_std \<Rightarrow> (int \<times> int \<Rightarrow> int) \<Rightarrow> gerror option \<Rightarrow> int \<Rightarrow> Account \<Rightarrow> header \<Rightarrow> store \<Rightarrow> (int \<times> gerror option) \<times> store" where
  "RecordQuotaError std until failure now account headers s =
     (let delay = ParseRetryAfter std until (h_get headers ''Retry-After'') 300
      in case PoolTransaction failure (record_quota_error account delay now) s of
           (Inl e, s1) \<Rightarrow> ((delay, Some e), s1) | (Inr _, s1) \<Rightarrow> ((delay, None), s1))"

definition RecordValidationError ::
  "(string \<Rightarrow> error_detail list option) \<Rightarrow> gerror option \<Rightarrow> int \<Rightarrow> Account \<Rightarrow> string \<Rightarrow> store \<Rightarrow> gerror option \<times> store" where
  "RecordValidationError parse failure now account errBody s =
     (case PoolTransaction failure (record_validation_error account (ExtractValidationURL parse errBody) now) s of
        (Inl e, s1) \<Rightarrow> (Some e, s1) | (Inr _, s1) \<Rightarrow> (None, s1))"

definition RecordAuthError :: "gerror option \<Rightarrow> int \<Rightarrow> Account \<Rightarrow> store \<Rightarrow> gerror option \<times> store" where
  "RecordAuthError failure now account s =
     (case PoolTransaction failure (record_auth_error account now) s of
        (Inl e, s1) \<Rightarrow> (Some e, s1) | (Inr _, s1) \<Rightarrow> (None, s1))"

section \<open>Facts\<close>

lemma pool_wf_record_success:
  assumes "record_success account g now p = Inr (u, q)" "pool_wf p"
  shows "pool_wf q"
proof (cases "FindAccount p account")
  case (Some stored)
  let ?p1 = "update_account account
      (\<lambda>a. let b = a\<lparr>RequestCount := wrap64 (RequestCount a + 1)\<rparr>
           in if g then b\<lparr>GenCount := bump_hits (GenCount b), LastUsedAt := Some now\<rparr> else b) p"
  have "pool_wf ?p1" using assms(2) by (intro pool_wf_update_account) (auto simp: Let_def)
  moreover have "ID stored \<in> set (ids ?p1)"
    using FindAccount_ids [OF Some] by (subst ids_update_account) (auto simp: Let_def)
  ultimately have "pool_wf (?p1\<lparr>ActiveAccountID := Some (ID stored)\<rparr>)" by (rule pool_wf_set_active)
  moreover have "q = ?p1 \<or> q = ?p1\<lparr>ActiveAccountID := Some (ID stored)\<rparr>"
    using assms(1) unfolding record_success_def Some option.case Let_def [of "update_account _ _ _"]
    by (auto simp: Let_def split: if_splits)
  ultimately show ?thesis using \<open>pool_wf ?p1\<close> by auto
qed (use assms in \<open>simp add: record_success_def\<close>)

lemma pool_wf_record_errors:
  "record_quota_error account d now p = Inr (u, q) \<Longrightarrow> pool_wf p \<Longrightarrow> pool_wf q"
  "record_validation_error account v now p = Inr (u, q) \<Longrightarrow> pool_wf p \<Longrightarrow> pool_wf q"
  "record_auth_error account now p = Inr (u, q) \<Longrightarrow> pool_wf p \<Longrightarrow> pool_wf q"
  by (auto simp: record_quota_error_def record_validation_error_def record_auth_error_def
      intro!: pool_wf_update_account)

lemma FindAccount_update:
  assumes "FindAccount p account = Some a" "ID (f a) = ID a" "Email (f a) = Email a"
  shows "FindAccount (update_account account f p) account = Some (f a)"
proof -
  obtain us vs where s: "Accounts p = us @ a # vs" "\<forall>u \<in> set us. \<not> same_account account u" "same_account account a"
    "update_first (same_account account) f (Accounts p) = us @ f a # vs"
    using update_first_split [of "same_account account" "Accounts p" a f] assms(1) by (auto simp: FindAccount_def)
  have "List.find (same_account account) us = None" using s(2) by (simp add: find_None_iff)
  moreover have "same_account account (f a)" using s(3) assms by (simp add: same_account_def)
  ultimately show ?thesis by (simp add: FindAccount_def update_account_def s(4) find_append)
qed

section \<open>Properties\<close>

text \<open>C27: An account that upstream refused for verification or authentication takes no further part
  in generation routing: after the bookkeeping of such an error, no candidate list built from the
  stored pool contains it, for any strategy and any later time, until its status is reset.\<close>

theorem refused_account_is_quarantined:
  assumes "pool_wf p" "FindAccount p account = Some a"
    and "record_auth_error account now p = Inr (u, q) \<or> record_validation_error account vURL now p = Inr (u, q)"
  shows "ID a \<notin> ID ` set (OrderCandidates std (map Some (Accounts q)) strategy pool later)"
proof
  assume "ID a \<in> ID ` set (OrderCandidates std (map Some (Accounts q)) strategy pool later)"
  then obtain b where b: "b \<in> set (OrderCandidates std (map Some (Accounts q)) strategy pool later)" "ID b = ID a"
    by auto
  have wf: "pool_wf q" using assms(1,3) pool_wf_record_errors by blast
  have inq: "b \<in> set (Accounts q)"
    using b(1) set_mset_mset [of "OrderCandidates std (map Some (Accounts q)) strategy pool later"]
    by (auto simp: mset_OrderCandidates routable_def List.map_filter_def)
  obtain f where f: "q = update_account account f p" "ID (f a) = ID a" "Email (f a) = Email a" "restricted_status (Status (f a))"
    using assms(3) by (auto simp: record_auth_error_def record_validation_error_def restricted_status_def)
  have "f a \<in> set (Accounts q)" unfolding f(1)
    using FindAccount_in [OF FindAccount_update [OF assms(2), of f, OF f(2,3)]] .
  then have "b = f a"
    using inq wf b(2) f(2) by (auto simp: pool_wf_def ids_def distinct_map inj_on_def)
  then show False using OrderCandidates_unrestricted [OF b(1)] f(4) by (simp add: IsRestricted_def)
qed

theorem refused_account_is_quarantined_witness:
  "''acc_1'' \<notin> ID ` set (OrderCandidates demo_std
     (map Some (Accounts (snd (projr (record_auth_error demo_account 0 (spool demo_store)))))) StrategyMaxQuota None (Fin 9))"
proof -
  have "pool_wf (spool demo_store)" "FindAccount (spool demo_store) demo_account = Some demo_account"
    by (simp_all add: pool_wf_def ids_def demo_store_def demo_account_def zero_account_def NewEmptyPool_def
        FindAccount_def same_account_def)
  from refused_account_is_quarantined [OF this, of 0 "()" "snd (projr (record_auth_error demo_account 0 (spool demo_store)))"
      "[]" demo_std StrategyMaxQuota None "Fin 9"]
  show ?thesis by (simp add: record_auth_error_def) (simp add: demo_account_def)
qed

text \<open>An account that answered with a quota error is in cooldown from then on, until the clamped
  Retry-After delay has passed: the routing puts it behind every account that can serve.\<close>

theorem quota_error_cools_down:
  assumes "FindAccount p account = Some a"
    and "record_quota_error account delay now p = Inr (u, q)"
    and "flt later (fadd (f_of_int now) (f_of_int delay))"
  shows "\<exists>b. FindAccount q account = Some b \<and> ID b = ID a
       \<and> account_tier std later b = Cooldown
       \<and> Freshness std (Some b) later = unknown_freshness"
proof -
  define f where "f = (\<lambda>a :: Account. a\<lparr>RateLimitedUntil := Some (fadd (f_of_int now) (f_of_int delay)),
              LastQuota := map_option (\<lambda>q. q\<lparr>QUpdatedAt := Some 0\<rparr>) (LastQuota a),
              ErrorCount := wrap64 (ErrorCount a + 1)\<rparr>)"
  have "q = update_account account f p" using assms(2) by (simp add: record_quota_error_def f_def)
  then have "FindAccount q account = Some (f a)"
    using FindAccount_update [OF assms(1), of f] by (simp add: f_def)
  moreover have "account_tier std later (f a) = Cooldown"
    using assms(3) by (simp add: account_tier_def in_cooldown_def f_def)
  moreover have "Freshness std (Some (f a)) later = unknown_freshness"
    by (cases "LastQuota a") (simp_all add: Freshness_def f_def)
  ultimately show ?thesis by (intro exI [of _ "f a"]) (simp add: f_def)
qed

theorem quota_error_cools_down_witness:
  "\<exists>b. FindAccount (snd (projr (record_quota_error demo_account 5 0 (spool demo_store)))) demo_account = Some b
     \<and> account_tier demo_std (Fin 4) b = Cooldown"
proof -
  have t: "flt (Fin 4) (fadd (f_of_int 0) (f_of_int 5))"
    using fround_int [of 5] by (simp add: f_of_int_def)
  have "FindAccount (spool demo_store) demo_account = Some demo_account"
    by (simp add: demo_store_def demo_account_def zero_account_def NewEmptyPool_def FindAccount_def same_account_def)
  from quota_error_cools_down [OF this, of 5 0 "()" "snd (projr (record_quota_error demo_account 5 0 (spool demo_store)))"
      "Fin 4" demo_std] t
  show ?thesis by (auto simp: record_quota_error_def)
qed

end
