(* ===== verification/Round_Robin.thy ===== *)
theory Round_Robin
  imports Pool_Store Scheduler
begin

text \<open>
  The reservation of internal/storage/db.go and scheduler.go for the round_robin strategy: the
  candidate order and the move of the persisted cursor in one write transaction.
\<close>

definition reserve_candidates :: "go_std \<Rightarrow> float64 \<Rightarrow> Account list mutator" where
  "reserve_candidates std now pool =
     (if Accounts pool = [] then Inr ([], pool)
      else let ordered = OrderCandidates std (map Some (Accounts pool)) StrategyRoundRobin (Some pool) now
           in if ordered \<noteq> [] \<and> ID (hd ordered) \<noteq> []
              then Inr (ordered, pool\<lparr>RoundRobinLastAccountID := Some (ID (hd ordered))\<rparr>)
              else Inr (ordered, pool))"

definition ReserveRoundRobinCandidates ::
  "go_std \<Rightarrow> gerror option \<Rightarrow> float64 \<Rightarrow> store \<Rightarrow> (gerror + Account list) \<times> store" where
  "ReserveRoundRobinCandidates std failure now = PoolTransaction failure (reserve_candidates std now)"

definition ReserveRoundRobinAccount ::
  "go_std \<Rightarrow> gerror option \<Rightarrow> float64 \<Rightarrow> store \<Rightarrow> (gerror + Account option) \<times> store" where
  "ReserveRoundRobinAccount std failure now s =
     (case ReserveRoundRobinCandidates std failure now s of
        (Inl e, s1) \<Rightarrow> (Inl e, s1)
      | (Inr [], s1) \<Rightarrow> (Inr None, s1)
      | (Inr (c # cs), s1) \<Rightarrow> (Inr (Some c), s1))"

section \<open>Rotation\<close>

lemma pool_wf_reserve: "reserve_candidates std now p = Inr (cs, q) \<Longrightarrow> pool_wf p \<Longrightarrow> pool_wf q"
  by (auto simp: reserve_candidates_def Let_def split: if_splits)

text \<open>The accounts that can serve now, in the order of the pool.\<close>

definition serving :: "go_std \<Rightarrow> float64 \<Rightarrow> Pool \<Rightarrow> Account list" where
  "serving std now p =
     filter (\<lambda>a. account_tier std now a \<in> {Healthy, Reserve}) (routable (map Some (Accounts p)))"

lemma routable_Some: "routable (map Some as) = filter (\<lambda>a. \<not> restricted_status (Status a)) as"
proof -
  have "List.map_filter id (map Some as) = as" by (induction as) (simp_all add: List.map_filter_def)
  then show ?thesis by (simp add: routable_def)
qed

lemma serving_cursor [simp]: "serving std now (p\<lparr>RoundRobinLastAccountID := x\<rparr>) = serving std now p"
  by (simp add: serving_def)

lemma serving_ids:
  assumes "pool_wf p"
  shows "distinct (map ID (serving std now p))" "[] \<notin> ID ` set (serving std now p)"
  using assms by (auto simp: serving_def routable_Some pool_wf_def ids_def distinct_map inj_on_def)

definition start_index :: "Account list \<Rightarrow> string option \<Rightarrow> nat" where
  "start_index as cursor =
     (case cursor of None \<Rightarrow> 0 | Some i \<Rightarrow> (case index_of_id i as of None \<Rightarrow> 0 | Some n \<Rightarrow> Suc n mod length as))"

lemma rotate_after_hd:
  assumes "as \<noteq> []"
  shows "hd (rotate_after (Some p) as) = as ! start_index as (RoundRobinLastAccountID p)
       \<and> start_index as (RoundRobinLastAccountID p) < length as"
proof (cases "RoundRobinLastAccountID p")
  case None
  then show ?thesis using assms by (simp add: rotate_after_def start_index_def hd_conv_nth)
next
  case (Some i)
  show ?thesis
  proof (cases "index_of_id i as")
    case None
    then show ?thesis using assms Some by (simp add: rotate_after_def start_index_def hd_conv_nth)
  next
    case (Some n)
    then have n: "n < length as" using index_of_id_Some by blast
    show ?thesis
    proof (cases "Suc n = length as")
      case True
      then show ?thesis using Some \<open>RoundRobinLastAccountID p = Some i\<close> assms
        by (simp add: rotate_after_def start_index_def hd_conv_nth)
    next
      case False
      then have "Suc n < length as" using n by simp
      then show ?thesis using Some \<open>RoundRobinLastAccountID p = Some i\<close>
        by (simp add: rotate_after_def start_index_def hd_drop_conv_nth)
    qed
  qed
qed

lemma reserve_picks:
  assumes "pool_wf p" "serving std now p \<noteq> []"
  shows "\<exists>cs. reserve_candidates std now p = Inr (cs, p\<lparr>RoundRobinLastAccountID := Some (ID (hd cs))\<rparr>)
    \<and> hd cs = serving std now p ! start_index (serving std now p) (RoundRobinLastAccountID p)"
proof -
  let ?E = "serving std now p"
  have acc: "Accounts p \<noteq> []" using assms(2) by (auto simp: serving_def routable_Some)
  let ?o = "OrderCandidates std (map Some (Accounts p)) StrategyRoundRobin (Some p) now"
  have "\<exists>r. ?o = rotate_after (Some p) ?E @ r"
    by (simp add: OrderCandidates_tiers order_eligible_def serving_def StrategyRoundRobin_def StrategyLeastUsed_def)
  then obtain r where r: "?o = rotate_after (Some p) ?E @ r" ..
  have ne: "rotate_after (Some p) ?E \<noteq> []"
    using assms(2) rotate_after_mset [of "Some p" ?E] by (metis mset_zero_iff)
  have hd: "hd ?o = ?E ! start_index ?E (RoundRobinLastAccountID p)" "start_index ?E (RoundRobinLastAccountID p) < length ?E"
    using rotate_after_hd [OF assms(2), of p] ne r by simp_all
  then have "ID (hd ?o) \<noteq> []" using serving_ids(2) [OF assms(1), of std now]
    by (metis imageI nth_mem)
  then show ?thesis
    using acc ne r hd by (auto simp: reserve_candidates_def Let_def)
qed

text \<open>Consecutive reservations on a pool that nothing else changes.\<close>

fun reservations :: "go_std \<Rightarrow> float64 \<Rightarrow> nat \<Rightarrow> Pool \<Rightarrow> Account list" where
  "reservations std now 0 p = []"
| "reservations std now (Suc n) p =
     (case reserve_candidates std now p of
        Inl e \<Rightarrow> []
      | Inr ([], q) \<Rightarrow> []
      | Inr (c # cs, q) \<Rightarrow> c # reservations std now n q)"

lemma reservations_nth:
  assumes "pool_wf p" "serving std now p \<noteq> []" "k < n"
  shows "length (reservations std now n p) = n
    \<and> reservations std now n p ! k
      = serving std now p ! ((start_index (serving std now p) (RoundRobinLastAccountID p) + k) mod length (serving std now p))"
  using assms
proof (induction n arbitrary: p k)
  case (Suc n)
  let ?E = "serving std now p"
  let ?s = "start_index ?E (RoundRobinLastAccountID p)"
  obtain cs where cs: "reserve_candidates std now p = Inr (cs, p\<lparr>RoundRobinLastAccountID := Some (ID (hd cs))\<rparr>)"
    "hd cs = ?E ! ?s"
    using reserve_picks [OF Suc.prems(1,2)] by blast
  have s: "?s < length ?E" using rotate_after_hd [OF Suc.prems(2), of p] by simp
  let ?q = "p\<lparr>RoundRobinLastAccountID := Some (ID (hd cs))\<rparr>"
  have q: "pool_wf ?q" using Suc.prems(1) by simp
  have "cs \<noteq> []"
  proof
    assume "cs = []"
    then have "mset (OrderCandidates std (map Some (Accounts p)) StrategyRoundRobin (Some p) now) = {#}"
      using cs(1) Suc.prems(2) by (auto simp: reserve_candidates_def Let_def serving_def routable_Some split: if_splits)
    then have "routable (map Some (Accounts p)) = []"
      using OrderCandidates_tiers [of std "map Some (Accounts p)" StrategyRoundRobin "Some p" now]
      by (metis (no_types, lifting) Suc.prems(2) append_is_Nil_conv mset_order_eligible mset_zero_iff serving_def)
    then show False using Suc.prems(2) by (simp add: serving_def)
  qed
  then have r: "reservations std now (Suc n) p = hd cs # reservations std now n ?q"
    using cs(1) by (cases cs) simp_all
  have next_start: "start_index ?E (RoundRobinLastAccountID ?q) = Suc ?s mod length ?E"
    using index_of_id_nth [OF serving_ids(1) [OF Suc.prems(1), of std now] s] cs(2)
    by (simp add: start_index_def)
  show ?case
  proof (cases k)
    case 0
    have "length (reservations std now n ?q) = n"
      using Suc.IH [OF q, of 0] Suc.prems(2) by (cases n) simp_all
    then show ?thesis using r cs(2) s 0 by simp
  next
    case (Suc j)
    then have "length (reservations std now n ?q) = n \<and> reservations std now n ?q ! j
        = ?E ! ((Suc ?s mod length ?E + j) mod length ?E)"
      using Suc.IH [OF q, of j] Suc.prems next_start by simp
    then show ?thesis using r Suc by (simp add: mod_simps)
  qed
qed simp

section \<open>Properties\<close>

text \<open>C20: Round robin is fair: as long as the same accounts can serve, any as many consecutive
  reservations as there are such accounts reserve each of them exactly once, whatever the cursor
  was at the start and wherever the window of reservations begins.\<close>

theorem round_robin_fair:
  assumes "pool_wf p" "serving std now p \<noteq> []" "j + length (serving std now p) \<le> m"
  shows "mset (take (length (serving std now p)) (drop j (reservations std now m p))) = mset (serving std now p)"
proof -
  let ?E = "serving std now p" and ?R = "reservations std now m p"
  let ?s = "start_index ?E (RoundRobinLastAccountID p)"
  have m: "0 < m" using assms by (cases ?E) auto
  have R: "length ?R = m" "\<And>k. k < m \<Longrightarrow> ?R ! k = ?E ! ((?s + k) mod length ?E)"
    using reservations_nth [OF assms(1,2), of _ m] m by blast+
  have "take (length ?E) (drop j ?R) = rotate (?s + j) ?E"
    by (rule nth_equalityI) (use assms(3) R in \<open>simp_all add: nth_rotate ac_simps\<close>)
  then show ?thesis by (simp add: rotate_drop_take mset_rotated del: mset_append)
qed

theorem round_robin_fair_witness:
  "mset (reservations demo_std (Fin 0) 2 (NewEmptyPool\<lparr>Accounts := [zero_account\<lparr>ID := ''a''\<rparr>, zero_account\<lparr>ID := ''b''\<rparr>]\<rparr>))
     = mset [zero_account\<lparr>ID := ''a''\<rparr>, zero_account\<lparr>ID := ''b''\<rparr>]"
proof -
  let ?p = "NewEmptyPool\<lparr>Accounts := [zero_account\<lparr>ID := ''a''\<rparr>, zero_account\<lparr>ID := ''b''\<rparr>]\<rparr>"
  have tier: "account_tier demo_std (Fin 0) (zero_account\<lparr>ID := i\<rparr>) = Healthy" for i
    by (simp add: account_tier_def in_cooldown_def IsReserveCapacity_def at_or_below_def zero_account_def
        capacity_def capacity_fractions_def has_explicit_windows_def legacy_fraction_def Let_def)
  have E: "serving demo_std (Fin 0) ?p = [zero_account\<lparr>ID := ''a''\<rparr>, zero_account\<lparr>ID := ''b''\<rparr>]"
  proof -
    have "Status (zero_account\<lparr>ID := i\<rparr>) = []" for i by (simp add: zero_account_def)
    then show ?thesis using tier unfolding serving_def routable_Some
      by (simp add: NewEmptyPool_def restricted_status_def)
  qed
  have wf: "pool_wf ?p" by (simp add: pool_wf_def ids_def NewEmptyPool_def)
  have "length (reservations demo_std (Fin 0) 2 ?p) = 2"
    using reservations_nth [OF wf, of demo_std "Fin 0" 0 2] E by simp
  then show ?thesis
    using round_robin_fair [OF wf, of demo_std "Fin 0" 0 2] E by simp
qed

end
