(* ===== verification/Request_Audit.thy ===== *)
theory Request_Audit
  imports Prelude Float64
begin

text \<open>
  The routing audit of internal/proxy/proxy.go: events, bounded subscriber channels, the queue of
  the observer callbacks and the counters of dropped events. A channel is its capacity and the
  events it buffers; the two observer callbacks are present or absent.
\<close>

record RoutingEvent =
  EvTimestamp :: int
  EvStrategy :: string
  EvAccount :: string
  EvAccountName :: string
  EvAccountID :: string
  EvClassification :: string
  EvHealthyCandidateCount :: nat
  EvHealthyCandidates :: "string list"
  EvReserveCandidateCount :: nat
  EvReserveCandidates :: "string list"
  EvFiveHourKnown :: bool
  EvFiveHourRemaining :: "float64 option"
  EvFiveHourResetAt :: "int option"
  EvFiveHourResetRatio :: "float64 option"
  EvFiveHourPace :: "float64 option"
  EvWeeklyKnown :: bool
  EvWeeklyRemaining :: "float64 option"
  EvWeeklyResetAt :: "int option"
  EvWeeklyResetRatio :: "float64 option"
  EvWeeklyPace :: "float64 option"
  EvKnownWindowCount :: int
  EvFreshnessRank :: "int option"
  EvWorstPace :: "float64 option"
  EvTotalPace :: "float64 option"
  EvRawFloor :: "float64 option"
  EvAttempt :: nat
  EvStatus :: int
  EvFailoverReason :: string
  EvPath :: string

definition DefaultAuditBufferSize :: nat where "DefaultAuditBufferSize = 1024"

record subscriber =
  sub_id :: nat
  sub_cap :: nat
  sub_buf :: "RoutingEvent list"

record audit =
  auditQueue :: "RoutingEvent list"
  droppedAuditEvents :: int
  sessionDroppedEvents :: int
  activeAuditors :: int
  activeSubscribers :: "subscriber list"
  AuditObserver :: bool
  AuditObserverEvent :: bool
  nextChan :: nat

definition audit_init :: audit where
  "audit_init = \<lparr>auditQueue = [], droppedAuditEvents = 0, sessionDroppedEvents = 0, activeAuditors = 0,
     activeSubscribers = [], AuditObserver = False, AuditObserverEvent = False, nextChan = 0\<rparr>"

definition HasActiveAuditor :: "audit \<Rightarrow> bool" where
  "HasActiveAuditor s \<longleftrightarrow> 0 < activeAuditors s"

definition updateActiveAuditorsLocked :: "audit \<Rightarrow> audit" where
  "updateActiveAuditorsLocked s =
     s\<lparr>activeAuditors := int (length (activeSubscribers s)) + (if AuditObserver s then 1 else 0)
         + (if AuditObserverEvent s then 1 else 0)\<rparr>"

text \<open>The handle SubscribeAudit returns is the identity of the channel, for its cancel function.\<close>

definition SubscribeAudit :: "int \<Rightarrow> audit \<Rightarrow> nat \<times> audit" where
  "SubscribeAudit bufSize s =
     (let size = (if bufSize \<le> 0 then DefaultAuditBufferSize else nat bufSize);
          ch = \<lparr>sub_id = nextChan s, sub_cap = size, sub_buf = []\<rparr>
      in (nextChan s, updateActiveAuditorsLocked
            (s\<lparr>sessionDroppedEvents := 0, activeSubscribers := activeSubscribers s @ [ch],
               nextChan := Suc (nextChan s)\<rparr>)))"

fun remove_sub :: "nat \<Rightarrow> subscriber list \<Rightarrow> subscriber list" where
  "remove_sub k [] = []"
| "remove_sub k (x # xs) = (if sub_id x = k then xs else x # remove_sub k xs)"

definition cancel_subscription :: "nat \<Rightarrow> audit \<Rightarrow> audit" where
  "cancel_subscription k s =
     updateActiveAuditorsLocked (s\<lparr>activeSubscribers := remove_sub k (activeSubscribers s)\<rparr>)"

definition ResetDroppedAuditEvents :: "audit \<Rightarrow> audit" where
  "ResetDroppedAuditEvents s = s\<lparr>sessionDroppedEvents := 0, droppedAuditEvents := 0\<rparr>"

definition SetAuditObserver :: "bool \<Rightarrow> audit \<Rightarrow> audit" where
  "SetAuditObserver fn s =
     (let s1 = s\<lparr>AuditObserver := fn, auditQueue := []\<rparr>;
          s2 = (if fn then s1\<lparr>sessionDroppedEvents := 0\<rparr> else s1)
      in updateActiveAuditorsLocked s2)"

definition SetAuditObserverEvent :: "bool \<Rightarrow> audit \<Rightarrow> audit" where
  "SetAuditObserverEvent fn s =
     (let s1 = s\<lparr>AuditObserverEvent := fn, auditQueue := []\<rparr>;
          s2 = (if fn then s1\<lparr>sessionDroppedEvents := 0\<rparr> else s1)
      in updateActiveAuditorsLocked s2)"

definition drop_event :: "audit \<Rightarrow> audit" where
  "drop_event s = s\<lparr>sessionDroppedEvents := wrap64 (sessionDroppedEvents s + 1),
                    droppedAuditEvents := wrap64 (droppedAuditEvents s + 1)\<rparr>"

text \<open>The loop over the subscribers: a non-blocking send to each.\<close>

fun offer_all :: "RoutingEvent \<Rightarrow> subscriber list \<Rightarrow> subscriber list \<times> nat" where
  "offer_all ev [] = ([], 0)"
| "offer_all ev (c # cs) =
     (let (ds, n) = offer_all ev cs
      in if length (sub_buf c) < sub_cap c then (c\<lparr>sub_buf := sub_buf c @ [ev]\<rparr> # ds, n) else (c # ds, Suc n))"

definition EmitRoutingEvent :: "RoutingEvent \<Rightarrow> audit \<Rightarrow> bool \<times> audit" where
  "EmitRoutingEvent ev s =
     (if \<not> HasActiveAuditor s then (False, s)
      else
        let (subs, dropped) = offer_all ev (activeSubscribers s);
            s1 = (drop_event ^^ dropped) (s\<lparr>activeSubscribers := subs\<rparr>)
        in if AuditObserver s1 \<or> AuditObserverEvent s1 then
             (if length (auditQueue s1) < DefaultAuditBufferSize
              then (dropped = 0, s1\<lparr>auditQueue := auditQueue s1 @ [ev]\<rparr>)
              else (False, drop_event s1))
           else (dropped = 0, s1))"

text \<open>A receive of the audit worker, and of a subscriber.\<close>

definition worker_receive :: "audit \<Rightarrow> audit" where
  "worker_receive s = s\<lparr>auditQueue := tl (auditQueue s)\<rparr>"

definition subscriber_receive :: "nat \<Rightarrow> audit \<Rightarrow> audit" where
  "subscriber_receive k s =
     s\<lparr>activeSubscribers := map (\<lambda>c. if sub_id c = k then c\<lparr>sub_buf := tl (sub_buf c)\<rparr> else c) (activeSubscribers s)\<rparr>"

section \<open>Reachable audit states\<close>

inductive audit_step :: "audit \<Rightarrow> audit \<Rightarrow> bool" where
  subscribe: "audit_step s (snd (SubscribeAudit n s))"
| cancel: "audit_step s (cancel_subscription k s)"
| reset: "audit_step s (ResetDroppedAuditEvents s)"
| observe: "audit_step s (SetAuditObserver b s)"
| observe_event: "audit_step s (SetAuditObserverEvent b s)"
| emit: "audit_step s (snd (EmitRoutingEvent ev s))"
| work: "audit_step s (worker_receive s)"
| take: "audit_step s (subscriber_receive k s)"

inductive_cases audit_stepE: "audit_step s t"

definition audit_inv :: "audit \<Rightarrow> bool" where
  "audit_inv s \<longleftrightarrow>
     length (auditQueue s) \<le> DefaultAuditBufferSize
     \<and> list_all (\<lambda>c. length (sub_buf c) \<le> sub_cap c \<and> 0 < sub_cap c) (activeSubscribers s)
     \<and> activeAuditors s = int (length (activeSubscribers s)) + (if AuditObserver s then 1 else 0)
         + (if AuditObserverEvent s then 1 else 0)"

lemma drop_event_frame [simp]:
  "auditQueue ((drop_event ^^ n) s) = auditQueue s" "activeSubscribers ((drop_event ^^ n) s) = activeSubscribers s"
  "activeAuditors ((drop_event ^^ n) s) = activeAuditors s" "AuditObserver ((drop_event ^^ n) s) = AuditObserver s"
  "AuditObserverEvent ((drop_event ^^ n) s) = AuditObserverEvent s"
  by (induction n) (simp_all add: drop_event_def)

lemma drop_event_one [simp]:
  "auditQueue (drop_event s) = auditQueue s" "activeSubscribers (drop_event s) = activeSubscribers s"
  "activeAuditors (drop_event s) = activeAuditors s" "AuditObserver (drop_event s) = AuditObserver s"
  "AuditObserverEvent (drop_event s) = AuditObserverEvent s"
  using drop_event_frame [of 1 s] by simp_all

lemma offer_all_bounded:
  "offer_all ev cs = (ds, n) \<Longrightarrow> list_all (\<lambda>c. length (sub_buf c) \<le> sub_cap c \<and> 0 < sub_cap c) cs \<Longrightarrow>
     list_all (\<lambda>c. length (sub_buf c) \<le> sub_cap c \<and> 0 < sub_cap c) ds \<and> length ds = length cs"
  by (induction cs arbitrary: ds n) (auto simp: Let_def split: prod.splits if_splits)

lemma remove_sub_all: "list_all P cs \<Longrightarrow> list_all P (remove_sub k cs)"
  by (induction cs) auto

lemma audit_step_inv: "audit_step s t \<Longrightarrow> audit_inv s \<Longrightarrow> audit_inv t"
proof (induction rule: audit_step.induct)
  case (emit s ev)
  obtain ds n where "offer_all ev (activeSubscribers s) = (ds, n)" by (cases "offer_all ev (activeSubscribers s)")
  then show ?case using emit offer_all_bounded [of ev "activeSubscribers s" ds n]
    by (auto simp: audit_inv_def EmitRoutingEvent_def Let_def)
qed (auto simp: audit_inv_def SubscribeAudit_def cancel_subscription_def ResetDroppedAuditEvents_def
    SetAuditObserver_def SetAuditObserverEvent_def updateActiveAuditorsLocked_def worker_receive_def
    subscriber_receive_def DefaultAuditBufferSize_def Let_def list_all_iff
    intro: remove_sub_all [unfolded list_all_iff, rule_format])

lemma audit_init_inv: "audit_inv audit_init"
  by (simp add: audit_inv_def audit_init_def)

lemma audit_reachable_inv: "audit_step\<^sup>*\<^sup>* audit_init s \<Longrightarrow> audit_inv s"
  by (induction rule: rtranclp_induct) (auto simp: audit_init_inv intro: audit_step_inv)

section \<open>Properties\<close>

text \<open>In every reachable audit state all buffers stay within their bounds, an event is emitted
  only when someone listens, and emitting never blocks: a buffer with room receives the event as
  its last one, a full one stays as it is.\<close>

theorem audit_buffers_bounded:
  assumes "audit_step\<^sup>*\<^sup>* audit_init s"
  shows "length (auditQueue s) \<le> 1024
       \<and> list_all (\<lambda>c. length (sub_buf c) \<le> sub_cap c) (activeSubscribers s)
       \<and> (HasActiveAuditor s \<longleftrightarrow> activeSubscribers s \<noteq> [] \<or> AuditObserver s \<or> AuditObserverEvent s)
       \<and> map sub_buf (activeSubscribers (snd (EmitRoutingEvent ev s)))
         = map (\<lambda>c. if length (sub_buf c) < sub_cap c then sub_buf c @ [ev] else sub_buf c) (activeSubscribers s)"
proof -
  have inv: "audit_inv s" by (rule audit_reachable_inv [OF assms])
  have "offer_all ev cs = (ds, n) \<Longrightarrow>
      map sub_buf ds = map (\<lambda>c. if length (sub_buf c) < sub_cap c then sub_buf c @ [ev] else sub_buf c) cs" for cs ds n
    by (induction cs arbitrary: ds n) (auto simp: Let_def split: prod.splits if_splits)
  then have "HasActiveAuditor s \<Longrightarrow> map sub_buf (activeSubscribers (snd (EmitRoutingEvent ev s)))
         = map (\<lambda>c. if length (sub_buf c) < sub_cap c then sub_buf c @ [ev] else sub_buf c) (activeSubscribers s)"
    by (auto simp: EmitRoutingEvent_def Let_def split: prod.splits)
  moreover have "HasActiveAuditor s \<longleftrightarrow> activeSubscribers s \<noteq> [] \<or> AuditObserver s \<or> AuditObserverEvent s"
    using inv by (auto simp: audit_inv_def HasActiveAuditor_def)
  ultimately show ?thesis using inv
    by (auto simp: audit_inv_def DefaultAuditBufferSize_def list_all_iff EmitRoutingEvent_def)
qed

theorem audit_buffers_bounded_witness:
  "list_all (\<lambda>c. length (sub_buf c) \<le> sub_cap c) (activeSubscribers (snd (SubscribeAudit 1 audit_init)))"
  using audit_buffers_bounded [of "snd (SubscribeAudit 1 audit_init)"] by (blast intro: audit_step.subscribe)

end
