(* ===== verification/Proxy.thy ===== *)
theory Proxy
  imports Accounts Failover Round_Robin Request_Audit
begin

text \<open>
  internal/proxy/proxy.go: HandleProxy and dispatchAccount. The environment answers by attempt
  number: the refreshed token, what the upstream exchange returns, whether the client has gone,
  whether bookkeeping transactions fail, the clock. The state is the response committer, the store,
  the in-flight counts, the audit, and two traces that the code does not keep: the requests handed
  to the HTTP client with their results, and the outcomes of the attempts. Log output is left out.
\<close>

section \<open>Data\<close>

datatype DispatchAction = ActionFailoverNext | ActionTerminal

record DispatchOutcome =
  OAction :: DispatchAction
  OReason :: string
  OErr :: "gerror option"

record SelectionAuditContext =
  CtxStrategy :: string
  CtxNow :: float64
  CtxHealthy :: "string list"
  CtxReserve :: "string list"

record upstream_request =
  UMethod :: string
  UURL :: string
  UHeader :: header
  UBody :: "string option"

datatype transport_result = TransportError gerror | Response int header stream

record proxy_env =
  e_std :: go_std
  e_until :: "int \<times> int \<Rightarrow> int"
  e_details :: "string \<Rightarrow> error_detail list option"
  e_now :: int
  e_clock :: "nat \<Rightarrow> int"
  e_load_error :: "gerror option"
  e_reserve_error :: "gerror option"
  e_refresh :: "nat \<Rightarrow> Account \<Rightarrow> store \<Rightarrow> (gerror + string) \<times> Account \<times> store"
  e_request_ok :: "string \<Rightarrow> string \<Rightarrow> bool"
  e_upstream :: "nat \<Rightarrow> upstream_request \<Rightarrow> transport_result"
  e_cancelled :: "nat \<Rightarrow> bool"
  e_tx :: "nat \<Rightarrow> gerror option"
  e_write_fails :: "nat \<Rightarrow> bool"
  e_backend_host :: string
  e_backend_url :: string
  e_user_agent :: string

record proxy_world =
  p_comm :: committer
  p_store :: store
  p_flight :: InFlight
  p_audit :: audit
  p_scheduled :: "Account list"
  p_sent :: "(upstream_request \<times> transport_result) list"
  p_attempts :: "(Account \<times> DispatchOutcome) list"

definition count_p :: "(Metrics \<Rightarrow> Metrics) \<Rightarrow> proxy_world \<Rightarrow> proxy_world" where
  "count_p f w = w\<lparr>p_store := count f (p_store w)\<rparr>"

definition respond :: "(committer \<Rightarrow> committer) \<Rightarrow> proxy_world \<Rightarrow> proxy_world" where
  "respond f w = w\<lparr>p_comm := f (p_comm w)\<rparr>"

definition outcome :: "DispatchAction \<Rightarrow> string \<Rightarrow> gerror option \<Rightarrow> DispatchOutcome" where
  "outcome a r e = \<lparr>OAction = a, OReason = r, OErr = e\<rparr>"

section \<open>Audit of an attempt\<close>

definition classification_of :: "CapacityState \<Rightarrow> string" where
  "classification_of cap =
     (if IsDepleted cap then ''Depleted''
      else if IsReserveCapacity cap then ''Reserve''
      else if 0 < KnownWindowCount cap \<or> LegacyFractionKnown cap then ''Healthy''
      else ''Unknown'')"

definition unless_inf :: "float64 \<Rightarrow> float64 option" where
  "unless_inf f = (if f = PInf \<or> f = NInf then None else Some f)"

definition freeze_event :: "go_std \<Rightarrow> SelectionAuditContext \<Rightarrow> Account \<Rightarrow> string \<Rightarrow> RoutingEvent" where
  "freeze_event std ctx acc path =
     (let cap = ComputeCapacityState std (Some acc) (CtxNow ctx);
          disp = DisplayAccountName (Some acc)
      in \<lparr>EvTimestamp = 0, EvStrategy = CtxStrategy ctx, EvAccount = disp, EvAccountName = disp,
          EvAccountID = ID acc, EvClassification = classification_of cap,
          EvHealthyCandidateCount = length (CtxHealthy ctx), EvHealthyCandidates = CtxHealthy ctx,
          EvReserveCandidateCount = length (CtxReserve ctx), EvReserveCandidates = CtxReserve ctx,
          EvFiveHourKnown = Q5Known cap, EvFiveHourRemaining = Q5 cap, EvFiveHourResetAt = Reset5Time cap,
          EvFiveHourResetRatio = map_option (\<lambda>q. R5 cap) (Q5 cap), EvFiveHourPace = Pace5 cap,
          EvWeeklyKnown = Q7Known cap, EvWeeklyRemaining = Q7 cap, EvWeeklyResetAt = Reset7Time cap,
          EvWeeklyResetRatio = map_option (\<lambda>q. R7 cap) (Q7 cap), EvWeeklyPace = Pace7 cap,
          EvKnownWindowCount = KnownWindowCount cap,
          EvFreshnessRank = Some (FreshnessRank std (Some acc) (CtxNow ctx)),
          EvWorstPace = unless_inf (WorstPace cap), EvTotalPace = unless_inf (TotalPace cap),
          EvRawFloor = Some (RawFloor cap), EvAttempt = 0, EvStatus = 0, EvFailoverReason = [], EvPath = path\<rparr>)"

definition notifyAudit ::
  "proxy_env \<Rightarrow> nat \<Rightarrow> RoutingEvent option \<Rightarrow> int \<Rightarrow> string \<Rightarrow> proxy_world \<Rightarrow> proxy_world" where
  "notifyAudit env attempt frozen status reason w =
     (case frozen of None \<Rightarrow> w | Some ev \<Rightarrow>
        if \<not> HasActiveAuditor (p_audit w) then w
        else w\<lparr>p_audit := snd (EmitRoutingEvent
               (ev\<lparr>EvTimestamp := e_clock env attempt, EvAttempt := attempt, EvStatus := status,
                   EvFailoverReason := reason\<rparr>) (p_audit w))\<rparr>)"

section \<open>One attempt\<close>

text \<open>io.ReadAll of a body, and of the same body behind io.LimitReader.\<close>

definition body_of :: "stream \<Rightarrow> string \<times> gerror option" where
  "body_of s = (stream_bytes s, stream_end s)"

definition limited_body :: "int \<Rightarrow> stream \<Rightarrow> string \<times> gerror option" where
  "limited_body n s =
     (if n \<le> int (length (stream_bytes s)) then (take (nat n) (stream_bytes s), None) else body_of s)"

definition gateway_code :: "gerror option \<Rightarrow> int" where
  "gateway_code err = (if IsTimeoutError err then 504 else 502)"

definition store_op :: "(store \<Rightarrow> 'r \<times> store) \<Rightarrow> proxy_world \<Rightarrow> 'r \<times> proxy_world" where
  "store_op f w = (let (r, s) = f (p_store w) in (r, w\<lparr>p_store := s\<rparr>))"

text \<open>The branch for a complete error response, status 400 and above.\<close>

definition error_response ::
  "proxy_env \<Rightarrow> nat \<Rightarrow> RoutingEvent option \<Rightarrow> Account \<Rightarrow> int \<Rightarrow> header \<Rightarrow> string \<Rightarrow> proxy_world
   \<Rightarrow> DispatchOutcome \<times> proxy_world" where
  "error_response env attempt frozen acc status headers errBody w =
     (if IsValidationError status errBody then
        (let (perr, w1) = store_op (RecordValidationError (e_details env) (e_tx env attempt) (e_clock env attempt) acc errBody) w
         in (outcome ActionFailoverNext ''ExplicitRetryableUpstreamResponse:ValidationError'' perr,
             notifyAudit env attempt frozen status ''ValidationError'' w1))
      else if IsQuotaError status errBody then
        (let ((delay, perr), w1) = store_op (RecordQuotaError (e_std env) (e_until env) (e_tx env attempt) (e_clock env attempt) acc headers) w
         in (outcome ActionFailoverNext ''ExplicitRetryableUpstreamResponse:QuotaExhausted'' perr,
             notifyAudit env attempt frozen status ''QuotaExhausted'' w1))
      else if IsAuthError status errBody then
        (let (perr, w1) = store_op (RecordAuthError (e_tx env attempt) (e_clock env attempt) acc) w
         in (outcome ActionFailoverNext ''ExplicitRetryableUpstreamResponse:AuthFailure'' perr,
             notifyAudit env attempt frozen status ''AuthFailure'' w1))
      else
        (outcome ActionTerminal ''ExplicitNonRetryableUpstreamResponse'' None,
         respond (SendBuffered status headers errBody) (notifyAudit env attempt frozen status ''NonRetryableError'' w)))"

definition failed_response ::
  "proxy_env \<Rightarrow> nat \<Rightarrow> RoutingEvent option \<Rightarrow> Account \<Rightarrow> int \<Rightarrow> header \<Rightarrow> stream \<Rightarrow> proxy_world
   \<Rightarrow> DispatchOutcome \<times> proxy_world" where
  "failed_response env attempt frozen acc status headers body w =
     (let (errBody, readErr) = limited_body (maxRequestBodyBytes + 1) body
      in if readErr \<noteq> None \<or> maxRequestBodyBytes < int (length errBody)
         then (outcome ActionTerminal ''AmbiguousTransportFailure:BodyReadError'' (Some ErrAmbiguousTransport),
               respond (http_error ''Upstream response incomplete or too large'' (gateway_code readErr))
                 (count_p RecordNoReplayPrevented
                   (notifyAudit env attempt frozen status ''AmbiguousTransportFailure:BodyReadError'' w)))
         else if status < 400
         then (outcome ActionTerminal ''UpstreamRedirect'' None,
               respond (SendBuffered status headers errBody)
                 (notifyAudit env attempt frozen status ''UpstreamRedirect'' w))
         else error_response env attempt frozen acc status headers errBody w)"

definition good_response ::
  "proxy_env \<Rightarrow> nat \<Rightarrow> RoutingEvent option \<Rightarrow> bool \<Rightarrow> bool \<Rightarrow> Account \<Rightarrow> int \<Rightarrow> header \<Rightarrow> stream \<Rightarrow> proxy_world
   \<Rightarrow> DispatchOutcome \<times> proxy_world" where
  "good_response env attempt frozen isGeneration isSSE acc status headers body w0 =
     (let w = notifyAudit env attempt frozen status [] w0;
          isStream = (isSSE \<or> contains (to_lower (h_get headers ''Content-Type'')) ''text/event-stream'');
          success = store_op (RecordSuccess (e_tx env attempt) (e_clock env attempt) acc isGeneration)
      in if isStream then
           (let w1 = snd (success w);
                (c, streamErr) = SendStream (e_write_fails env) status headers body (p_comm w1);
                w2 = w1\<lparr>p_comm := c\<rparr>
            in case streamErr of
                 Some e \<Rightarrow> (outcome ActionTerminal ''CommittedStreamTruncated'' (Some e), count_p RecordNoReplayPrevented w2)
               | None \<Rightarrow> (outcome ActionTerminal ''CommittedStreamSuccess'' None, w2))
         else
           (case body_of body of
              (respBody, Some e) \<Rightarrow>
                (outcome ActionTerminal ''AmbiguousTransportFailure:BodyReadError'' (Some e),
                 respond (http_error ''Upstream request failed'' (gateway_code (Some e))) (count_p RecordNoReplayPrevented w))
            | (respBody, None) \<Rightarrow>
                (outcome ActionTerminal ''TerminalSuccess'' None,
                 respond (SendBuffered status headers respBody) (snd (success w)))))"

definition upstream_body :: "Request \<Rightarrow> string \<Rightarrow> string option" where
  "upstream_body r body =
     (if RMethod r = ''POST'' \<and> body = [] then Some [] else if body \<noteq> [] then Some body else None)"

text \<open>The request, with the headers GenerationRoundTripper.RoundTrip removes.\<close>

definition upstream_request_of ::
  "proxy_env \<Rightarrow> Request \<Rightarrow> string \<Rightarrow> string \<Rightarrow> bool \<Rightarrow> string \<Rightarrow> string \<Rightarrow> upstream_request" where
  "upstream_request_of env r path body isGeneration token clientUA =
     (let h0 = FilterRequestHeaders (e_backend_host env) r token clientUA;
          h1 = (if RMethod r = ''POST'' \<and> body = [] then h_set ''Content-Length'' ''0'' h0 else h0);
          h2 = (if isGeneration then h_del ''X-Idempotency-Key'' (h_del ''Idempotency-Key'' h1) else h1)
      in \<lparr>UMethod = RMethod r, UURL = e_backend_url env @ path, UHeader = h2, UBody = upstream_body r body\<rparr>)"

definition exchange ::
  "proxy_env \<Rightarrow> Request \<Rightarrow> string \<Rightarrow> string \<Rightarrow> bool \<Rightarrow> bool \<Rightarrow> Account \<Rightarrow> string \<Rightarrow> nat \<Rightarrow> RoutingEvent option
   \<Rightarrow> string \<Rightarrow> proxy_world \<Rightarrow> DispatchOutcome \<times> proxy_world" where
  "exchange env r path body isGeneration isSSE acc clientUA attempt frozen token w =
     (let req = upstream_request_of env r path body isGeneration token clientUA
      in if \<not> e_request_ok env (UMethod req) (UURL req)
         then (outcome ActionTerminal ''RequestCreationFailed'' (Some (ErrNew ''invalid request'')), w)
         else
           let result = e_upstream env attempt req;
               w1 = w\<lparr>p_sent := p_sent w @ [(req, result)]\<rparr>
           in case result of
                TransportError e \<Rightarrow>
                  if e_cancelled env attempt
                  then (outcome ActionTerminal ''ClientDisconnected'' (Some ErrClientDisconnected), w1)
                  else (outcome ActionTerminal ''AmbiguousTransportFailure'' (Some ErrAmbiguousTransport),
                        respond (http_error ''Upstream request failed'' (gateway_code (Some e)))
                          (count_p RecordNoReplayPrevented
                            (notifyAudit env attempt frozen 502 ''AmbiguousTransportFailure'' w1)))
              | Response status headers rbody \<Rightarrow>
                  if 300 \<le> status then failed_response env attempt frozen acc status headers rbody w1
                  else good_response env attempt frozen isGeneration isSSE acc status headers rbody w1)"

definition try_account ::
  "proxy_env \<Rightarrow> Request \<Rightarrow> string \<Rightarrow> string \<Rightarrow> bool \<Rightarrow> bool \<Rightarrow> Account \<Rightarrow> string \<Rightarrow> nat \<Rightarrow> RoutingEvent option
   \<Rightarrow> proxy_world \<Rightarrow> DispatchOutcome \<times> proxy_world" where
  "try_account env r path body isGeneration isSSE acc clientUA attempt frozen w =
     (case store_op (\<lambda>s. case e_refresh env attempt acc s of (x, a, s1) \<Rightarrow> ((x, a), s1)) w of
        ((Inl e, acc1), w1) \<Rightarrow>
          (let w2 = notifyAudit env attempt frozen 401 ''TokenRefreshFailed'' w1;
               w3 = (if errors_is e ErrInvalidCredentials
                     then snd (store_op (RecordAuthError (e_tx env attempt) (e_clock env attempt) acc1) w2) else w2)
           in (outcome ActionFailoverNext ''TokenRefreshFailed'' (Some e), w3))
      | ((Inr token, acc1), w1) \<Rightarrow>
          exchange env r path body isGeneration isSSE acc1 clientUA attempt frozen token w1)"

definition dispatchAccount ::
  "proxy_env \<Rightarrow> Request \<Rightarrow> string \<Rightarrow> string \<Rightarrow> bool \<Rightarrow> bool \<Rightarrow> Account \<Rightarrow> string \<Rightarrow> nat
   \<Rightarrow> SelectionAuditContext option \<Rightarrow> proxy_world \<Rightarrow> DispatchOutcome \<times> proxy_world" where
  "dispatchAccount env r path body isGeneration isSSE acc clientUA attempt auditCtx w =
     (let tracked = (isGeneration \<and> ID acc \<noteq> []);
          handle = length (Dones (p_flight w));
          w1 = (if tracked then w\<lparr>p_flight := StartInFlightGeneration (ID acc) (p_flight w)\<rparr> else w);
          frozen = (if isGeneration \<and> HasActiveAuditor (p_audit w1)
                    then map_option (\<lambda>ctx. freeze_event (e_std env) ctx acc path) auditCtx else None);
          (out, w2) = try_account env r path body isGeneration isSSE acc clientUA attempt frozen w1
      in (out, if tracked then w2\<lparr>p_flight := call_done handle (p_flight w2)\<rparr> else w2))"

section \<open>The handler\<close>

text \<open>One turn of the loop over the candidates: the world after it, and whether the loop goes on.\<close>

definition attempt_turn ::
  "proxy_env \<Rightarrow> Request \<Rightarrow> string \<Rightarrow> string \<Rightarrow> bool \<Rightarrow> bool \<Rightarrow> string \<Rightarrow> SelectionAuditContext option
   \<Rightarrow> Account \<Rightarrow> nat \<Rightarrow> bool \<Rightarrow> proxy_world \<Rightarrow> bool \<times> bool \<times> proxy_world" where
  "attempt_turn env r path body isGeneration isSSE clientUA ctx acc n hasFailedOver w =
     (let w1 = (if isGeneration then count_p RecordRoutingDecision w else w);
          over = (isGeneration \<and> 1 < n \<or> hasFailedOver);
          w2 = (if isGeneration \<and> 1 < n then count_p RecordFailoverAttempt w1 else w1);
          (out, w3) = dispatchAccount env r path body isGeneration isSSE acc clientUA n ctx w2;
          w4 = w3\<lparr>p_attempts := p_attempts w3 @ [(acc, out)]\<rparr>;
          w5 = (if isGeneration \<and> (OReason out = ''TerminalSuccess'' \<or> OReason out = ''CommittedStreamSuccess'')
                then (let v = count_p RecordGenerationSuccess w4
                      in if over then count_p RecordFailoverSuccess v else v)
                else w4)
      in (\<not> IsCommitted (p_comm w5) \<and> OAction out = ActionFailoverNext, over, w5))"

primrec attempt_loop ::
  "proxy_env \<Rightarrow> Request \<Rightarrow> string \<Rightarrow> string \<Rightarrow> bool \<Rightarrow> bool \<Rightarrow> string \<Rightarrow> SelectionAuditContext option
   \<Rightarrow> Account list \<Rightarrow> nat \<Rightarrow> bool \<Rightarrow> proxy_world \<Rightarrow> proxy_world" where
  "attempt_loop env r path body isGeneration isSSE clientUA ctx [] attempt hasFailedOver w =
     (if \<not> IsCommitted (p_comm w)
      then respond (http_error ''All accounts in pool exhausted or unavailable'' 503) w else w)"
| "attempt_loop env r path body isGeneration isSSE clientUA ctx (acc # cands) attempt hasFailedOver w =
     (if isGeneration \<and> IsRestricted (Some acc)
      then attempt_loop env r path body isGeneration isSSE clientUA ctx cands attempt hasFailedOver w
      else case attempt_turn env r path body isGeneration isSSE clientUA ctx acc (Suc attempt) hasFailedOver w of
             (go_on, over, v) \<Rightarrow>
               if go_on then attempt_loop env r path body isGeneration isSSE clientUA ctx cands (Suc attempt) over v
               else v)"

definition nongen_score :: "float64 \<Rightarrow> string \<Rightarrow> Account \<Rightarrow> nat" where
  "nongen_score now activeID a =
     (if Status a = ''validation_required'' \<or> Status a = ''auth_error'' then 3
      else if (case RateLimitedUntil a of None \<Rightarrow> False | Some u \<Rightarrow> flt now u) then 2
      else if ID a = activeID then 0
      else 1)"

definition candidates_for :: "proxy_env \<Rightarrow> bool \<Rightarrow> Pool \<Rightarrow> proxy_world \<Rightarrow> Account list \<times> proxy_world" where
  "candidates_for env isGeneration pool w =
     (let now = f_of_int (e_now env);
          strategy = (if Strategy pool = [] then ''max_quota'' else Strategy pool)
      in if isGeneration then
           (if strategy = StrategyRoundRobin then
              (case store_op (ReserveRoundRobinCandidates (e_std env) (e_reserve_error env) now) w of
                 (Inr cs, w1) \<Rightarrow> (cs, w1)
               | (Inl e, w1) \<Rightarrow> (OrderCandidates (e_std env) (map Some (Accounts pool)) strategy (Some pool) now, w1))
            else (OrderCandidates (e_std env) (map Some (Accounts pool)) strategy (Some pool) now, w))
         else
           (let activeID = (case ActiveAccountID pool of None \<Rightarrow> [] | Some i \<Rightarrow> i)
            in (slice_stable (\<lambda>a b. nongen_score now activeID a < nongen_score now activeID b) (Accounts pool), w)))"

definition selection_context :: "proxy_env \<Rightarrow> Pool \<Rightarrow> SelectionAuditContext" where
  "selection_context env pool =
     (let now = f_of_int (e_now env);
          serve = filter (\<lambda>a. \<not> restricted_status (Status a) \<and> \<not> in_cooldown now a
                            \<and> \<not> IsDepleted (ComputeCapacityState (e_std env) (Some a) now)) (Accounts pool);
          cap = (\<lambda>a. ComputeCapacityState (e_std env) (Some a) now);
          reserve = filter (\<lambda>a. IsReserveCapacity (cap a)) serve;
          healthy = filter (\<lambda>a. \<not> IsReserveCapacity (cap a) \<and> (0 < KnownWindowCount (cap a) \<or> LegacyFractionKnown (cap a))) serve
      in \<lparr>CtxStrategy = (if Strategy pool = [] then ''max_quota'' else Strategy pool), CtxNow = now,
          CtxHealthy = map (\<lambda>a. DisplayAccountName (Some a)) healthy,
          CtxReserve = map (\<lambda>a. DisplayAccountName (Some a)) reserve\<rparr>)"

definition count_request :: "Pool \<Rightarrow> proxy_world \<Rightarrow> proxy_world" where
  "count_request pool w =
     foldl (\<lambda>v a. if IsRestricted (Some a) then count_p RecordRestrictedSkip v else v)
       (count_p RecordGenerationRequest w) (Accounts pool)"

definition HandleProxy :: "proxy_env \<Rightarrow> Request \<Rightarrow> proxy_world \<Rightarrow> proxy_world" where
  "HandleProxy env r w =
     (let path = (case RURL r of None \<Rightarrow> ''/'' | Some (uri, p) \<Rightarrow> if uri = [] then ''/'' else uri)
      in case ReadRequestBody r of
           Inl e \<Rightarrow> respond (http_error ''bad request'' (case e of MaxBytesError n \<Rightarrow> 413 | _ \<Rightarrow> 400)) w
         | Inr body \<Rightarrow>
             (let isGeneration = IsGenerationRequest (Some r);
                  isSSE = IsStreamRequest (Some r);
                  pool = spool (p_store w)
              in if e_load_error env \<noteq> None \<or> Accounts pool = []
                 then respond (http_error ''No accounts configured in agy-pool'' 503) w
                 else
                   let w1 = (if isGeneration then count_request pool w else w);
                       (candidates, w2) = candidates_for env isGeneration pool w1;
                       w3 = (if isGeneration \<and> candidates \<noteq> []
                                \<and> RefreshNeeded (e_std env) (Some (hd candidates)) (f_of_int (e_now env))
                             then w2\<lparr>p_scheduled := p_scheduled w2 @ [hd candidates]\<rparr> else w2);
                       ua = h_get (RHeader r) ''User-Agent'';
                       clientUA = (if has_prefix ua ''antigravity/'' then ua else e_user_agent env);
                       ctx = (if isGeneration \<and> HasActiveAuditor (p_audit w3)
                              then Some (selection_context env pool) else None)
                   in attempt_loop env r path body isGeneration isSSE clientUA ctx candidates 0 False w3))"

fun path_before_query :: "string \<Rightarrow> string" where
  "path_before_query [] = []"
| "path_before_query (c # cs) = (if c = CHR ''?'' then [] else c # path_before_query cs)"

definition filepathBase :: "string \<Rightarrow> string" where
  "filepathBase path =
     (let parts = split_on (CHR ''/'') (trim_right_char (CHR ''/'') (path_before_query path))
      in if last parts \<noteq> [] then last parts else ''/'')"

section \<open>Frames\<close>

lemma frames [simp]:
  "p_comm (notifyAudit env n fr st rs w) = p_comm w" "p_sent (notifyAudit env n fr st rs w) = p_sent w"
  "p_attempts (notifyAudit env n fr st rs w) = p_attempts w" "p_flight (notifyAudit env n fr st rs w) = p_flight w"
  "p_store (notifyAudit env n fr st rs w) = p_store w"
  "p_comm (count_p f w) = p_comm w" "p_sent (count_p f w) = p_sent w" "p_attempts (count_p f w) = p_attempts w"
  "p_flight (count_p f w) = p_flight w"
  "p_comm (respond g w) = g (p_comm w)" "p_sent (respond g w) = p_sent w" "p_attempts (respond g w) = p_attempts w"
  "p_flight (respond g w) = p_flight w" "p_store (respond g w) = p_store w"
  "spool (p_store (count_p f w)) = spool (p_store w)"
  by (simp_all add: notifyAudit_def count_p_def respond_def count_def split: option.splits)

lemma store_op_frames:
  "store_op f w = (x, v) \<Longrightarrow> p_comm v = p_comm w \<and> p_sent v = p_sent w \<and> p_attempts v = p_attempts w
     \<and> p_flight v = p_flight w"
  by (auto simp: store_op_def Let_def split: prod.splits)

lemma store_op_snd [simp]:
  "p_comm (snd (store_op f w)) = p_comm w" "p_sent (snd (store_op f w)) = p_sent w"
  "p_attempts (snd (store_op f w)) = p_attempts w" "p_flight (snd (store_op f w)) = p_flight w"
  by (simp_all add: store_op_def case_prod_beta Let_def)

definition retryable :: "transport_result \<Rightarrow> bool" where
  "retryable res = (case res of
     TransportError e \<Rightarrow> False
   | Response status headers body \<Rightarrow>
       400 \<le> status \<and> stream_end body = None \<and> int (length (stream_bytes body)) \<le> maxRequestBodyBytes
       \<and> (IsValidationError status (stream_bytes body) \<or> IsQuotaError status (stream_bytes body)
          \<or> IsAuthError status (stream_bytes body)))"

definition silent_reasons :: "string list" where
  "silent_reasons = [''ClientDisconnected'', ''RequestCreationFailed'']"

definition attempt_ok :: "DispatchOutcome \<Rightarrow> proxy_world \<Rightarrow> proxy_world \<Rightarrow> (upstream_request \<times> transport_result) list \<Rightarrow> bool" where
  "attempt_ok out w v ns \<longleftrightarrow>
     p_sent v = p_sent w @ ns \<and> length ns \<le> 1 \<and> p_attempts v = p_attempts w \<and>
     (if OAction out = ActionFailoverNext then p_comm v = p_comm w \<and> list_all (\<lambda>x. retryable (snd x)) ns
      else if OReason out \<in> set silent_reasons then p_comm v = p_comm w
      else IsCommitted (p_comm v) \<and> (\<exists>n. status_lines (p_comm v) = status_lines (p_comm w) @ [n]))"

lemma outcome_sel [simp]:
  "OAction (outcome a r e) = a" "OReason (outcome a r e) = r" "OErr (outcome a r e) = e"
  by (simp_all add: outcome_def)

lemma reasons [simp]:
  "''AmbiguousTransportFailure'' \<notin> set silent_reasons" "''AmbiguousTransportFailure:BodyReadError'' \<notin> set silent_reasons"
  "''UpstreamRedirect'' \<notin> set silent_reasons" "''ExplicitNonRetryableUpstreamResponse'' \<notin> set silent_reasons"
  "''CommittedStreamTruncated'' \<notin> set silent_reasons" "''CommittedStreamSuccess'' \<notin> set silent_reasons"
  "''TerminalSuccess'' \<notin> set silent_reasons" "''ClientDisconnected'' \<in> set silent_reasons"
  "''RequestCreationFailed'' \<in> set silent_reasons"
  by (simp_all add: silent_reasons_def)

lemma error_response_cases:
  assumes "error_response env n fr acc status headers b w = (out, v)"
  shows "p_sent v = p_sent w \<and> p_attempts v = p_attempts w \<and> p_flight v = p_flight w \<and>
    (if OAction out = ActionFailoverNext
     then p_comm v = p_comm w \<and> (IsValidationError status b \<or> IsQuotaError status b \<or> IsAuthError status b)
     else OReason out \<notin> set silent_reasons \<and> IsCommitted (p_comm v)
          \<and> (\<exists>n. status_lines (p_comm v) = status_lines (p_comm w) @ [n]))"
  using assms
  by (auto simp: error_response_def Let_def dest!: store_op_frames split: if_splits prod.splits)

lemma limited_body_full:
  "limited_body (n + 1) s = (b, None) \<Longrightarrow> int (length b) \<le> n \<Longrightarrow> 0 \<le> n \<Longrightarrow>
     b = stream_bytes s \<and> stream_end s = None"
  by (auto simp: limited_body_def body_of_def split: if_splits)

lemma failed_response_cases:
  assumes "failed_response env n fr acc status headers body w = (out, v)"
  shows "p_sent v = p_sent w \<and> p_attempts v = p_attempts w \<and> p_flight v = p_flight w \<and>
    (if OAction out = ActionFailoverNext
     then p_comm v = p_comm w \<and> retryable (Response status headers body)
     else OReason out \<notin> set silent_reasons \<and> IsCommitted (p_comm v)
          \<and> (\<exists>n. status_lines (p_comm v) = status_lines (p_comm w) @ [n]))"
proof -
  obtain b e where be: "limited_body (maxRequestBodyBytes + 1) body = (b, e)" by (cases "limited_body (maxRequestBodyBytes + 1) body")
  show ?thesis
  proof (cases "e \<noteq> None \<or> maxRequestBodyBytes < int (length b) \<or> status < 400")
    case True
    then show ?thesis using assms be by (auto simp: failed_response_def Let_def split: if_splits)
  next
    case False
    then have full: "b = stream_bytes body" "stream_end body = None"
      using limited_body_full [of maxRequestBodyBytes body b] be by (auto simp: maxRequestBodyBytes_def)
    have "error_response env n fr acc status headers b w = (out, v)"
      using assms be False by (auto simp: failed_response_def Let_def split: if_splits)
    from error_response_cases [OF this] show ?thesis using False full by (auto simp: retryable_def)
  qed
qed

lemma good_response_cases:
  assumes "good_response env n fr g sse acc status headers body w = (out, v)"
  shows "p_sent v = p_sent w \<and> p_attempts v = p_attempts w \<and> p_flight v = p_flight w
     \<and> OAction out = ActionTerminal \<and> OReason out \<notin> set silent_reasons \<and> IsCommitted (p_comm v)
     \<and> (\<exists>n. status_lines (p_comm v) = status_lines (p_comm w) @ [n])"
  using assms
  by (auto simp: good_response_def Let_def dest!: SendStream_state split: if_splits prod.splits option.splits)

lemma exchange_ok:
  assumes "exchange env r path body g sse acc ua n fr token w = (out, v)"
  shows "(\<exists>ns. attempt_ok out w v ns) \<and> p_flight v = p_flight w"
proof -
  let ?req = "upstream_request_of env r path body g token ua"
  let ?res = "e_upstream env n ?req"
  let ?w = "w\<lparr>p_sent := p_sent w @ [(?req, ?res)]\<rparr>"
  show ?thesis
  proof (cases "e_request_ok env (UMethod ?req) (UURL ?req)")
    case False
    then show ?thesis using assms by (auto simp: exchange_def Let_def attempt_ok_def)
  next
    case ok: True
    show ?thesis
    proof (cases ?res)
      case (TransportError e)
      then have "attempt_ok out w v [(?req, ?res)] \<and> p_flight v = p_flight w"
        using assms ok by (auto simp: exchange_def Let_def attempt_ok_def split: if_splits)
      then show ?thesis by blast
    next
      case (Response status headers rbody)
      have "attempt_ok out w v [(?req, ?res)] \<and> p_flight v = p_flight w"
      proof (cases "300 \<le> status")
        case True
        then have "failed_response env n fr acc status headers rbody ?w = (out, v)"
          using assms ok Response by (simp add: exchange_def Let_def)
        from failed_response_cases [OF this] show ?thesis by (auto simp: attempt_ok_def Response)
      next
        case False
        then have "good_response env n fr g sse acc status headers rbody ?w = (out, v)"
          using assms ok Response by (simp add: exchange_def Let_def)
        from good_response_cases [OF this] show ?thesis by (auto simp: attempt_ok_def Response)
      qed
      then show ?thesis by blast
    qed
  qed
qed

lemma try_account_ok:
  assumes "try_account env r path body g sse acc ua n fr w = (out, v)"
  shows "(\<exists>ns. attempt_ok out w v ns) \<and> p_flight v = p_flight w"
proof -
  let ?op = "store_op (\<lambda>s. case e_refresh env n acc s of (x, a, s1) \<Rightarrow> ((x, a), s1)) w"
  obtain x a w1 where op: "?op = ((x, a), w1)" by (metis prod.collapse)
  note f = store_op_frames [OF op]
  show ?thesis
  proof (cases x)
    case (Inl e)
    then have "attempt_ok out w v [] \<and> p_flight v = p_flight w"
      using assms op f by (auto simp: try_account_def attempt_ok_def Let_def)
    then show ?thesis by blast
  next
    case (Inr token)
    then have "exchange env r path body g sse a ua n fr token w1 = (out, v)"
      using assms op by (simp add: try_account_def)
    from exchange_ok [OF this] obtain ns where "attempt_ok out w1 v ns" "p_flight v = p_flight w1" by blast
    then have "attempt_ok out w v ns" using f by (auto simp: attempt_ok_def split: if_splits)
    then show ?thesis using f \<open>p_flight v = p_flight w1\<close> by auto
  qed
qed

lemma dispatch_ok:
  assumes "dispatchAccount env r path body g sse acc ua n ctx w = (out, v)"
  shows "\<exists>ns. attempt_ok out w v ns"
proof -
  let ?t = "g \<and> ID acc \<noteq> []"
  let ?w = "if ?t then w\<lparr>p_flight := StartInFlightGeneration (ID acc) (p_flight w)\<rparr> else w"
  let ?fr = "if g \<and> HasActiveAuditor (p_audit ?w) then map_option (\<lambda>ctx. freeze_event (e_std env) ctx acc path) ctx else None"
  obtain o2 w2 where t: "try_account env r path body g sse acc ua n ?fr ?w = (o2, w2)"
    by (cases "try_account env r path body g sse acc ua n ?fr ?w")
  have v: "out = o2" "v = (if ?t then w2\<lparr>p_flight := call_done (length (Dones (p_flight w))) (p_flight w2)\<rparr> else w2)"
    using assms t by (auto simp: dispatchAccount_def Let_def split: prod.splits)
  obtain ns where "attempt_ok o2 ?w w2 ns" using try_account_ok [OF t] by blast
  then have "attempt_ok out w v ns" using v by (auto simp: attempt_ok_def split: if_splits)
  then show ?thesis by blast
qed

text \<open>What the traces and the response look like after some turns of the loop.\<close>

definition trace_ok :: "Account list \<Rightarrow> proxy_world \<Rightarrow> proxy_world \<Rightarrow> (upstream_request \<times> transport_result) list
    \<Rightarrow> (Account \<times> DispatchOutcome) list \<Rightarrow> bool" where
  "trace_ok cands w v ns as \<longleftrightarrow>
     p_sent v = p_sent w @ ns \<and> p_attempts v = p_attempts w @ as \<and> prefix (map fst as) cands
     \<and> list_all (\<lambda>x. retryable (snd x)) (butlast ns)
     \<and> list_all (\<lambda>a. OAction (snd a) = ActionFailoverNext) (butlast as)
     \<and> (IsCommitted (p_comm v) \<and> (\<exists>n. status_lines (p_comm v) = status_lines (p_comm w) @ [n])
        \<or> p_comm v = p_comm w \<and> as \<noteq> [] \<and> OAction (snd (last as)) = ActionTerminal
          \<and> OReason (snd (last as)) \<in> set silent_reasons)"

lemma attempt_turn_ok:
  assumes "attempt_turn env r path body g sse ua ctx acc n over w = (go_on, over', v)"
  shows "\<exists>out ns. p_sent v = p_sent w @ ns \<and> length ns \<le> 1 \<and> p_attempts v = p_attempts w @ [(acc, out)]
     \<and> go_on = (\<not> IsCommitted (p_comm v) \<and> OAction out = ActionFailoverNext) \<and>
     (if OAction out = ActionFailoverNext then p_comm v = p_comm w \<and> list_all (\<lambda>x. retryable (snd x)) ns
      else if OReason out \<in> set silent_reasons then p_comm v = p_comm w
      else IsCommitted (p_comm v) \<and> (\<exists>n. status_lines (p_comm v) = status_lines (p_comm w) @ [n]))"
proof -
  let ?w1 = "if g then count_p RecordRoutingDecision w else w"
  let ?w2 = "if g \<and> 1 < n then count_p RecordFailoverAttempt ?w1 else ?w1"
  obtain out w3 where d: "dispatchAccount env r path body g sse acc ua n ctx ?w2 = (out, w3)"
    by (cases "dispatchAccount env r path body g sse acc ua n ctx ?w2")
  obtain ns where ns: "attempt_ok out ?w2 w3 ns" using dispatch_ok [OF d] by blast
  have v: "p_sent v = p_sent w3" "p_comm v = p_comm w3" "p_attempts v = p_attempts w3 @ [(acc, out)]"
    "go_on = (\<not> IsCommitted (p_comm v) \<and> OAction out = ActionFailoverNext)"
    using assms d by (auto simp: attempt_turn_def Let_def split: prod.splits if_splits)
  have w2: "p_sent ?w2 = p_sent w" "p_comm ?w2 = p_comm w" "p_attempts ?w2 = p_attempts w" by simp_all
  show ?thesis using ns unfolding attempt_ok_def w2 v by (intro exI [of _ out] exI [of _ ns]) (auto simp: v)
qed

lemma butlast_append_small: "length ns \<le> 1 \<Longrightarrow> list_all P ns \<Longrightarrow> list_all P (butlast ms) \<Longrightarrow> list_all P (butlast (ns @ ms))"
  by (auto simp: butlast_append list_all_iff dest: in_set_butlastD)

lemma attempt_loop_ok:
  assumes "\<not> IsCommitted (p_comm w)"
  shows "\<exists>ns as. trace_ok (filter (\<lambda>a. \<not> (g \<and> IsRestricted (Some a))) cands) w
           (attempt_loop env r path body g sse ua ctx cands n over w) ns as"
  using assms
proof (induction cands arbitrary: n over w)
  case Nil
  then show ?case by (intro exI [of _ "[]"]) (simp add: trace_ok_def)
next
  case (Cons acc cands)
  show ?case
  proof (cases "g \<and> IsRestricted (Some acc)")
    case True
    then show ?thesis using Cons.IH [OF Cons.prems, of n over] by simp
  next
    case False
    obtain go_on over' v where t: "attempt_turn env r path body g sse ua ctx acc (Suc n) over w = (go_on, over', v)"
      by (cases "attempt_turn env r path body g sse ua ctx acc (Suc n) over w")
    obtain out ns where o: "p_sent v = p_sent w @ ns" "length ns \<le> 1" "p_attempts v = p_attempts w @ [(acc, out)]"
      "go_on = (\<not> IsCommitted (p_comm v) \<and> OAction out = ActionFailoverNext)"
      "if OAction out = ActionFailoverNext then p_comm v = p_comm w \<and> list_all (\<lambda>x. retryable (snd x)) ns
       else if OReason out \<in> set silent_reasons then p_comm v = p_comm w
       else IsCommitted (p_comm v) \<and> (\<exists>n. status_lines (p_comm v) = status_lines (p_comm w) @ [n])"
      using attempt_turn_ok [OF t] by blast
    show ?thesis
    proof (cases go_on)
      case True
      then have f: "OAction out = ActionFailoverNext" "p_comm v = p_comm w" "list_all (\<lambda>x. retryable (snd x)) ns"
        "\<not> IsCommitted (p_comm v)" using o by auto
      obtain ms as where IH: "trace_ok (filter (\<lambda>a. \<not> (g \<and> IsRestricted (Some a))) cands) v
          (attempt_loop env r path body g sse ua ctx cands (Suc n) over' v) ms as"
        using Cons.IH [OF f(4), of "Suc n" over'] by blast
      then have "trace_ok (filter (\<lambda>a. \<not> (g \<and> IsRestricted (Some a))) (acc # cands)) w
          (attempt_loop env r path body g sse ua ctx cands (Suc n) over' v) (ns @ ms) ((acc, out) # as)"
        using False o f butlast_append_small [OF o(2) f(3), of ms] by (auto simp: trace_ok_def)
      then show ?thesis using t True False by auto
    next
      case stop: False
      have "butlast ns = []" using o(2) by (cases ns) auto
      moreover have "OAction out = ActionFailoverNext \<Longrightarrow> False" using stop o Cons.prems by auto
      then have "OAction out = ActionTerminal" by (cases "OAction out") auto
      ultimately have "trace_ok (filter (\<lambda>a. \<not> (g \<and> IsRestricted (Some a))) (acc # cands)) w v ns [(acc, out)]"
        using False o by (auto simp: trace_ok_def split: if_splits)
      then show ?thesis using t stop False by auto
    qed
  qed
qed


section \<open>The handler as a whole\<close>

definition fresh_world :: "proxy_world \<Rightarrow> bool" where
  "fresh_world w \<longleftrightarrow> p_sent w = [] \<and> p_attempts w = [] \<and> status_lines (p_comm w) = [] \<and> \<not> IsCommitted (p_comm w)"

lemma count_request_frames [simp]:
  "p_comm (count_request p w) = p_comm w" "p_sent (count_request p w) = p_sent w"
  "p_attempts (count_request p w) = p_attempts w" "spool (p_store (count_request p w)) = spool (p_store w)"
proof -
  have "p_comm (foldl (\<lambda>v a. if IsRestricted (Some a) then count_p RecordRestrictedSkip v else v) v as) = p_comm v
      \<and> p_sent (foldl (\<lambda>v a. if IsRestricted (Some a) then count_p RecordRestrictedSkip v else v) v as) = p_sent v
      \<and> p_attempts (foldl (\<lambda>v a. if IsRestricted (Some a) then count_p RecordRestrictedSkip v else v) v as) = p_attempts v
      \<and> spool (p_store (foldl (\<lambda>v a. if IsRestricted (Some a) then count_p RecordRestrictedSkip v else v) v as)) = spool (p_store v)"
    for v :: proxy_world and as
    by (induction as arbitrary: v) auto
  from this [of "count_p RecordGenerationRequest w" "Accounts p"]
  show "p_comm (count_request p w) = p_comm w" "p_sent (count_request p w) = p_sent w"
    "p_attempts (count_request p w) = p_attempts w" "spool (p_store (count_request p w)) = spool (p_store w)"
    by (simp_all add: count_request_def)
qed

lemma candidates_for_frames:
  "candidates_for env g p w = (cs, v) \<Longrightarrow> p_comm v = p_comm w \<and> p_sent v = p_sent w \<and> p_attempts v = p_attempts w"
  by (auto simp: candidates_for_def Let_def split: if_splits prod.splits sum.splits dest!: store_op_frames)

definition all_candidates :: "proxy_env \<Rightarrow> Request \<Rightarrow> proxy_world \<Rightarrow> Account list" where
  "all_candidates env r w =
     (let g = IsGenerationRequest (Some r)
      in filter (\<lambda>a. \<not> (g \<and> IsRestricted (Some a)))
           (fst (candidates_for env g (spool (p_store w)) (if g then count_request (spool (p_store w)) w else w))))"

lemma HandleProxy_cases:
  assumes "fresh_world w"
  shows "p_sent (HandleProxy env r w) = [] \<and> p_attempts (HandleProxy env r w) = []
         \<and> (\<exists>n. status_lines (p_comm (HandleProxy env r w)) = [n])
       \<or> (\<exists>ns as. p_sent (HandleProxy env r w) = ns \<and> p_attempts (HandleProxy env r w) = as
           \<and> prefix (map fst as) (all_candidates env r w)
           \<and> list_all (\<lambda>x. retryable (snd x)) (butlast ns)
           \<and> list_all (\<lambda>a. OAction (snd a) = ActionFailoverNext) (butlast as)
           \<and> ((\<exists>n. status_lines (p_comm (HandleProxy env r w)) = [n])
              \<or> status_lines (p_comm (HandleProxy env r w)) = [] \<and> as \<noteq> []
                \<and> OAction (snd (last as)) = ActionTerminal \<and> OReason (snd (last as)) \<in> set silent_reasons))"
proof (cases "ReadRequestBody r")
  case (Inl e)
  then show ?thesis using assms by (simp add: HandleProxy_def Let_def fresh_world_def)
next
  case (Inr body)
  let ?g = "IsGenerationRequest (Some r)" and ?pool = "spool (p_store w)"
  show ?thesis
  proof (cases "e_load_error env \<noteq> None \<or> Accounts ?pool = []")
    case True
    then show ?thesis using assms Inr by (auto simp: HandleProxy_def Let_def fresh_world_def)
  next
    case False
    let ?w1 = "if ?g then count_request ?pool w else w"
    obtain cs w2 where c: "candidates_for env ?g ?pool ?w1 = (cs, w2)" by (cases "candidates_for env ?g ?pool ?w1")
    have w2: "p_comm w2 = p_comm w" "p_sent w2 = []" "p_attempts w2 = []"
      using candidates_for_frames [OF c] assms by (simp_all add: fresh_world_def split: if_splits)
    obtain w3 path sse ua ctx where h: "HandleProxy env r w = attempt_loop env r path body ?g sse ua ctx cs 0 False w3"
      "p_comm w3 = p_comm w2" "p_sent w3 = p_sent w2" "p_attempts w3 = p_attempts w2"
      using Inr False c by (simp add: HandleProxy_def Let_def split: if_splits)
    have "\<not> IsCommitted (p_comm w3)" using assms h w2 by (simp add: fresh_world_def)
    from attempt_loop_ok [OF this, of ?g cs env r path body sse ua ctx 0 False]
    obtain ns as where "trace_ok (filter (\<lambda>a. \<not> (?g \<and> IsRestricted (Some a))) cs) w3 (HandleProxy env r w) ns as"
      unfolding h(1) by blast
    moreover have "all_candidates env r w = filter (\<lambda>a. \<not> (?g \<and> IsRestricted (Some a))) cs"
      using c by (simp add: all_candidates_def Let_def)
    ultimately show ?thesis using assms h w2 unfolding trace_ok_def fresh_world_def by auto
  qed
qed

section \<open>In-flight counts\<close>

lemma start_done_counts:
  assumes "flight_inv s" "int (length (Dones s)) < 2 ^ 62" "i \<noteq> []"
  shows "Counts (call_done (length (Dones s)) (StartInFlightGeneration i s)) = Counts s"
proof -
  let ?n = "open_flights i s"
  have "int ?n + 1 < 2 ^ 63" using assms(2) open_flights_le [of i s] by simp
  then show ?thesis
    using assms by (auto simp: call_done_def StartInFlightGeneration_def flight_inv_def fun_eq_iff nth_append)
qed

section \<open>Properties\<close>

text \<open>C1: No replay: while a request is handled, every upstream exchange but the last one ended with
  a complete error response that explicitly says the account was refused (account verification,
  quota or rate limit, authentication). After a transport failure, a redirect, an incomplete or any
  other response, no further account is tried.\<close>

theorem no_replay:
  assumes "fresh_world w"
  shows "list_all (\<lambda>x. retryable (snd x)) (butlast (p_sent (HandleProxy env r w)))
       \<and> list_all (\<lambda>a. OAction (snd a) = ActionFailoverNext) (butlast (p_attempts (HandleProxy env r w)))"
  using HandleProxy_cases [OF assms, of env r] by auto

text \<open>C2: One response: a handled request gets exactly one status line, whatever number of accounts
  was tried, except when the client has gone or the upstream request cannot be built: then the
  handler sends none.\<close>

theorem one_response:
  assumes "fresh_world w"
  shows "(\<exists>n. status_lines (p_comm (HandleProxy env r w)) = [n])
       \<or> status_lines (p_comm (HandleProxy env r w)) = [] \<and> p_attempts (HandleProxy env r w) \<noteq> []
         \<and> OReason (snd (last (p_attempts (HandleProxy env r w)))) \<in> {''ClientDisconnected'', ''RequestCreationFailed''}"
  using HandleProxy_cases [OF assms, of env r] by (auto simp: silent_reasons_def)

text \<open>A generation request tries the accounts in the order the scheduler gives for the pool at
  its start, each at most once, and stops somewhere in that order.\<close>

theorem attempts_in_order:
  assumes "fresh_world w" "IsGenerationRequest (Some r)" "Strategy (spool (p_store w)) \<noteq> StrategyRoundRobin"
  shows "prefix (map fst (p_attempts (HandleProxy env r w)))
     (OrderCandidates (e_std env) (map Some (Accounts (spool (p_store w))))
        (if Strategy (spool (p_store w)) = [] then ''max_quota'' else Strategy (spool (p_store w)))
        (Some (spool (p_store w))) (f_of_int (e_now env)))"
proof -
  have s: "(if Strategy (spool (p_store w)) = [] then ''max_quota'' else Strategy (spool (p_store w))) \<noteq> StrategyRoundRobin"
    using assms(3) by (simp add: StrategyRoundRobin_def)
  have "all_candidates env r w = OrderCandidates (e_std env) (map Some (Accounts (spool (p_store w))))
        (if Strategy (spool (p_store w)) = [] then ''max_quota'' else Strategy (spool (p_store w)))
        (Some (spool (p_store w))) (f_of_int (e_now env))"
    using assms(2) s by (auto simp: all_candidates_def candidates_for_def Let_def filter_id_conv
        dest: OrderCandidates_unrestricted)
  then show ?thesis using HandleProxy_cases [OF assms(1), of env r] by auto
qed

definition idle_env :: proxy_env where
  "idle_env = \<lparr>e_std = demo_std, e_until = (\<lambda>t. 0), e_details = (\<lambda>b. None), e_now = 0, e_clock = (\<lambda>n. 0),
     e_load_error = None, e_reserve_error = None, e_refresh = (\<lambda>n a s. (Inr ''tok'', a, s)),
     e_request_ok = (\<lambda>m u. True), e_upstream = (\<lambda>n q. if n = 1 then Response 429 [] (Last ''slow down'' None) else Response 200 [] (Last ''ok'' None)),
     e_cancelled = (\<lambda>n. False), e_tx = (\<lambda>n. None), e_write_fails = (\<lambda>n. False),
     e_backend_host = ''b'', e_backend_url = ''https://b'', e_user_agent = ''u''\<rparr>"

definition idle_world :: proxy_world where
  "idle_world = \<lparr>p_comm = NewResponseCommitter True, p_store = \<lparr>spool = two_accounts, smetrics = Reset_metrics\<rparr>,
     p_flight = flight_init, p_audit = audit_init, p_scheduled = [], p_sent = [], p_attempts = []\<rparr>"

definition get_request :: "string \<Rightarrow> Request" where
  "get_request uri = \<lparr>RMethod = ''GET'', RURL = Some (uri, uri), RHeader = [], RContentLength = 0, RBody = ([], None)\<rparr>"

lemma idle_fresh [simp]: "fresh_world idle_world"
  by (simp add: fresh_world_def idle_world_def NewResponseCommitter_def status_lines_def IsCommitted_def)

theorem no_replay_witness:
  "list_all (\<lambda>x. retryable (snd x)) (butlast (p_sent (HandleProxy idle_env (get_request ''/m'') idle_world)))"
  using no_replay [OF idle_fresh] by blast

theorem one_response_witness:
  "length (status_lines (p_comm (HandleProxy idle_env (get_request ''/m'') idle_world))) \<le> 1"
  using one_response [OF idle_fresh, of idle_env "get_request ''/m''"] by auto

theorem attempts_in_order_witness:
  "length (p_attempts (HandleProxy idle_env (get_request ''/v1:generateContent'') idle_world)) \<le> 2"
proof -
  have g: "IsGenerationRequest (Some (get_request ''/v1:generateContent''))"
    by (simp add: IsGenerationRequest_def request_path_def get_request_def contains_def lower_char_def sublist_Cons_right go_simps)
  have s: "Strategy (spool (p_store idle_world)) \<noteq> StrategyRoundRobin"
    by (simp add: idle_world_def two_accounts_def NewEmptyPool_def StrategyRoundRobin_def)
  have two: "length (OrderCandidates std (map Some (Accounts (spool (p_store idle_world)))) st pl now) \<le> 2" for std st pl now
    by (simp add: length_OrderCandidates idle_world_def two_accounts_def routable_def List.map_filter_def restricted_status_def)
  have "length (p_attempts (HandleProxy idle_env (get_request ''/v1:generateContent'') idle_world)) \<le>
     length (OrderCandidates (e_std idle_env) (map Some (Accounts (spool (p_store idle_world))))
        (if Strategy (spool (p_store idle_world)) = [] then ''max_quota'' else Strategy (spool (p_store idle_world)))
        (Some (spool (p_store idle_world))) (f_of_int (e_now idle_env)))"
    using prefix_length_le [OF attempts_in_order [OF idle_fresh g s, of idle_env]] by (simp only: length_map)
  then show ?thesis using two by (rule order_trans)
qed

text \<open>An attempt leaves the in-flight counts as it found them, however it ends.\<close>

theorem in_flight_restored:
  assumes "flight_inv (p_flight w)" "int (length (Dones (p_flight w))) < 2 ^ 62"
    and "dispatchAccount env r path body g sse acc ua n ctx w = (out, v)"
  shows "Counts (p_flight v) = Counts (p_flight w)"
proof -
  let ?t = "g \<and> ID acc \<noteq> []"
  let ?w = "if ?t then w\<lparr>p_flight := StartInFlightGeneration (ID acc) (p_flight w)\<rparr> else w"
  let ?fr = "if g \<and> HasActiveAuditor (p_audit ?w) then map_option (\<lambda>ctx. freeze_event (e_std env) ctx acc path) ctx else None"
  obtain o2 w2 where t: "try_account env r path body g sse acc ua n ?fr ?w = (o2, w2)"
    by (cases "try_account env r path body g sse acc ua n ?fr ?w")
  have "v = (if ?t then w2\<lparr>p_flight := call_done (length (Dones (p_flight w))) (p_flight w2)\<rparr> else w2)"
    using assms(3) t by (auto simp: dispatchAccount_def Let_def split: prod.splits)
  moreover have "p_flight w2 = p_flight ?w" using try_account_ok [OF t] by simp
  ultimately show ?thesis using start_done_counts [OF assms(1,2), of "ID acc"] by auto
qed

theorem in_flight_restored_witness:
  "Counts (p_flight (snd (dispatchAccount idle_env (get_request ''/m'') ''/m'' [] True False
     (zero_account\<lparr>ID := ''acc_1''\<rparr>) ''u'' 1 None idle_world))) = Map.empty"
proof -
  have "flight_inv (p_flight idle_world)" "int (length (Dones (p_flight idle_world))) < 2 ^ 62"
    "Counts (p_flight idle_world) = Map.empty"
    using flight_init_inv by (simp_all add: idle_world_def) (simp_all add: flight_init_def)
  then show ?thesis
    using in_flight_restored [of idle_world idle_env "get_request ''/m''" "''/m''" "[]" True False
        "zero_account\<lparr>ID := ''acc_1''\<rparr>" "''u''" 1 None]
    by (metis prod.collapse)
qed

end
