(* ===== verification/Wire.thy ===== *)
theory Wire
  imports Prelude "HOL-Library.Word"
begin

unbundle bit_operations_syntax

text \<open>
  internal/tokei/proto.go: the bounded reader of protobuf wire data and the messages that carry
  token usage. A blob is a list of bytes; every failure is a value of \<open>wire_error\<close>; a time is its
  seconds and nanoseconds, None for the zero time. The encoder at the end is the specification the
  decoder is compared with.
\<close>

type_synonym bytes = "8 word list"

datatype wire_error =
    errWireTruncated
  | errVarintOverflow
  | errRecursionLimit
  | errBlobTooLarge
  | errFieldZero
  | errWireType nat
  | errContext string wire_error

definition maxWireLength :: nat where "maxWireLength = 100 * 1024 * 1024"
definition maxRecursionDepth :: nat where "maxRecursionDepth = 10"
definition maxVarintBytes :: nat where "maxVarintBytes = 10"

record protoField =
  fnum :: "32 word"
  wireType :: nat
  fvarint :: "64 word"
  fbytes :: bytes

section \<open>Varints and fields\<close>

fun varint_loop :: "nat \<Rightarrow> 64 word \<Rightarrow> bytes \<Rightarrow> wire_error + 64 word \<times> nat" where
  "varint_loop i val [] = Inl errWireTruncated"
| "varint_loop i val (b # bs) =
     (if maxVarintBytes \<le> i then Inl errVarintOverflow
      else let v = val OR push_bit (7 * i) (ucast (b AND 0x7F))
           in if b AND 0x80 = 0 then Inr (v, i + 1) else varint_loop (i + 1) v bs)"

definition decodeVarint :: "bytes \<Rightarrow> wire_error + 64 word \<times> nat" where
  "decodeVarint b = varint_loop 0 0 b"

lemma varint_loop_pos: "varint_loop i val bs = Inr (v, n) \<Longrightarrow> i < n"
  by (induction i val bs rule: varint_loop.induct) (auto simp: Let_def split: if_splits)

lemma decodeVarint_pos: "decodeVarint bs = Inr (v, n) \<Longrightarrow> 0 < n"
  by (simp add: decodeVarint_def) (metis not_gr_zero varint_loop_pos less_nat_zero_code)

lemma decodeVarint_nonempty: "decodeVarint bs = Inr (v, n) \<Longrightarrow> bs \<noteq> []"
  by (auto simp: decodeVarint_def)

text \<open>The payload of one field, by wire type: the field and the bytes after it.\<close>

definition decode_payload :: "32 word \<Rightarrow> nat \<Rightarrow> bytes \<Rightarrow> wire_error + protoField \<times> bytes" where
  "decode_payload num wt b =
     (let f = \<lparr>fnum = num, wireType = wt, fvarint = 0, fbytes = []\<rparr>
      in if wt = 0 then
           (case decodeVarint b of Inl e \<Rightarrow> Inl e | Inr (v, vn) \<Rightarrow> Inr (f\<lparr>fvarint := v\<rparr>, drop vn b))
         else if wt = 1 then
           (if length b < 8 then Inl errWireTruncated else Inr (f\<lparr>fbytes := take 8 b\<rparr>, drop 8 b))
         else if wt = 2 then
           (case decodeVarint b of Inl e \<Rightarrow> Inl e
            | Inr (len, ln) \<Rightarrow>
                (let c = drop ln b
                 in if length c < unat len then Inl errWireTruncated
                    else Inr (f\<lparr>fbytes := take (unat len) c\<rparr>, drop (unat len) c)))
         else if wt = 5 then
           (if length b < 4 then Inl errWireTruncated else Inr (f\<lparr>fbytes := take 4 b\<rparr>, drop 4 b))
         else Inl (errWireType wt))"

lemma decode_payload_shorter: "decode_payload num wt b = Inr (f, rest) \<Longrightarrow> length rest \<le> length b"
  by (auto simp: decode_payload_def Let_def split: if_splits sum.splits)

definition decode_field :: "bytes \<Rightarrow> wire_error + protoField \<times> bytes" where
  "decode_field b =
     (case decodeVarint b of Inl e \<Rightarrow> Inl e
      | Inr (tag, n) \<Rightarrow>
          (let num = ucast (drop_bit 3 tag) :: 32 word; wt = unat (tag AND 7)
           in if num = 0 then Inl errFieldZero else decode_payload num wt (drop n b)))"

lemma decode_field_shorter: "decode_field b = Inr (f, rest) \<Longrightarrow> length rest < length b"
proof -
  assume d: "decode_field b = Inr (f, rest)"
  then obtain tag n where t: "decodeVarint b = Inr (tag, n)" by (auto simp: decode_field_def split: sum.splits)
  then have "length rest \<le> length (drop n b)"
    using d by (auto simp: decode_field_def Let_def dest: decode_payload_shorter split: if_splits)
  moreover have "length (drop n b) < length b"
    using decodeVarint_pos [OF t] decodeVarint_nonempty [OF t] by simp
  ultimately show ?thesis by simp
qed

function fields_loop :: "bytes \<Rightarrow> protoField list \<Rightarrow> wire_error + protoField list" where
  "fields_loop b acc =
     (if b = [] then Inr acc
      else case decode_field b of
             Inl e \<Rightarrow> Inl e
           | Inr (f, rest) \<Rightarrow> fields_loop rest (acc @ [f]))"
  by pat_completeness auto
termination by (relation "measure (\<lambda>(b, acc). length b)") (auto dest: decode_field_shorter)

declare fields_loop.simps [simp del]

definition decodeFields :: "bytes \<Rightarrow> nat \<Rightarrow> wire_error + protoField list" where
  "decodeFields b depth =
     (if maxRecursionDepth < depth then Inl errRecursionLimit
      else if maxWireLength < length b then Inl errBlobTooLarge
      else fields_loop b [])"

section \<open>Messages\<close>

record rawUsage =
  modelID :: "64 word"
  inputTokens :: "64 word"
  totalOutputTokens :: "64 word"
  cacheCreationTokens :: "64 word"
  cacheReadTokens :: "64 word"
  providerID :: "64 word"
  messageID :: bytes
  reasoningTokens :: "64 word"
  visibleOutputTokens :: "64 word"
  responseID :: bytes
  providerAssignedMessageID :: bytes

definition zero_usage :: rawUsage where
  "zero_usage = \<lparr>modelID = 0, inputTokens = 0, totalOutputTokens = 0, cacheCreationTokens = 0,
     cacheReadTokens = 0, providerID = 0, messageID = [], reasoningTokens = 0, visibleOutputTokens = 0,
     responseID = [], providerAssignedMessageID = []\<rparr>"

definition isTokenBearing :: "rawUsage \<Rightarrow> bool" where
  "isTokenBearing u \<longleftrightarrow> inputTokens u > 0 \<or> totalOutputTokens u > 0 \<or> cacheCreationTokens u > 0
     \<or> cacheReadTokens u > 0 \<or> reasoningTokens u > 0 \<or> visibleOutputTokens u > 0"

definition bytes_string :: "bytes \<Rightarrow> string" where
  "bytes_string bs = map (\<lambda>b. byte (unat b)) bs"

definition primaryIdentity :: "rawUsage \<Rightarrow> string" where
  "primaryIdentity u =
     (if responseID u \<noteq> [] then ''response:'' @ bytes_string (responseID u)
      else if providerAssignedMessageID u \<noteq> [] then ''provider:'' @ bytes_string (providerAssignedMessageID u)
      else if messageID u \<noteq> [] then ''message:'' @ bytes_string (messageID u)
      else [])"

type_synonym go_time = "(int \<times> int) option"

definition timestamp_field :: "int \<times> int \<times> bool \<Rightarrow> protoField \<Rightarrow> int \<times> int \<times> bool" where
  "timestamp_field s f =
     (case s of (sec, nanos, hasSec) \<Rightarrow>
        if fnum f = 1 \<and> wireType f = 0 then (sint (fvarint f), nanos, True)
        else if fnum f = 2 \<and> wireType f = 0 then (sec, sint (fvarint f), hasSec)
        else s)"

definition parseTimestampMessage :: "bytes \<Rightarrow> nat \<Rightarrow> go_time" where
  "parseTimestampMessage b depth =
     (case decodeFields b (depth + 1) of
        Inl e \<Rightarrow> None
      | Inr fs \<Rightarrow>
          (case foldl timestamp_field (0, 0, False) fs of
             (sec, nanos, hasSec) \<Rightarrow>
               if \<not> hasSec \<or> sec \<le> 0 then None
               else Some (sec, if nanos < 0 \<or> 999999999 < nanos then 0 else nanos)))"

definition usage_field :: "rawUsage \<Rightarrow> protoField \<Rightarrow> rawUsage" where
  "usage_field u f =
     (let v = (wireType f = 0); l = (wireType f = 2)
      in if fnum f = 1 then (if v then u\<lparr>modelID := fvarint f\<rparr> else u)
         else if fnum f = 2 then (if v then u\<lparr>inputTokens := fvarint f\<rparr> else u)
         else if fnum f = 3 then (if v then u\<lparr>totalOutputTokens := fvarint f\<rparr> else u)
         else if fnum f = 4 then (if v then u\<lparr>cacheCreationTokens := fvarint f\<rparr> else u)
         else if fnum f = 5 then (if v then u\<lparr>cacheReadTokens := fvarint f\<rparr> else u)
         else if fnum f = 6 then (if v then u\<lparr>providerID := fvarint f\<rparr> else u)
         else if fnum f = 7 then (if l then u\<lparr>messageID := fbytes f\<rparr> else u)
         else if fnum f = 9 then (if v then u\<lparr>reasoningTokens := fvarint f\<rparr> else u)
         else if fnum f = 10 then (if v then u\<lparr>visibleOutputTokens := fvarint f\<rparr> else u)
         else if fnum f = 11 then (if l then u\<lparr>responseID := fbytes f\<rparr> else u)
         else if fnum f = 12 then (if l then u\<lparr>providerAssignedMessageID := fbytes f\<rparr> else u)
         else u)"

definition parseModelUsage :: "bytes \<Rightarrow> nat \<Rightarrow> wire_error + rawUsage" where
  "parseModelUsage b depth =
     (case decodeFields b (depth + 1) of Inl e \<Rightarrow> Inl e | Inr fs \<Rightarrow> Inr (foldl usage_field zero_usage fs))"

fun fold_err :: "('s \<Rightarrow> 'a \<Rightarrow> 'e + 's) \<Rightarrow> 's \<Rightarrow> 'a list \<Rightarrow> 'e + 's" where
  "fold_err f s [] = Inr s"
| "fold_err f s (x # xs) = (case f s x of Inl e \<Rightarrow> Inl e | Inr t \<Rightarrow> fold_err f t xs)"

text \<open>The retry usages of a length-delimited field: field 2 of each entry, kept when token bearing.\<close>

definition retry_field :: "nat \<Rightarrow> rawUsage list \<Rightarrow> protoField \<Rightarrow> wire_error + rawUsage list" where
  "retry_field depth rs rf =
     (if fnum rf = 2 \<and> wireType rf = 2
      then (case parseModelUsage (fbytes rf) depth of
              Inl e \<Rightarrow> Inl e
            | Inr ru \<Rightarrow> Inr (if isTokenBearing ru then rs @ [ru] else rs))
      else Inr rs)"

definition retry_usages :: "bytes \<Rightarrow> nat \<Rightarrow> nat \<Rightarrow> rawUsage list \<Rightarrow> wire_error + rawUsage list" where
  "retry_usages b depth udepth rs =
     (case decodeFields b depth of Inl e \<Rightarrow> Inl e | Inr fs \<Rightarrow> fold_err (retry_field udepth) rs fs)"

record StepEvent =
  StepIndex :: int
  STimestamp :: go_time
  SModelName :: bytes
  SModelID :: "64 word"
  SProvider :: "64 word"
  SUsage :: "rawUsage option"
  SRetries :: "rawUsage list"

definition model_field :: "StepEvent \<Rightarrow> protoField \<Rightarrow> StepEvent" where
  "model_field ev mf =
     (if fnum mf = 1 then (if wireType mf = 0 then ev\<lparr>SModelID := fvarint mf\<rparr> else ev)
      else if fnum mf = 7 then (if wireType mf = 0 then ev\<lparr>SProvider := fvarint mf\<rparr> else ev)
      else if fnum mf = 8 \<or> fnum mf = 12 then
        (if wireType mf = 2 \<and> SModelName ev = [] then ev\<lparr>SModelName := fbytes mf\<rparr> else ev)
      else ev)"

type_synonym step_state = "StepEvent \<times> go_time \<times> go_time"

definition step_field :: "step_state \<Rightarrow> protoField \<Rightarrow> wire_error + step_state" where
  "step_field s f =
     (case s of (ev, startTime, endTime) \<Rightarrow>
        if wireType f \<noteq> 2 then Inr s
        else if fnum f = 1 then
          (case parseTimestampMessage (fbytes f) 0 of None \<Rightarrow> Inr s | Some t \<Rightarrow> Inr (ev, Some t, endTime))
        else if fnum f = 8 then
          (case parseTimestampMessage (fbytes f) 0 of None \<Rightarrow> Inr s | Some t \<Rightarrow> Inr (ev, startTime, Some t))
        else if fnum f = 9 then
          (case parseModelUsage (fbytes f) 0 of Inl e \<Rightarrow> Inl e
           | Inr u \<Rightarrow> Inr (ev\<lparr>SUsage := Some u\<rparr>, startTime, endTime))
        else if fnum f = 24 then
          (case decodeFields (fbytes f) 1 of Inl e \<Rightarrow> Inl e
           | Inr mFields \<Rightarrow> Inr (foldl model_field ev mFields, startTime, endTime))
        else if fnum f = 28 then
          (case retry_usages (fbytes f) 1 1 (SRetries ev) of Inl e \<Rightarrow> Inl e
           | Inr rs \<Rightarrow> Inr (ev\<lparr>SRetries := rs\<rparr>, startTime, endTime))
        else Inr s)"

definition ParseStepMetadata :: "int \<Rightarrow> bytes \<Rightarrow> wire_error + StepEvent" where
  "ParseStepMetadata stepIdx b =
     (case decodeFields b 0 of
        Inl e \<Rightarrow> Inl (errContext ''decode step metadata'' e)
      | Inr fs \<Rightarrow>
          (case fold_err step_field
                  (\<lparr>StepIndex = stepIdx, STimestamp = None, SModelName = [], SModelID = 0, SProvider = 0,
                    SUsage = None, SRetries = []\<rparr>, None, None) fs of
             Inl e \<Rightarrow> Inl e
           | Inr (ev, startTime, endTime) \<Rightarrow>
               Inr (ev\<lparr>STimestamp := (if endTime \<noteq> None then endTime else startTime)\<rparr>)))"

record GenEvent =
  GenIndex :: int
  GTimestamp :: go_time
  GModelName :: bytes
  GModelID :: "64 word"
  GUsage :: "rawUsage option"
  GRetries :: "rawUsage list"

definition gen_time_field :: "GenEvent \<Rightarrow> protoField \<Rightarrow> GenEvent" where
  "gen_time_field ev gf =
     (if fnum gf = 4 \<and> wireType gf = 2
      then (case parseTimestampMessage (fbytes gf) 3 of None \<Rightarrow> ev | Some t \<Rightarrow> ev\<lparr>GTimestamp := Some t\<rparr>)
      else ev)"

definition chat_field :: "GenEvent \<Rightarrow> protoField \<Rightarrow> wire_error + GenEvent" where
  "chat_field ev cf =
     (if fnum cf = 3 then Inr (if wireType cf = 0 then ev\<lparr>GModelID := fvarint cf\<rparr> else ev)
      else if fnum cf = 4 then
        (if wireType cf = 2
         then (case parseModelUsage (fbytes cf) 2 of Inl e \<Rightarrow> Inl e | Inr u \<Rightarrow> Inr (ev\<lparr>GUsage := Some u\<rparr>))
         else Inr ev)
      else if fnum cf = 9 then
        (if wireType cf = 2
         then (case decodeFields (fbytes cf) 2 of Inl e \<Rightarrow> Inl e | Inr gs \<Rightarrow> Inr (foldl gen_time_field ev gs))
         else Inr ev)
      else if fnum cf = 17 then
        (if wireType cf = 2
         then (case retry_usages (fbytes cf) 2 3 (GRetries ev) of Inl e \<Rightarrow> Inl e | Inr rs \<Rightarrow> Inr (ev\<lparr>GRetries := rs\<rparr>))
         else Inr ev)
      else if fnum cf = 19 \<or> fnum cf = 21 then
        Inr (if wireType cf = 2 \<and> GModelName ev = [] then ev\<lparr>GModelName := fbytes cf\<rparr> else ev)
      else Inr ev)"

definition gen_field :: "GenEvent \<Rightarrow> protoField \<Rightarrow> wire_error + GenEvent" where
  "gen_field ev f =
     (if fnum f = 1 \<and> wireType f = 2
      then (case decodeFields (fbytes f) 1 of Inl e \<Rightarrow> Inl e | Inr chatFields \<Rightarrow> fold_err chat_field ev chatFields)
      else Inr ev)"

definition ParseGenMetadata :: "int \<Rightarrow> bytes \<Rightarrow> wire_error + GenEvent" where
  "ParseGenMetadata genIdx b =
     (case decodeFields b 0 of
        Inl e \<Rightarrow> Inl (errContext ''decode gen_metadata'' e)
      | Inr fs \<Rightarrow>
          fold_err gen_field
            \<lparr>GenIndex = genIdx, GTimestamp = None, GModelName = [], GModelID = 0, GUsage = None, GRetries = []\<rparr>
            fs)"

definition ParseTrajectoryTimestamp :: "bytes \<Rightarrow> go_time" where
  "ParseTrajectoryTimestamp b =
     (case decodeFields b 0 of
        Inl e \<Rightarrow> None
      | Inr fs \<Rightarrow>
          (case List.find (\<lambda>f. fnum f = 2 \<and> wireType f = 2) fs of
             None \<Rightarrow> None
           | Some f \<Rightarrow> parseTimestampMessage (fbytes f) 1))"

section \<open>The encoder\<close>

fun encode_nat :: "nat \<Rightarrow> bytes" where
  "encode_nat n = (if n < 128 then [word_of_nat n] else word_of_nat (n mod 128 + 128) # encode_nat (n div 128))"

declare encode_nat.simps [simp del]

definition encode_varint :: "64 word \<Rightarrow> bytes" where
  "encode_varint v = encode_nat (unat v)"

definition field_tag :: "protoField \<Rightarrow> 64 word" where
  "field_tag f = push_bit 3 (ucast (fnum f)) OR word_of_nat (wireType f)"

definition encode_field :: "protoField \<Rightarrow> bytes" where
  "encode_field f = encode_varint (field_tag f) @
     (if wireType f = 0 then encode_varint (fvarint f)
      else if wireType f = 2 then encode_varint (word_of_nat (length (fbytes f))) @ fbytes f
      else fbytes f)"

definition valid_field :: "protoField \<Rightarrow> bool" where
  "valid_field f \<longleftrightarrow> fnum f \<noteq> 0 \<and>
     (wireType f = 0 \<and> fbytes f = []
      \<or> wireType f = 1 \<and> length (fbytes f) = 8 \<and> fvarint f = 0
      \<or> wireType f = 2 \<and> fvarint f = 0 \<and> int (length (fbytes f)) < 2 ^ 64
      \<or> wireType f = 5 \<and> length (fbytes f) = 4 \<and> fvarint f = 0)"

lemma low_bits: "(ucast (b AND 0x7F) :: 64 word) = word_of_nat (unat b mod 128)" for b :: "8 word"
proof -
  have "(0x7F :: 8 word) = mask 7" by (simp add: mask_eq_exp_minus_1)
  then have "b AND 0x7F = take_bit 7 b" by (simp add: take_bit_eq_mask)
  moreover have "unat (take_bit 7 b) = take_bit 7 (unat b)" by (rule unsigned_take_bit_eq)
  then have "unat (take_bit 7 b) = unat b mod 128" using take_bit_eq_mod [of 7 "unat b"] by simp
  ultimately show ?thesis by (metis of_nat_unat unsigned_ucast_eq word_of_nat_eq_iff)
qed

lemma high_bit: "b AND 0x80 = 0 \<longleftrightarrow> unat b < 128" for b :: "8 word"
proof -
  have "b AND 2 ^ 7 = 0 \<longleftrightarrow> \<not> bit b 7" by (rule and_exp_eq_0_iff_not_bit)
  moreover have "bit b 7 \<longleftrightarrow> odd (unat b div 128)"
    using bit_iff_odd [of "unat b" 7] bit_unsigned_iff [of b 7, where 'a = nat] by simp
  moreover have "unat b < 256" using unsigned_less [of b, where 'a = nat] by simp
  then have "unat b div 128 = 0 \<or> unat b div 128 = 1" by linarith
  then have "odd (unat b div 128) \<longleftrightarrow> \<not> unat b < 128" by auto
  ultimately show ?thesis by simp
qed

lemma push_or_add:
  fixes v :: "64 word"
  assumes "unat v < 2 ^ k" "unat v + c * 2 ^ k < 2 ^ 64"
  shows "unat (v OR push_bit k (word_of_nat c)) = unat v + c * 2 ^ k"
proof -
  have "unat (take_bit k v) = unat v"
    using assms(1) by (simp add: unsigned_take_bit_eq take_bit_nat_eq_self)
  then have v: "take_bit k v = v" by (rule unsigned_word_eqI)
  have "v AND push_bit k (word_of_nat c) = 0"
  proof (rule bit_eqI)
    fix n
    show "bit (v AND push_bit k (word_of_nat c)) n = bit (0 :: 64 word) n"
    proof -
      have "bit v n \<Longrightarrow> n < k" by (metis v bit_take_bit_iff)
      then show ?thesis by (auto simp: bit_and_iff bit_push_bit_iff)
    qed
  qed
  then have "v OR push_bit k (word_of_nat c) = v + push_bit k (word_of_nat c)"
    by (simp add: disjunctive_add_eq_or)
  also have "\<dots> = word_of_nat (unat v + c * 2 ^ k)"
    by (simp add: push_bit_eq_mult mult.commute)
  finally show ?thesis using assms(2)
    by (simp add: unat_of_nat del: of_nat_add of_nat_mult of_nat_power)
qed

lemma varint_loop_encode:
  "unat val < 2 ^ (7 * i) \<Longrightarrow> unat val + n * 2 ^ (7 * i) < 2 ^ 64 \<Longrightarrow> i < 10 \<Longrightarrow> n < 2 ^ (7 * (10 - i)) \<Longrightarrow>
   \<exists>w. varint_loop i val (encode_nat n @ rest) = Inr (w, i + length (encode_nat n)) \<and> unat w = unat val + n * 2 ^ (7 * i)"
proof (induction n arbitrary: i val rule: encode_nat.induct)
  case (1 n)
  let ?v = "\<lambda>m. val OR push_bit (7 * i) (word_of_nat m)"
  show ?case
  proof (cases "n < 128")
    case True
    have b: "unat (word_of_nat n :: 8 word) = n" using True by (simp add: unat_of_nat)
    have "varint_loop i val (encode_nat n @ rest) = Inr (?v n, i + 1)" "length (encode_nat n) = 1"
      using True 1(4) b by (simp_all add: encode_nat.simps [of n] low_bits high_bit maxVarintBytes_def)
    then show ?thesis using push_or_add [OF 1(2,3)] by simp
  next
    case False
    let ?b = "word_of_nat (n mod 128 + 128) :: 8 word"
    have "n mod 128 + 128 < 256" by simp
    then have b: "unat ?b = n mod 128 + 128" by (simp add: unat_of_nat del: of_nat_add)
    have small: "unat val + n mod 128 * 2 ^ (7 * i) < 2 ^ 64"
      using 1(3) by (meson add_left_mono le_less_trans mod_less_eq_dividend mult_le_mono1)
    note v = push_or_add [OF 1(2) small]
    have i: "Suc i < 10"
    proof (rule ccontr)
      assume "\<not> Suc i < 10"
      then have "i = 9" using 1(4) by simp
      then show False using 1(5) False by simp
    qed
    have e: "n mod 128 * 2 ^ (7 * i) + n div 128 * 2 ^ (7 * Suc i) = n * 2 ^ (7 * i)"
    proof -
      have "(2 :: nat) ^ (7 * Suc i) = 128 * 2 ^ (7 * i)" by (simp add: power_add)
      then have "n mod 128 * 2 ^ (7 * i) + n div 128 * 2 ^ (7 * Suc i) = (n mod 128 + n div 128 * 128) * 2 ^ (7 * i)"
        by (simp only: distrib_right mult.assoc)
      then show ?thesis by simp
    qed
    have "unat val + (n mod 128) * 2 ^ (7 * i) < 2 ^ (7 * Suc i)"
    proof -
      have "n mod 128 \<le> 127" by (simp add: less_Suc_eq_le [symmetric])
      then have "(n mod 128) * 2 ^ (7 * i) \<le> 127 * 2 ^ (7 * i)" by (rule mult_le_mono1)
      moreover have "(2 :: nat) ^ (7 * Suc i) = 128 * 2 ^ (7 * i)" by (simp add: power_add)
      ultimately show ?thesis using 1(2) by linarith
    qed
    moreover have "n div 128 < 2 ^ (7 * (10 - Suc i))"
    proof -
      have "7 * (10 - i) = 7 * (10 - Suc i) + 7" using i by simp
      then have "n < 2 ^ (7 * (10 - Suc i)) * 128" using 1(5) by (simp add: power_add)
      then show ?thesis by (simp add: less_mult_imp_div_less)
    qed
    ultimately obtain w where w: "varint_loop (Suc i) (?v (n mod 128)) (encode_nat (n div 128) @ rest) =
        Inr (w, Suc i + length (encode_nat (n div 128)))"
      "unat w = unat (?v (n mod 128)) + n div 128 * 2 ^ (7 * Suc i)"
      using 1(1) [OF False, of "?v (n mod 128)" "Suc i"] v i 1(3) e by (auto simp: add.assoc)
    have "varint_loop i val (encode_nat n @ rest) = varint_loop (Suc i) (?v (n mod 128)) (encode_nat (n div 128) @ rest)"
      using False 1(4) b by (simp add: encode_nat.simps [of n] low_bits high_bit maxVarintBytes_def)
    moreover have "length (encode_nat n) = Suc (length (encode_nat (n div 128)))"
      using False by (simp add: encode_nat.simps [of n])
    ultimately show ?thesis using w v e by (simp add: add.assoc)
  qed
qed

lemma decodeVarint_encode: "decodeVarint (encode_varint v @ rest) = Inr (v, length (encode_varint v))"
proof -
  have n: "unat v < 2 ^ 64" using unsigned_less [of v, where 'a = nat] by simp
  then have "unat v < 2 ^ 70" by simp
  with n varint_loop_encode [of 0 0 "unat v" rest] show ?thesis
    by (auto simp: decodeVarint_def encode_varint_def intro: unsigned_word_eqI)
qed

lemma small_wt_bit: "wt < 8 \<Longrightarrow> bit (word_of_nat wt :: 64 word) n \<Longrightarrow> n < 3"
proof -
  assume wt: "wt < 8" and b: "bit (word_of_nat wt :: 64 word) n"
  have "unat (word_of_nat wt :: 64 word) = wt" using wt by (simp add: unat_of_nat)
  then have "unat (take_bit 3 (word_of_nat wt :: 64 word)) = unat (word_of_nat wt :: 64 word)"
    using wt by (simp add: unsigned_take_bit_eq take_bit_nat_eq_self)
  then have "take_bit 3 (word_of_nat wt :: 64 word) = word_of_nat wt" by (rule unsigned_word_eqI)
  then show "n < 3" using b by (metis bit_take_bit_iff)
qed

lemma tag_parts:
  assumes "wireType f < 8"
  shows "(ucast (drop_bit 3 (field_tag f)) :: 32 word) = fnum f" "unat (field_tag f AND 7) = wireType f"
proof -
  show "(ucast (drop_bit 3 (field_tag f)) :: 32 word) = fnum f"
  proof (rule bit_eqI)
    fix n assume "possible_bit TYPE(32 word) n"
    then have n: "n < 32" by simp
    then show "bit (ucast (drop_bit 3 (field_tag f)) :: 32 word) n = bit (fnum f) n"
      using small_wt_bit [OF assms, of "3 + n"]
      by (auto simp: field_tag_def bit_simps)
  qed
  have "(7 :: 64 word) = mask 3" by (simp add: mask_eq_exp_minus_1)
  then have "field_tag f AND 7 = take_bit 3 (field_tag f)" by (simp add: take_bit_eq_mask)
  also have "\<dots> = word_of_nat (wireType f)"
  proof (rule bit_eqI)
    fix n
    show "bit (take_bit 3 (field_tag f)) n = bit (word_of_nat (wireType f) :: 64 word) n"
      using small_wt_bit [OF assms, of n] by (auto simp: field_tag_def bit_simps)
  qed
  finally show "unat (field_tag f AND 7) = wireType f" using assms by (simp add: unat_of_nat)
qed

lemma decode_field_encode:
  assumes "valid_field f"
  shows "decode_field (encode_field f @ rest) = Inr (f, rest)"
proof -
  have wt: "wireType f < 8" and num: "fnum f \<noteq> 0" using assms by (auto simp: valid_field_def)
  define body where "body = (if wireType f = 0 then encode_varint (fvarint f)
      else if wireType f = 2 then encode_varint (word_of_nat (length (fbytes f))) @ fbytes f else fbytes f)"
  have e: "encode_field f @ rest = encode_varint (field_tag f) @ body @ rest"
    by (simp add: encode_field_def body_def)
  have "decode_payload (fnum f) (wireType f) (body @ rest) = Inr (f, rest)"
  proof -
    consider "wireType f = 0" | "wireType f = 1" | "wireType f = 2" | "wireType f = 5"
      using assms by (auto simp: valid_field_def)
    then show ?thesis
    proof cases
      case 3
      then have "unat (word_of_nat (length (fbytes f)) :: 64 word) = length (fbytes f)"
        using assms by (simp add: valid_field_def unat_of_nat)
      then show ?thesis using 3 assms
        by (simp add: decode_payload_def body_def decodeVarint_encode valid_field_def Let_def)
    qed (use assms in \<open>auto simp: decode_payload_def body_def decodeVarint_encode valid_field_def Let_def\<close>)
  qed
  then show ?thesis
    using num tag_parts [OF wt] decodeVarint_encode [of "field_tag f" "body @ rest"]
    by (simp add: decode_field_def e Let_def)
qed

lemma fields_loop_encode:
  "list_all valid_field fs \<Longrightarrow> fields_loop (concat (map encode_field fs)) acc = Inr (acc @ fs)"
proof (induction fs arbitrary: acc)
  case Nil
  then show ?case by (simp add: fields_loop.simps)
next
  case (Cons f fs)
  have "encode_field f \<noteq> []" by (simp add: encode_field_def encode_varint_def encode_nat.simps)
  then show ?case using Cons decode_field_encode [of f "concat (map encode_field fs)"]
    by (simp add: fields_loop.simps [of "_ @ _"])
qed

section \<open>Properties\<close>

text \<open>C23: The field decoder inverts the wire encoding: for every list of valid fields whose encoding
  is within the size limit, decoding the encoding at an allowed depth gives back the list.\<close>

theorem decodeFields_encode:
  assumes "list_all valid_field fs" "length (concat (map encode_field fs)) \<le> maxWireLength" "depth \<le> maxRecursionDepth"
  shows "decodeFields (concat (map encode_field fs)) depth = Inr fs"
  using assms fields_loop_encode [OF assms(1), of "[]"] by (simp add: decodeFields_def)

theorem decodeFields_encode_witness:
  "decodeFields (encode_field \<lparr>fnum = 2, wireType = 0, fvarint = 300, fbytes = []\<rparr>) 0
     = Inr [\<lparr>fnum = 2, wireType = 0, fvarint = 300, fbytes = []\<rparr>]"
proof -
  have "length (encode_field \<lparr>fnum = 2, wireType = 0, fvarint = 300, fbytes = []\<rparr>) = 3" by code_simp
  then show ?thesis
    using decodeFields_encode [of "[\<lparr>fnum = 2, wireType = 0, fvarint = 300, fbytes = []\<rparr>]" 0]
    by (simp add: valid_field_def maxWireLength_def)
qed

text \<open>Every 64-bit value survives its varint encoding, whatever bytes follow, and the decoder
  reports how many bytes it used; it never reads more than ten.\<close>

theorem decodeVarint_roundtrip:
  "decodeVarint (encode_varint v @ rest) = Inr (v, length (encode_varint v)) \<and> length (encode_varint v) \<le> 10"
proof -
  have "varint_loop i val bs = Inr (w, n) \<Longrightarrow> n \<le> 10" for i val bs w n
    by (induction i val bs rule: varint_loop.induct) (auto simp: maxVarintBytes_def Let_def split: if_splits)
  then show ?thesis using decodeVarint_encode [of v rest] by (simp add: decodeVarint_def)
qed

text \<open>Out-of-range wire data is not always rejected: a ten-byte varint above 64 bits loses its
  upper bits instead of giving the overflow error, and a field number above 32 bits is read as the
  small number with the same low bits.\<close>

theorem wire_overflow_accepted:
  "decodeVarint [0x80, 0x80, 0x80, 0x80, 0x80, 0x80, 0x80, 0x80, 0x80, 0x7E] = Inr (0, 10)
   \<and> decodeFields [0x88, 0x80, 0x80, 0x80, 0x80, 0x01, 0x05] 0
     = Inr [\<lparr>fnum = 1, wireType = 0, fvarint = 5, fbytes = []\<rparr>]"
  by (simp add: decodeVarint_def maxVarintBytes_def decodeFields_def maxRecursionDepth_def maxWireLength_def
      fields_loop.simps [of "_ # _"] fields_loop.simps [of "[]"] decode_field_def decode_payload_def Let_def)

end
