(* ===== verification/Usage.thy ===== *)
theory Usage
  imports Wire "HOL-Library.Char_ord" "HOL-Library.List_Lexorder"
begin

text \<open>
  internal/tokei/types.go and the core of reader.go: usage records with their normalisation, model
  names, and the deduplication of the events of one conversation: aliases of a generation are
  joined in a union-find structure, and usages with the same canonical identity are merged by
  taking the larger counters. Strings are compared byte by byte. The rows of the two tables and the
  file metadata are inputs; strings.ToLower is the byte-level one of the prelude.
\<close>

section \<open>Model names\<close>

definition DefaultModel :: string where "DefaultModel = ''gemini-internal-model''"

definition model_names :: "(nat \<times> string) list" where
  "model_names =
     [(246, ''gemini-2.5-pro''), (312, ''gemini-2.5-flash''), (313, ''gemini-2.5-flash-thinking''),
      (329, ''gemini-2.5-flash-thinking''), (330, ''gemini-2.5-flash-lite''), (281, ''claude-4-sonnet''),
      (282, ''claude-4-sonnet''), (290, ''claude-4-opus''), (291, ''claude-4-opus''),
      (333, ''claude-4.5-sonnet''), (334, ''claude-4.5-sonnet''), (340, ''claude-4.5-haiku''),
      (341, ''claude-4.5-haiku''), (342, ''gpt-oss-120b-medium''), (1318, ''gemini-3.8-flash'')]"

definition ModelNameFromID :: "64 word \<Rightarrow> string" where
  "ModelNameFromID mid =
     (case map_of model_names (unat mid) of
        Some s \<Rightarrow> s
      | None \<Rightarrow>
          if 1000 \<le> mid then ''model_placeholder_m'' @ nat_string (unat (mid - 1000))
          else ''antigravity-model-'' @ nat_string (unat mid))"

definition model_aliases :: "(string \<times> string) list" where
  "model_aliases =
     [(''gemini 3.8 flash'', ''gemini-3.8-flash''), (''gemini-3.8-flash'', ''gemini-3.8-flash''),
      (''gemini 3.7 flash'', ''gemini-3.7-flash''), (''gemini-3.7-flash'', ''gemini-3.7-flash''),
      (''gemini 3.7 flash thinking'', ''gemini-3.7-flash''),
      (''gemini 3.7 pro'', ''gemini-3.7-pro''), (''gemini-3.7-pro'', ''gemini-3.7-pro''),
      (''gemini 3.7 pro thinking'', ''gemini-3.7-pro''),
      (''gemini 3.6 flash'', ''gemini-3.6-flash''), (''gemini-3.6-flash'', ''gemini-3.6-flash''),
      (''gemini 3 flash'', ''gemini-3.6-flash''),
      (''gemini 3.6 pro'', ''gemini-3.6-pro''), (''gemini-3.6-pro'', ''gemini-3.6-pro''),
      (''gemini 3 pro'', ''gemini-3-pro''), (''gemini-3-pro'', ''gemini-3-pro''),
      (''gemini 3 pro thinking'', ''gemini-3-pro''),
      (''gemini 2.5 flash'', ''gemini-2.5-flash''), (''gemini-2.5-flash'', ''gemini-2.5-flash''),
      (''gemini 2.5 pro'', ''gemini-2.5-pro''), (''gemini-2.5-pro'', ''gemini-2.5-pro''),
      (''gemini 2.0 flash'', ''gemini-2.0-flash''), (''gemini-2.0-flash'', ''gemini-2.0-flash''),
      (''gemini 2 flash'', ''gemini-2.0-flash''),
      (''gemini 2.0 pro'', ''gemini-2.0-pro''), (''gemini-2.0-pro'', ''gemini-2.0-pro''),
      (''gemini 1.5 flash'', ''gemini-1.5-flash''), (''gemini-1.5-flash'', ''gemini-1.5-flash''),
      (''gemini 1.5 pro'', ''gemini-1.5-pro''), (''gemini-1.5-pro'', ''gemini-1.5-pro'')]"

definition before_paren :: "string \<Rightarrow> string" where
  "before_paren s = (if CHR ''('' \<in> set s then trim_space (takeWhile (\<lambda>c. c \<noteq> CHR ''('') s) else s)"

definition NormalizeModel :: "string \<Rightarrow> string" where
  "NormalizeModel raw =
     (let trimmed = trim_space raw
      in if trimmed = [] then DefaultModel
         else let lower = before_paren (to_lower trimmed)
              in case map_of model_aliases lower of
                   Some s \<Rightarrow> s
                 | None \<Rightarrow> map (\<lambda>c. if c = CHR '' '' then CHR ''-'' else c) lower)"

section \<open>Records\<close>

record UsageRecord =
  ConversationID :: string
  GenerationID :: string
  UStepIndex :: int
  UTimestamp :: go_time
  WorkspaceURI :: string
  ProjectID :: string
  Model :: string
  ProviderID :: "64 word"
  ResponseID :: bytes
  ProviderAssignedMessageID :: bytes
  MessageID :: bytes
  InputTokens :: "64 word"
  CacheReadTokens :: "64 word"
  CacheCreationTokens :: "64 word"
  VisibleOutputTokens :: "64 word"
  ReasoningTokens :: "64 word"
  TotalOutputTokens :: "64 word"
  TotalTokens :: "64 word"

definition Normalize :: "UsageRecord \<Rightarrow> UsageRecord" where
  "Normalize u =
     (let calculatedOutput = VisibleOutputTokens u + ReasoningTokens u;
          u1 = (if calculatedOutput > TotalOutputTokens u then u\<lparr>TotalOutputTokens := calculatedOutput\<rparr> else u);
          u2 = u1\<lparr>TotalTokens := InputTokens u1 + CacheReadTokens u1 + TotalOutputTokens u1\<rparr>
      in u2\<lparr>Model := NormalizeModel (Model u2)\<rparr>)"

definition IsTokenBearing :: "UsageRecord \<Rightarrow> bool" where
  "IsTokenBearing u \<longleftrightarrow> InputTokens u > 0 \<or> TotalOutputTokens u > 0 \<or> CacheReadTokens u > 0
     \<or> CacheCreationTokens u > 0 \<or> ReasoningTokens u > 0 \<or> VisibleOutputTokens u > 0"

section \<open>Joining aliases\<close>

type_synonym parents = "(string \<times> string) list"

definition lookup_parent :: "parents \<Rightarrow> string \<Rightarrow> string" where
  "lookup_parent ps i = (case map_of ps i of None \<Rightarrow> [] | Some p \<Rightarrow> p)"

definition set_parent :: "string \<Rightarrow> string \<Rightarrow> parents \<Rightarrow> parents" where
  "set_parent i p ps = (i, p) # filter (\<lambda>kv. fst kv \<noteq> i) ps"

text \<open>
  The recursive function \<open>root\<close> with path compression. Parents are lexically larger than their
  children, so one step more than there are entries is fuel enough (\<open>root_returns\<close> below).
\<close>

fun root_loop :: "nat \<Rightarrow> parents \<Rightarrow> string \<Rightarrow> (string \<times> parents) option" where
  "root_loop 0 ps i = None"
| "root_loop (Suc n) ps i =
     (let ps1 = (if lookup_parent ps i = [] then set_parent i i ps else ps); p = lookup_parent ps1 i
      in if p \<noteq> i
         then (case root_loop n ps1 p of
                 None \<Rightarrow> None
               | Some (r, ps2) \<Rightarrow> Some (r, set_parent i r ps2))
         else Some (i, ps1))"

definition root :: "parents \<Rightarrow> string \<Rightarrow> (string \<times> parents) option" where
  "root ps i = root_loop (length ps + 2) ps i"

definition alias_ids :: "rawUsage \<Rightarrow> string list" where
  "alias_ids u =
     (if responseID u \<noteq> [] then [''response:'' @ bytes_string (responseID u)] else [])
     @ (if providerAssignedMessageID u \<noteq> [] then [''provider:'' @ bytes_string (providerAssignedMessageID u)] else [])
     @ (if messageID u \<noteq> [] then [''message:'' @ bytes_string (messageID u)] else [])"

datatype reader_error = AmbiguousAliases | RootFuel | ReadError string | WireError wire_error

definition link_pair :: "string \<Rightarrow> parents \<Rightarrow> string \<Rightarrow> reader_error + parents" where
  "link_pair i0 ps i =
     (case root ps i0 of None \<Rightarrow> Inl RootFuel | Some (a, ps1) \<Rightarrow>
      (case root ps1 i of None \<Rightarrow> Inl RootFuel | Some (b, ps2) \<Rightarrow>
        if a \<noteq> b \<and> (has_prefix a ''response:'' \<and> has_prefix b ''response:''
                    \<or> has_prefix a ''provider:'' \<and> has_prefix b ''provider:'')
        then Inl AmbiguousAliases
        else if a < b then Inr (set_parent a b ps2) else Inr (set_parent b a ps2)))"

definition link :: "parents \<Rightarrow> rawUsage \<Rightarrow> reader_error + parents" where
  "link ps u = (case alias_ids u of [] \<Rightarrow> Inr ps | i0 # is \<Rightarrow> fold_err (link_pair i0) ps is)"

definition event_usages :: "rawUsage option \<Rightarrow> rawUsage list \<Rightarrow> rawUsage list" where
  "event_usages u retries = (case u of None \<Rightarrow> [] | Some x \<Rightarrow> [x]) @ retries"

definition link_all :: "StepEvent list \<Rightarrow> GenEvent list \<Rightarrow> reader_error + parents" where
  "link_all steps gens =
     fold_err link []
       (concat (map (\<lambda>e. event_usages (SUsage e) (SRetries e)) steps)
        @ concat (map (\<lambda>e. event_usages (GUsage e) (GRetries e)) gens))"

section \<open>Merging usages\<close>

record read_context =
  cid :: string
  baseTimestamp :: go_time
  workspaceURI :: string
  projectID :: string

record usage_event =
  ue_usage :: rawUsage
  ue_index :: int
  ue_time :: go_time
  ue_model :: string
  ue_modelID :: "64 word"
  ue_provider :: "64 word"

definition time_before :: "go_time \<Rightarrow> go_time \<Rightarrow> bool" where
  "time_before a b =
     (case (a, b) of
        (Some (s, n), Some (t, m)) \<Rightarrow> s < t \<or> s = t \<and> n < m
      | _ \<Rightarrow> False)"

definition resolve_model :: "usage_event \<Rightarrow> string" where
  "resolve_model e =
     (let m1 = ue_model e;
          m2 = (if m1 = [] \<and> ue_modelID e \<noteq> 0 then ModelNameFromID (ue_modelID e) else m1);
          m3 = (if m2 = [] \<and> modelID (ue_usage e) \<noteq> 0 then ModelNameFromID (modelID (ue_usage e)) else m2)
      in if m3 = [] then DefaultModel else m3)"

definition resolve_provider :: "usage_event \<Rightarrow> 64 word" where
  "resolve_provider e = (if ue_provider e = 0 then providerID (ue_usage e) else ue_provider e)"

definition event_time :: "read_context \<Rightarrow> usage_event \<Rightarrow> go_time" where
  "event_time ctx e = (if ue_time e = None then baseTimestamp ctx else ue_time e)"

definition new_record :: "read_context \<Rightarrow> string \<Rightarrow> usage_event \<Rightarrow> UsageRecord" where
  "new_record ctx i e =
     (let u = ue_usage e
      in Normalize \<lparr>ConversationID = cid ctx, GenerationID = i, UStepIndex = ue_index e,
           UTimestamp = event_time ctx e, WorkspaceURI = workspaceURI ctx, ProjectID = projectID ctx,
           Model = resolve_model e, ProviderID = resolve_provider e, ResponseID = responseID u,
           ProviderAssignedMessageID = providerAssignedMessageID u, MessageID = messageID u,
           InputTokens = inputTokens u, CacheReadTokens = cacheReadTokens u,
           CacheCreationTokens = cacheCreationTokens u, VisibleOutputTokens = visibleOutputTokens u,
           ReasoningTokens = reasoningTokens u, TotalOutputTokens = totalOutputTokens u, TotalTokens = 0\<rparr>)"

definition larger :: "64 word \<Rightarrow> 64 word \<Rightarrow> 64 word" where
  "larger new old = (if new > old then new else old)"

definition merge_record :: "read_context \<Rightarrow> usage_event \<Rightarrow> UsageRecord \<Rightarrow> UsageRecord" where
  "merge_record ctx e r =
     (let u = ue_usage e; ts = event_time ctx e; m = resolve_model e; p = resolve_provider e;
          r1 = r\<lparr>InputTokens := larger (inputTokens u) (InputTokens r),
                 CacheReadTokens := larger (cacheReadTokens u) (CacheReadTokens r),
                 CacheCreationTokens := larger (cacheCreationTokens u) (CacheCreationTokens r),
                 VisibleOutputTokens := larger (visibleOutputTokens u) (VisibleOutputTokens r),
                 ReasoningTokens := larger (reasoningTokens u) (ReasoningTokens r),
                 TotalOutputTokens := larger (totalOutputTokens u) (TotalOutputTokens r)\<rparr>;
          r2 = (if Model r1 = DefaultModel \<and> m \<noteq> DefaultModel then r1\<lparr>Model := m\<rparr> else r1);
          r3 = (if ProviderID r2 = 0 \<and> p \<noteq> 0 then r2\<lparr>ProviderID := p\<rparr> else r2);
          r4 = (if UTimestamp r3 = None \<or> (ts \<noteq> None \<and> time_before ts (UTimestamp r3)) then r3\<lparr>UTimestamp := ts\<rparr> else r3)
      in Normalize r4)"

text \<open>The record map with its order of insertion is a list of records by identity.\<close>

type_synonym records = "(string \<times> UsageRecord) list"

definition event_identity :: "read_context \<Rightarrow> parents \<Rightarrow> usage_event \<Rightarrow> (string \<times> parents) option" where
  "event_identity ctx ps e =
     (let i0 = primaryIdentity (ue_usage e)
      in if i0 = [] then Some (''step:'' @ cid ctx @ '':'' @ int_string (ue_index e), ps) else root ps i0)"

definition put_record :: "read_context \<Rightarrow> string \<Rightarrow> usage_event \<Rightarrow> records \<Rightarrow> records" where
  "put_record ctx i e rs =
     (case map_of rs i of
        None \<Rightarrow> rs @ [(i, new_record ctx i e)]
      | Some r \<Rightarrow> map (\<lambda>kv. if fst kv = i then (i, merge_record ctx e (snd kv)) else kv) rs)"

definition upsert :: "read_context \<Rightarrow> parents \<times> records \<Rightarrow> usage_event \<Rightarrow> reader_error + parents \<times> records" where
  "upsert ctx s e =
     (case s of (ps, rs) \<Rightarrow>
        if \<not> isTokenBearing (ue_usage e) then Inr (ps, rs)
        else case event_identity ctx ps e of
               None \<Rightarrow> Inl RootFuel
             | Some (i, ps1) \<Rightarrow> Inr (ps1, put_record ctx i e rs))"

definition step_events :: "StepEvent \<Rightarrow> usage_event list" where
  "step_events ev =
     map (\<lambda>u. \<lparr>ue_usage = u, ue_index = StepIndex ev, ue_time = STimestamp ev,
               ue_model = bytes_string (SModelName ev), ue_modelID = SModelID ev, ue_provider = SProvider ev\<rparr>)
       (event_usages (SUsage ev) (SRetries ev))"

definition gen_events :: "GenEvent \<Rightarrow> usage_event list" where
  "gen_events ev =
     map (\<lambda>u. \<lparr>ue_usage = u, ue_index = GenIndex ev, ue_time = GTimestamp ev,
               ue_model = bytes_string (GModelName ev), ue_modelID = GModelID ev, ue_provider = 0\<rparr>)
       (event_usages (GUsage ev) (GRetries ev))"

definition dedup_events :: "read_context \<Rightarrow> StepEvent list \<Rightarrow> GenEvent list \<Rightarrow> reader_error + UsageRecord list" where
  "dedup_events ctx steps gens =
     (case link_all steps gens of
        Inl e \<Rightarrow> Inl e
      | Inr ps \<Rightarrow>
          (case fold_err (upsert ctx) (ps, []) (concat (map step_events steps) @ concat (map gen_events gens)) of
             Inl e \<Rightarrow> Inl e
           | Inr (ps1, rs) \<Rightarrow> Inr (filter IsTokenBearing (map snd rs))))"

section \<open>Reading a conversation\<close>

text \<open>The rows of a table with their blobs: highest index, and the events of the non-empty ones.\<close>

definition highest_index :: "(int \<times> bytes) list \<Rightarrow> int" where
  "highest_index rows = foldl (\<lambda>h r. if fst r > h then fst r else h) 0 rows"

definition parse_rows :: "(int \<Rightarrow> bytes \<Rightarrow> wire_error + 'e) \<Rightarrow> (int \<times> bytes) list \<Rightarrow> wire_error + 'e list" where
  "parse_rows parse rows =
     fold_err (\<lambda>acc r. if snd r = [] then Inr acc
                       else case parse (fst r) (snd r) of Inl e \<Rightarrow> Inl e | Inr x \<Rightarrow> Inr (acc @ [x])) [] rows"

record file_info =
  fi_size :: int
  fi_mtime :: int \<comment> \<open>nanoseconds\<close>

record source_db =
  db_before :: "file_info option"
  db_after :: "file_info option"
  db_wal_size :: "int option"
  db_open_error :: bool
  db_trajectory :: "bytes option"
  db_steps :: "(int \<times> bytes) list option"
  db_gens :: "(int \<times> bytes) list option"

record read_result =
  rr_cid :: string
  rr_records :: "UsageRecord list"
  rr_steps :: int
  rr_gens :: int
  rr_size :: int
  rr_mtime :: int
  rr_fingerprint :: string
  rr_complete :: bool
  rr_status :: string

definition mtime_time :: "int \<Rightarrow> go_time" where
  "mtime_time ns = Some (ns div 1000000000, ns mod 1000000000)"

definition base_time :: "source_db \<Rightarrow> file_info \<Rightarrow> go_time" where
  "base_time db before =
     (let t = (case db_trajectory db of None \<Rightarrow> None
               | Some b \<Rightarrow> if b = [] then None else ParseTrajectoryTimestamp b)
      in if t = None then mtime_time (fi_mtime before) else t)"

definition fingerprint_of :: "file_info \<Rightarrow> int \<Rightarrow> int \<Rightarrow> string" where
  "fingerprint_of fi s g =
     ''size='' @ int_string (fi_size fi) @ '':mtime='' @ int_string (fi_mtime fi)
     @ '':steps='' @ int_string s @ '':gen='' @ int_string g"

definition ReadConversation ::
  "string \<Rightarrow> (string \<times> string) option \<Rightarrow> source_db \<Rightarrow> reader_error + read_result" where
  "ReadConversation conv meta db =
     (case db_before db of None \<Rightarrow> Inl (ReadError ''stat'') | Some before \<Rightarrow>
      if fi_size before = 0 then Inl (ReadError ''empty database'')
      else if db_open_error db then Inl (ReadError ''open'')
      else case db_steps db of None \<Rightarrow> Inl (ReadError ''read step metadata'') | Some stepRows \<Rightarrow>
      (case parse_rows ParseStepMetadata stepRows of Inl e \<Rightarrow> Inl (WireError e) | Inr steps \<Rightarrow>
      (case db_gens db of None \<Rightarrow> Inl (ReadError ''read gen metadata'') | Some genRows \<Rightarrow>
      (case parse_rows ParseGenMetadata genRows of Inl e \<Rightarrow> Inl (WireError e) | Inr gens \<Rightarrow>
        (let ctx = \<lparr>cid = conv, baseTimestamp = base_time db before,
                    workspaceURI = (case meta of None \<Rightarrow> [] | Some (w, p) \<Rightarrow> w),
                    projectID = (case meta of None \<Rightarrow> ''unknown'' | Some (w, p) \<Rightarrow> if p = [] then ''unknown'' else p)\<rparr>
         in case dedup_events ctx steps gens of Inl e \<Rightarrow> Inl e | Inr records \<Rightarrow>
            (case db_after db of None \<Rightarrow> Inl (ReadError ''stat after reading'') | Some after \<Rightarrow>
              (let hs = highest_index stepRows; hg = highest_index genRows;
                   hasActiveWAL = (case db_wal_size db of None \<Rightarrow> False | Some n \<Rightarrow> 0 < n);
                   sourceChanged = (fi_size after \<noteq> fi_size before \<or> fi_mtime after \<noteq> fi_mtime before);
                   isComplete = (\<not> sourceChanged \<and> \<not> hasActiveWAL)
               in Inr \<lparr>rr_cid = conv, rr_records = records, rr_steps = hs, rr_gens = hg,
                       rr_size = fi_size after, rr_mtime = fi_mtime after,
                       rr_fingerprint = fingerprint_of after hs hg, rr_complete = isComplete,
                       rr_status = (if isComplete then ''completed'' else ''active'')\<rparr>)))))))"


section \<open>The union-find structure\<close>

text \<open>The representative of an identity: follow the parents until one is its own parent.\<close>

inductive canon :: "('a \<Rightarrow> 'a) \<Rightarrow> 'a \<Rightarrow> 'a \<Rightarrow> bool" for f where
  canon_here: "f i = i \<Longrightarrow> canon f i i"
| canon_step: "f i \<noteq> i \<Longrightarrow> canon f (f i) r \<Longrightarrow> canon f i r"

definition forest :: "('a::linorder \<Rightarrow> 'a) \<Rightarrow> bool" where
  "forest f \<longleftrightarrow> (\<forall>i. i \<le> f i) \<and> finite {k. f k \<noteq> k}"

definition rep :: "('a \<Rightarrow> 'a) \<Rightarrow> 'a \<Rightarrow> 'a" where
  "rep f i = (THE r. canon f i r)"

lemma canon_fix: "canon f i r \<Longrightarrow> f r = r"
  by (induction rule: canon.induct) auto

lemma canon_unique: "canon f i r \<Longrightarrow> canon f i s \<Longrightarrow> r = s"
proof (induction arbitrary: s rule: canon.induct)
  case (canon_here i)
  from canon_here(2,1) show ?case by (auto elim: canon.cases)
next
  case (canon_step i r)
  from canon_step(4,1) have "canon f (f i) s" by (auto elim: canon.cases)
  then show ?case by (rule canon_step(3))
qed

lemma canon_le: "forest f \<Longrightarrow> canon f i r \<Longrightarrow> i \<le> r"
  by (rotate_tac 1, induction rule: canon.induct) (auto simp: forest_def intro: order_trans)

lemma canon_total: "forest f \<Longrightarrow> \<exists>r. canon f i r"
proof (induction "card {k. f k \<noteq> k \<and> i \<le> k}" arbitrary: i rule: less_induct)
  case less
  show ?case
  proof (cases "f i = i")
    case True
    then show ?thesis by (auto intro: canon_here)
  next
    case False
    have up: "i < f i" using less(2) False by (simp add: forest_def order_less_le)
    have fin: "finite {k. f k \<noteq> k \<and> i \<le> k}"
      using less(2) by (auto simp: forest_def intro: finite_subset [of _ "{k. f k \<noteq> k}"])
    have "{k. f k \<noteq> k \<and> f i \<le> k} \<subset> {k. f k \<noteq> k \<and> i \<le> k}"
    proof (rule psubsetI)
      show "{k. f k \<noteq> k \<and> f i \<le> k} \<subseteq> {k. f k \<noteq> k \<and> i \<le> k}" using up by auto
      have "i \<in> {k. f k \<noteq> k \<and> i \<le> k}" "i \<notin> {k. f k \<noteq> k \<and> f i \<le> k}" using up False by auto
      then show "{k. f k \<noteq> k \<and> f i \<le> k} \<noteq> {k. f k \<noteq> k \<and> i \<le> k}" by blast
    qed
    then have "card {k. f k \<noteq> k \<and> f i \<le> k} < card {k. f k \<noteq> k \<and> i \<le> k}"
      by (rule psubset_card_mono [OF fin])
    then obtain r where "canon f (f i) r" using less by blast
    then show ?thesis using False by (auto intro: canon_step)
  qed
qed

lemma rep_eqI: "canon f i r \<Longrightarrow> rep f i = r"
  unfolding rep_def by (rule the_equality) (auto dest: canon_unique)

lemma canon_rep: "forest f \<Longrightarrow> canon f i (rep f i)"
proof -
  assume "forest f"
  then obtain r where "canon f i r" using canon_total by blast
  then show ?thesis using rep_eqI [of f i r] by simp
qed

lemma rep_fix: "forest f \<Longrightarrow> f (rep f i) = rep f i"
  by (rule canon_fix [OF canon_rep])

lemma rep_above: "forest f \<Longrightarrow> i \<le> rep f i"
  by (rule canon_le [OF _ canon_rep])

lemma rep_self: "f i = i \<Longrightarrow> rep f i = i"
  by (rule rep_eqI) (rule canon_here)

lemma rep_parent: "forest f \<Longrightarrow> rep f (f i) = rep f i"
proof (cases "f i = i")
  case False
  assume "forest f"
  then have "canon f i (rep f (f i))" using False canon_rep [of f "f i"] by (simp add: canon_step)
  then show ?thesis by (simp add: rep_eqI)
qed simp

lemma rep_rep: "forest f \<Longrightarrow> rep f (rep f i) = rep f i"
  by (simp add: rep_fix rep_self)

lemma forest_update: "forest f \<Longrightarrow> i \<le> r \<Longrightarrow> forest (f(i := r))"
  by (auto simp: forest_def intro: finite_subset [of _ "insert i {k. f k \<noteq> k}"])

lemma rep_compress:
  assumes "forest f"
  shows "rep (f(i := rep f i)) = rep f"
proof
  fix j
  define g where "g = f(i := rep f i)"
  have gi: "g i = rep f i" and gk: "k \<noteq> i \<Longrightarrow> g k = f k" for k by (simp_all add: g_def)
  have "canon f j (rep f j)" using assms by (rule canon_rep)
  then have "canon g j (rep f j)"
  proof (induction rule: canon.induct)
    case (canon_here k)
    then have "g k = k" by (cases "k = i") (simp_all add: gi gk rep_self)
    then show ?case by (rule canon.canon_here)
  next
    case (canon_step k r)
    show ?case
    proof (cases "k = i")
      case True
      have "canon f k r" using canon_step(1,2) by (rule canon.canon_step)
      then have r: "r = rep f i" using True by (simp add: rep_eqI)
      have ne: "rep f i \<noteq> i" using canon_step(1) True rep_fix [OF assms, of i] by auto
      have "canon g (rep f i) (rep f i)"
        using ne by (intro canon.canon_here) (simp add: gk rep_fix [OF assms])
      then show ?thesis using r True ne gi canon.canon_step [of g i] by simp
    next
      case False
      then show ?thesis using canon_step canon.canon_step [of g k r] by (simp add: gk)
    qed
  qed
  then show "rep (f(i := rep f i)) j = rep f j" unfolding g_def by (rule rep_eqI)
qed

lemma rep_join:
  assumes "forest f" and "f a = a" and "f b = b" and "a \<le> b"
  shows "rep (f(a := b)) j = (if rep f j = a then b else rep f j)"
proof -
  define g where "g = f(a := b)"
  have ga: "g a = b" and gk: "k \<noteq> a \<Longrightarrow> g k = f k" for k by (simp_all add: g_def)
  have gb: "g b = b" using assms(3) by (simp add: g_def)
  have "canon f j (rep f j)" using assms(1) by (rule canon_rep)
  then have "canon g j (if rep f j = a then b else rep f j)"
  proof (induction rule: canon.induct)
    case (canon_here k)
    show ?case
    proof (cases "k = a")
      case True
      have "canon g b b" using gb by (rule canon.canon_here)
      then show ?thesis using True ga canon.canon_step [of g a b] by (cases "a = b") simp_all
    next
      case False
      then show ?thesis using canon_here gk by (simp add: canon.canon_here)
    qed
  next
    case (canon_step k r)
    then have "k \<noteq> a" using assms(2) by auto
    then show ?case using canon_step canon.canon_step [of g k] by (simp add: gk)
  qed
  then show ?thesis unfolding g_def by (rule rep_eqI)
qed

definition parent :: "parents \<Rightarrow> string \<Rightarrow> string" where
  "parent ps i = (if lookup_parent ps i = [] then i else lookup_parent ps i)"

lemma map_of_filter_other: "i \<noteq> j \<Longrightarrow> map_of (filter (\<lambda>kv. fst kv \<noteq> i) ps) j = map_of ps j"
  by (induction ps) auto

lemma lookup_set_parent: "lookup_parent (set_parent i p ps) j = (if j = i then p else lookup_parent ps j)"
  by (auto simp: lookup_parent_def set_parent_def map_of_filter_other)

lemma parent_set: "i \<le> p \<Longrightarrow> parent (set_parent i p ps) = (parent ps)(i := p)"
  by (rule ext) (auto simp: parent_def lookup_set_parent)

lemma parent_keys: "parent ps i \<noteq> i \<Longrightarrow> i \<in> fst ` set ps"
  by (auto simp: parent_def lookup_parent_def split: if_splits option.splits dest: map_of_SomeD
      intro: rev_image_eqI)

lemma forest_empty: "forest (parent [])"
  by (simp add: forest_def parent_def lookup_parent_def)

lemma set_parent_length: "length (set_parent i p ps) \<le> Suc (length ps)"
  by (simp add: set_parent_def le_SucI)

text \<open>The loop returns, with the representative, and path compression changes no representative.\<close>

lemma root_loop_spec:
  assumes "forest (parent ps)" and "card {k \<in> fst ` set ps. i \<le> k} < n"
  shows "\<exists>ps'. root_loop n ps i = Some (rep (parent ps) i, ps') \<and> forest (parent ps')
    \<and> rep (parent ps') = rep (parent ps)"
  using assms
proof (induction n arbitrary: i)
  case (Suc n)
  define ps1 where "ps1 = (if lookup_parent ps i = [] then set_parent i i ps else ps)"
  have same: "parent ps1 = parent ps"
    by (auto simp: ps1_def parent_set fun_eq_iff) (simp add: parent_def)
  have p: "lookup_parent ps1 i = parent ps i"
    by (auto simp: ps1_def parent_def lookup_set_parent)
  show ?case
  proof (cases "parent ps i = i")
    case True
    then have "root_loop (Suc n) ps i = Some (i, ps1)"
      using p by (simp add: ps1_def [symmetric] Let_def)
    then show ?thesis using same Suc.prems(1) True by (simp add: rep_self)
  next
    case False
    then have ne: "lookup_parent ps i \<noteq> []" by (auto simp: parent_def)
    then have ps1: "ps1 = ps" by (simp add: ps1_def)
    have up: "i < parent ps i" using Suc.prems(1) False by (simp add: forest_def order_less_le)
    have sub: "{k \<in> fst ` set ps. parent ps i \<le> k} \<subset> {k \<in> fst ` set ps. i \<le> k}"
    proof (rule psubsetI)
      show "{k \<in> fst ` set ps. parent ps i \<le> k} \<subseteq> {k \<in> fst ` set ps. i \<le> k}" using up by auto
      have "i \<in> {k \<in> fst ` set ps. i \<le> k}" "i \<notin> {k \<in> fst ` set ps. parent ps i \<le> k}"
        using up parent_keys [OF False] by auto
      then show "{k \<in> fst ` set ps. parent ps i \<le> k} \<noteq> {k \<in> fst ` set ps. i \<le> k}" by blast
    qed
    have "card {k \<in> fst ` set ps. parent ps i \<le> k} < card {k \<in> fst ` set ps. i \<le> k}"
      by (rule psubset_card_mono [OF _ sub]) simp
    then have "card {k \<in> fst ` set ps. parent ps i \<le> k} < n" using Suc.prems(2) by linarith
    from Suc.IH [OF Suc.prems(1) this] obtain ps2 where ih:
      "root_loop n ps (parent ps i) = Some (rep (parent ps) (parent ps i), ps2)"
      "forest (parent ps2)" "rep (parent ps2) = rep (parent ps)" by blast
    define r where "r = rep (parent ps) i"
    have r: "rep (parent ps) (parent ps i) = r" using Suc.prems(1) by (simp add: r_def rep_parent)
    have le: "i \<le> r" unfolding r_def by (rule rep_above [OF Suc.prems(1)])
    have "root_loop (Suc n) ps i = Some (r, set_parent i r ps2)"
      using ih(1) p False r ne by (simp add: Let_def ps1)
    moreover have "forest (parent (set_parent i r ps2))"
      using ih(2) le by (simp add: parent_set forest_update)
    moreover have "rep (parent (set_parent i r ps2)) = rep (parent ps)"
      using le ih(3) rep_compress [OF ih(2), of i] by (simp add: parent_set r_def)
    ultimately show ?thesis unfolding r_def by blast
  qed
qed simp

lemma root_returns:
  assumes "forest (parent ps)"
  obtains ps' where "root ps i = Some (rep (parent ps) i, ps')" "forest (parent ps')"
    "rep (parent ps') = rep (parent ps)"
proof -
  have "card {k \<in> fst ` set ps. i \<le> k} \<le> card (fst ` set ps)" by (rule card_mono) auto
  also have "\<dots> \<le> length ps"
    using card_image_le [of "set ps" fst] card_length [of ps] by (meson List.finite_set le_trans)
  finally have "card {k \<in> fst ` set ps. i \<le> k} < length ps + 2" by simp
  from root_loop_spec [OF assms this] show thesis using that by (auto simp: root_def)
qed

text \<open>Linking joins the classes of the two identities under the lexically larger representative.\<close>

definition response_alias :: "string \<Rightarrow> bool" where
  "response_alias i \<longleftrightarrow> has_prefix i ''response:''"

lemma link_pair_spec:
  assumes "forest (parent ps)" and "link_pair i0 ps i = Inr ps'"
  shows "forest (parent ps')"
    and "\<exists>a b. {a, b} = {rep (parent ps) i0, rep (parent ps) i} \<and> a \<le> b
      \<and> (response_alias a \<and> response_alias b \<longrightarrow> a = b) \<and>
      (\<forall>j. rep (parent ps') j = (if rep (parent ps) j = a then b else rep (parent ps) j))"
proof -
  obtain ps1 where r1: "root ps i0 = Some (rep (parent ps) i0, ps1)" "forest (parent ps1)"
    "rep (parent ps1) = rep (parent ps)" using root_returns [OF assms(1)] .
  obtain ps2 where r2: "root ps1 i = Some (rep (parent ps) i, ps2)" "forest (parent ps2)"
    "rep (parent ps2) = rep (parent ps)" using root_returns [OF r1(2), of i] r1(3) by auto
  define a b where "a = rep (parent ps) i0" and "b = rep (parent ps) i"
  have fa: "parent ps2 a = a" and fb: "parent ps2 b = b"
    using rep_fix [OF r2(2)] by (simp_all add: a_def b_def r2(3) [symmetric])
  have ps': "ps' = (if a < b then set_parent a b ps2 else set_parent b a ps2)"
    using assms(2) r1(1) r2(1) by (simp add: link_pair_def a_def b_def split: if_splits)
  show "forest (parent ps')"
    unfolding ps' by (simp add: parent_set forest_update r2(2) less_imp_le)
  have apart: "response_alias a \<and> response_alias b \<longrightarrow> a = b"
    using assms(2) r1(1) r2(1) by (auto simp: link_pair_def a_def b_def response_alias_def split: if_splits)
  show "\<exists>a b. {a, b} = {rep (parent ps) i0, rep (parent ps) i} \<and> a \<le> b
      \<and> (response_alias a \<and> response_alias b \<longrightarrow> a = b) \<and>
      (\<forall>j. rep (parent ps') j = (if rep (parent ps) j = a then b else rep (parent ps) j))"
  proof (cases "a < b")
    case True
    have "\<forall>j. rep (parent ps') j = (if rep (parent ps) j = a then b else rep (parent ps) j)"
      using True rep_join [OF r2(2) fa fb] by (simp add: ps' parent_set less_imp_le r2(3))
    then show ?thesis using True apart unfolding a_def b_def
      by (intro exI [of _ "rep (parent ps) i0"] exI [of _ "rep (parent ps) i"]) auto
  next
    case False
    have "\<forall>j. rep (parent ps') j = (if rep (parent ps) j = b then a else rep (parent ps) j)"
      using False rep_join [OF r2(2) fb fa] by (simp add: ps' parent_set r2(3))
    then show ?thesis using False apart unfolding a_def b_def
      by (intro exI [of _ "rep (parent ps) i"] exI [of _ "rep (parent ps) i0"]) auto
  qed
qed

lemma link_pair_errors: "forest (parent ps) \<Longrightarrow> e \<noteq> AmbiguousAliases \<Longrightarrow> link_pair i0 ps i \<noteq> Inl e"
proof -
  assume f: "forest (parent ps)" and e: "e \<noteq> AmbiguousAliases"
  obtain ps1 where r1: "root ps i0 = Some (rep (parent ps) i0, ps1)" "forest (parent ps1)"
    using root_returns [OF f] .
  obtain ps2 where "root ps1 i = Some (rep (parent ps1) i, ps2)" using root_returns [OF r1(2)] .
  then show ?thesis using r1(1) e by (simp add: link_pair_def)
qed

text \<open>
  Two identities are aliases when one usage carries both; a generation is a class of the least
  equivalence with that. \<open>classes ps R\<close>: the structure joins only identities of one generation.
\<close>

definition alias_pairs :: "rawUsage set \<Rightarrow> (string \<times> string) set" where
  "alias_pairs us = {(i, j). \<exists>u \<in> us. i \<in> set (alias_ids u) \<and> j \<in> set (alias_ids u)}"

definition joined :: "parents \<Rightarrow> (string \<times> string) set \<Rightarrow> bool" where
  "joined ps R \<longleftrightarrow> (\<forall>(i, j) \<in> R. rep (parent ps) i = rep (parent ps) j)"

definition classes :: "parents \<Rightarrow> (string \<times> string) set \<Rightarrow> bool" where
  "classes ps R \<longleftrightarrow> forest (parent ps) \<and> (\<forall>i. (i, rep (parent ps) i) \<in> R\<^sup>*)
     \<and> (\<forall>i. response_alias i \<longrightarrow> rep (parent ps) i = i)"

text \<open>Every alias above a response alias in byte order is a response alias.\<close>

lemma alias_above_response:
  assumes "i \<in> set (alias_ids u)" and "response_alias j" and "j \<le> i"
  shows "response_alias i"
proof -
  obtain t where j: "j = ''response:'' @ t" using assms(2) by (auto simp: response_alias_def has_prefix_def prefix_def)
  from assms(1) consider "response_alias i" | s where "i = ''provider:'' @ s" | s where "i = ''message:'' @ s"
    by (auto simp: alias_ids_def response_alias_def has_prefix_def split: if_splits)
  then show ?thesis
    by cases (use assms(3) in \<open>simp_all add: j less_eq_char_def less_char_def\<close>)
qed

lemma reached_alias:
  assumes "(i, j) \<in> R\<^sup>*" and "R \<subseteq> alias_pairs us" and "i \<noteq> j"
  shows "\<exists>u. j \<in> set (alias_ids u)"
  using assms by (induction rule: rtrancl_induct) (auto simp: alias_pairs_def)

definition coarser :: "parents \<Rightarrow> parents \<Rightarrow> bool" where
  "coarser ps ps' \<longleftrightarrow> (\<forall>x y. rep (parent ps) x = rep (parent ps) y \<longrightarrow> rep (parent ps') x = rep (parent ps') y)"

lemma coarser_refl: "coarser ps ps"
  by (simp add: coarser_def)

lemma coarser_trans: "coarser ps ps1 \<Longrightarrow> coarser ps1 ps2 \<Longrightarrow> coarser ps ps2"
  unfolding coarser_def by blast

lemma coarser_eq: "coarser ps ps' \<Longrightarrow> rep (parent ps) x = rep (parent ps) y \<Longrightarrow> rep (parent ps') x = rep (parent ps') y"
  unfolding coarser_def by blast

lemma joined_coarser: "joined ps R \<Longrightarrow> coarser ps ps' \<Longrightarrow> joined ps' R"
  unfolding joined_def coarser_def by fast

lemma joined_un: "joined ps (R \<union> S) \<longleftrightarrow> joined ps R \<and> joined ps S"
  by (auto simp: joined_def)

lemma sym_alias_pairs: "sym (alias_pairs us)"
  by (auto simp: alias_pairs_def sym_def)

lemma link_pair_classes:
  assumes c: "classes ps R" and l: "link_pair i0 ps i = Inr ps'" and "sym R" and "(i0, i) \<in> R"
    and sub: "R \<subseteq> alias_pairs us"
  shows "classes ps' R" and "rep (parent ps') i0 = rep (parent ps') i"
    and "coarser ps ps'"
proof -
  have f: "forest (parent ps)" and up: "(j, rep (parent ps) j) \<in> R\<^sup>*"
    and own: "response_alias j \<Longrightarrow> rep (parent ps) j = j" for j
    using c by (auto simp: classes_def)
  have S: "sym (R\<^sup>*)" using \<open>sym R\<close> by (rule sym_rtrancl)
  have ab: "(rep (parent ps) i0, rep (parent ps) i) \<in> R\<^sup>*"
    using up [of i0] up [of i] \<open>(i0, i) \<in> R\<close> S by (meson r_into_rtrancl rtrancl_trans symD)
  obtain a b where e: "{a, b} = {rep (parent ps) i0, rep (parent ps) i}"
    and le: "a \<le> b" and apart: "response_alias a \<and> response_alias b \<longrightarrow> a = b"
    and r: "\<forall>j. rep (parent ps') j = (if rep (parent ps) j = a then b else rep (parent ps) j)"
    using link_pair_spec(2) [OF f l] by blast
  have "(a, b) \<in> R\<^sup>*" using e ab S by (auto simp: doubleton_eq_iff dest: symD)
  then have "(j, rep (parent ps') j) \<in> R\<^sup>*" for j
    using r up [of j] by (auto intro: rtrancl_trans)
  moreover have "rep (parent ps') j = j" if j: "response_alias j" for j
  proof -
    have "response_alias b" if "a = j" "a \<noteq> b"
      using reached_alias [OF \<open>(a, b) \<in> R\<^sup>*\<close> sub that(2)] alias_above_response [OF _ j] le that(1) by blast
    then show ?thesis using r own [OF j] apart j by auto
  qed
  ultimately show "classes ps' R" using link_pair_spec(1) [OF f l] by (simp add: classes_def)
  show "rep (parent ps') i0 = rep (parent ps') i" using e r by (auto simp: doubleton_eq_iff)
  show "coarser ps ps'" using r by (simp add: coarser_def)
qed

lemma link_pairs_classes:
  assumes "classes ps R" and "fold_err (link_pair i0) ps is = Inr ps'" and "sym R"
    and "\<forall>i \<in> set is. (i0, i) \<in> R" and "R \<subseteq> alias_pairs us"
  shows "classes ps' R \<and> (\<forall>i \<in> set is. rep (parent ps') i0 = rep (parent ps') i)
    \<and> coarser ps ps'"
  using assms
proof (induction "is" arbitrary: ps)
  case (Cons i "is")
  then obtain ps1 where l: "link_pair i0 ps i = Inr ps1" and rest: "fold_err (link_pair i0) ps1 is = Inr ps'"
    by (auto split: sum.splits)
  have c: "classes ps1 R" and eq: "rep (parent ps1) i0 = rep (parent ps1) i"
    and mono: "coarser ps ps1"
    using link_pair_classes [OF Cons.prems(1) l Cons.prems(3) _ Cons.prems(5)] Cons.prems(4) by simp_all
  have ih: "classes ps' R" "\<forall>i \<in> set is. rep (parent ps') i0 = rep (parent ps') i"
    "coarser ps1 ps'"
    using Cons.IH [OF c rest Cons.prems(3) _ Cons.prems(5)] Cons.prems(4) by simp_all
  show ?case using ih(1,2) coarser_eq [OF ih(3) eq] coarser_trans [OF mono ih(3)] by simp
qed (simp add: coarser_refl)

lemma link_classes:
  assumes "classes ps R" and "link ps u = Inr ps'" and "sym R" and "alias_pairs {u} \<subseteq> R"
    and "R \<subseteq> alias_pairs us"
  shows "classes ps' R" and "joined ps' (alias_pairs {u})"
    and "coarser ps ps'"
proof -
  have "classes ps' R \<and> joined ps' (alias_pairs {u}) \<and> coarser ps ps'"
  proof (cases "alias_ids u")
    case Nil
    then show ?thesis using assms by (simp add: link_def joined_def alias_pairs_def coarser_refl)
  next
    case (Cons i0 "is")
    have "\<forall>i \<in> set is. (i0, i) \<in> R" using assms(4) Cons by (auto simp: alias_pairs_def)
    moreover have "fold_err (link_pair i0) ps is = Inr ps'" using assms(2) Cons by (simp add: link_def)
    ultimately have l: "classes ps' R" "\<forall>i \<in> set is. rep (parent ps') i0 = rep (parent ps') i"
      "coarser ps ps'"
      using link_pairs_classes [OF assms(1) _ assms(3) _ assms(5), of i0 "is" ps'] by simp_all
    have "rep (parent ps') k = rep (parent ps') i0" if "k \<in> set (alias_ids u)" for k
      using l(2) that by (auto simp: Cons)
    then have "joined ps' (alias_pairs {u})" by (simp add: joined_def alias_pairs_def)
    then show ?thesis using l(1,3) by simp
  qed
  then show "classes ps' R" "joined ps' (alias_pairs {u})"
    "coarser ps ps'" by simp_all
qed

lemma links_classes:
  assumes "classes ps R" and "fold_err link ps us = Inr ps'" and "sym R" and "alias_pairs (set us) \<subseteq> R"
    and "R \<subseteq> alias_pairs all"
  shows "classes ps' R \<and> joined ps' (alias_pairs (set us))
    \<and> coarser ps ps'"
  using assms
proof (induction us arbitrary: ps)
  case (Cons u us)
  then obtain ps1 where l: "link ps u = Inr ps1" and rest: "fold_err link ps1 us = Inr ps'"
    by (auto split: sum.splits)
  have sub: "alias_pairs {u} \<subseteq> R" "alias_pairs (set us) \<subseteq> R"
    using Cons.prems(4) by (auto simp: alias_pairs_def)
  note one = link_classes [OF Cons.prems(1) l Cons.prems(3) sub(1) Cons.prems(5)]
  have ih: "classes ps' R" "joined ps' (alias_pairs (set us))"
    "coarser ps1 ps'"
    using Cons.IH [OF one(1) rest Cons.prems(3) sub(2) Cons.prems(5)] by simp_all
  have "alias_pairs (set (u # us)) = alias_pairs {u} \<union> alias_pairs (set us)"
    by (auto simp: alias_pairs_def)
  then have "joined ps' (alias_pairs (set (u # us)))"
    using ih(2) joined_coarser [OF one(2) ih(3)] by (simp add: joined_un)
  then show ?case using ih(1) coarser_trans [OF one(3) ih(3)] by simp
qed (simp add: joined_def alias_pairs_def coarser_refl)

definition conversation_usages :: "StepEvent list \<Rightarrow> GenEvent list \<Rightarrow> rawUsage list" where
  "conversation_usages steps gens =
     concat (map (\<lambda>e. event_usages (SUsage e) (SRetries e)) steps)
     @ concat (map (\<lambda>e. event_usages (GUsage e) (GRetries e)) gens)"

lemma link_all_classes:
  assumes "link_all steps gens = Inr ps"
  defines "R \<equiv> alias_pairs (set (conversation_usages steps gens))"
  shows "forest (parent ps)" and "rep (parent ps) i = rep (parent ps) j \<longleftrightarrow> (i, j) \<in> R\<^sup>*"
    and "response_alias k \<Longrightarrow> rep (parent ps) k = k"
proof -
  have "classes [] R" by (simp add: classes_def forest_empty rep_self parent_def lookup_parent_def)
  moreover have "fold_err link [] (conversation_usages steps gens) = Inr ps"
    using assms(1) by (simp add: link_all_def conversation_usages_def)
  moreover have "sym R" unfolding R_def by (rule sym_alias_pairs)
  ultimately have c: "classes ps R" and j: "joined ps R"
    using links_classes [of "[]" R "conversation_usages steps gens" ps "set (conversation_usages steps gens)"] by (simp_all add: R_def)
  from c show "response_alias k \<Longrightarrow> rep (parent ps) k = k" by (simp add: classes_def)
  from c show "forest (parent ps)" by (simp add: classes_def)
  have S: "sym (R\<^sup>*)" using \<open>sym R\<close> by (rule sym_rtrancl)
  have up: "(k, rep (parent ps) k) \<in> R\<^sup>*" for k using c by (simp add: classes_def)
  have "rep (parent ps) i = rep (parent ps) j" if "(i, j) \<in> R\<^sup>*"
    using that j by (induction rule: rtrancl_induct) (auto simp: joined_def)
  moreover have "(i, j) \<in> R\<^sup>*" if "rep (parent ps) i = rep (parent ps) j"
    using up [of i] up [of j] S that by (metis rtrancl_trans symD)
  ultimately show "rep (parent ps) i = rep (parent ps) j \<longleftrightarrow> (i, j) \<in> R\<^sup>*" by blast
qed

text \<open>Linking and inserting never run out of fuel.\<close>

lemma fold_err_snoc: "fold_err f s (xs @ [x]) = (case fold_err f s xs of Inl e \<Rightarrow> Inl e | Inr t \<Rightarrow> f t x)"
  by (induction xs arbitrary: s) (auto split: sum.splits)

lemma fold_err_invariant:
  assumes "P s" and "\<And>s x t. P s \<Longrightarrow> f s x = Inr t \<Longrightarrow> P t" and "\<And>s x. P s \<Longrightarrow> f s x \<noteq> Inl e"
  shows "fold_err f s xs \<noteq> Inl e \<and> (\<forall>t. fold_err f s xs = Inr t \<longrightarrow> P t)"
  using assms(1)
proof (induction xs arbitrary: s)
  case (Cons x xs)
  show ?case
  proof (cases "f s x")
    case (Inl d)
    then show ?thesis using assms(3) [OF Cons.prems, of x] by simp
  next
    case (Inr t)
    then show ?thesis using Cons.IH [OF assms(2) [OF Cons.prems Inr]] by simp
  qed
qed simp

lemma link_errors:
  assumes "forest (parent ps)" and "e \<noteq> AmbiguousAliases"
  shows "link ps u \<noteq> Inl e \<and> (\<forall>ps'. link ps u = Inr ps' \<longrightarrow> forest (parent ps'))"
proof (cases "alias_ids u")
  case (Cons i0 "is")
  have "fold_err (link_pair i0) ps is \<noteq> Inl e
    \<and> (\<forall>t. fold_err (link_pair i0) ps is = Inr t \<longrightarrow> forest (parent t))"
    by (rule fold_err_invariant [where P = "\<lambda>ps. forest (parent ps)"])
       (use assms link_pair_spec(1) link_pair_errors in blast)+
  then show ?thesis by (simp add: link_def Cons)
qed (simp add: link_def assms)

lemma link_all_errors: "link_all steps gens = Inl e \<Longrightarrow> e = AmbiguousAliases"
proof (rule ccontr)
  assume l: "link_all steps gens = Inl e" and e: "e \<noteq> AmbiguousAliases"
  have "link_all steps gens \<noteq> Inl e"
    unfolding link_all_def
    by (rule conjunct1, rule fold_err_invariant [where P = "\<lambda>ps. forest (parent ps)"])
       (use link_errors [OF _ e] forest_empty in blast)+
  then show False using l by simp
qed

section \<open>The records of a conversation\<close>

text \<open>
  The identity an event is counted under. The inserts then are a plain fold over the events that
  bear tokens, whatever path compression does to the structure meanwhile.
\<close>

definition generation_id :: "read_context \<Rightarrow> parents \<Rightarrow> usage_event \<Rightarrow> string" where
  "generation_id ctx ps e = (case event_identity ctx ps e of None \<Rightarrow> [] | Some (i, _) \<Rightarrow> i)"

definition bearing :: "usage_event list \<Rightarrow> usage_event list" where
  "bearing es = filter (\<lambda>e. isTokenBearing (ue_usage e)) es"

definition insert_all :: "read_context \<Rightarrow> parents \<Rightarrow> usage_event list \<Rightarrow> records" where
  "insert_all ctx ps es = foldl (\<lambda>rs e. put_record ctx (generation_id ctx ps e) e rs) [] es"

lemma insert_all_snoc:
  "insert_all ctx ps (es @ [e]) = put_record ctx (generation_id ctx ps e) e (insert_all ctx ps es)"
  by (simp add: insert_all_def)

lemma insert_all_empty [simp]: "insert_all ctx ps [] = []"
  by (simp add: insert_all_def)

lemma event_identity_returns:
  assumes "forest (parent ps)"
  obtains ps' where "event_identity ctx ps e = Some (if primaryIdentity (ue_usage e) = []
      then ''step:'' @ cid ctx @ '':'' @ int_string (ue_index e)
      else rep (parent ps) (primaryIdentity (ue_usage e)), ps')"
    "forest (parent ps')" "rep (parent ps') = rep (parent ps)"
proof (cases "primaryIdentity (ue_usage e) = []")
  case True
  then show thesis using that [of ps] assms by (simp add: event_identity_def)
next
  case False
  obtain ps' where "root ps (primaryIdentity (ue_usage e))
      = Some (rep (parent ps) (primaryIdentity (ue_usage e)), ps')"
    "forest (parent ps')" "rep (parent ps') = rep (parent ps)" using root_returns [OF assms] .
  then show thesis using that [of ps'] False by (simp add: event_identity_def)
qed

lemma generation_id_eq:
  "forest (parent ps) \<Longrightarrow> generation_id ctx ps e = (if primaryIdentity (ue_usage e) = []
      then ''step:'' @ cid ctx @ '':'' @ int_string (ue_index e)
      else rep (parent ps) (primaryIdentity (ue_usage e)))"
  by (rule event_identity_returns [of ps ctx e]) (simp_all add: generation_id_def)

lemma upsert_pair:
  "upsert ctx (ps, rs) e =
     (if \<not> isTokenBearing (ue_usage e) then Inr (ps, rs)
      else case event_identity ctx ps e of
             None \<Rightarrow> Inl RootFuel
           | Some (i, ps1) \<Rightarrow> Inr (ps1, put_record ctx i e rs))"
  by (simp add: upsert_def)

lemma upsert_fold:
  assumes "forest (parent ps)"
  shows "\<exists>ps'. fold_err (upsert ctx) (ps, []) es = Inr (ps', insert_all ctx ps (bearing es))
    \<and> forest (parent ps') \<and> rep (parent ps') = rep (parent ps)"
proof (induction es rule: rev_induct)
  case Nil
  then show ?case using assms by (simp add: bearing_def)
next
  case (snoc e es)
  then obtain ps1 where ih: "fold_err (upsert ctx) (ps, []) es = Inr (ps1, insert_all ctx ps (bearing es))"
    "forest (parent ps1)" "rep (parent ps1) = rep (parent ps)" by blast
  show ?case
  proof (cases "isTokenBearing (ue_usage e)")
    case False
    then show ?thesis using ih by (simp add: fold_err_snoc upsert_pair bearing_def)
  next
    case True
    obtain ps2 where i: "event_identity ctx ps1 e = Some (generation_id ctx ps e, ps2)"
      "forest (parent ps2)" "rep (parent ps2) = rep (parent ps1)"
      by (rule event_identity_returns [OF ih(2), of ctx e]) (simp add: generation_id_eq [OF assms] ih(3))
    have "bearing (es @ [e]) = bearing es @ [e]" using True by (simp add: bearing_def)
    then show ?thesis using True ih i
      by (simp add: fold_err_snoc upsert_pair insert_all_snoc)
  qed
qed

text \<open>One record for each identity, with the identity as its GenerationID.\<close>

lemma Normalize_fields [simp]:
  "GenerationID (Normalize u) = GenerationID u" "InputTokens (Normalize u) = InputTokens u"
  "CacheReadTokens (Normalize u) = CacheReadTokens u" "CacheCreationTokens (Normalize u) = CacheCreationTokens u"
  "VisibleOutputTokens (Normalize u) = VisibleOutputTokens u" "ReasoningTokens (Normalize u) = ReasoningTokens u"
  "TotalOutputTokens (Normalize u) = max (VisibleOutputTokens u + ReasoningTokens u) (TotalOutputTokens u)"
  by (auto simp: Normalize_def Let_def max_def)

lemma larger_max: "larger a b = max a b"
  by (auto simp: larger_def max_def)

lemmas field_of_if = if_distrib [of GenerationID] if_distrib [of InputTokens] if_distrib [of CacheReadTokens]
  if_distrib [of CacheCreationTokens] if_distrib [of VisibleOutputTokens] if_distrib [of ReasoningTokens]
  if_distrib [of TotalOutputTokens]

lemma merge_record_fields [simp]:
  "GenerationID (merge_record ctx e r) = GenerationID r"
  "InputTokens (merge_record ctx e r) = max (inputTokens (ue_usage e)) (InputTokens r)"
  "CacheReadTokens (merge_record ctx e r) = max (cacheReadTokens (ue_usage e)) (CacheReadTokens r)"
  "CacheCreationTokens (merge_record ctx e r) = max (cacheCreationTokens (ue_usage e)) (CacheCreationTokens r)"
  "VisibleOutputTokens (merge_record ctx e r) = max (visibleOutputTokens (ue_usage e)) (VisibleOutputTokens r)"
  "ReasoningTokens (merge_record ctx e r) = max (reasoningTokens (ue_usage e)) (ReasoningTokens r)"
  by (simp_all add: merge_record_def Let_def larger_max field_of_if cong: if_cong split del: if_split)

lemma merge_record_TotalOutput [simp]:
  "TotalOutputTokens (merge_record ctx e r)
     = max (max (visibleOutputTokens (ue_usage e)) (VisibleOutputTokens r)
            + max (reasoningTokens (ue_usage e)) (ReasoningTokens r))
         (max (totalOutputTokens (ue_usage e)) (TotalOutputTokens r))"
  by (simp add: merge_record_def Let_def larger_max field_of_if cong: if_cong split del: if_split)

lemma merge_record_total: "totalOutputTokens (ue_usage e) \<le> TotalOutputTokens (merge_record ctx e r)"
  and merge_record_total_old: "TotalOutputTokens r \<le> TotalOutputTokens (merge_record ctx e r)"
  by (simp_all add: le_max_iff_disj)

lemma new_record_fields [simp]:
  "GenerationID (new_record ctx i e) = i"
  "InputTokens (new_record ctx i e) = inputTokens (ue_usage e)"
  "CacheReadTokens (new_record ctx i e) = cacheReadTokens (ue_usage e)"
  "CacheCreationTokens (new_record ctx i e) = cacheCreationTokens (ue_usage e)"
  "VisibleOutputTokens (new_record ctx i e) = visibleOutputTokens (ue_usage e)"
  "ReasoningTokens (new_record ctx i e) = reasoningTokens (ue_usage e)"
  "TotalOutputTokens (new_record ctx i e)
     = max (visibleOutputTokens (ue_usage e) + reasoningTokens (ue_usage e)) (totalOutputTokens (ue_usage e))"
  by (simp_all add: new_record_def Let_def)

lemma fst_put_record:
  "map fst (put_record ctx i e rs) = (if i \<in> set (map fst rs) then map fst rs else map fst rs @ [i])"
  by (auto simp: put_record_def map_of_eq_None_iff comp_def split: option.splits dest: map_of_SomeD
      intro!: map_cong) (metis fst_conv image_eqI map_of_SomeD)

lemma insert_all_keys:
  "distinct (map fst (insert_all ctx ps es)) \<and> set (map fst (insert_all ctx ps es)) = generation_id ctx ps ` set es"
  by (induction es rule: rev_induct) (auto simp: insert_all_snoc fst_put_record simp del: set_map)

lemma set_put_record:
  assumes "distinct (map fst rs)" and "(j, r') \<in> set (put_record ctx i e rs)"
  shows "(j \<noteq> i \<and> (j, r') \<in> set rs)
    \<or> (j = i \<and> i \<notin> fst ` set rs \<and> r' = new_record ctx i e)
    \<or> (\<exists>r. j = i \<and> (i, r) \<in> set rs \<and> r' = merge_record ctx e r)"
proof (cases "map_of rs i")
  case None
  then have "i \<notin> fst ` set rs" by (simp add: map_of_eq_None_iff)
  then show ?thesis using assms(2) None by (auto simp: put_record_def intro: rev_image_eqI)
next
  case (Some r)
  then show ?thesis using assms(2) by (auto simp: put_record_def split: if_splits)
qed

text \<open>
  A counter that the first usage sets and every later one raises: its final value is the largest
  one reported under the identity, so no usage is counted twice.
\<close>

locale merged_counter =
  fixes f :: "rawUsage \<Rightarrow> 64 word" and F :: "UsageRecord \<Rightarrow> 64 word"
  assumes first: "F (new_record ctx i e) = f (ue_usage e)"
    and later: "F (merge_record ctx e r) = max (f (ue_usage e)) (F r)"
begin

definition reported :: "read_context \<Rightarrow> parents \<Rightarrow> usage_event list \<Rightarrow> string \<Rightarrow> 64 word set" where
  "reported ctx ps es i = (\<lambda>e. f (ue_usage e)) ` {e \<in> set es. generation_id ctx ps e = i}"

lemma finite_reported: "finite (reported ctx ps es i)"
  by (simp add: reported_def)

lemma reported_snoc:
  "reported ctx ps (es @ [e]) i
     = (if generation_id ctx ps e = i then insert (f (ue_usage e)) (reported ctx ps es i)
        else reported ctx ps es i)"
  by (auto simp: reported_def)

lemma reported_none: "i \<notin> generation_id ctx ps ` set es \<Longrightarrow> reported ctx ps es i = {}"
  by (auto simp: reported_def)

lemma counter_is_maximum:
  "(i, r) \<in> set (insert_all ctx ps es) \<Longrightarrow> reported ctx ps es i \<noteq> {} \<and> F r = Max (reported ctx ps es i)"
proof (induction es arbitrary: r rule: rev_induct)
  case (snoc e es)
  let ?i = "generation_id ctx ps e"
  note keys = insert_all_keys [of ctx ps es]
  from set_put_record [OF conjunct1 [OF keys] snoc.prems [unfolded insert_all_snoc]]
  consider (other) "i \<noteq> ?i" "(i, r) \<in> set (insert_all ctx ps es)"
    | (new) "i = ?i" "?i \<notin> fst ` set (insert_all ctx ps es)" "r = new_record ctx i e"
    | (old) r0 where "i = ?i" "(i, r0) \<in> set (insert_all ctx ps es)" "r = merge_record ctx e r0"
    by blast
  then show ?case
  proof cases
    case other
    then show ?thesis using snoc.IH by (simp add: reported_snoc)
  next
    case new
    then have "reported ctx ps es i = {}" using keys by (intro reported_none) simp
    then show ?thesis using new by (simp add: reported_snoc first)
  next
    case old
    then show ?thesis using snoc.IH [OF old(2)] finite_reported [of ctx ps es i]
      by (simp add: reported_snoc later)
  qed
qed simp

end

interpretation input_tokens: merged_counter inputTokens InputTokens
  by unfold_locales simp_all

interpretation cache_read_tokens: merged_counter cacheReadTokens CacheReadTokens
  by unfold_locales simp_all

interpretation cache_creation_tokens: merged_counter cacheCreationTokens CacheCreationTokens
  by unfold_locales simp_all

interpretation visible_tokens: merged_counter visibleOutputTokens VisibleOutputTokens
  by unfold_locales simp_all

interpretation reasoning_tokens: merged_counter reasoningTokens ReasoningTokens
  by unfold_locales simp_all

lemma insert_all_generation: "(i, r) \<in> set (insert_all ctx ps es) \<Longrightarrow> GenerationID r = i"
proof (induction es arbitrary: r rule: rev_induct)
  case (snoc e es)
  from set_put_record [OF conjunct1 [OF insert_all_keys] snoc.prems [unfolded insert_all_snoc]]
  show ?case using snoc.IH by auto
qed simp

text \<open>Every record bears tokens, so the final filter keeps them all.\<close>

lemma put_record_bearing:
  assumes "isTokenBearing (ue_usage e)"
  shows "IsTokenBearing (new_record ctx i e)" and "IsTokenBearing (merge_record ctx e r)"
  using assms by (simp_all only: isTokenBearing_def IsTokenBearing_def new_record_fields merge_record_fields merge_record_TotalOutput
      less_max_iff_disj) blast+

lemma insert_all_bearing:
  "list_all (\<lambda>e. isTokenBearing (ue_usage e)) es \<Longrightarrow> (i, r) \<in> set (insert_all ctx ps es) \<Longrightarrow> IsTokenBearing r"
proof (induction es arbitrary: r rule: rev_induct)
  case (snoc e es)
  from set_put_record [OF conjunct1 [OF insert_all_keys] snoc.prems(2) [unfolded insert_all_snoc]]
  show ?case using snoc.IH snoc.prems(1) put_record_bearing [of e] by auto
qed simp

definition conversation_events :: "StepEvent list \<Rightarrow> GenEvent list \<Rightarrow> usage_event list" where
  "conversation_events steps gens = concat (map step_events steps) @ concat (map gen_events gens)"

lemma dedup_records:
  assumes "link_all steps gens = Inr ps"
  shows "dedup_events ctx steps gens
    = Inr (map snd (insert_all ctx ps (bearing (conversation_events steps gens))))"
proof -
  have "list_all (\<lambda>e. isTokenBearing (ue_usage e)) (bearing (conversation_events steps gens))"
    by (simp add: bearing_def list_all_iff)
  note bear = insert_all_bearing [OF this]
  obtain ps' where "fold_err (upsert ctx) (ps, []) (conversation_events steps gens)
      = Inr (ps', insert_all ctx ps (bearing (conversation_events steps gens)))"
    using upsert_fold [OF link_all_classes(1) [OF assms]] by blast
  moreover have "filter IsTokenBearing (map snd (insert_all ctx ps (bearing (conversation_events steps gens))))
      = map snd (insert_all ctx ps (bearing (conversation_events steps gens)))"
    by (rule filter_True) (use bear in auto)
  ultimately show ?thesis using assms by (simp add: dedup_events_def conversation_events_def)
qed

lemma dedup_error: "link_all steps gens = Inl e \<Longrightarrow> dedup_events ctx steps gens = Inl e"
  by (simp add: dedup_events_def)

section \<open>Properties\<close>

text \<open>C24: Two usages with an identity of their own are counted under one record exactly when a chain
  of usages, each sharing a response, provider or message id with the next, leads from one to the
  other: the union-find structure computes that equivalence.\<close>

theorem generations_are_alias_classes:
  assumes "link_all steps gens = Inr ps"
    and "primaryIdentity (ue_usage d) \<noteq> []" and "primaryIdentity (ue_usage e) \<noteq> []"
  shows "generation_id ctx ps d = generation_id ctx ps e \<longleftrightarrow>
    (primaryIdentity (ue_usage d), primaryIdentity (ue_usage e))
      \<in> (alias_pairs (set (conversation_usages steps gens)))\<^sup>*"
  using link_all_classes(1) [OF assms(1)] link_all_classes(2) [OF assms(1)] assms(2,3)
  by (simp add: generation_id_eq)

text \<open>Usages with different response ids are never merged: the record of a usage with a response
  id is the one of that response.\<close>

theorem responses_kept_apart:
  assumes "link_all steps gens = Inr ps" and "responseID (ue_usage e) \<noteq> []"
  shows "generation_id ctx ps e = ''response:'' @ bytes_string (responseID (ue_usage e))"
  using link_all_classes(1,3) [OF assms(1)] assms(2)
  by (simp add: generation_id_eq primaryIdentity_def response_alias_def has_prefix_def)

text \<open>C25: Deduplication returns on every conversation: with the records, or with the error for a
  shared alias of two generations; following the parents of an identity always ends.\<close>

theorem dedup_returns:
  "(\<exists>rs. dedup_events ctx steps gens = Inr rs) \<or> dedup_events ctx steps gens = Inl AmbiguousAliases"
proof (cases "link_all steps gens")
  case (Inl e)
  have "e = AmbiguousAliases" by (rule link_all_errors [OF Inl])
  then show ?thesis using dedup_error [OF Inl] by simp
next
  case (Inr ps)
  then show ?thesis by (simp add: dedup_records)
qed

text \<open>The records of a conversation have distinct generation ids, and they are the ids of its
  token-bearing usages: no generation is lost and none is listed twice.\<close>

theorem one_record_per_generation:
  assumes "link_all steps gens = Inr ps" and "dedup_events ctx steps gens = Inr rs"
  shows "distinct (map GenerationID rs) \<and> set (map GenerationID rs)
    = generation_id ctx ps ` {e \<in> set (conversation_events steps gens). isTokenBearing (ue_usage e)}"
proof -
  let ?all = "insert_all ctx ps (bearing (conversation_events steps gens))"
  have rs: "rs = map snd ?all" using assms by (simp add: dedup_records)
  have "map GenerationID rs = map fst ?all" using insert_all_generation [of _ _ ctx ps] by (auto simp: rs)
  then show ?thesis using insert_all_keys [of ctx ps "bearing (conversation_events steps gens)"]
    by (auto simp: bearing_def)
qed

text \<open>
  A step that reports a message first without and then, on a retry, with its response id, and the
  generation table repeating the response.
\<close>

definition sample_steps :: "StepEvent list" where
  "sample_steps =
     [\<lparr>StepIndex = 4, STimestamp = None, SModelName = [], SModelID = 312, SProvider = 0,
       SUsage = Some (zero_usage\<lparr>messageID := [49], inputTokens := 5, reasoningTokens := 2\<rparr>),
       SRetries = [zero_usage\<lparr>messageID := [49], responseID := [50], inputTokens := 7\<rparr>]\<rparr>]"

definition sample_gens :: "GenEvent list" where
  "sample_gens =
     [\<lparr>GenIndex = 1, GTimestamp = None, GModelName = [], GModelID = 0,
       GUsage = Some (zero_usage\<lparr>responseID := [50], inputTokens := 7\<rparr>), GRetries = []\<rparr>]"

definition sample_context :: read_context where
  "sample_context = \<lparr>cid = ''c'', baseTimestamp = None, workspaceURI = [], projectID = ''p''\<rparr>"

definition sample_events :: "usage_event list" where
  "sample_events =
     [\<lparr>ue_usage = zero_usage\<lparr>messageID := [49], inputTokens := 5, reasoningTokens := 2\<rparr>, ue_index = 4,
       ue_time = None, ue_model = [], ue_modelID = 312, ue_provider = 0\<rparr>,
      \<lparr>ue_usage = zero_usage\<lparr>messageID := [49], responseID := [50], inputTokens := 7\<rparr>, ue_index = 4,
       ue_time = None, ue_model = [], ue_modelID = 312, ue_provider = 0\<rparr>,
      \<lparr>ue_usage = zero_usage\<lparr>responseID := [50], inputTokens := 7\<rparr>, ue_index = 1,
       ue_time = None, ue_model = [], ue_modelID = 0, ue_provider = 0\<rparr>]"

definition sample_parents :: parents where
  "sample_parents = [(''message:1'', ''response:2''), (''response:2'', ''response:2'')]"

lemma sample_link: "link_all sample_steps sample_gens = Inr sample_parents"
  by code_simp

lemma sample_events_eq: "conversation_events sample_steps sample_gens = sample_events"
  by (simp add: conversation_events_def sample_steps_def sample_gens_def sample_events_def step_events_def
      gen_events_def event_usages_def bytes_string_def)

lemma sample_bears: "bearing sample_events = sample_events"
  by (simp add: bearing_def sample_events_def isTokenBearing_def zero_usage_def)

lemma sample_primary: "map (\<lambda>e. primaryIdentity (ue_usage e)) sample_events = [''message:1'', ''response:2'', ''response:2'']"
  by (simp add: sample_events_def primaryIdentity_def zero_usage_def bytes_string_def go_simps)

lemma sample_alias:
  "(''message:1'', ''response:2'') \<in> alias_pairs (set (conversation_usages sample_steps sample_gens))"
proof -
  have "\<exists>u \<in> set (conversation_usages sample_steps sample_gens).
      ''message:1'' \<in> set (alias_ids u) \<and> ''response:2'' \<in> set (alias_ids u)" by code_simp
  then show ?thesis by (simp add: alias_pairs_def)
qed

lemma sample_generations: "e \<in> set sample_events \<Longrightarrow> generation_id sample_context sample_parents e = ''response:2''"
proof -
  assume e: "e \<in> set sample_events"
  have "primaryIdentity (ue_usage e) \<in> set (map (\<lambda>e. primaryIdentity (ue_usage e)) sample_events)"
    using e by simp
  then have p: "primaryIdentity (ue_usage e) = ''message:1'' \<or> primaryIdentity (ue_usage e) = ''response:2''"
    unfolding sample_primary by simp
  have r: "rep (parent sample_parents) ''response:2'' = ''response:2''"
    by (rule link_all_classes(3) [OF sample_link]) (simp add: response_alias_def has_prefix_def)
  moreover have "rep (parent sample_parents) ''message:1'' = rep (parent sample_parents) ''response:2''"
    using link_all_classes(2) [OF sample_link] sample_alias by blast
  ultimately show ?thesis using p by (auto simp: generation_id_eq [OF link_all_classes(1) [OF sample_link]])
qed

lemma sample_generation_set: "generation_id sample_context sample_parents ` set sample_events = {''response:2''}"
proof -
  have "generation_id sample_context sample_parents ` set sample_events = (\<lambda>e. ''response:2'') ` set sample_events"
    by (rule image_cong) (simp_all add: sample_generations)
  then show ?thesis by (simp add: image_constant_conv sample_events_def)
qed

definition sample_records :: "UsageRecord list" where
  "sample_records = (case dedup_events sample_context sample_steps sample_gens of Inl _ \<Rightarrow> [] | Inr rs \<Rightarrow> rs)"

lemma sample_dedup: "dedup_events sample_context sample_steps sample_gens = Inr sample_records"
  by (simp add: sample_records_def dedup_records [OF sample_link])

lemma sample_record: "\<exists>r. sample_records = [r] \<and> GenerationID r = ''response:2''"
proof -
  let ?all = "insert_all sample_context sample_parents sample_events"
  have r: "sample_records = map snd ?all"
    by (simp add: sample_records_def dedup_records [OF sample_link] sample_events_eq sample_bears sample_parents_def)
  have k: "distinct (map fst ?all)" "set (map fst ?all) = {''response:2''}"
    using insert_all_keys [of sample_context sample_parents sample_events] sample_generation_set by auto
  have "length (map fst ?all) = 1" using distinct_card [OF k(1)] k(2) by simp
  then obtain x where x: "?all = [x]" by (auto simp: length_Suc_conv)
  then have "(''response:2'', snd x) \<in> set ?all" using k(2) by (cases x) simp
  then have "GenerationID (snd x) = ''response:2''" by (rule insert_all_generation)
  then show ?thesis using r x by (intro exI [of _ "snd x"]) simp
qed

theorem generations_are_alias_classes_witness:
  "generation_id sample_context sample_parents (sample_events ! 0)
   = generation_id sample_context sample_parents (sample_events ! 2)"
proof -
  have p: "primaryIdentity (ue_usage (sample_events ! 0)) = ''message:1''"
    "primaryIdentity (ue_usage (sample_events ! 2)) = ''response:2''"
    using sample_primary by (simp_all add: sample_events_def)
  show ?thesis
    using sample_alias generations_are_alias_classes [OF sample_link, where d = "sample_events ! 0"
        and e = "sample_events ! 2" and ctx = sample_context] by (simp add: p r_into_rtrancl)
qed

theorem responses_kept_apart_witness:
  "generation_id sample_context sample_parents (sample_events ! 2) = ''response:'' @ bytes_string [50]"
proof -
  have r: "responseID (ue_usage (sample_events ! 2)) = [50]" by (simp add: sample_events_def)
  show ?thesis using responses_kept_apart [OF sample_link, of "sample_events ! 2" sample_context]
    by (simp add: r)
qed

theorem one_record_per_generation_witness:
  "set (map GenerationID sample_records) = {''response:2''}"
proof -
  have "{e \<in> set (conversation_events sample_steps sample_gens). isTokenBearing (ue_usage e)} = set (bearing sample_events)"
    by (simp add: sample_events_eq bearing_def)
  then show ?thesis using one_record_per_generation [OF sample_link sample_dedup] sample_generation_set
    by (simp add: sample_bears)
qed


text \<open>A model name that is only a parenthesised decoration normalises to the empty name, which is
  neither the default model nor stable under a second normalisation.\<close>

theorem decoration_only_model_is_empty:
  "NormalizeModel ''(x)'' = [] \<and> NormalizeModel (NormalizeModel ''(x)'') = DefaultModel"
  by (simp add: NormalizeModel_def trim_space_def leading_space_def space_seqs_def before_paren_def lower_char_def
      model_aliases_def go_simps)

end
