(* ===== verification/Tables.thy ===== *)
theory Tables
  imports Prelude
begin

text \<open>
  A SQLite table with a primary key, as the two databases of the program use it (internal/storage/db.go
  and internal/tokei/ledger.go): an association list in the order of the rowids.
\<close>

text \<open>INSERT ... ON CONFLICT DO UPDATE, and DELETE, by primary key.\<close>

fun put_row :: "'k \<Rightarrow> 'v \<Rightarrow> ('k \<times> 'v) list \<Rightarrow> ('k \<times> 'v) list" where
  "put_row k v [] = [(k, v)]"
| "put_row k v (r # rs) = (if fst r = k then (k, v) # rs else r # put_row k v rs)"

definition delete_row :: "'k \<Rightarrow> ('k \<times> 'v) list \<Rightarrow> ('k \<times> 'v) list" where
  "delete_row k rs = filter (\<lambda>r. fst r \<noteq> k) rs"

section \<open>Tables as maps\<close>

lemma map_of_put_row [simp]: "map_of (put_row k v rs) = (map_of rs)(k \<mapsto> v)"
  by (induction rs) (auto simp: fun_eq_iff)

lemma map_of_delete_row [simp]: "map_of (delete_row k rs) = (map_of rs)(k := None)"
  by (induction rs) (auto simp: delete_row_def fun_eq_iff)

lemma fst_put_row: "fst ` set (put_row k v rs) = insert k (fst ` set rs)"
  by (induction rs) auto

lemma distinct_put_row [simp]: "distinct (map fst rs) \<Longrightarrow> distinct (map fst (put_row k v rs))"
  by (induction rs) (auto simp: fst_put_row)

lemma distinct_delete_row [simp]: "distinct (map fst rs) \<Longrightarrow> distinct (map fst (delete_row k rs))"
  unfolding delete_row_def by (rule distinct_map_filter)

text \<open>The interface of such a table, and what a batch of upserts leaves behind.\<close>

locale keyed_table =
  fixes lookup :: "'t \<Rightarrow> 'k \<Rightarrow> 'v option" and put :: "'k \<Rightarrow> 'v \<Rightarrow> 't \<Rightarrow> 't" and del :: "'k \<Rightarrow> 't \<Rightarrow> 't"
  assumes lookup_put: "lookup (put k v t) = (lookup t)(k \<mapsto> v)"
    and lookup_del: "lookup (del k t) = (lookup t)(k := None)"
begin

definition put_all :: "('k \<times> 'v) list \<Rightarrow> 't \<Rightarrow> 't" where
  "put_all kvs t = foldl (\<lambda>t kv. put (fst kv) (snd kv) t) t kvs"

lemma lookup_put_all: "lookup (put_all kvs t) = lookup t ++ map_of (rev kvs)"
  by (induction kvs arbitrary: t) (simp_all add: put_all_def lookup_put map_add_upd_left)

lemma lookup_put_all_distinct:
  "distinct (map fst kvs) \<Longrightarrow> lookup (put_all kvs t) k = (case map_of kvs k of None \<Rightarrow> lookup t k | Some v \<Rightarrow> Some v)"
proof -
  assume d: "distinct (map fst kvs)"
  have "map_of (rev kvs) = map_of kvs" by (rule map_of_inject_set [THEN iffD2]) (use d in \<open>simp_all add: rev_map [symmetric]\<close>)
  then show ?thesis by (simp add: lookup_put_all map_add_def)
qed

lemma del_put: "lookup (del k (put k v t)) = lookup (del k t)"
  by (simp add: lookup_del lookup_put)

end

interpretation rows: keyed_table map_of put_row delete_row
  by unfold_locales simp_all

end
