(* ===== verification/State_DB.thy ===== *)
theory State_DB
  imports Pool_Store Tables
begin

text \<open>
  The tables of internal/storage/db.go and the two functions between them and the pool document,
  SavePoolToTx and LoadPoolFromTx. The accounts table is a list in the order of its rowids, the
  others are association lists by primary key. A statement that fails aborts the transaction, which
  is the failure argument of PoolTransaction. encoding/json is an argument: what Marshal and Unmarshal
  give for a dynamic value and for a map of raw messages, and fmt.Sprint for what Marshal refuses.
  SQLite stores a NaN as NULL.
\<close>

section \<open>Rows and tables\<close>

record json_codec =
  marshal_any :: "any \<Rightarrow> string option"
  sprint_any :: "any \<Rightarrow> string"
  unmarshal_any :: "string \<Rightarrow> any option"
  marshal_map :: "raw_map \<Rightarrow> string option"
  unmarshal_map :: "string \<Rightarrow> raw_map option"

record account_row =
  ar_id :: string
  ar_name :: string
  ar_email :: string
  ar_access_token :: string
  ar_refresh_token :: string
  ar_id_token :: string
  ar_token_expiry :: "float64 option"
  ar_created_at :: "int option"
  ar_updated_at :: "int option"
  ar_extra :: "string option"

record runtime_row =
  rr_request_count :: int
  rr_gen_count :: "int option"
  rr_error_count :: int
  rr_last_used_at :: "int option"
  rr_status :: string
  rr_validation_url :: "string option"
  rr_rate_limited_until :: "float64 option"

record quota_row =
  qr_gemini_5h :: "float64 option \<times> string option"
  qr_gemini_weekly :: "float64 option \<times> string option"
  qr_third_party_5h :: "float64 option \<times> string option"
  qr_third_party_weekly :: "float64 option \<times> string option"
  qr_remaining_fraction :: "float64 option"
  qr_reset_time :: "string option"
  qr_updated_at :: "int option"
  qr_raw_extra :: "string option"

record state_db =
  runtime_global :: "(string \<times> string option) list"
  accounts :: "account_row list"
  account_runtime :: "(string \<times> runtime_row) list"
  account_quota :: "(string \<times> quota_row) list"

fun upsert_account :: "account_row \<Rightarrow> account_row list \<Rightarrow> account_row list" where
  "upsert_account a [] = [a]"
| "upsert_account a (r # rs) = (if ar_id r = ar_id a then a # rs else r # upsert_account a rs)"

text \<open>Deleting an account cascades to its other rows.\<close>

definition delete_account :: "string \<Rightarrow> state_db \<Rightarrow> state_db" where
  "delete_account i db =
     db\<lparr>accounts := filter (\<lambda>r. ar_id r \<noteq> i) (accounts db),
        account_runtime := delete_row i (account_runtime db),
        account_quota := delete_row i (account_quota db)\<rparr>"

definition sql_real :: "float64 option \<Rightarrow> float64 option" where
  "sql_real f = (if f = Some NaN then None else f)"

section \<open>Saving\<close>

definition serializeAny :: "json_codec \<Rightarrow> any \<Rightarrow> string option" where
  "serializeAny j v =
     (if v = ANil then None
      else case marshal_any j v of Some s \<Rightarrow> Some s | None \<Rightarrow> Some (sprint_any j v))"

definition extra_text :: "json_codec \<Rightarrow> raw_map \<Rightarrow> string option" where
  "extra_text j m = (if m = [] then None else marshal_map j m)"

definition save_globals :: "json_codec \<Rightarrow> Pool \<Rightarrow> (string \<times> string option) list \<Rightarrow> (string \<times> string option) list" where
  "save_globals j pool g0 =
     (let strat = (if Strategy pool = [] then ''max_quota'' else Strategy pool);
          g1 = put_row ''strategy'' (Some strat) g0;
          g2 = (case ActiveAccountID pool of
                  Some i \<Rightarrow> if i \<noteq> [] then put_row ''active_account_id'' (Some i) g1 else delete_row ''active_account_id'' g1
                | None \<Rightarrow> delete_row ''active_account_id'' g1);
          g3 = (case RoundRobinLastAccountID pool of
                  Some i \<Rightarrow> if i \<noteq> [] then put_row ''round_robin_last_account_id'' (Some i) g2
                           else delete_row ''round_robin_last_account_id'' g2
                | None \<Rightarrow> delete_row ''round_robin_last_account_id'' g2)
      in if PExtra pool \<noteq> [] then
           (case marshal_map j (PExtra pool) of Some b \<Rightarrow> put_row ''pool_extra'' (Some b) g3 | None \<Rightarrow> g3)
         else delete_row ''pool_extra'' g3)"

definition save_window :: "json_codec \<Rightarrow> QuotaWindow option \<Rightarrow> float64 option \<times> string option" where
  "save_window j w =
     (case w of None \<Rightarrow> (None, None) | Some q \<Rightarrow> (sql_real (Fraction q), serializeAny j (ResetTime q)))"

definition save_quota :: "json_codec \<Rightarrow> QuotaState \<Rightarrow> quota_row" where
  "save_quota j q =
     \<lparr>qr_gemini_5h = save_window j (Gemini5H q), qr_gemini_weekly = save_window j (GeminiWeekly q),
      qr_third_party_5h = save_window j (ThirdParty5H q), qr_third_party_weekly = save_window j (ThirdPartyWeekly q),
      qr_remaining_fraction = sql_real (RemainingFraction q), qr_reset_time = serializeAny j (QResetTime q),
      qr_updated_at = QUpdatedAt q, qr_raw_extra = extra_text j (QExtra q)\<rparr>"

definition save_account :: "json_codec \<Rightarrow> Account \<Rightarrow> account_row" where
  "save_account j a =
     \<lparr>ar_id = ID a, ar_name = Name a, ar_email = Email a, ar_access_token = AccessToken a,
      ar_refresh_token = RefreshToken a, ar_id_token = IDToken a, ar_token_expiry = sql_real (TokenExpiry a),
      ar_created_at = CreatedAt a, ar_updated_at = UpdatedAt a, ar_extra = extra_text j (AExtra a)\<rparr>"

definition save_runtime :: "Account \<Rightarrow> runtime_row" where
  "save_runtime a =
     \<lparr>rr_request_count = RequestCount a, rr_gen_count = GenCount a, rr_error_count = ErrorCount a,
      rr_last_used_at = LastUsedAt a, rr_status = Status a, rr_validation_url = ValidationURL a,
      rr_rate_limited_until = sql_real (RateLimitedUntil a)\<rparr>"

definition save_one :: "json_codec \<Rightarrow> Account \<Rightarrow> state_db \<Rightarrow> state_db" where
  "save_one j a db =
     (if ID a = [] then db
      else db\<lparr>accounts := upsert_account (save_account j a) (accounts db),
              account_runtime := put_row (ID a) (save_runtime a) (account_runtime db),
              account_quota :=
                (case LastQuota a of
                   Some q \<Rightarrow> put_row (ID a) (save_quota j q) (account_quota db)
                 | None \<Rightarrow> delete_row (ID a) (account_quota db))\<rparr>)"

definition removed_ids :: "Pool \<Rightarrow> state_db \<Rightarrow> string list" where
  "removed_ids pool db = filter (\<lambda>i. i \<notin> set (map ID (Accounts pool)) \<or> i = []) (map ar_id (accounts db))"

definition SavePoolToTx :: "json_codec \<Rightarrow> Pool \<Rightarrow> state_db \<Rightarrow> state_db" where
  "SavePoolToTx j pool db =
     foldl (\<lambda>d a. save_one j a d)
       (foldl (\<lambda>d i. delete_account i d)
          (db\<lparr>runtime_global := save_globals j pool (runtime_global db)\<rparr>) (removed_ids pool db))
       (Accounts pool)"

section \<open>Loading\<close>

definition deserializeAny :: "json_codec \<Rightarrow> string option \<Rightarrow> any" where
  "deserializeAny j s =
     (case s of None \<Rightarrow> ANil
      | Some t \<Rightarrow> if t = [] then ANil else (case unmarshal_any j t of Some v \<Rightarrow> v | None \<Rightarrow> AStr t))"

definition load_extra :: "json_codec \<Rightarrow> string option \<Rightarrow> raw_map" where
  "load_extra j s =
     (case s of None \<Rightarrow> []
      | Some t \<Rightarrow> if t = [] then [] else (case unmarshal_map j t of Some m \<Rightarrow> m | None \<Rightarrow> []))"

definition load_window :: "json_codec \<Rightarrow> float64 option \<times> string option \<Rightarrow> QuotaWindow option" where
  "load_window j c =
     (if fst c = None \<and> snd c = None then None
      else Some \<lparr>Fraction = fst c, ResetTime = deserializeAny j (snd c), WExtra = []\<rparr>)"

definition has_quota :: "quota_row \<Rightarrow> bool" where
  "has_quota r \<longleftrightarrow> fst (qr_gemini_5h r) \<noteq> None \<or> fst (qr_gemini_weekly r) \<noteq> None
     \<or> qr_remaining_fraction r \<noteq> None \<or> qr_updated_at r \<noteq> None"

definition load_quota :: "json_codec \<Rightarrow> quota_row option \<Rightarrow> QuotaState option" where
  "load_quota j r =
     (case r of None \<Rightarrow> None
      | Some q \<Rightarrow>
          if has_quota q then
            Some \<lparr>Gemini5H = load_window j (qr_gemini_5h q), GeminiWeekly = load_window j (qr_gemini_weekly q),
              ThirdParty5H = load_window j (qr_third_party_5h q), ThirdPartyWeekly = load_window j (qr_third_party_weekly q),
              RemainingFraction = qr_remaining_fraction q, QResetTime = deserializeAny j (qr_reset_time q),
              QUpdatedAt = qr_updated_at q, QExtra = load_extra j (qr_raw_extra q)\<rparr>
          else None)"

text \<open>One row of the LEFT JOIN: without a runtime row its columns are NULL.\<close>

definition no_runtime :: runtime_row where
  "no_runtime = \<lparr>rr_request_count = 0, rr_gen_count = None, rr_error_count = 0, rr_last_used_at = None,
     rr_status = [], rr_validation_url = None, rr_rate_limited_until = None\<rparr>"

definition load_account :: "json_codec \<Rightarrow> state_db \<Rightarrow> account_row \<Rightarrow> Account" where
  "load_account j db r =
     (let t = (case map_of (account_runtime db) (ar_id r) of Some x \<Rightarrow> x | None \<Rightarrow> no_runtime)
      in zero_account\<lparr>ID := ar_id r, Name := ar_name r, Email := ar_email r, AccessToken := ar_access_token r,
           RefreshToken := ar_refresh_token r, IDToken := ar_id_token r, TokenExpiry := ar_token_expiry r,
           CreatedAt := ar_created_at r, UpdatedAt := ar_updated_at r, Status := rr_status t,
           ValidationURL := (if rr_validation_url t = Some [] then None else rr_validation_url t),
           RateLimitedUntil := rr_rate_limited_until t, RequestCount := rr_request_count t,
           GenCount := rr_gen_count t, ErrorCount := rr_error_count t, LastUsedAt := rr_last_used_at t,
           AExtra := load_extra j (ar_extra r),
           LastQuota := load_quota j (map_of (account_quota db) (ar_id r))\<rparr>)"

definition load_global :: "json_codec \<Rightarrow> Pool \<Rightarrow> string \<times> string option \<Rightarrow> Pool" where
  "load_global j p kv =
     (case kv of (k, v) \<Rightarrow>
        (case v of None \<Rightarrow> p
         | Some s \<Rightarrow>
             if s = [] then p
             else if k = ''strategy'' then p\<lparr>Strategy := s\<rparr>
             else if k = ''active_account_id'' then p\<lparr>ActiveAccountID := Some s\<rparr>
             else if k = ''round_robin_last_account_id'' then p\<lparr>RoundRobinLastAccountID := Some s\<rparr>
             else if k = ''pool_extra'' then
               (case unmarshal_map j s of Some m \<Rightarrow> p\<lparr>PExtra := m\<rparr> | None \<Rightarrow> p)
             else p))"

definition LoadPoolFromTx :: "json_codec \<Rightarrow> state_db \<Rightarrow> Pool" where
  "LoadPoolFromTx j db =
     (foldl (load_global j) NewEmptyPool (runtime_global db))\<lparr>Accounts := map (load_account j db) (accounts db)\<rparr>"

section \<open>What the tables keep of a pool\<close>

text \<open>
  The specification: the document that a later load gives back. Fields without a column are reset, a
  NaN is dropped, values of dynamic type pass through JSON, and a quota state without any of four
  columns is dropped as a whole.
\<close>

definition stored_any :: "json_codec \<Rightarrow> any \<Rightarrow> any" where
  "stored_any j v = deserializeAny j (serializeAny j v)"

definition stored_map :: "json_codec \<Rightarrow> raw_map \<Rightarrow> raw_map" where
  "stored_map j m = load_extra j (extra_text j m)"

definition persisted_window :: "json_codec \<Rightarrow> QuotaWindow option \<Rightarrow> QuotaWindow option" where
  "persisted_window j w =
     (case w of None \<Rightarrow> None
      | Some q \<Rightarrow>
          if sql_real (Fraction q) = None \<and> ResetTime q = ANil then None
          else Some \<lparr>Fraction = sql_real (Fraction q), ResetTime = stored_any j (ResetTime q), WExtra = []\<rparr>)"

definition window_known :: "QuotaWindow option \<Rightarrow> bool" where
  "window_known w = (case w of None \<Rightarrow> False | Some q \<Rightarrow> sql_real (Fraction q) \<noteq> None)"

definition persisted_quota :: "json_codec \<Rightarrow> QuotaState \<Rightarrow> QuotaState option" where
  "persisted_quota j q =
     (if window_known (Gemini5H q) \<or> window_known (GeminiWeekly q)
         \<or> sql_real (RemainingFraction q) \<noteq> None \<or> QUpdatedAt q \<noteq> None
      then Some \<lparr>Gemini5H = persisted_window j (Gemini5H q), GeminiWeekly = persisted_window j (GeminiWeekly q),
        ThirdParty5H = persisted_window j (ThirdParty5H q), ThirdPartyWeekly = persisted_window j (ThirdPartyWeekly q),
        RemainingFraction = sql_real (RemainingFraction q), QResetTime = stored_any j (QResetTime q),
        QUpdatedAt = QUpdatedAt q, QExtra = stored_map j (QExtra q)\<rparr>
      else None)"

definition persisted_account :: "json_codec \<Rightarrow> Account \<Rightarrow> Account" where
  "persisted_account j a =
     a\<lparr>TokenExpiry := sql_real (TokenExpiry a), ValidationURL := (if ValidationURL a = Some [] then None else ValidationURL a),
       RateLimitedUntil := sql_real (RateLimitedUntil a),
       LastQuota := (case LastQuota a of None \<Rightarrow> None | Some q \<Rightarrow> persisted_quota j q),
       Quota := None, Gemini5HPct := None, GeminiWeeklyPct := None, Gemini5HReset := ANil, GeminiWeeklyReset := ANil,
       Gemini5HResetSec := None, GeminiWeeklyResetSec := None, AExtra := stored_map j (AExtra a)\<rparr>"

definition persisted_pool :: "json_codec \<Rightarrow> Pool \<Rightarrow> Pool" where
  "persisted_pool j p =
     \<lparr>Version = 1, Strategy = (if Strategy p = [] then ''max_quota'' else Strategy p),
      ActiveAccountID = (if ActiveAccountID p = Some [] then None else ActiveAccountID p),
      RoundRobinLastAccountID = (if RoundRobinLastAccountID p = Some [] then None else RoundRobinLastAccountID p),
      Accounts = map (persisted_account j) (Accounts p), PExtra = stored_map j (PExtra p)\<rparr>"

section \<open>Saving and loading\<close>

lemma load_save_window: "load_window j (save_window j w) = persisted_window j w"
  by (auto simp: load_window_def save_window_def persisted_window_def stored_any_def serializeAny_def split: option.splits)

lemma fst_save_window: "(fst (save_window j w) = None) = (\<not> window_known w)"
  by (auto simp: save_window_def window_known_def split: option.splits)

lemma has_save_quota: "has_quota (save_quota j q) \<longleftrightarrow> window_known (Gemini5H q) \<or> window_known (GeminiWeekly q)
    \<or> sql_real (RemainingFraction q) \<noteq> None \<or> QUpdatedAt q \<noteq> None"
  by (simp add: has_quota_def save_quota_def fst_save_window del: not_None_eq)

lemma load_save_quota: "load_quota j (map_option (save_quota j) q) = (case q of None \<Rightarrow> None | Some s \<Rightarrow> persisted_quota j s)"
proof (cases q)
  case (Some s)
  show ?thesis
    by (simp add: Some load_quota_def has_save_quota persisted_quota_def del: not_None_eq)
       (simp add: save_quota_def load_save_window stored_any_def stored_map_def)
qed (simp add: load_quota_def)

lemma load_save_account:
  assumes "map_of (account_runtime db) (ID a) = Some (save_runtime a)"
    and "map_of (account_quota db) (ID a) = map_option (save_quota j) (LastQuota a)"
  shows "load_account j db (save_account j a) = persisted_account j a"
  using assms by (simp add: load_account_def save_account_def save_runtime_def persisted_account_def zero_account_def
      load_save_quota stored_map_def)

text \<open>The loop over runtime_global: each field of the pool is read from its own key.\<close>

lemma load_global_fields:
  "Version (foldl (load_global j) p g) = Version p" "Accounts (foldl (load_global j) p g) = Accounts p"
  by (induction g arbitrary: p) (auto simp: load_global_def split: option.splits prod.splits)

definition nonempty :: "string option \<Rightarrow> string option" where
  "nonempty v = (if v = Some [] then None else v)"

definition nonempty_value :: "(string \<times> string option) list \<Rightarrow> string \<Rightarrow> string option" where
  "nonempty_value g k = (case map_of g k of None \<Rightarrow> None | Some v \<Rightarrow> nonempty v)"

lemma load_field:
  assumes "\<And>p k v. F (load_global j p (k, v)) = (case nonempty v of Some s \<Rightarrow> if k = key then G s (F p) else F p | None \<Rightarrow> F p)"
    and "distinct (map fst g)"
  shows "F (foldl (load_global j) p g) = (case nonempty_value g key of None \<Rightarrow> F p | Some s \<Rightarrow> G s (F p))"
  using assms(2)
proof (induction g arbitrary: p)
  case (Cons kv g)
  obtain k v where kv: "kv = (k, v)" by (cases kv)
  have step: "F (foldl (load_global j) p (kv # g))
      = (case nonempty_value g key of None \<Rightarrow> F (load_global j p (k, v)) | Some s \<Rightarrow> G s (F (load_global j p (k, v))))"
    using Cons by (simp add: kv)
  show ?case
  proof (cases "k = key")
    case True
    then have "map_of g key = None" using Cons.prems by (simp add: kv map_of_eq_None_iff)
    then have "nonempty_value g key = None" by (simp add: nonempty_value_def)
    moreover have "nonempty_value (kv # g) key = nonempty v" using True by (simp add: kv nonempty_value_def)
    ultimately show ?thesis using step True by (simp add: assms(1) split: option.splits)
  next
    case False
    then have n: "nonempty_value (kv # g) key = nonempty_value g key" by (simp add: kv nonempty_value_def)
    have e: "F (load_global j p (k, v)) = F p" using False by (simp add: assms(1) split: option.splits)
    show ?thesis unfolding step n e ..
  qed
qed (simp add: nonempty_value_def)

lemma load_global_split:
  "load_global j p (k, v) = (case nonempty v of None \<Rightarrow> p
     | Some s \<Rightarrow>
         if k = ''strategy'' then p\<lparr>Strategy := s\<rparr>
         else if k = ''active_account_id'' then p\<lparr>ActiveAccountID := Some s\<rparr>
         else if k = ''round_robin_last_account_id'' then p\<lparr>RoundRobinLastAccountID := Some s\<rparr>
         else if k = ''pool_extra'' then (case unmarshal_map j s of Some m \<Rightarrow> p\<lparr>PExtra := m\<rparr> | None \<Rightarrow> p)
         else p)"
  by (simp add: load_global_def nonempty_def split: option.splits)

lemma load_strategy:
  "distinct (map fst g) \<Longrightarrow> Strategy (foldl (load_global j) p g)
     = (case nonempty_value g ''strategy'' of None \<Rightarrow> Strategy p | Some s \<Rightarrow> s)"
  by (rule load_field [where G = "\<lambda>s _. s"]) (simp_all add: load_global_split split: option.splits)

lemma load_active:
  "distinct (map fst g) \<Longrightarrow> ActiveAccountID (foldl (load_global j) p g)
     = (case nonempty_value g ''active_account_id'' of None \<Rightarrow> ActiveAccountID p | Some s \<Rightarrow> Some s)"
  by (rule load_field [where G = "\<lambda>s _. Some s"]) (simp_all add: load_global_split split: option.splits)

lemma load_cursor:
  "distinct (map fst g) \<Longrightarrow> RoundRobinLastAccountID (foldl (load_global j) p g)
     = (case nonempty_value g ''round_robin_last_account_id'' of None \<Rightarrow> RoundRobinLastAccountID p | Some s \<Rightarrow> Some s)"
  by (rule load_field [where G = "\<lambda>s _. Some s"]) (simp_all add: load_global_split split: option.splits)

lemma load_pool_extra:
  "distinct (map fst g) \<Longrightarrow> PExtra (foldl (load_global j) p g)
     = (case nonempty_value g ''pool_extra'' of None \<Rightarrow> PExtra p
        | Some s \<Rightarrow> (case unmarshal_map j s of Some m \<Rightarrow> m | None \<Rightarrow> PExtra p))"
  by (rule load_field [where G = "\<lambda>s e. case unmarshal_map j s of Some m \<Rightarrow> m | None \<Rightarrow> e"])
     (simp_all add: load_global_split split: option.splits)

text \<open>The accounts table: the rows of kept accounts stay in place, new ones come last.\<close>

definition db_wf :: "state_db \<Rightarrow> bool" where
  "db_wf db \<longleftrightarrow> distinct (map fst (runtime_global db)) \<and> distinct (map ar_id (accounts db))"

definition keeps_order :: "string list \<Rightarrow> string list \<Rightarrow> bool" where
  "keeps_order old new \<longleftrightarrow> (\<exists>added. new = filter (\<lambda>i. i \<in> set new) old @ added)"

lemma upsert_account_at:
  "ar_id a \<notin> ar_id ` set ds \<Longrightarrow> ar_id r = ar_id a \<Longrightarrow> upsert_account a (ds @ r # rs) = ds @ a # rs"
  by (induction ds) auto

lemma upsert_account_new: "ar_id a \<notin> ar_id ` set ds \<Longrightarrow> upsert_account a ds = ds @ [a]"
  by (induction ds) auto

lemma upsert_present:
  "distinct (map ar_id (ds @ rs)) \<Longrightarrow> map ar_id rs = map ar_id xs \<Longrightarrow>
     foldl (\<lambda>t a. upsert_account a t) (ds @ rs) xs = ds @ xs"
proof (induction xs arbitrary: ds rs)
  case (Cons x xs)
  then obtain r rs' where rs: "rs = r # rs'" "ar_id r = ar_id x" "map ar_id rs' = map ar_id xs" by auto
  have "upsert_account x (ds @ rs) = (ds @ [x]) @ rs'"
    using Cons.prems(1) rs by (simp add: upsert_account_at)
  moreover have "distinct (map ar_id ((ds @ [x]) @ rs'))" using Cons.prems(1) rs by simp
  ultimately show ?case using Cons.IH [of "ds @ [x]" rs'] rs(3) by simp
qed simp

lemma upsert_added:
  "distinct (map ar_id (ds @ xs)) \<Longrightarrow> foldl (\<lambda>t a. upsert_account a t) ds xs = ds @ xs"
proof (induction xs arbitrary: ds)
  case (Cons x xs)
  then have "upsert_account x ds = ds @ [x]" by (intro upsert_account_new) auto
  then show ?case using Cons by simp
qed simp

lemma upsert_all:
  assumes "distinct (map ar_id rs)" and "distinct (map ar_id xs)" and "map ar_id xs = map ar_id rs @ added"
  shows "foldl (\<lambda>t a. upsert_account a t) rs xs = xs"
proof -
  let ?n = "length rs"
  have x: "xs = take ?n xs @ drop ?n xs" by simp
  have "take ?n (map ar_id xs) = map ar_id rs" using assms(3) by simp
  then have t: "map ar_id rs = map ar_id (take ?n xs)" by (simp add: take_map)
  have "foldl (\<lambda>t a. upsert_account a t) rs (take ?n xs) = take ?n xs"
    using upsert_present [of "[]" rs "take ?n xs"] assms(1) t by simp
  moreover have "foldl (\<lambda>t a. upsert_account a t) (take ?n xs) (drop ?n xs) = take ?n xs @ drop ?n xs"
    using assms(2) x by (intro upsert_added) simp
  ultimately have "foldl (\<lambda>t a. upsert_account a t) rs (take ?n xs @ drop ?n xs) = take ?n xs @ drop ?n xs"
    by (simp only: foldl_append)
  then show ?thesis by (simp only: append_take_drop_id)
qed

definition removals :: "string list \<Rightarrow> state_db \<Rightarrow> state_db" where
  "removals is db = foldl (\<lambda>d i. delete_account i d) db is"

lemma removals_accounts: "accounts (removals is db) = filter (\<lambda>r. ar_id r \<notin> set is) (accounts db)"
  by (induction "is" arbitrary: db) (auto simp: removals_def delete_account_def intro: filter_cong)

lemma removals_globals: "runtime_global (removals is db) = runtime_global db"
  by (induction "is" arbitrary: db) (simp_all add: removals_def delete_account_def)

definition saves :: "json_codec \<Rightarrow> Account list \<Rightarrow> state_db \<Rightarrow> state_db" where
  "saves j as db = foldl (\<lambda>d a. save_one j a d) db as"

lemma SavePoolToTx_eq:
  "SavePoolToTx j p db = saves j (Accounts p)
     (removals (removed_ids p db) (db\<lparr>runtime_global := save_globals j p (runtime_global db)\<rparr>))"
  by (simp add: SavePoolToTx_def saves_def removals_def)

lemma saves_snoc: "saves j (as @ [a]) db = save_one j a (saves j as db)"
  by (simp add: saves_def)

lemma saves_globals: "runtime_global (saves j as db) = runtime_global db"
  by (induction as rule: rev_induct) (simp_all add: saves_snoc save_one_def, simp add: saves_def)

lemma saves_accounts:
  "[] \<notin> ID ` set as \<Longrightarrow>
     accounts (saves j as db) = foldl (\<lambda>t a. upsert_account a t) (accounts db) (map (save_account j) as)"
proof (induction as rule: rev_induct)
  case (snoc a as)
  then show ?case by (auto simp: saves_snoc save_one_def)
qed (simp add: saves_def)

lemma saves_lookup:
  assumes "distinct (map ID as)" and "[] \<notin> ID ` set as" and "a \<in> set as"
  shows "map_of (account_runtime (saves j as db)) (ID a) = Some (save_runtime a)
    \<and> map_of (account_quota (saves j as db)) (ID a) = map_option (save_quota j) (LastQuota a)"
  using assms
proof (induction as rule: rev_induct)
  case (snoc b bs)
  have ne: "ID b \<noteq> []" using snoc.prems(2) by auto
  show ?case
  proof (cases "a = b")
    case True
    then show ?thesis using ne by (simp add: saves_snoc save_one_def split: option.splits)
  next
    case False
    then have "a \<in> set bs" using snoc.prems(3) by simp
    moreover have "ID a \<noteq> ID b" using snoc.prems(1) \<open>a \<in> set bs\<close> by (metis distinct.simps(2) distinct1_rotate
          image_eqI list.set_map map_append list.simps(8,9) rotate1.simps(2) set_map)
    ultimately show ?thesis using snoc ne by (simp add: saves_snoc save_one_def split: option.splits)
  qed
qed simp

lemma saved_accounts:
  assumes "db_wf db" and "distinct (ids p)" and "[] \<notin> set (ids p)"
    and "keeps_order (map ar_id (accounts db)) (ids p)"
  shows "accounts (SavePoolToTx j p db) = map (save_account j) (Accounts p)"
proof -
  let ?rs = "filter (\<lambda>r. ar_id r \<in> set (ids p)) (accounts db)"
  have base: "accounts (removals (removed_ids p db) (db\<lparr>runtime_global := g\<rparr>)) = ?rs" for g
    using assms(3) by (auto simp: removals_accounts removed_ids_def ids_def intro!: filter_cong)
  obtain added where added: "ids p = filter (\<lambda>i. i \<in> set (ids p)) (map ar_id (accounts db)) @ added"
    using assms(4) by (auto simp: keeps_order_def)
  have ids: "map ar_id (map (save_account j) (Accounts p)) = ids p"
    by (simp add: ids_def save_account_def comp_def)
  have kept: "map ar_id ?rs = filter (\<lambda>i. i \<in> set (ids p)) (map ar_id (accounts db))"
    by (simp add: filter_map comp_def)
  have "foldl (\<lambda>t a. upsert_account a t) ?rs (map (save_account j) (Accounts p)) = map (save_account j) (Accounts p)"
  proof (rule upsert_all [where added = added])
    show "distinct (map ar_id ?rs)" using assms(1) by (simp add: db_wf_def distinct_map_filter)
    show "distinct (map ar_id (map (save_account j) (Accounts p)))" using assms(2) by (simp only: ids)
    show "map ar_id (map (save_account j) (Accounts p)) = map ar_id ?rs @ added" using added by (simp only: ids kept)
  qed
  moreover have "[] \<notin> ID ` set (Accounts p)" using assms(3) by (simp add: ids_def)
  ultimately show ?thesis by (simp add: SavePoolToTx_eq saves_accounts base)
qed

lemma nonempty_value_put [simp]: "nonempty_value (put_row k v g) i = (if i = k then nonempty v else nonempty_value g i)"
  by (simp add: nonempty_value_def)

lemma nonempty_value_delete [simp]: "nonempty_value (delete_row k g) i = (if i = k then None else nonempty_value g i)"
  by (simp add: nonempty_value_def)

definition put_nonempty :: "string \<Rightarrow> string option \<Rightarrow> (string \<times> string option) list \<Rightarrow> (string \<times> string option) list" where
  "put_nonempty k v g = (case nonempty v of Some s \<Rightarrow> put_row k (Some s) g | None \<Rightarrow> delete_row k g)"

lemma nonempty_idem [simp]: "nonempty (nonempty v) = nonempty v" "nonempty None = None"
  by (simp_all add: nonempty_def)

lemma put_nonempty_value [simp]:
  "nonempty_value (put_nonempty k v g) i = (if i = k then nonempty v else nonempty_value g i)"
  by (simp add: put_nonempty_def nonempty_def split: option.splits)

lemma distinct_put_nonempty [simp]: "distinct (map fst g) \<Longrightarrow> distinct (map fst (put_nonempty k v g))"
  by (simp add: put_nonempty_def split: option.splits)

lemma save_globals_eq:
  "save_globals j p g0 =
     (let g3 = put_nonempty ''round_robin_last_account_id'' (RoundRobinLastAccountID p)
                 (put_nonempty ''active_account_id'' (ActiveAccountID p)
                   (put_row ''strategy'' (Some (if Strategy p = [] then ''max_quota'' else Strategy p)) g0))
      in if PExtra p \<noteq> [] then
           (case marshal_map j (PExtra p) of Some b \<Rightarrow> put_row ''pool_extra'' (Some b) g3 | None \<Rightarrow> g3)
         else delete_row ''pool_extra'' g3)"
  by (simp add: save_globals_def put_nonempty_def nonempty_def Let_def split: option.splits)

lemma saved_globals:
  assumes "db_wf db"
  shows "distinct (map fst (save_globals j p (runtime_global db)))"
    and "nonempty_value (save_globals j p (runtime_global db)) ''strategy''
      = Some (if Strategy p = [] then ''max_quota'' else Strategy p)"
    and "nonempty_value (save_globals j p (runtime_global db)) ''active_account_id'' = nonempty (ActiveAccountID p)"
    and "nonempty_value (save_globals j p (runtime_global db)) ''round_robin_last_account_id''
      = nonempty (RoundRobinLastAccountID p)"
    and "PExtra p = [] \<or> marshal_map j (PExtra p) \<noteq> None \<Longrightarrow>
      nonempty_value (save_globals j p (runtime_global db)) ''pool_extra'' = nonempty (extra_text j (PExtra p))"
proof -
  show "distinct (map fst (save_globals j p (runtime_global db)))" using assms
    by (simp add: save_globals_eq db_wf_def Let_def split: option.splits)
  show "nonempty_value (save_globals j p (runtime_global db)) ''strategy''
      = Some (if Strategy p = [] then ''max_quota'' else Strategy p)"
    "nonempty_value (save_globals j p (runtime_global db)) ''active_account_id'' = nonempty (ActiveAccountID p)"
    "nonempty_value (save_globals j p (runtime_global db)) ''round_robin_last_account_id''
      = nonempty (RoundRobinLastAccountID p)"
    by (simp_all add: save_globals_eq Let_def nonempty_def [of "Some _"] split: option.splits)
  show "nonempty_value (save_globals j p (runtime_global db)) ''pool_extra'' = nonempty (extra_text j (PExtra p))"
    if "PExtra p = [] \<or> marshal_map j (PExtra p) \<noteq> None"
    using that by (auto simp: save_globals_eq Let_def extra_text_def split: option.splits)
qed

lemma load_save:
  assumes "db_wf db" and "distinct (ids p)" and "[] \<notin> set (ids p)"
    and "keeps_order (map ar_id (accounts db)) (ids p)"
    and "PExtra p = [] \<or> marshal_map j (PExtra p) \<noteq> None"
  shows "LoadPoolFromTx j (SavePoolToTx j p db) = persisted_pool j p"
proof -
  let ?db = "SavePoolToTx j p db"
  have g: "runtime_global ?db = save_globals j p (runtime_global db)"
    by (simp add: SavePoolToTx_eq saves_globals removals_globals)
  note sg = saved_globals [OF assms(1), where j = j and p = p]
  have "load_account j ?db (save_account j a) = persisted_account j a" if "a \<in> set (Accounts p)" for a
    using saves_lookup [of "Accounts p" a] assms(2,3) that
    by (intro load_save_account) (simp_all add: ids_def SavePoolToTx_eq)
  then have acc: "map (load_account j ?db) (accounts ?db) = map (persisted_account j) (Accounts p)"
    using saved_accounts [OF assms(1-4), of j] by simp
  have ex: "PExtra (LoadPoolFromTx j ?db) = stored_map j (PExtra p)"
    by (simp add: LoadPoolFromTx_def g load_pool_extra [OF sg(1)] sg(5) [OF assms(5)] stored_map_def load_extra_def
        nonempty_def NewEmptyPool_def split: option.splits)
  show ?thesis
    by (rule Pool.equality)
       (use acc ex in \<open>simp_all add: LoadPoolFromTx_def persisted_pool_def g load_global_fields load_strategy [OF sg(1)]
          load_active [OF sg(1)] load_cursor [OF sg(1)] sg(2-4) nonempty_def NewEmptyPool_def split: option.splits\<close>)
qed

lemma db_wf_save: "db_wf db \<Longrightarrow> distinct (ids p) \<Longrightarrow> [] \<notin> set (ids p) \<Longrightarrow>
    keeps_order (map ar_id (accounts db)) (ids p) \<Longrightarrow> db_wf (SavePoolToTx j p db)"
  using saved_accounts [of db p j] saved_globals(1) [where j = j and p = p]
  by (simp add: db_wf_def SavePoolToTx_eq saves_globals removals_globals ids_def save_account_def comp_def)

text \<open>A newly created database, with the rows its schema initialisation inserts.\<close>

definition fresh_db :: state_db where
  "fresh_db = \<lparr>runtime_global = [(''strategy'', Some ''max_quota'')], accounts = [], account_runtime = [],
     account_quota = []\<rparr>"

lemma db_wf_fresh: "db_wf fresh_db"
  by (simp add: db_wf_def fresh_db_def)

lemma load_fresh: "LoadPoolFromTx j fresh_db = NewEmptyPool"
  by (simp add: LoadPoolFromTx_def fresh_db_def load_global_def NewEmptyPool_def)

lemma ids_load: "ids (LoadPoolFromTx j db) = map ar_id (accounts db)"
  by (simp add: ids_def LoadPoolFromTx_def load_account_def Let_def comp_def)

lemma ids_persisted: "ids (persisted_pool j p) = ids p"
  by (simp add: ids_def persisted_pool_def persisted_account_def comp_def)

lemma stored_map_empty [simp]: "stored_map j [] = []"
  by (simp add: stored_map_def extra_text_def load_extra_def)

lemma persisted_extra: "PExtra (persisted_pool j p) = stored_map j (PExtra p)"
  by (simp add: persisted_pool_def)

lemma persisted_active: "ActiveAccountID (persisted_pool j p) = nonempty (ActiveAccountID p)"
  by (simp add: persisted_pool_def nonempty_def)

lemma pool_wf_persisted: "pool_wf p \<Longrightarrow> pool_wf (persisted_pool j p)"
  by (auto simp: pool_wf_def ids_persisted persisted_active nonempty_def split: option.splits)

lemma keeps_order_same: "keeps_order xs xs"
  by (simp add: keeps_order_def)

lemma keeps_order_filter: "keeps_order xs (filter P xs)"
proof -
  have "filter (\<lambda>i. i \<in> set (filter P xs)) xs = filter P xs" by (rule filter_cong) auto
  then show ?thesis unfolding keeps_order_def by (intro exI [of _ "[]"]) simp
qed

lemma keeps_order_append: "keeps_order xs (xs @ ys)"
proof -
  have "filter (\<lambda>i. i \<in> set (xs @ ys)) xs = xs" by (rule filter_True) simp
  then show ?thesis unfolding keeps_order_def by (intro exI [of _ ys]) simp
qed

section \<open>Properties\<close>

text \<open>What the columns can hold without loss.\<close>

definition clean_window :: "json_codec \<Rightarrow> QuotaWindow option \<Rightarrow> bool" where
  "clean_window j w =
     (case w of None \<Rightarrow> True
      | Some q \<Rightarrow> WExtra q = [] \<and> Fraction q \<noteq> Some NaN \<and> (Fraction q \<noteq> None \<or> ResetTime q \<noteq> ANil)
                 \<and> stored_any j (ResetTime q) = ResetTime q)"

definition clean_quota :: "json_codec \<Rightarrow> QuotaState \<Rightarrow> bool" where
  "clean_quota j q \<longleftrightarrow> clean_window j (Gemini5H q) \<and> clean_window j (GeminiWeekly q)
     \<and> clean_window j (ThirdParty5H q) \<and> clean_window j (ThirdPartyWeekly q)
     \<and> RemainingFraction q \<noteq> Some NaN \<and> stored_any j (QResetTime q) = QResetTime q
     \<and> stored_map j (QExtra q) = QExtra q
     \<and> (window_known (Gemini5H q) \<or> window_known (GeminiWeekly q) \<or> RemainingFraction q \<noteq> None \<or> QUpdatedAt q \<noteq> None)"

definition clean_account :: "json_codec \<Rightarrow> Account \<Rightarrow> bool" where
  "clean_account j a \<longleftrightarrow> TokenExpiry a \<noteq> Some NaN \<and> ValidationURL a \<noteq> Some [] \<and> RateLimitedUntil a \<noteq> Some NaN
     \<and> Quota a = None \<and> Gemini5HPct a = None \<and> GeminiWeeklyPct a = None \<and> Gemini5HReset a = ANil
     \<and> GeminiWeeklyReset a = ANil \<and> Gemini5HResetSec a = None \<and> GeminiWeeklyResetSec a = None
     \<and> stored_map j (AExtra a) = AExtra a
     \<and> (case LastQuota a of None \<Rightarrow> True | Some q \<Rightarrow> clean_quota j q)"

definition clean_pool :: "json_codec \<Rightarrow> Pool \<Rightarrow> bool" where
  "clean_pool j p \<longleftrightarrow> Version p = 1 \<and> Strategy p \<noteq> [] \<and> ActiveAccountID p \<noteq> Some [] \<and> RoundRobinLastAccountID p \<noteq> Some []
     \<and> list_all (clean_account j) (Accounts p)
     \<and> (PExtra p = [] \<or> marshal_map j (PExtra p) \<noteq> None) \<and> stored_map j (PExtra p) = PExtra p"

lemma clean_windowD: "clean_window j w \<Longrightarrow> persisted_window j w = w"
  by (cases w) (auto simp: clean_window_def persisted_window_def sql_real_def)

lemma clean_quotaD: "clean_quota j q \<Longrightarrow> persisted_quota j q = Some q"
  by (simp add: clean_quota_def persisted_quota_def clean_windowD sql_real_def)

lemma clean_accountD: "clean_account j a \<Longrightarrow> persisted_account j a = a"
  by (rule Account.equality)
     (auto simp: clean_account_def persisted_account_def sql_real_def clean_quotaD split: option.splits)

lemma clean_poolD: "clean_pool j p \<Longrightarrow> persisted_pool j p = p"
  by (rule Pool.equality)
     (auto simp: clean_pool_def persisted_pool_def list_all_iff clean_accountD intro!: map_idI)

text \<open>C26: What is saved is what is loaded: for a pool with distinct non-empty ids whose values the
  columns can hold, saving it over any database state whose accounts it keeps in order and loading
  gives the same document back, whatever else the tables held before.\<close>

theorem save_load_roundtrip:
  assumes "db_wf db" and "distinct (ids p)" and "[] \<notin> set (ids p)"
    and "keeps_order (map ar_id (accounts db)) (ids p)" and "clean_pool j p"
  shows "LoadPoolFromTx j (SavePoolToTx j p db) = p"
  using load_save [OF assms(1-4)] assms(5) clean_poolD [OF assms(5)] by (simp add: clean_pool_def)

definition text_codec :: json_codec where
  "text_codec = \<lparr>marshal_any = (\<lambda>v. case v of AStr s \<Rightarrow> Some (CHR ''s'' # s) | _ \<Rightarrow> None), sprint_any = (\<lambda>v. ''?''),
     unmarshal_any = (\<lambda>s. case s of c # t \<Rightarrow> (if c = CHR ''s'' then Some (AStr t) else None) | [] \<Rightarrow> None),
     marshal_map = (\<lambda>m. None), unmarshal_map = (\<lambda>s. None)\<rparr>"

definition stored_account :: Account where
  "stored_account = zero_account\<lparr>ID := ''acc_2'', Email := ''b@x'',
     LastQuota := Some (zero_quota\<lparr>Gemini5H := Some \<lparr>Fraction = Some (Fin 1), ResetTime = AStr ''noon'', WExtra = []\<rparr>\<rparr>)\<rparr>"

definition old_db :: state_db where
  "old_db = SavePoolToTx text_codec
     (NewEmptyPool\<lparr>Accounts := [zero_account\<lparr>ID := ''acc_1''\<rparr>, zero_account\<lparr>ID := ''acc_2''\<rparr>]\<rparr>) fresh_db"

theorem save_load_roundtrip_witness:
  "LoadPoolFromTx text_codec (SavePoolToTx text_codec (NewEmptyPool\<lparr>Accounts := [stored_account]\<rparr>) old_db)
   = NewEmptyPool\<lparr>Accounts := [stored_account]\<rparr>"
proof -
  let ?two = "NewEmptyPool\<lparr>Accounts := [zero_account\<lparr>ID := ''acc_1''\<rparr>, zero_account\<lparr>ID := ''acc_2''\<rparr>]\<rparr>"
  have two: "distinct (ids ?two)" "[] \<notin> set (ids ?two)" "keeps_order (map ar_id (accounts fresh_db)) (ids ?two)"
    using keeps_order_append [of "[]" "ids ?two"] by (simp_all add: ids_def fresh_db_def)
  have wf: "db_wf old_db" unfolding old_db_def by (rule db_wf_save [OF db_wf_fresh two])
  have "accounts old_db = map (save_account text_codec) (Accounts ?two)"
    unfolding old_db_def by (rule saved_accounts [OF db_wf_fresh two])
  then have "map ar_id (accounts old_db) = [''acc_1'', ''acc_2'']" by (simp add: save_account_def)
  moreover have "keeps_order [''acc_1'', ''acc_2''] [''acc_2'']"
    using keeps_order_filter [of "[''acc_1'', ''acc_2'']" "\<lambda>i. i = ''acc_2''"] by simp
  moreover have "clean_pool text_codec (NewEmptyPool\<lparr>Accounts := [stored_account]\<rparr>)"
    by (simp add: clean_pool_def clean_account_def clean_quota_def clean_window_def window_known_def sql_real_def
        stored_account_def zero_account_def zero_quota_def NewEmptyPool_def stored_any_def serializeAny_def
        deserializeAny_def text_codec_def)
  ultimately show ?thesis
    by (intro save_load_roundtrip [OF wf]) (simp_all add: ids_def stored_account_def)
qed

end
