(* ===== verification/Ledger.thy ===== *)
theory Ledger
  imports Usage Tables
begin

text \<open>
  The usage ledger: internal/tokei/ledger.go, the ingestion loop of service.go, and ReadCatalog of
  reader.go. Each SQL table is a list of rows in the order of their rowids; a transaction either
  commits or leaves the ledger as it was, and a statement that fails for a reason outside the model
  (a full disk, a busy database) is a Boolean of the environment. database/sql refuses a uint64 with
  its high bit set, so the integers of a row are below 2^63, and the sums of a report are those of
  SQLite's SUM, which fails on overflow. Stored times keep their instant.
\<close>

section \<open>Rows\<close>

definition ParserVersion :: string where "ParserVersion = ''1.1.0''"

record SourceManifest =
  MConversationID :: string
  SourcePath :: string
  SourceSize :: int
  SourceMtimeNs :: int
  SourceFingerprint :: string
  SourceSHA256 :: "string option"
  HighestStepIndex :: int
  HighestGenIndex :: int
  GenerationCount :: int
  FirstUsageTimestamp :: "go_time option"
  LastUsageTimestamp :: "go_time option"
  MParserVersion :: string
  IngestedAt :: go_time
  IsComplete :: bool
  MStatus :: string
  MErrorMessage :: string
  LastScanAt :: "go_time option"
  LastScanStatus :: string
  LastScanError :: string

record ConversationMeta =
  MetaTitle :: string
  MetaWorkspaceURI :: string
  MetaWorkspaceURIs :: string
  MetaProjectID :: string
  MetaAgentName :: string
  MetaLastModified :: go_time
  MetaStepCount :: int
  MetaUpdatedAt :: go_time

record CatalogSyncState =
  CatalogPath :: string
  CatalogSize :: int
  CatalogMtimeNs :: int
  ConversationCount :: int
  SyncedAt :: go_time

record usage_row =
  usage :: UsageRecord
  row_created_at :: go_time

record ledger =
  usage_records :: "usage_row list"
  ingest_manifests :: "(string \<times> SourceManifest) list"
  conversation_metadata :: "(string \<times> ConversationMeta) list"
  catalog_sync_state :: "CatalogSyncState option"

definition empty_ledger :: ledger where
  "empty_ledger = \<lparr>usage_records = [], ingest_manifests = [], conversation_metadata = [], catalog_sync_state = None\<rparr>"

datatype ledger_error = ForeignRecord string | HighBitSet string | DuplicateGeneration string | SumOverflow | SqlFailure

section \<open>Committing a conversation\<close>

text \<open>time.Time.Before and IsZero on the instants; the zero time is the start of year 1.\<close>

definition instant :: "go_time \<Rightarrow> int \<times> int" where
  "instant t = (case t of None \<Rightarrow> (- 62135596800, 0) | Some p \<Rightarrow> p)"

definition time_less :: "go_time \<Rightarrow> go_time \<Rightarrow> bool" where
  "time_less a b \<longleftrightarrow> fst (instant a) < fst (instant b)
     \<or> fst (instant a) = fst (instant b) \<and> snd (instant a) < snd (instant b)"

definition is_zero_time :: "go_time \<Rightarrow> bool" where
  "is_zero_time t \<longleftrightarrow> instant t = (- 62135596800, 0)"

definition stored_words :: "UsageRecord \<Rightarrow> 64 word list" where
  "stored_words r =
     [ProviderID r, InputTokens r, CacheReadTokens r, CacheCreationTokens r, VisibleOutputTokens r,
      ReasoningTokens r, TotalOutputTokens r, TotalTokens r]"

definition insert_usage :: "go_time \<Rightarrow> UsageRecord \<Rightarrow> usage_row list \<Rightarrow> ledger_error + usage_row list" where
  "insert_usage now r rows =
     (if \<exists>w \<in> set (stored_words r). 2 ^ 63 \<le> uint w then Inl (HighBitSet (GenerationID r))
      else if GenerationID r \<in> set (map (\<lambda>x. GenerationID (usage x)) rows) then Inl (DuplicateGeneration (GenerationID r))
      else Inr (rows @ [\<lparr>usage = r, row_created_at = now\<rparr>]))"

type_synonym commit_state = "usage_row list \<times> go_time option \<times> go_time option"

definition commit_record :: "string \<Rightarrow> go_time \<Rightarrow> commit_state \<Rightarrow> UsageRecord \<Rightarrow> ledger_error + commit_state" where
  "commit_record conv now s r0 =
     (case s of (rows, firstTS, lastTS) \<Rightarrow>
        if ConversationID r0 \<noteq> conv then Inl (ForeignRecord conv)
        else let r = Normalize r0
             in if \<not> IsTokenBearing r then Inr s
                else let first1 = (case firstTS of None \<Rightarrow> Some (UTimestamp r)
                                   | Some t \<Rightarrow> if time_less (UTimestamp r) t then Some (UTimestamp r) else firstTS);
                         last1 = (case lastTS of None \<Rightarrow> Some (UTimestamp r)
                                  | Some t \<Rightarrow> if time_less t (UTimestamp r) then Some (UTimestamp r) else lastTS)
                     in case insert_usage now r rows of
                          Inl e \<Rightarrow> Inl e
                        | Inr rows1 \<Rightarrow> Inr (rows1, first1, last1))"

text \<open>The upsert keeps the larger indices and an earlier digest.\<close>

definition upsert_manifest :: "SourceManifest \<Rightarrow> (string \<times> SourceManifest) list \<Rightarrow> (string \<times> SourceManifest) list" where
  "upsert_manifest m ms =
     put_row (MConversationID m)
       (case map_of ms (MConversationID m) of
          None \<Rightarrow> m
        | Some old \<Rightarrow>
            m\<lparr>HighestStepIndex := max (HighestStepIndex old) (HighestStepIndex m),
              HighestGenIndex := max (HighestGenIndex old) (HighestGenIndex m),
              SourceSHA256 := (case SourceSHA256 m of None \<Rightarrow> SourceSHA256 old | Some s \<Rightarrow> Some s)\<rparr>) ms"

definition finish_manifest :: "go_time \<Rightarrow> nat \<Rightarrow> go_time option \<Rightarrow> go_time option \<Rightarrow> SourceManifest \<Rightarrow> SourceManifest" where
  "finish_manifest now n firstTS lastTS m =
     (let m1 = m\<lparr>FirstUsageTimestamp := firstTS, LastUsageTimestamp := lastTS, GenerationCount := int n,
                 IngestedAt := now, MParserVersion := ParserVersion\<rparr>;
          m2 = (if LastScanStatus m1 = [] then m1\<lparr>LastScanStatus := MStatus m1\<rparr> else m1);
          m3 = (case LastScanAt m2 of
                  None \<Rightarrow> m2\<lparr>LastScanAt := Some now\<rparr>
                | Some t \<Rightarrow> if is_zero_time t then m2\<lparr>LastScanAt := Some now\<rparr> else m2);
          m4 = m3\<lparr>LastScanError := MErrorMessage m3\<rparr>
      in if SourceSHA256 m4 = Some [] then m4\<lparr>SourceSHA256 := None\<rparr> else m4)"

definition CommitIngest :: "bool \<Rightarrow> go_time \<Rightarrow> SourceManifest \<Rightarrow> UsageRecord list \<Rightarrow> ledger \<Rightarrow> ledger_error + ledger" where
  "CommitIngest fault now m records l =
     (let conv = MConversationID m;
          kept = filter (\<lambda>x. ConversationID (usage x) \<noteq> conv) (usage_records l)
      in case fold_err (commit_record conv now) (kept, None, None) records of
           Inl e \<Rightarrow> Inl e
         | Inr (rows, firstTS, lastTS) \<Rightarrow>
             if fault then Inl SqlFailure
             else Inr (l\<lparr>usage_records := rows,
                         ingest_manifests :=
                           upsert_manifest (finish_manifest now (length records) firstTS lastTS m) (ingest_manifests l)\<rparr>))"

text \<open>A failed scan leaves the last good state and only marks the manifest.\<close>

definition failed_manifest :: "go_time \<Rightarrow> string \<Rightarrow> string \<Rightarrow> string \<Rightarrow> SourceManifest" where
  "failed_manifest now conv path msg =
     \<lparr>MConversationID = conv, SourcePath = path, SourceSize = 0, SourceMtimeNs = 0, SourceFingerprint = [],
      SourceSHA256 = None, HighestStepIndex = 0, HighestGenIndex = 0, GenerationCount = 0,
      FirstUsageTimestamp = None, LastUsageTimestamp = None, MParserVersion = ParserVersion, IngestedAt = now,
      IsComplete = False, MStatus = ''failed'', MErrorMessage = msg, LastScanAt = Some now,
      LastScanStatus = ''failed'', LastScanError = msg\<rparr>"

definition RecordScanFailure :: "bool \<Rightarrow> go_time \<Rightarrow> string \<Rightarrow> string \<Rightarrow> string \<Rightarrow> ledger \<Rightarrow> ledger_error + ledger" where
  "RecordScanFailure fault now conv path msg l =
     (if fault then Inl SqlFailure
      else Inr (l\<lparr>ingest_manifests :=
        put_row conv
          (case map_of (ingest_manifests l) conv of
             None \<Rightarrow> failed_manifest now conv path msg
           | Some m \<Rightarrow> m\<lparr>LastScanAt := Some now, LastScanStatus := ''failed'', LastScanError := msg\<rparr>)
          (ingest_manifests l)\<rparr>))"

definition GetManifests :: "ledger \<Rightarrow> (string \<times> SourceManifest) list" where
  "GetManifests l =
     map (\<lambda>(k, m). (k, if SourceSHA256 m = Some [] then m\<lparr>SourceSHA256 := None\<rparr> else m)) (ingest_manifests l)"

section \<open>The catalog\<close>

record catalog_row =
  c_id :: string
  c_title :: string
  c_workspace_uris :: string
  c_project_id :: string
  c_agent_name :: string
  c_last_modified :: string
  c_step_count :: int

text \<open>encoding/json for a list of strings, and time.Parse by layout.\<close>

record catalog_std =
  json_strings :: "string \<Rightarrow> string list option"
  parse_time :: "string \<Rightarrow> string \<Rightarrow> go_time"

definition clean_uri :: "catalog_std \<Rightarrow> string \<Rightarrow> string" where
  "clean_uri cs uris =
     (case json_strings cs uris of
        Some (u # us) \<Rightarrow> u
      | _ \<Rightarrow> if has_prefix uris ''file://'' \<or> has_prefix uris ''/'' then uris else [])"

definition catalog_meta :: "catalog_std \<Rightarrow> catalog_row \<Rightarrow> ConversationMeta" where
  "catalog_meta cs r =
     (let t = parse_time cs ''2006-01-02T15:04:05Z07:00'' (c_last_modified r);
          t1 = (if is_zero_time t then parse_time cs ''2006-01-02 15:04:05.999999999-07:00'' (c_last_modified r) else t)
      in \<lparr>MetaTitle = c_title r, MetaWorkspaceURI = clean_uri cs (c_workspace_uris r),
          MetaWorkspaceURIs = c_workspace_uris r, MetaProjectID = c_project_id r, MetaAgentName = c_agent_name r,
          MetaLastModified = t1, MetaStepCount = c_step_count r, MetaUpdatedAt = None\<rparr>)"

type_synonym catalog = "(string \<times> ConversationMeta) list"

text \<open>The rows of conversation_summaries, None for a row that does not scan.\<close>

definition read_rows :: "catalog_std \<Rightarrow> catalog_row option list \<Rightarrow> ledger_error + catalog" where
  "read_rows cs rows =
     fold_err (\<lambda>cat r. case r of None \<Rightarrow> Inl SqlFailure | Some x \<Rightarrow> Inr (put_row (c_id x) (catalog_meta cs x) cat))
       [] rows"

datatype stat_result = NotExist | StatError | IsDir | IsFile file_info

definition ReadCatalog :: "catalog_std \<Rightarrow> string \<Rightarrow> stat_result \<Rightarrow> catalog_row option list option \<Rightarrow> ledger_error + catalog" where
  "ReadCatalog cs path st rows =
     (if path = [] then Inr []
      else if st = NotExist then Inr []
      else case rows of None \<Rightarrow> Inl SqlFailure | Some rs \<Rightarrow> read_rows cs rs)"

definition project_of :: "ConversationMeta \<Rightarrow> string" where
  "project_of m = (if MetaProjectID m = [] then ''unknown'' else MetaProjectID m)"

definition attribute :: "string \<times> ConversationMeta \<Rightarrow> usage_row list \<Rightarrow> usage_row list" where
  "attribute km rows =
     map (\<lambda>x. if ConversationID (usage x) = fst km
                \<and> (ProjectID (usage x) \<noteq> project_of (snd km) \<or> WorkspaceURI (usage x) \<noteq> MetaWorkspaceURI (snd km))
              then x\<lparr>usage := (usage x)\<lparr>ProjectID := project_of (snd km), WorkspaceURI := MetaWorkspaceURI (snd km)\<rparr>\<rparr>
              else x) rows"

definition stored_meta :: "go_time \<Rightarrow> ConversationMeta \<Rightarrow> ConversationMeta" where
  "stored_meta now m =
     m\<lparr>MetaLastModified := (if is_zero_time (MetaLastModified m) then None else MetaLastModified m), MetaUpdatedAt := now\<rparr>"

definition SyncCatalog :: "bool \<Rightarrow> go_time \<Rightarrow> string \<Rightarrow> int \<Rightarrow> int \<Rightarrow> catalog \<Rightarrow> ledger \<Rightarrow> ledger_error + ledger" where
  "SyncCatalog fault now path sz mtime cat l =
     (if fault then Inl SqlFailure
      else Inr (l\<lparr>usage_records := foldl (\<lambda>rows km. attribute km rows) (usage_records l) cat,
                  conversation_metadata :=
                    foldl (\<lambda>t kv. put_row (fst kv) (stored_meta now (snd kv)) t) (conversation_metadata l) cat,
                  catalog_sync_state :=
                    Some \<lparr>CatalogPath = path, CatalogSize = sz, CatalogMtimeNs = mtime,
                          ConversationCount = int (length cat), SyncedAt = now\<rparr>\<rparr>))"

section \<open>Reports\<close>

definition count_rows :: "('a \<Rightarrow> bool) \<Rightarrow> 'a list \<Rightarrow> int" where
  "count_rows P xs = int (length (filter P xs))"

definition sum_column :: "('a \<Rightarrow> 64 word) \<Rightarrow> 'a list \<Rightarrow> int" where
  "sum_column f xs = sum_list (map (\<lambda>x. uint (f x)) xs)"

record StatusReport =
  DiscoveredConversations :: int
  IndexedConversations :: int
  CompletedConversations :: int
  ActiveConversations :: int
  FailedConversations :: int
  FailedScans :: int
  MetadataCount :: int
  TotalGenerations :: int
  StatusTotalTokens :: int

definition GetStatus :: "int \<Rightarrow> ledger \<Rightarrow> ledger_error + StatusReport" where
  "GetStatus discovered l =
     (let ms = map snd (ingest_manifests l); tokens = sum_column (\<lambda>x. TotalTokens (usage x)) (usage_records l)
      in if 2 ^ 63 \<le> tokens then Inl SumOverflow
         else Inr \<lparr>DiscoveredConversations = discovered, IndexedConversations = int (length ms),
           CompletedConversations = count_rows IsComplete ms,
           ActiveConversations = count_rows (\<lambda>m. \<not> IsComplete m \<and> MStatus m = ''active'') ms,
           FailedConversations = count_rows (\<lambda>m. MStatus m = ''failed'') ms,
           FailedScans = count_rows (\<lambda>m. LastScanStatus m = ''failed'') ms,
           MetadataCount = int (length (conversation_metadata l)),
           TotalGenerations = int (length (usage_records l)), StatusTotalTokens = tokens\<rparr>)"

text \<open>
  The checks of Verify. Its comparisons add two or three columns: a sum that leaves the range of an
  SQL integer becomes a float of at least 2^63, which differs from, and is larger than, any stored
  integer, as the exact sum is.
\<close>

record VerifyReport =
  VValid :: bool
  TotalRecords :: int
  TotalManifests :: int
  TotalMetadata :: int
  DiscrepantOutputTokens :: int
  DiscrepantTotalTokens :: int
  DuplicateGenerations :: int
  MismatchedManifestCount :: int

definition discrepant_output :: "usage_row \<Rightarrow> bool" where
  "discrepant_output x \<longleftrightarrow>
     uint (TotalOutputTokens (usage x)) < uint (VisibleOutputTokens (usage x)) + uint (ReasoningTokens (usage x))"

definition discrepant_total :: "usage_row \<Rightarrow> bool" where
  "discrepant_total x \<longleftrightarrow>
     uint (TotalTokens (usage x))
       \<noteq> uint (InputTokens (usage x)) + uint (CacheReadTokens (usage x)) + uint (TotalOutputTokens (usage x))"

definition duplicate_ids :: "usage_row list \<Rightarrow> string list" where
  "duplicate_ids rows =
     filter (\<lambda>g. 1 < length (filter (\<lambda>x. GenerationID (usage x) = g) rows))
       (remdups (map (\<lambda>x. GenerationID (usage x)) rows))"

definition mismatched :: "usage_row list \<Rightarrow> string \<times> SourceManifest \<Rightarrow> bool" where
  "mismatched rows km \<longleftrightarrow> MStatus (snd km) = ''completed''
     \<and> GenerationCount (snd km) \<noteq> count_rows (\<lambda>x. ConversationID (usage x) = fst km) rows"

definition Verify :: "bool \<Rightarrow> ledger \<Rightarrow> VerifyReport" where
  "Verify quick_check_ok l =
     (let rows = usage_records l;
          out = count_rows discrepant_output rows;
          tot = count_rows discrepant_total rows;
          dup = int (length (duplicate_ids rows));
          mis = count_rows (mismatched rows) (ingest_manifests l)
      in \<lparr>VValid = (quick_check_ok \<and> \<not> 0 < out \<and> \<not> 0 < tot \<and> \<not> 0 < dup \<and> \<not> 0 < mis),
          TotalRecords = int (length rows), TotalManifests = int (length (ingest_manifests l)),
          TotalMetadata = int (length (conversation_metadata l)), DiscrepantOutputTokens = out,
          DiscrepantTotalTokens = tot, DuplicateGenerations = dup, MismatchedManifestCount = mis\<rparr>)"

record TokenTotals =
  SumInput :: int
  SumCacheRead :: int
  SumCacheCreation :: int
  SumVisible :: int
  SumReasoning :: int
  SumTotalOutput :: int
  SumTotal :: int
  SumGenerations :: int

definition token_totals :: "usage_row list \<Rightarrow> TokenTotals" where
  "token_totals rows =
     \<lparr>SumInput = sum_column (\<lambda>x. InputTokens (usage x)) rows, SumCacheRead = sum_column (\<lambda>x. CacheReadTokens (usage x)) rows,
      SumCacheCreation = sum_column (\<lambda>x. CacheCreationTokens (usage x)) rows,
      SumVisible = sum_column (\<lambda>x. VisibleOutputTokens (usage x)) rows,
      SumReasoning = sum_column (\<lambda>x. ReasoningTokens (usage x)) rows,
      SumTotalOutput = sum_column (\<lambda>x. TotalOutputTokens (usage x)) rows,
      SumTotal = sum_column (\<lambda>x. TotalTokens (usage x)) rows, SumGenerations = int (length rows)\<rparr>"

definition fits_sql :: "TokenTotals \<Rightarrow> bool" where
  "fits_sql t \<longleftrightarrow> SumInput t < 2 ^ 63 \<and> SumCacheRead t < 2 ^ 63 \<and> SumCacheCreation t < 2 ^ 63
     \<and> SumVisible t < 2 ^ 63 \<and> SumReasoning t < 2 ^ 63 \<and> SumTotalOutput t < 2 ^ 63 \<and> SumTotal t < 2 ^ 63"

definition grouped :: "(usage_row \<Rightarrow> string) \<Rightarrow> usage_row list \<Rightarrow> (string \<times> TokenTotals) list" where
  "grouped k rows = map (\<lambda>v. (v, token_totals (filter (\<lambda>x. k x = v) rows))) (remdups (map k rows))"

record SummaryReport =
  Overall :: TokenTotals
  ByModel :: "(string \<times> TokenTotals) list"
  ByProject :: "(string \<times> TokenTotals) list"
  Conversations :: int

definition GetSummary :: "ledger \<Rightarrow> ledger_error + SummaryReport" where
  "GetSummary l =
     (let rows = usage_records l
      in if \<not> fits_sql (token_totals rows) then Inl SumOverflow
         else Inr \<lparr>Overall = token_totals rows, ByModel = grouped (\<lambda>x. Model (usage x)) rows,
           ByProject = grouped (\<lambda>x. ProjectID (usage x)) rows,
           Conversations = int (length (remdups (map (\<lambda>x. ConversationID (usage x)) rows)))\<rparr>)"

section \<open>Ingestion\<close>

record source =
  src_stat :: "file_info option"
  src_wal :: "int option"
  src_db :: source_db
  src_error :: string \<comment> \<open>the text of the error, if there is one\<close>
  src_commit_fault :: bool
  src_mark_fault :: bool

record ingest_env =
  ie_force :: bool
  ie_now :: go_time
  ie_dir :: string
  ie_entries :: "(string \<times> bool) list option" \<comment> \<open>names, and whether it is a directory\<close>
  ie_source :: "string \<Rightarrow> source"
  ie_std :: catalog_std
  ie_summaries :: string
  ie_summaries_stat :: stat_result
  ie_summaries_wal :: stat_result
  ie_catalog_rows :: "catalog_row option list option"
  ie_open_fault :: bool
  ie_sync_fault :: bool
  ie_read_fault :: bool

record IngestStats =
  TotalDiscovered :: nat
  AlreadyUpToDate :: nat
  IngestedCount :: nat
  CompletedCount :: nat
  ActiveCount :: nat
  FailedCount :: nat
  StatsTotalRecords :: int
  NewRecords :: int

definition trim_suffix :: "string \<Rightarrow> string \<Rightarrow> string" where
  "trim_suffix s suf = (if suffix suf s then take (length s - length suf) s else s)"

definition Discover :: "(string \<times> bool) list option \<Rightarrow> string list option" where
  "Discover entries =
     (case entries of
        None \<Rightarrow> None
      | Some es \<Rightarrow> Some (sort (map fst (filter (\<lambda>(n, dir). \<not> dir \<and> suffix ''.db'' n
                                       \<and> \<not> suffix ''-wal'' n \<and> \<not> suffix ''-shm'' n) es))))"

definition sync_phase :: "ingest_env \<Rightarrow> ledger \<Rightarrow> ledger_error + catalog \<times> ledger" where
  "sync_phase env l =
     (case ie_summaries_stat env of
        IsFile fi \<Rightarrow>
          (let noWAL = (case ie_summaries_wal env of
                          NotExist \<Rightarrow> True | IsFile w \<Rightarrow> fi_size w = 0 | IsDir \<Rightarrow> False | StatError \<Rightarrow> False);
               unchanged = (noWAL \<and> \<not> ie_force env
                 \<and> (case catalog_sync_state l of None \<Rightarrow> False
                    | Some st \<Rightarrow> CatalogPath st = ie_summaries env \<and> CatalogSize st = fi_size fi
                                 \<and> CatalogMtimeNs st = fi_mtime fi))
           in if unchanged then Inr (conversation_metadata l, l)
              else case ReadCatalog (ie_std env) (ie_summaries env) (ie_summaries_stat env) (ie_catalog_rows env) of
                     Inl e \<Rightarrow> Inl e
                   | Inr cat \<Rightarrow>
                       (case SyncCatalog (ie_sync_fault env) (ie_now env) (ie_summaries env) (fi_size fi) (fi_mtime fi) cat l of
                          Inl e \<Rightarrow> Inl e
                        | Inr l1 \<Rightarrow> Inr (cat, l1)))
      | StatError \<Rightarrow> Inl SqlFailure
      | IsDir \<Rightarrow> Inr (conversation_metadata l, l)
      | NotExist \<Rightarrow> Inr (conversation_metadata l, l))"

definition scan_failed :: "ingest_env \<Rightarrow> string \<Rightarrow> string \<Rightarrow> source \<Rightarrow> IngestStats \<times> ledger \<Rightarrow> IngestStats \<times> ledger" where
  "scan_failed env conv path src s =
     ((fst s)\<lparr>FailedCount := FailedCount (fst s) + 1\<rparr>,
      (case RecordScanFailure (src_mark_fault src) (ie_now env) conv path (src_error src) (snd s) of
         Inl e \<Rightarrow> snd s | Inr l \<Rightarrow> l))"

definition up_to_date :: "source \<Rightarrow> file_info \<Rightarrow> SourceManifest \<Rightarrow> bool" where
  "up_to_date src fi m \<longleftrightarrow>
     (let hasActiveWAL = (case src_wal src of None \<Rightarrow> False | Some n \<Rightarrow> 0 < n)
      in IsComplete m \<and> MParserVersion m = ParserVersion \<and> \<not> hasActiveWAL \<and> LastScanStatus m \<noteq> ''failed''
         \<and> SourceSize m = fi_size fi \<and> SourceMtimeNs m = fi_mtime fi)"

definition manifest_of :: "string \<Rightarrow> string \<Rightarrow> read_result \<Rightarrow> SourceManifest" where
  "manifest_of conv path r =
     \<lparr>MConversationID = conv, SourcePath = path, SourceSize = rr_size r, SourceMtimeNs = rr_mtime r,
      SourceFingerprint = rr_fingerprint r, SourceSHA256 = None, HighestStepIndex = rr_steps r,
      HighestGenIndex = rr_gens r, GenerationCount = 0, FirstUsageTimestamp = None, LastUsageTimestamp = None,
      MParserVersion = [], IngestedAt = None, IsComplete = rr_complete r, MStatus = rr_status r,
      MErrorMessage = [], LastScanAt = None, LastScanStatus = [], LastScanError = []\<rparr>"

definition ingested :: "(string \<times> SourceManifest) list \<Rightarrow> string \<Rightarrow> read_result \<Rightarrow> IngestStats \<Rightarrow> IngestStats" where
  "ingested manifests conv r st =
     (let previous = (case map_of manifests conv of None \<Rightarrow> 0 | Some m \<Rightarrow> GenerationCount m);
          current = int (length (rr_records r));
          st1 = st\<lparr>IngestedCount := IngestedCount st + 1\<rparr>;
          st2 = (if previous < current then st1\<lparr>NewRecords := NewRecords st1 + (current - previous)\<rparr> else st1)
      in if rr_complete r then st2\<lparr>CompletedCount := CompletedCount st2 + 1\<rparr>
         else st2\<lparr>ActiveCount := ActiveCount st2 + 1\<rparr>)"

definition ingest_one ::
  "ingest_env \<Rightarrow> catalog \<Rightarrow> (string \<times> SourceManifest) list \<Rightarrow> IngestStats \<times> ledger \<Rightarrow> string \<Rightarrow> IngestStats \<times> ledger" where
  "ingest_one env cat manifests s name =
     (let path = ie_dir env @ ''/'' @ name; conv = trim_suffix name ''.db''; src = ie_source env name
      in case src_stat src of
           None \<Rightarrow> scan_failed env conv path src s
         | Some fi \<Rightarrow>
             if \<not> ie_force env \<and> (case map_of manifests conv of None \<Rightarrow> False | Some m \<Rightarrow> up_to_date src fi m)
             then ((fst s)\<lparr>AlreadyUpToDate := AlreadyUpToDate (fst s) + 1\<rparr>, snd s)
             else case ReadConversation conv
                         (map_option (\<lambda>m. (MetaWorkspaceURI m, MetaProjectID m)) (map_of cat conv)) (src_db src) of
                    Inl e \<Rightarrow> scan_failed env conv path src s
                  | Inr r \<Rightarrow>
                      (case CommitIngest (src_commit_fault src) (ie_now env) (manifest_of conv path r) (rr_records r) (snd s) of
                         Inl e \<Rightarrow> scan_failed env conv path src s
                       | Inr l \<Rightarrow> (ingested manifests conv r (fst s), l)))"

text \<open>The result is the error, if any, the statistics, if any, and the ledger afterwards.\<close>

datatype ingest_error = NoDirectory | LedgerError ledger_error | FailedConversationDBs nat

definition empty_stats :: "nat \<Rightarrow> IngestStats" where
  "empty_stats n = \<lparr>TotalDiscovered = n, AlreadyUpToDate = 0, IngestedCount = 0, CompletedCount = 0, ActiveCount = 0,
     FailedCount = 0, StatsTotalRecords = 0, NewRecords = 0\<rparr>"

definition Ingest :: "ingest_env \<Rightarrow> ledger \<Rightarrow> ingest_error option \<times> IngestStats option \<times> ledger" where
  "Ingest env l =
     (case Discover (ie_entries env) of
        None \<Rightarrow> (Some NoDirectory, None, l)
      | Some names \<Rightarrow>
          if ie_open_fault env then (Some (LedgerError SqlFailure), None, l)
          else case sync_phase env l of
                 Inl e \<Rightarrow> (Some (LedgerError e), None, l)
               | Inr (cat, l1) \<Rightarrow>
                   if ie_read_fault env then (Some (LedgerError SqlFailure), None, l1)
                   else let (st, l2) = foldl (ingest_one env cat (GetManifests l1)) (empty_stats (length names), l1) names
                        in case GetStatus (int (length names)) l2 of
                             Inl e \<Rightarrow> (Some (LedgerError e), Some st, l2)
                           | Inr status \<Rightarrow>
                               let st1 = st\<lparr>StatsTotalRecords := TotalGenerations status\<rparr>
                               in (if 0 < FailedCount st1 then Some (FailedConversationDBs (FailedCount st1)) else None,
                                   Some st1, l2))"

section \<open>What a commit leaves\<close>

definition new_rows :: "go_time \<Rightarrow> UsageRecord list \<Rightarrow> usage_row list" where
  "new_rows now rs = map (\<lambda>r. \<lparr>usage = r, row_created_at = now\<rparr>) (filter IsTokenBearing (map Normalize rs))"

definition row_ok :: "usage_row \<Rightarrow> bool" where
  "row_ok x \<longleftrightarrow> (\<forall>w \<in> set (stored_words (usage x)). uint w < 2 ^ 63)
     \<and> VisibleOutputTokens (usage x) + ReasoningTokens (usage x) \<le> TotalOutputTokens (usage x)
     \<and> TotalTokens (usage x) = InputTokens (usage x) + CacheReadTokens (usage x) + TotalOutputTokens (usage x)"

definition table_ok :: "usage_row list \<Rightarrow> bool" where
  "table_ok rows \<longleftrightarrow> distinct (map (\<lambda>x. GenerationID (usage x)) rows) \<and> list_all row_ok rows"

lemma Normalize_total [simp]:
  "TotalTokens (Normalize u) = InputTokens u + CacheReadTokens u + TotalOutputTokens (Normalize u)"
  by (simp add: Normalize_def Let_def)

lemma Normalize_conversation [simp]:
  "ConversationID (Normalize u) = ConversationID u"
  by (simp add: Normalize_def Let_def)

lemma Normalize_bearing: "IsTokenBearing u \<Longrightarrow> IsTokenBearing (Normalize u)"
  by (auto simp: IsTokenBearing_def less_max_iff_disj)

lemma insert_usage_cases:
  assumes "insert_usage now r rows = Inr rows'"
  shows "rows' = rows @ [\<lparr>usage = r, row_created_at = now\<rparr>]" "\<forall>w \<in> set (stored_words r). uint w < 2 ^ 63"
    "GenerationID r \<notin> set (map (\<lambda>x. GenerationID (usage x)) rows)"
  using assms by (auto simp: insert_usage_def not_le split: if_splits)

lemma insert_usage_ok:
  "insert_usage now (Normalize r) rows = Inr rows' \<Longrightarrow> table_ok rows \<Longrightarrow> table_ok rows'"
  using insert_usage_cases [of now "Normalize r" rows rows'] by (simp add: table_ok_def row_ok_def)

lemma commit_record_step:
  assumes "commit_record conv now (rows, a, b) r = Inr (rows', a', b')"
  shows "rows' = rows @ new_rows now [r]" "ConversationID r = conv" "table_ok rows \<Longrightarrow> table_ok rows'"
proof -
  show "rows' = rows @ new_rows now [r]" "ConversationID r = conv"
    using assms by (auto simp: commit_record_def new_rows_def Let_def dest: insert_usage_cases(1) split: if_splits sum.splits)
  show "table_ok rows'" if "table_ok rows"
    using assms that by (auto simp: commit_record_def Let_def intro: insert_usage_ok split: if_splits sum.splits)
qed

lemma commit_records:
  assumes "fold_err (commit_record conv now) (rows, a, b) rs = Inr (rows', a', b')"
  shows "rows' = rows @ new_rows now rs \<and> list_all (\<lambda>r. ConversationID r = conv) rs \<and> (table_ok rows \<longrightarrow> table_ok rows')"
  using assms
proof (induction rs arbitrary: rows a b)
  case Nil
  then show ?case by (simp add: new_rows_def)
next
  case (Cons r rs)
  then obtain rows1 a1 b1 where s: "commit_record conv now (rows, a, b) r = Inr (rows1, a1, b1)"
    and rest: "fold_err (commit_record conv now) (rows1, a1, b1) rs = Inr (rows', a', b')"
    by (auto split: sum.splits)
  have "new_rows now (r # rs) = new_rows now [r] @ new_rows now rs" by (simp add: new_rows_def)
  then show ?case using Cons.IH [OF rest] commit_record_step [OF s] by auto
qed

lemma table_ok_filter: "table_ok rows \<Longrightarrow> table_ok (filter P rows)"
  by (auto simp: table_ok_def list_all_iff distinct_map_filter)

lemma CommitIngest_cases:
  assumes "CommitIngest fault now m rs l = Inr l'"
  obtains a b where
    "usage_records l' = filter (\<lambda>x. ConversationID (usage x) \<noteq> MConversationID m) (usage_records l) @ new_rows now rs"
    "list_all (\<lambda>r. ConversationID r = MConversationID m) rs"
    "table_ok (usage_records l) \<Longrightarrow> table_ok (usage_records l')"
    "ingest_manifests l' = upsert_manifest (finish_manifest now (length rs) a b m) (ingest_manifests l)"
    "conversation_metadata l' = conversation_metadata l" "catalog_sync_state l' = catalog_sync_state l"
proof -
  obtain rows a b where f: "fold_err (commit_record (MConversationID m) now)
      (filter (\<lambda>x. ConversationID (usage x) \<noteq> MConversationID m) (usage_records l), None, None) rs = Inr (rows, a, b)"
    and l': "l' = l\<lparr>usage_records := rows, ingest_manifests :=
      upsert_manifest (finish_manifest now (length rs) a b m) (ingest_manifests l)\<rparr>"
    using assms by (auto simp: CommitIngest_def Let_def split: sum.splits if_splits)
  show thesis by (rule that [of a b]) (use commit_records [OF f] l' in \<open>auto simp: table_ok_filter\<close>)
qed

section \<open>The invariant of the ledger\<close>

definition generation_count :: "(string \<times> SourceManifest) list \<Rightarrow> string \<Rightarrow> int" where
  "generation_count ms c = (case map_of ms c of None \<Rightarrow> 0 | Some m \<Rightarrow> GenerationCount m)"

definition rows_of :: "string \<Rightarrow> usage_row list \<Rightarrow> int" where
  "rows_of c rows = count_rows (\<lambda>x. ConversationID (usage x) = c) rows"

definition ledger_inv :: "ledger \<Rightarrow> bool" where
  "ledger_inv l \<longleftrightarrow> table_ok (usage_records l) \<and> distinct (map fst (ingest_manifests l))
     \<and> (\<forall>c. rows_of c (usage_records l) = generation_count (ingest_manifests l) c)"

lemma rows_of_append [simp]: "rows_of c (xs @ ys) = rows_of c xs + rows_of c ys"
  by (simp add: rows_of_def count_rows_def)

lemma rows_of_others: "rows_of c (filter (\<lambda>x. ConversationID (usage x) \<noteq> d) xs) = (if c = d then 0 else rows_of c xs)"
  by (auto simp: rows_of_def count_rows_def intro!: arg_cong [where f = length] filter_cong)

lemma rows_of_new:
  assumes "list_all (\<lambda>r. ConversationID r = d) rs" and "list_all IsTokenBearing rs"
  shows "rows_of c (new_rows now rs) = (if c = d then int (length rs) else 0)"
proof -
  have "filter IsTokenBearing (map Normalize rs) = map Normalize rs"
    using assms(2) Normalize_bearing by (auto simp: list_all_iff filter_id_conv)
  then have "new_rows now rs = map (\<lambda>r. \<lparr>usage = Normalize r, row_created_at = now\<rparr>) rs"
    by (simp add: new_rows_def)
  moreover have "filter (\<lambda>r. ConversationID r = c) rs = (if c = d then rs else [])"
    using assms(1) by (auto simp: list_all_iff filter_id_conv filter_empty_conv)
  ultimately show ?thesis by (simp add: rows_of_def count_rows_def filter_map comp_def)
qed

lemma upsert_generation_count:
  "generation_count (upsert_manifest m ms) c = (if c = MConversationID m then GenerationCount m else generation_count ms c)"
  by (simp add: generation_count_def upsert_manifest_def split: option.splits)

lemma distinct_upsert_manifest: "distinct (map fst ms) \<Longrightarrow> distinct (map fst (upsert_manifest m ms))"
  by (simp add: upsert_manifest_def)

lemma finish_manifest_fields [simp]:
  "MConversationID (finish_manifest now n a b m) = MConversationID m"
  "GenerationCount (finish_manifest now n a b m) = int n"
  "SourceSize (finish_manifest now n a b m) = SourceSize m"
  "SourceMtimeNs (finish_manifest now n a b m) = SourceMtimeNs m"
  "IsComplete (finish_manifest now n a b m) = IsComplete m"
  "MStatus (finish_manifest now n a b m) = MStatus m"
  "MParserVersion (finish_manifest now n a b m) = ParserVersion"
  "LastScanStatus (finish_manifest now n a b m) = (if LastScanStatus m = [] then MStatus m else LastScanStatus m)"
  by (simp_all add: finish_manifest_def Let_def split: option.splits)

lemma CommitIngest_inv:
  assumes "CommitIngest fault now m rs l = Inr l'" and "ledger_inv l" and "list_all IsTokenBearing rs"
  shows "ledger_inv l'"
  by (rule CommitIngest_cases [OF assms(1)])
     (use assms(2,3) in \<open>simp add: ledger_inv_def rows_of_others rows_of_new upsert_generation_count distinct_upsert_manifest\<close>)

lemma RecordScanFailure_frame:
  assumes "RecordScanFailure fault now c path msg l = Inr l'"
  shows "usage_records l' = usage_records l" "conversation_metadata l' = conversation_metadata l"
    "generation_count (ingest_manifests l') = generation_count (ingest_manifests l)"
    "distinct (map fst (ingest_manifests l)) \<Longrightarrow> distinct (map fst (ingest_manifests l'))"
    "i \<noteq> c \<Longrightarrow> map_of (ingest_manifests l') i = map_of (ingest_manifests l) i"
  using assms
  by (auto simp: RecordScanFailure_def generation_count_def fun_eq_iff failed_manifest_def split: option.splits if_splits)

lemma RecordScanFailure_inv: "RecordScanFailure fault now c path msg l = Inr l' \<Longrightarrow> ledger_inv l \<Longrightarrow> ledger_inv l'"
  using RecordScanFailure_frame [of fault now c path msg l l'] by (simp add: ledger_inv_def)

lemma dedup_bearing: "dedup_events ctx steps gens = Inr rs \<Longrightarrow> list_all IsTokenBearing rs"
  by (auto simp: dedup_events_def list_all_iff split: sum.splits prod.splits)

lemma read_bearing: "ReadConversation c mt db = Inr r \<Longrightarrow> list_all IsTokenBearing (rr_records r)"
  by (auto simp: ReadConversation_def Let_def dest: dedup_bearing split: option.splits sum.splits if_splits)

text \<open>The catalogue changes the attribution of rows, and nothing else of them.\<close>

definition accounting :: "usage_row \<Rightarrow> string \<times> string \<times> 64 word list" where
  "accounting x = (ConversationID (usage x), GenerationID (usage x), stored_words (usage x))"

lemma attribute_accounting [simp]: "map accounting (attribute km rows) = map accounting rows"
  by (simp add: attribute_def accounting_def stored_words_def)

lemma attribute_all_accounting [simp]:
  "map accounting (foldl (\<lambda>rows km. attribute km rows) rows cat) = map accounting rows"
  by (induction cat arbitrary: rows) simp_all

lemma row_ok_accounting: "accounting x = accounting y \<Longrightarrow> row_ok x \<longleftrightarrow> row_ok y"
  by (simp add: accounting_def row_ok_def stored_words_def)

lemma list_all_accounting: "map accounting xs = map accounting ys \<Longrightarrow> list_all row_ok xs \<longleftrightarrow> list_all row_ok ys"
proof (induction xs arbitrary: ys)
  case (Cons x xs)
  then obtain y zs where "ys = y # zs" "accounting x = accounting y" "map accounting xs = map accounting zs"
    by (auto simp: Cons_eq_map_conv)
  then show ?case using Cons.IH row_ok_accounting [of x y] by simp
qed simp

lemma accounting_projections:
  assumes "map accounting xs = map accounting ys"
  shows "map (\<lambda>x. GenerationID (usage x)) xs = map (\<lambda>x. GenerationID (usage x)) ys"
    and "map (\<lambda>x. ConversationID (usage x)) xs = map (\<lambda>x. ConversationID (usage x)) ys"
    and "list_all row_ok xs = list_all row_ok ys"
  using arg_cong [OF assms, where f = "map (\<lambda>a. fst (snd a))"] arg_cong [OF assms, where f = "map fst"]
    list_all_accounting [OF assms]
  by (simp_all add: comp_def accounting_def)

lemma rows_of_conversations: "rows_of c rows = int (count_list (map (\<lambda>x. ConversationID (usage x)) rows) c)"
  by (induction rows) (simp_all add: rows_of_def count_rows_def)

lemma SyncCatalog_frame:
  assumes "SyncCatalog fault now path n mt cat l = Inr l'"
  shows "map accounting (usage_records l') = map accounting (usage_records l)"
    "ingest_manifests l' = ingest_manifests l"
  using assms by (auto simp: SyncCatalog_def split: if_splits)

lemma same_accounting_inv:
  assumes "map accounting (usage_records l') = map accounting (usage_records l)"
    and "ingest_manifests l' = ingest_manifests l" and "ledger_inv l"
  shows "ledger_inv l'"
  using accounting_projections [OF assms(1)] assms(2,3)
  by (simp add: ledger_inv_def table_ok_def rows_of_conversations)

lemma sync_phase_frame:
  assumes "sync_phase env l = Inr (cat, l')"
  shows "map accounting (usage_records l') = map accounting (usage_records l)"
    "ingest_manifests l' = ingest_manifests l"
  using assms SyncCatalog_frame
  by (auto simp: sync_phase_def Let_def split: stat_result.splits if_splits sum.splits)

lemma scan_failed_inv: "ledger_inv (snd s) \<Longrightarrow> ledger_inv (snd (scan_failed env c path src s))"
  using RecordScanFailure_inv by (auto simp: scan_failed_def split: sum.splits)

lemma ingest_one_inv: "ledger_inv (snd s) \<Longrightarrow> ledger_inv (snd (ingest_one env cat ms s n))"
  by (auto simp: ingest_one_def Let_def scan_failed_inv split: option.splits sum.splits
      intro: CommitIngest_inv read_bearing)

lemma ingest_all_inv: "ledger_inv (snd s) \<Longrightarrow> ledger_inv (snd (foldl (ingest_one env cat ms) s ns))"
  by (induction ns arbitrary: s) (simp_all add: ingest_one_inv)

lemma Ingest_cases:
  assumes "Ingest env l = (e, st, l')"
  obtains (same) "l' = l" "st = None" "e \<noteq> None"
  | (synced) cat where "sync_phase env l = Inr (cat, l')" "st = None" "e \<noteq> None"
  | (scanned) names cat l1 s where "Discover (ie_entries env) = Some names" "sync_phase env l = Inr (cat, l1)"
      "foldl (ingest_one env cat (GetManifests l1)) (empty_stats (length names), l1) names = (s, l')"
      "st = Some s \<or> (\<exists>n. st = Some (s\<lparr>StatsTotalRecords := n\<rparr>))" "e = None \<Longrightarrow> FailedCount s = 0"
  using assms
  by (auto simp: Ingest_def Let_def split: option.splits if_splits sum.splits prod.splits)

lemma Ingest_inv:
  assumes "ledger_inv l"
  shows "ledger_inv (snd (snd (Ingest env l)))"
proof -
  obtain e st l' where i: "Ingest env l = (e, st, l')" by (cases "Ingest env l")
  then show ?thesis
  proof (cases rule: Ingest_cases)
    case same
    then show ?thesis using i assms by simp
  next
    case (synced cat)
    then show ?thesis using i assms same_accounting_inv sync_phase_frame by auto
  next
    case (scanned names cat l1 s)
    have "ledger_inv l1" using assms same_accounting_inv sync_phase_frame [OF scanned(2)] by blast
    then show ?thesis using i scanned(3) ingest_all_inv [of "(empty_stats (length names), l1)"] by (metis snd_conv)
  qed
qed

inductive ledger_reachable :: "ledger \<Rightarrow> bool" where
  ledger_new: "ledger_reachable empty_ledger"
| ledger_ingest: "ledger_reachable l \<Longrightarrow> ledger_reachable (snd (snd (Ingest env l)))"

lemma ledger_reachable_inv: "ledger_reachable l \<Longrightarrow> ledger_inv l"
proof (induction rule: ledger_reachable.induct)
  case ledger_new
  then show ?case by (simp add: ledger_inv_def empty_ledger_def table_ok_def rows_of_def count_rows_def generation_count_def)
qed (rule Ingest_inv)

section \<open>What the invariant says to Verify\<close>

lemma count_rows_zero: "count_rows P xs = 0 \<longleftrightarrow> list_all (\<lambda>x. \<not> P x) xs"
  by (simp add: count_rows_def list_all_iff filter_empty_conv)

lemma count_rows_pos: "0 < count_rows P xs \<longleftrightarrow> count_rows P xs \<noteq> 0"
  by (simp add: count_rows_def)

lemma row_ok_output: "row_ok x \<Longrightarrow> \<not> discrepant_output x"
proof -
  assume r: "row_ok x"
  then have b: "uint (VisibleOutputTokens (usage x)) < 2 ^ 63" "uint (ReasoningTokens (usage x)) < 2 ^ 63"
    by (simp_all add: row_ok_def stored_words_def)
  then have "uint (VisibleOutputTokens (usage x) + ReasoningTokens (usage x))
      = uint (VisibleOutputTokens (usage x)) + uint (ReasoningTokens (usage x))"
    by (simp add: uint_word_ariths)
  then show ?thesis using r by (simp add: row_ok_def discrepant_output_def word_le_def)
qed

definition true_total :: "usage_row \<Rightarrow> int" where
  "true_total x = uint (InputTokens (usage x)) + uint (CacheReadTokens (usage x)) + uint (TotalOutputTokens (usage x))"

lemma row_ok_total: "row_ok x \<Longrightarrow> discrepant_total x \<longleftrightarrow> 2 ^ 64 \<le> true_total x"
proof -
  assume r: "row_ok x"
  then have t: "uint (TotalTokens (usage x)) = true_total x mod 2 ^ 64"
    by (simp add: row_ok_def true_total_def uint_word_ariths mod_add_left_eq)
  have "0 \<le> true_total x" by (simp add: true_total_def)
  moreover have "true_total x mod 2 ^ 64 < 2 ^ 64" by simp
  ultimately have "true_total x mod 2 ^ 64 \<noteq> true_total x \<longleftrightarrow> 2 ^ 64 \<le> true_total x"
    by (metis mod_pos_pos_trivial not_le)
  then show ?thesis using t by (simp add: discrepant_total_def true_total_def)
qed

lemma no_duplicates: "distinct (map (\<lambda>x. GenerationID (usage x)) rows) \<Longrightarrow> duplicate_ids rows = []"
proof -
  assume d: "distinct (map (\<lambda>x. GenerationID (usage x)) rows)"
  have "length (filter (\<lambda>x. GenerationID (usage x) = g) rows)
      = (if g \<in> set (map (\<lambda>x. GenerationID (usage x)) rows) then 1 else 0)" for g
    using d by (induction rows) auto
  then show ?thesis by (simp add: duplicate_ids_def)
qed

lemma none_mismatched: "ledger_inv l \<Longrightarrow> count_rows (mismatched (usage_records l)) (ingest_manifests l) = 0"
  unfolding count_rows_zero list_all_iff
proof
  fix km
  assume l: "ledger_inv l" and km: "km \<in> set (ingest_manifests l)"
  then have "map_of (ingest_manifests l) (fst km) = Some (snd km)" by (simp add: ledger_inv_def)
  then have "generation_count (ingest_manifests l) (fst km) = GenerationCount (snd km)" by (simp add: generation_count_def)
  then show "\<not> mismatched (usage_records l) km" using l
    by (simp add: ledger_inv_def mismatched_def rows_of_def)
qed

section \<open>Totals by group\<close>

text \<open>A column of the totals: nothing for no rows, and one row more adds that row's share.\<close>

locale column_total =
  fixes col :: "TokenTotals \<Rightarrow> int"
  assumes col_none: "col (token_totals []) = 0"
    and col_row: "col (token_totals (x # xs)) = col (token_totals [x]) + col (token_totals xs)"
begin

lemma over_keys:
  "finite S \<Longrightarrow> k ` set rows \<subseteq> S \<Longrightarrow>
     (\<Sum>v\<in>S. col (token_totals (filter (\<lambda>x. k x = v) rows))) = col (token_totals rows)"
proof (induction rows)
  case Nil
  then show ?case by (simp add: col_none)
next
  case (Cons x xs)
  have "(\<Sum>v\<in>S. col (token_totals (filter (\<lambda>y. k y = v) (x # xs))))
      = (\<Sum>v\<in>S. (if v = k x then col (token_totals [x]) else 0) + col (token_totals (filter (\<lambda>y. k y = v) xs)))"
  proof (rule sum.cong)
    fix v
    show "col (token_totals (filter (\<lambda>y. k y = v) (x # xs)))
        = (if v = k x then col (token_totals [x]) else 0) + col (token_totals (filter (\<lambda>y. k y = v) xs))"
      using col_row [of x "filter (\<lambda>y. k y = v) xs"] by (cases "k x = v") simp_all
  qed simp
  also have "\<dots> = col (token_totals [x]) + col (token_totals xs)"
    using Cons by (simp add: sum.distrib)
  finally show ?case using col_row [of x xs] by simp
qed

lemma groups_add_up: "sum_list (map (\<lambda>g. col (snd g)) (grouped k rows)) = col (token_totals rows)"
  using over_keys [of "k ` set rows" k rows]
  by (simp add: grouped_def comp_def sum_list_distinct_conv_sum_set)

end

interpretation input_column: column_total SumInput
  by unfold_locales (simp_all add: token_totals_def sum_column_def)

interpretation cache_read_column: column_total SumCacheRead
  by unfold_locales (simp_all add: token_totals_def sum_column_def)

interpretation cache_creation_column: column_total SumCacheCreation
  by unfold_locales (simp_all add: token_totals_def sum_column_def)

interpretation visible_column: column_total SumVisible
  by unfold_locales (simp_all add: token_totals_def sum_column_def)

interpretation reasoning_column: column_total SumReasoning
  by unfold_locales (simp_all add: token_totals_def sum_column_def)

interpretation total_output_column: column_total SumTotalOutput
  by unfold_locales (simp_all add: token_totals_def sum_column_def)

interpretation total_column: column_total SumTotal
  by unfold_locales (simp_all add: token_totals_def sum_column_def)

interpretation generation_column: column_total SumGenerations
  by unfold_locales (simp_all add: token_totals_def)

lemmas groups_add_up =
  input_column.groups_add_up cache_read_column.groups_add_up cache_creation_column.groups_add_up
  visible_column.groups_add_up reasoning_column.groups_add_up total_output_column.groups_add_up
  total_column.groups_add_up generation_column.groups_add_up

definition add_totals :: "TokenTotals list \<Rightarrow> TokenTotals" where
  "add_totals ts =
     \<lparr>SumInput = sum_list (map SumInput ts), SumCacheRead = sum_list (map SumCacheRead ts),
      SumCacheCreation = sum_list (map SumCacheCreation ts), SumVisible = sum_list (map SumVisible ts),
      SumReasoning = sum_list (map SumReasoning ts), SumTotalOutput = sum_list (map SumTotalOutput ts),
      SumTotal = sum_list (map SumTotal ts), SumGenerations = sum_list (map SumGenerations ts)\<rparr>"

lemma grouped_totals: "add_totals (map snd (grouped k rows)) = token_totals rows"
  by (rule TokenTotals.equality) (simp_all add: add_totals_def comp_def groups_add_up)

lemma grouped_keys: "distinct (map fst (grouped k rows))" "set (map fst (grouped k rows)) = k ` set rows"
  by (simp_all add: grouped_def comp_def)

section \<open>A second run\<close>

lemma trim_suffix_append: "suffix t s \<Longrightarrow> trim_suffix s t @ t = s"
  by (auto simp: trim_suffix_def suffix_def)

abbreviation conv_of :: "string \<Rightarrow> string" where
  "conv_of n \<equiv> trim_suffix n ''.db''"

lemma conv_of_inject: "suffix ''.db'' m \<Longrightarrow> suffix ''.db'' n \<Longrightarrow> conv_of m = conv_of n \<longleftrightarrow> m = n"
  using trim_suffix_append by metis

definition no_wal :: "int option \<Rightarrow> bool" where
  "no_wal w = (case w of None \<Rightarrow> True | Some n \<Rightarrow> n \<le> 0)"

text \<open>A source at rest: the same file before, during and after the read, and no active log.\<close>

definition quiescent :: "source \<Rightarrow> bool" where
  "quiescent src \<longleftrightarrow> src_stat src \<noteq> None \<and> db_before (src_db src) = src_stat src \<and> db_after (src_db src) = src_stat src
     \<and> no_wal (src_wal src) \<and> no_wal (db_wal_size (src_db src))"

definition settled :: "source \<Rightarrow> SourceManifest option \<Rightarrow> bool" where
  "settled src m = (case (src_stat src, m) of (Some fi, Some m) \<Rightarrow> up_to_date src fi m | _ \<Rightarrow> False)"

lemma GetManifests_lookup:
  "map_of (GetManifests l) c
     = map_option (\<lambda>m. if SourceSHA256 m = Some [] then m\<lparr>SourceSHA256 := None\<rparr> else m) (map_of (ingest_manifests l) c)"
  by (simp add: GetManifests_def map_of_map)

lemma settled_get: "settled src (map_of (GetManifests l) c) \<longleftrightarrow> settled src (map_of (ingest_manifests l) c)"
  by (auto simp: GetManifests_lookup settled_def up_to_date_def split: option.splits)

lemma ingest_one_skips:
  "\<not> ie_force env \<Longrightarrow> settled (ie_source env n) (map_of ms (conv_of n)) \<Longrightarrow>
     ingest_one env cat ms s n = ((fst s)\<lparr>AlreadyUpToDate := AlreadyUpToDate (fst s) + 1\<rparr>, snd s)"
  by (auto simp: ingest_one_def settled_def Let_def split: option.splits)

lemma read_quiescent:
  assumes "ReadConversation c mt (src_db src) = Inr r" and "quiescent src" and "src_stat src = Some fi"
  shows "rr_complete r \<and> rr_status r = ''completed'' \<and> rr_size r = fi_size fi \<and> rr_mtime r = fi_mtime fi"
  using assms
  by (auto simp: ReadConversation_def quiescent_def no_wal_def Let_def split: option.splits sum.splits if_splits)

lemma commit_settles:
  assumes "CommitIngest fault now (manifest_of c path r) rs l = Inr l'" and "quiescent src" and "src_stat src = Some fi"
    and "ReadConversation c mt (src_db src) = Inr r"
  shows "settled src (map_of (ingest_manifests l') c)"
    and "i \<noteq> c \<Longrightarrow> map_of (ingest_manifests l') i = map_of (ingest_manifests l) i"
proof -
  obtain a b where m: "ingest_manifests l' = upsert_manifest (finish_manifest now (length rs) a b (manifest_of c path r))
      (ingest_manifests l)" using CommitIngest_cases [OF assms(1)] by metis
  note r = read_quiescent [OF assms(4,2,3)]
  show "settled src (map_of (ingest_manifests l') c)"
    using r assms(2) by (auto simp: m upsert_manifest_def settled_def assms(3) up_to_date_def manifest_of_def quiescent_def
        no_wal_def Let_def split: option.splits)
  show "i \<noteq> c \<Longrightarrow> map_of (ingest_manifests l') i = map_of (ingest_manifests l) i"
    by (simp add: m upsert_manifest_def manifest_of_def)
qed

lemma failed_mono: "FailedCount (fst s) \<le> FailedCount (fst (ingest_one env cat ms s n))"
  by (auto simp: ingest_one_def Let_def scan_failed_def ingested_def split: option.splits sum.splits)

lemma failed_mono_all: "FailedCount (fst s) \<le> FailedCount (fst (foldl (ingest_one env cat ms) s ns))"
proof (induction ns arbitrary: s)
  case (Cons n ns)
  show ?case using Cons.IH [of "ingest_one env cat ms s n"] failed_mono [of s env cat ms n] by simp
qed simp

lemma ingest_one_other:
  "i \<noteq> conv_of n \<Longrightarrow> map_of (ingest_manifests (snd (ingest_one env cat ms s n))) i = map_of (ingest_manifests (snd s)) i"
  by (auto simp: ingest_one_def Let_def scan_failed_def upsert_manifest_def manifest_of_def RecordScanFailure_frame(5)
      elim!: CommitIngest_cases split: option.splits sum.splits)

lemma ingest_all_other:
  "i \<notin> conv_of ` set ns \<Longrightarrow>
     map_of (ingest_manifests (snd (foldl (ingest_one env cat ms) s ns))) i = map_of (ingest_manifests (snd s)) i"
  by (induction ns arbitrary: s) (simp_all add: ingest_one_other)

lemma ingest_one_settles:
  assumes "quiescent (ie_source env n)"
    and "FailedCount (fst (ingest_one env cat (GetManifests l0) s n)) = FailedCount (fst s)"
    and "map_of (ingest_manifests (snd s)) (conv_of n) = map_of (ingest_manifests l0) (conv_of n)"
  shows "settled (ie_source env n) (map_of (ingest_manifests (snd (ingest_one env cat (GetManifests l0) s n))) (conv_of n))"
proof -
  let ?src = "ie_source env n" and ?ms = "GetManifests l0"
  obtain fi where fi: "src_stat ?src = Some fi" using assms(1) by (auto simp: quiescent_def)
  show ?thesis
  proof (cases "\<not> ie_force env \<and> settled ?src (map_of ?ms (conv_of n))")
    case True
    then show ?thesis using assms(3) by (simp add: ingest_one_skips settled_get)
  next
    case False
    let ?meta = "map_option (\<lambda>m. (MetaWorkspaceURI m, MetaProjectID m)) (map_of cat (conv_of n))"
    have s: "\<not> (\<not> ie_force env \<and> (case map_of ?ms (conv_of n) of None \<Rightarrow> False | Some m \<Rightarrow> up_to_date ?src fi m))"
      using False by (auto simp: settled_def fi split: option.splits)
    have nofail: "scan_failed env c p ?src s \<noteq> ingest_one env cat ?ms s n" for c p
    proof
      assume e: "scan_failed env c p ?src s = ingest_one env cat ?ms s n"
      have "FailedCount (fst (scan_failed env c p ?src s)) = FailedCount (fst s) + 1" by (simp add: scan_failed_def)
      then show False using assms(2) e by simp
    qed
    obtain r where r: "ReadConversation (conv_of n) ?meta (src_db ?src) = Inr r"
      using nofail s by (cases "ReadConversation (conv_of n) ?meta (src_db ?src)") (auto simp: ingest_one_def fi Let_def)
    then obtain l where l: "CommitIngest (src_commit_fault ?src) (ie_now env)
        (manifest_of (conv_of n) (ie_dir env @ ''/'' @ n) r) (rr_records r) (snd s) = Inr l"
      using nofail s by (cases "CommitIngest (src_commit_fault ?src) (ie_now env)
        (manifest_of (conv_of n) (ie_dir env @ ''/'' @ n) r) (rr_records r) (snd s)") (auto simp: ingest_one_def fi Let_def)
    have "ingest_manifests (snd (ingest_one env cat ?ms s n)) = ingest_manifests l"
      using s r l by (auto simp: ingest_one_def fi Let_def)
    then show ?thesis using commit_settles(1) [OF l assms(1) fi r] by simp
  qed
qed

lemma ingest_all_settles:
  assumes "\<And>n. n \<in> set ns \<Longrightarrow> quiescent (ie_source env n) \<and> suffix ''.db'' n" and "distinct ns"
    and "FailedCount (fst (foldl (ingest_one env cat (GetManifests l0)) s ns)) = FailedCount (fst s)"
    and "\<And>n. n \<in> set ns \<Longrightarrow> map_of (ingest_manifests (snd s)) (conv_of n) = map_of (ingest_manifests l0) (conv_of n)"
    and "n \<in> set ns"
  shows "settled (ie_source env n)
    (map_of (ingest_manifests (snd (foldl (ingest_one env cat (GetManifests l0)) s ns))) (conv_of n))"
  using assms
proof (induction ns arbitrary: s)
  case (Cons m ns)
  let ?s = "ingest_one env cat (GetManifests l0) s m"
  have other: "conv_of k \<noteq> conv_of m" if "k \<in> set ns" for k
    using that Cons.prems(1) [of k] Cons.prems(1) [of m] Cons.prems(2) conv_of_inject [of k m] by auto
  have f: "FailedCount (fst ?s) = FailedCount (fst s)"
    "FailedCount (fst (foldl (ingest_one env cat (GetManifests l0)) ?s ns)) = FailedCount (fst ?s)"
    using Cons.prems(3) failed_mono [of s env cat "GetManifests l0" m]
      failed_mono_all [of ?s env cat "GetManifests l0" ns] by simp_all
  show ?case
  proof (cases "n = m")
    case True
    have "settled (ie_source env m) (map_of (ingest_manifests (snd ?s)) (conv_of m))"
      using Cons.prems(1) [of m] Cons.prems(4) [of m] f(1) by (intro ingest_one_settles) simp_all
    moreover have "conv_of m \<notin> conv_of ` set ns"
    proof
      assume "conv_of m \<in> conv_of ` set ns"
      then obtain k where "conv_of m = conv_of k" "k \<in> set ns" by (rule imageE)
      then show False using other [of k] by simp
    qed
    ultimately show ?thesis using True ingest_all_other [of "conv_of m" ns env cat "GetManifests l0" ?s] by simp
  next
    case False
    have "map_of (ingest_manifests (snd ?s)) (conv_of k) = map_of (ingest_manifests l0) (conv_of k)" if "k \<in> set ns" for k
      using that other [OF that] Cons.prems(4) [of k] ingest_one_other [of "conv_of k" m env cat "GetManifests l0" s] by simp
    then show ?thesis using False Cons.IH [of ?s] Cons.prems(1,2,5) f(2) by simp
  qed
qed simp

lemma ingest_all_skips:
  assumes "\<not> ie_force env" and "\<And>n. n \<in> set ns \<Longrightarrow> settled (ie_source env n) (map_of ms (conv_of n))"
  shows "foldl (ingest_one env cat ms) s ns = ((fst s)\<lparr>AlreadyUpToDate := AlreadyUpToDate (fst s) + length ns\<rparr>, snd s)"
  using assms(2)
proof (induction ns arbitrary: s)
  case (Cons n ns)
  then show ?case using ingest_one_skips [OF assms(1), of n ms cat s] by simp
qed simp

lemma Discover_suffix: "Discover es = Some names \<Longrightarrow> n \<in> set names \<Longrightarrow> suffix ''.db'' n"
  by (auto simp: Discover_def split: option.splits)

lemma Ingest_scanned:
  assumes "Ingest env l = (e, Some st, l')" and "Discover (ie_entries env) = Some names"
  shows "\<exists>cat l1 s. sync_phase env l = Inr (cat, l1)
    \<and> foldl (ingest_one env cat (GetManifests l1)) (empty_stats (length names), l1) names = (s, l')
    \<and> (st = s \<or> (\<exists>n. st = s\<lparr>StatsTotalRecords := n\<rparr>)) \<and> (e = None \<longrightarrow> FailedCount s = 0)"
  using assms by (auto simp: Ingest_def Let_def split: option.splits if_splits sum.splits prod.splits)

section \<open>Properties\<close>

text \<open>A commit replaces the conversation and nothing else: its old rows are gone, every
  token-bearing record is there in normalised form, and the rows of all other conversations stay as
  they were.\<close>

theorem commit_replaces_conversation:
  assumes "CommitIngest fault now m rs l = Inr l'"
  shows "filter (\<lambda>x. ConversationID (usage x) \<noteq> MConversationID m) (usage_records l')
      = filter (\<lambda>x. ConversationID (usage x) \<noteq> MConversationID m) (usage_records l)
    \<and> map usage (filter (\<lambda>x. ConversationID (usage x) = MConversationID m) (usage_records l'))
      = filter IsTokenBearing (map Normalize rs)"
proof -
  have c: "ConversationID (usage x) = MConversationID m" if "x \<in> set (new_rows now rs)"
    "list_all (\<lambda>r. ConversationID r = MConversationID m) rs" for x
    using that by (auto simp: new_rows_def list_all_iff)
  have u: "map usage (new_rows now rs) = filter IsTokenBearing (map Normalize rs)"
    by (simp add: new_rows_def comp_def)
  show ?thesis
    by (rule CommitIngest_cases [OF assms]) (simp add: u filter_id_conv filter_empty_conv c)
qed

text \<open>C5: Every ledger that runs of the ingestion can make from an empty one, whatever the sources,
  failures and catalogues, passes the checks of Verify: no duplicate generation, no completed manifest
  with another number of rows, no output below its parts, and a wrong total only where the sum of the
  three counters passes 64 bits.\<close>

theorem ledger_verifies:
  assumes "ledger_reachable l"
  shows "DuplicateGenerations (Verify ok l) = 0 \<and> MismatchedManifestCount (Verify ok l) = 0
    \<and> DiscrepantOutputTokens (Verify ok l) = 0
    \<and> (VValid (Verify ok l) \<longleftrightarrow> ok \<and> list_all (\<lambda>x. true_total x < 2 ^ 64) (usage_records l))"
proof -
  have l: "ledger_inv l" by (rule ledger_reachable_inv [OF assms])
  then have rows: "list_all row_ok (usage_records l)"
    and d: "duplicate_ids (usage_records l) = []" by (simp_all add: ledger_inv_def table_ok_def no_duplicates)
  have o: "count_rows discrepant_output (usage_records l) = 0"
    using rows row_ok_output by (auto simp: count_rows_zero list_all_iff)
  have t: "count_rows discrepant_total (usage_records l) = 0 \<longleftrightarrow> list_all (\<lambda>x. true_total x < 2 ^ 64) (usage_records l)"
    using rows row_ok_total by (auto simp: count_rows_zero list_all_iff not_le)
  show ?thesis using d o t none_mismatched [OF l] by (simp add: Verify_def Let_def count_rows_pos)
qed


text \<open>The groups of a summary partition the ledger: the totals by model, and those by project, add
  up to the overall totals in every counter, and each model or project of a row has one entry.\<close>

theorem summary_partitions:
  assumes "GetSummary l = Inr report"
  shows "add_totals (map snd (ByModel report)) = Overall report \<and> add_totals (map snd (ByProject report)) = Overall report
    \<and> distinct (map fst (ByModel report)) \<and> set (map fst (ByModel report)) = (\<lambda>x. Model (usage x)) ` set (usage_records l)
    \<and> distinct (map fst (ByProject report)) \<and> set (map fst (ByProject report)) = (\<lambda>x. ProjectID (usage x)) ` set (usage_records l)"
proof -
  have "report = \<lparr>Overall = token_totals (usage_records l), ByModel = grouped (\<lambda>x. Model (usage x)) (usage_records l),
      ByProject = grouped (\<lambda>x. ProjectID (usage x)) (usage_records l),
      Conversations = int (length (remdups (map (\<lambda>x. ConversationID (usage x)) (usage_records l))))\<rparr>"
    using assms by (simp add: GetSummary_def Let_def split: if_splits)
  then show ?thesis by (simp add: grouped_totals grouped_keys del: set_map)
qed

section \<open>A run from the bytes of a conversation\<close>

text \<open>One generation with five input tokens and the response id 1, as the client stores it.\<close>

definition demo_blob :: bytes where
  "demo_blob = [0x0A, 7, 0x22, 5, 0x10, 5, 0x5A, 1, 0x31]"

definition demo_gen :: GenEvent where
  "demo_gen = \<lparr>GenIndex = 0, GTimestamp = None, GModelName = [], GModelID = 0,
     GUsage = Some (zero_usage\<lparr>inputTokens := 5, responseID := [0x31]\<rparr>), GRetries = []\<rparr>"

lemmas wire_eval = maxVarintBytes_def decodeFields_def maxRecursionDepth_def maxWireLength_def
  fields_loop.simps [of "_ # _"] fields_loop.simps [of "[]"] decode_field_def decode_payload_def decodeVarint_def

lemma demo_parse: "ParseGenMetadata 0 demo_blob = Inr demo_gen"
  by (simp add: demo_blob_def demo_gen_def ParseGenMetadata_def gen_field_def chat_field_def parseModelUsage_def
      usage_field_def zero_usage_def wire_eval Let_def)

definition demo_db :: source_db where
  "demo_db = \<lparr>db_before = Some \<lparr>fi_size = 100, fi_mtime = 7\<rparr>, db_after = Some \<lparr>fi_size = 100, fi_mtime = 7\<rparr>,
     db_wal_size = None, db_open_error = False, db_trajectory = None, db_steps = Some [], db_gens = Some [(0, demo_blob)]\<rparr>"

definition demo_record :: UsageRecord where
  "demo_record = \<lparr>ConversationID = ''c'', GenerationID = ''response:1'', UStepIndex = 0, UTimestamp = mtime_time 7,
     WorkspaceURI = [], ProjectID = ''unknown'', Model = DefaultModel, ProviderID = 0, ResponseID = [0x31],
     ProviderAssignedMessageID = [], MessageID = [], InputTokens = 5, CacheReadTokens = 0, CacheCreationTokens = 0,
     VisibleOutputTokens = 0, ReasoningTokens = 0, TotalOutputTokens = 0, TotalTokens = 5\<rparr>"

lemma normalize_default: "NormalizeModel DefaultModel = DefaultModel"
  by (simp add: NormalizeModel_def DefaultModel_def trim_space_def leading_space_def space_seqs_def before_paren_def
      lower_char_def model_aliases_def go_simps)

lemma demo_normal: "Normalize demo_record = demo_record" "IsTokenBearing demo_record"
  by (simp_all add: Normalize_def demo_record_def normalize_default Let_def IsTokenBearing_def)

lemma demo_dedup:
  assumes "cid ctx = ''c''" "baseTimestamp ctx = mtime_time 7" "workspaceURI ctx = []" "projectID ctx = ''unknown''"
  shows "dedup_events ctx [] [demo_gen] = Inr [demo_record]"
proof -
  have l: "link_all [] [demo_gen] = Inr []" by code_simp
  have e: "conversation_events [] [demo_gen] =
      [\<lparr>ue_usage = zero_usage\<lparr>inputTokens := 5, responseID := [0x31]\<rparr>, ue_index = 0, ue_time = None, ue_model = [],
        ue_modelID = 0, ue_provider = 0\<rparr>]"
    by (simp add: conversation_events_def gen_events_def demo_gen_def event_usages_def bytes_string_def)
  let ?e = "\<lparr>ue_usage = zero_usage\<lparr>inputTokens := 5, responseID := [0x31]\<rparr>, ue_index = 0, ue_time = None, ue_model = [],
        ue_modelID = 0, ue_provider = 0\<rparr>"
  have b: "bearing [?e] = [?e]" by (simp add: bearing_def isTokenBearing_def zero_usage_def)
  have g: "generation_id ctx [] ?e = ''response:1''"
    using link_all_classes(1,3) [OF l]
    by (simp add: generation_id_eq primaryIdentity_def response_alias_def has_prefix_def bytes_string_def go_simps)
  have "new_record ctx ''response:1'' ?e = demo_record"
    using assms demo_normal(1)
    by (simp add: new_record_def Let_def event_time_def resolve_model_def resolve_provider_def zero_usage_def)
      (simp add: Normalize_def demo_record_def Let_def normalize_default)
  then show ?thesis using dedup_records [OF l, of ctx] by (simp add: e b insert_all_def g put_record_def)
qed

lemma demo_read:
  "ReadConversation ''c'' None demo_db = Inr \<lparr>rr_cid = ''c'', rr_records = [demo_record], rr_steps = 0, rr_gens = 0,
     rr_size = 100, rr_mtime = 7, rr_fingerprint = fingerprint_of \<lparr>fi_size = 100, fi_mtime = 7\<rparr> 0 0,
     rr_complete = True, rr_status = ''completed''\<rparr>"
  by (simp add: ReadConversation_def demo_db_def parse_rows_def demo_parse demo_dedup base_time_def highest_index_def Let_def
      demo_blob_def [symmetric]) (simp add: demo_blob_def)

definition demo_env :: ingest_env where
  "demo_env = \<lparr>ie_force = False, ie_now = Some (1000, 0), ie_dir = ''/db'', ie_entries = Some [(''c.db'', False), (''c.db-wal'', False)],
     ie_source = (\<lambda>n. \<lparr>src_stat = Some \<lparr>fi_size = 100, fi_mtime = 7\<rparr>, src_wal = None, src_db = demo_db, src_error = [],
       src_commit_fault = False, src_mark_fault = False\<rparr>),
     ie_std = \<lparr>json_strings = (\<lambda>s. None), parse_time = (\<lambda>l s. None)\<rparr>, ie_summaries = ''/s'',
     ie_summaries_stat = NotExist, ie_summaries_wal = NotExist, ie_catalog_rows = None, ie_open_fault = False,
     ie_sync_fault = False, ie_read_fault = False\<rparr>"

lemma demo_names: "Discover (ie_entries demo_env) = Some [''c.db'']"
  by (simp add: demo_env_def Discover_def suffix_def)

lemma demo_conv: "conv_of ''c.db'' = ''c''"
  by (simp add: trim_suffix_def suffix_def)

lemma demo_insert: "insert_usage now demo_record [] = Inr [\<lparr>usage = demo_record, row_created_at = now\<rparr>]"
  by (simp add: insert_usage_def stored_words_def demo_record_def)

lemma demo_commit_record:
  "commit_record ''c'' now ([], None, None) demo_record
     = Inr ([\<lparr>usage = demo_record, row_created_at = now\<rparr>], Some (mtime_time 7), Some (mtime_time 7))"
proof -
  have "ConversationID demo_record = ''c''" "UTimestamp demo_record = mtime_time 7" by (simp_all add: demo_record_def)
  then show ?thesis by (simp add: commit_record_def demo_normal demo_insert Let_def)
qed

definition demo_ledger :: ledger where
  "demo_ledger = snd (snd (Ingest demo_env empty_ledger))"

lemma demo_run:
  "\<exists>st. Ingest demo_env empty_ledger = (None, Some st, demo_ledger)
    \<and> usage_records demo_ledger = [\<lparr>usage = demo_record, row_created_at = Some (1000, 0)\<rparr>]"
proof -
  have t: "TotalTokens demo_record = 5" by (simp add: demo_record_def)
  have src: "src_stat (ie_source demo_env n) = Some \<lparr>fi_size = 100, fi_mtime = 7\<rparr>" "src_db (ie_source demo_env n) = demo_db"
    "\<not> src_commit_fault (ie_source demo_env n)" "ie_now demo_env = Some (1000, 0)" for n
    by (simp_all add: demo_env_def)
  have sync: "sync_phase demo_env empty_ledger = Inr ([], empty_ledger)" "\<not> ie_open_fault demo_env" "\<not> ie_read_fault demo_env"
    by (simp_all add: demo_env_def sync_phase_def empty_ledger_def)
  have one: "\<exists>l st. ingest_one demo_env [] [] (empty_stats 1, empty_ledger) ''c.db'' = (st, l) \<and> FailedCount st = 0
      \<and> usage_records l = [\<lparr>usage = demo_record, row_created_at = Some (1000, 0)\<rparr>]"
    by (simp add: ingest_one_def src demo_conv demo_read CommitIngest_def demo_commit_record manifest_of_def empty_ledger_def
        ingested_def empty_stats_def Let_def)
  have g: "GetManifests empty_ledger = []" by (simp add: GetManifests_def empty_ledger_def)
  from one obtain l st where l: "ingest_one demo_env [] [] (empty_stats 1, empty_ledger) ''c.db'' = (st, l)"
    "FailedCount st = 0" "usage_records l = [\<lparr>usage = demo_record, row_created_at = Some (1000, 0)\<rparr>]" by blast
  have "\<exists>st. Ingest demo_env empty_ledger = (None, Some st, l)"
    using l by (simp add: Ingest_def demo_names sync g GetStatus_def sum_column_def t Let_def)
  then show ?thesis using l(3) by (auto simp: demo_ledger_def)
qed

theorem commit_replaces_conversation_witness:
  "\<exists>l. CommitIngest False None (failed_manifest None ''c'' [] []) [demo_record, demo_record\<lparr>GenerationID := ''x'', InputTokens := 0\<rparr>]
       demo_ledger = Inr l
     \<and> map usage (filter (\<lambda>x. ConversationID (usage x) = ''c'') (usage_records l)) = [demo_record]"
proof -
  let ?m = "failed_manifest None ''c'' [] []" and ?z = "demo_record\<lparr>GenerationID := ''x'', InputTokens := 0\<rparr>"
  have rows: "usage_records demo_ledger = [\<lparr>usage = demo_record, row_created_at = Some (1000, 0)\<rparr>]"
    using demo_run by blast
  have c: "ConversationID demo_record = ''c''" "ConversationID ?z = ''c''" by (simp_all add: demo_record_def)
  have z: "\<not> IsTokenBearing (Normalize ?z)"
    by (simp add: Normalize_def demo_record_def normalize_default Let_def IsTokenBearing_def)
  have "commit_record ''c'' None s ?z = Inr s" for s
    using z c by (cases s) (simp add: commit_record_def Let_def)
  then obtain l where l: "CommitIngest False None ?m [demo_record, ?z] demo_ledger = Inr l"
    by (simp add: CommitIngest_def failed_manifest_def rows c demo_commit_record Let_def)
  have m: "MConversationID ?m = ''c''" by (simp add: failed_manifest_def)
  show ?thesis using l commit_replaces_conversation [OF l] z by (simp add: m demo_normal)
qed

theorem ledger_verifies_witness:
  "DuplicateGenerations (Verify True demo_ledger) = 0 \<and> VValid (Verify True demo_ledger) \<and> usage_records demo_ledger \<noteq> []"
proof -
  have rows: "usage_records demo_ledger = [\<lparr>usage = demo_record, row_created_at = Some (1000, 0)\<rparr>]"
    using demo_run by blast
  have "ledger_reachable demo_ledger" unfolding demo_ledger_def by (rule ledger_ingest [OF ledger_new])
  from ledger_verifies [OF this, of True] show ?thesis by (simp add: rows true_total_def demo_record_def)
qed


theorem summary_partitions_witness:
  "\<exists>report. GetSummary demo_ledger = Inr report \<and> SumInput (add_totals (map snd (ByModel report))) = 5"
proof -
  have rows: "usage_records demo_ledger = [\<lparr>usage = demo_record, row_created_at = Some (1000, 0)\<rparr>]"
    using demo_run by blast
  obtain report where r: "GetSummary demo_ledger = Inr report" and o: "SumInput (Overall report) = 5"
    by (simp add: GetSummary_def rows fits_sql_def token_totals_def sum_column_def demo_record_def Let_def)
  show ?thesis using summary_partitions [OF r] r o by simp
qed

end
