(* ===== verification/Paths.thy ===== *)
theory Paths
  imports Prelude
begin

text \<open>
  The lexical functions of package path/filepath on Unix: Clean, Join, IsAbs, Base, Ext and IsLocal.
\<close>

definition IsAbs :: "string \<Rightarrow> bool" where
  "IsAbs p \<longleftrightarrow> has_prefix p ''/''"

text \<open>The elements kept so far are a stack with the last one on top.\<close>

definition clean_step :: "bool \<Rightarrow> string list \<Rightarrow> string \<Rightarrow> string list" where
  "clean_step rooted out w =
     (if w = [] \<or> w = ''.'' then out
      else if w = ''..'' then
        (case out of
           [] \<Rightarrow> if rooted then [] else [w]
         | v # vs \<Rightarrow> if v = ''..'' then w # out else vs)
      else w # out)"

definition Clean :: "string \<Rightarrow> string" where
  "Clean p =
     (let body = join ''/'' (rev (foldl (clean_step (IsAbs p)) [] (split_on (CHR ''/'') p)))
      in if IsAbs p then CHR ''/'' # body else if body = [] then ''.'' else body)"

definition Join :: "string list \<Rightarrow> string" where
  "Join ws = (let ne = filter (\<lambda>w. w \<noteq> []) ws in if ne = [] then [] else Clean (join ''/'' ne))"

definition Base :: "string \<Rightarrow> string" where
  "Base p =
     (if p = [] then ''.''
      else let q = trim_right_char (CHR ''/'') p
           in if q = [] then ''/'' else last (split_on (CHR ''/'') q))"

definition Ext :: "string \<Rightarrow> string" where
  "Ext p =
     (let ws = split_on (CHR ''.'') (last (split_on (CHR ''/'') p))
      in if length ws = 1 then [] else CHR ''.'' # last ws)"

fun stays_within :: "nat \<Rightarrow> string list \<Rightarrow> bool" where
  "stays_within d [] \<longleftrightarrow> True"
| "stays_within d (w # ws) \<longleftrightarrow>
     (if w = [] \<or> w = ''.'' then stays_within d ws
      else if w = ''..'' then (case d of 0 \<Rightarrow> False | Suc e \<Rightarrow> stays_within e ws)
      else stays_within (Suc d) ws)"

definition IsLocal :: "string \<Rightarrow> bool" where
  "IsLocal p \<longleftrightarrow> p \<noteq> [] \<and> \<not> IsAbs p \<and> stays_within 0 (split_on (CHR ''/'') p)"

section \<open>Clean paths\<close>

lemma split_no_sep: "sep \<notin> set s \<Longrightarrow> split_on sep s = [s]"
  by (induction s) auto

lemma split_on_parts: "w \<in> set (split_on sep s) \<Longrightarrow> sep \<notin> set w"
  by (induction s arbitrary: w) (auto split: if_splits list.splits)

lemma split_on_append_sep: "sep \<notin> set w \<Longrightarrow> split_on sep (w @ sep # s) = w # split_on sep s"
  by (induction w) auto

lemma split_on_join:
  "ws \<noteq> [] \<Longrightarrow> list_all (\<lambda>w. sep \<notin> set w) ws \<Longrightarrow> split_on sep (join [sep] ws) = ws"
proof (induction ws rule: induct_list012)
  case (2 w)
  then show ?case by (simp add: split_no_sep)
next
  case (3 v w ws)
  then show ?case by (simp add: split_on_append_sep)
qed simp

text \<open>A stack in clean form: only real names, above leading parent steps when the path is relative.\<close>

definition clean_name :: "string \<Rightarrow> bool" where
  "clean_name w \<longleftrightarrow> w \<noteq> [] \<and> w \<noteq> ''.'' \<and> w \<noteq> ''..'' \<and> CHR ''/'' \<notin> set w"

definition clean_stack :: "bool \<Rightarrow> string list \<Rightarrow> bool" where
  "clean_stack rooted out \<longleftrightarrow>
     (\<exists>names ups. out = names @ ups \<and> list_all clean_name names \<and> list_all (\<lambda>w. w = ''..'') ups \<and> (rooted \<longrightarrow> ups = []))"

lemma clean_stack_step:
  assumes "clean_stack rooted out" and "CHR ''/'' \<notin> set w"
  shows "clean_stack rooted (clean_step rooted out w)"
proof -
  obtain names ups where o: "out = names @ ups" "list_all clean_name names" "list_all (\<lambda>w. w = ''..'') ups"
    "rooted \<longrightarrow> ups = []" using assms(1) by (auto simp: clean_stack_def)
  consider "w = [] \<or> w = ''.''" | "w = ''..''" "names = []" | v ns where "w = ''..''" "names = v # ns"
    | "clean_name w" using assms(2) by (cases names) (auto simp: clean_name_def)
  then show ?thesis
  proof cases
    case 1
    then show ?thesis using assms(1) by (auto simp: clean_step_def)
  next
    case 2
    then have "clean_step rooted out w = (if rooted then [] else w # ups)"
      using o by (auto simp: clean_step_def split: list.splits)
    then show ?thesis using o 2 unfolding clean_stack_def
      by (intro exI [of _ "[]"] exI [of _ "if rooted then [] else w # ups"]) simp
  next
    case 3
    then have "clean_step rooted out w = ns @ ups" using o by (auto simp: clean_step_def clean_name_def)
    then show ?thesis using o 3 unfolding clean_stack_def by (intro exI [of _ ns] exI [of _ ups]) simp
  next
    case 4
    then have "clean_step rooted out w = (w # names) @ ups" using o by (auto simp: clean_step_def clean_name_def)
    then show ?thesis using o 4 unfolding clean_stack_def by (intro exI [of _ "w # names"] exI [of _ ups]) simp
  qed
qed

lemma clean_stack_fold:
  "clean_stack rooted out \<Longrightarrow> list_all (\<lambda>w. CHR ''/'' \<notin> set w) ws \<Longrightarrow> clean_stack rooted (foldl (clean_step rooted) out ws)"
  by (induction ws arbitrary: out) (simp_all add: clean_stack_step)

text \<open>Cleaning the elements of a clean stack gives the same stack.\<close>

lemma clean_fold_ups: "list_all (\<lambda>w. w = ''..'') ups \<Longrightarrow> foldl (clean_step False) [] (rev ups) = ups"
proof (induction ups)
  case (Cons u us)
  then show ?case by (cases us) (simp_all add: clean_step_def)
qed simp

lemma clean_fold_names:
  "list_all clean_name names \<Longrightarrow> foldl (clean_step rooted) out (rev names) = names @ out"
  by (induction names) (simp_all add: clean_step_def clean_name_def)

lemma clean_fold_stack: "clean_stack rooted out \<Longrightarrow> foldl (clean_step rooted) [] (rev out) = out"
proof -
  assume "clean_stack rooted out"
  then obtain names ups where o: "out = names @ ups" "list_all clean_name names" "list_all (\<lambda>w. w = ''..'') ups"
    "rooted \<longrightarrow> ups = []" by (auto simp: clean_stack_def)
  have "foldl (clean_step rooted) [] (rev ups) = ups" using o clean_fold_ups by (cases rooted) auto
  then show ?thesis using o clean_fold_names by simp
qed

lemma clean_stack_elements: "clean_stack rooted out \<Longrightarrow> list_all (\<lambda>w. CHR ''/'' \<notin> set w \<and> w \<noteq> []) out"
proof -
  assume "clean_stack rooted out"
  then obtain names ups where o: "out = names @ ups" "list_all clean_name names" "list_all (\<lambda>w. w = ''..'') ups"
    by (auto simp: clean_stack_def)
  have "list_all (\<lambda>w. CHR ''/'' \<notin> set w \<and> w \<noteq> []) names"
    by (rule list.pred_mono_strong [OF o(2)]) (simp add: clean_name_def)
  moreover have "list_all (\<lambda>w. CHR ''/'' \<notin> set w \<and> w \<noteq> []) ups"
    by (rule list.pred_mono_strong [OF o(3)]) simp
  ultimately show ?thesis by (simp add: o(1))
qed

lemma join_nonempty: "ws \<noteq> [] \<Longrightarrow> list_all (\<lambda>w. w \<noteq> []) ws \<Longrightarrow> join sep ws \<noteq> []"
  by (induction ws rule: induct_list012) auto

lemma join_no_slash_prefix:
  "list_all (\<lambda>w. CHR ''/'' \<notin> set w \<and> w \<noteq> []) ws \<Longrightarrow> \<not> has_prefix (join ''/'' ws) ''/''"
proof (induction ws rule: induct_list012)
  case (2 w)
  then show ?case by (cases w) (auto simp: has_prefix_def)
next
  case (3 v w ws)
  then show ?case by (cases v) (auto simp: has_prefix_def)
qed (simp add: has_prefix_def)

lemma Clean_idem [simp]: "Clean (Clean p) = Clean p"
proof -
  define out where "out = foldl (clean_step (IsAbs p)) [] (split_on (CHR ''/'') p)"
  have cs: "clean_stack (IsAbs p) out" unfolding out_def
    by (rule clean_stack_fold) (auto simp: clean_stack_def list_all_iff dest: split_on_parts)
  have el: "list_all (\<lambda>w. CHR ''/'' \<notin> set w \<and> w \<noteq> []) (rev out)" using clean_stack_elements [OF cs] by (simp add: list_all_iff)
  let ?body = "join ''/'' (rev out)"
  have c: "Clean p = (if IsAbs p then CHR ''/'' # ?body else if ?body = [] then ''.'' else ?body)"
    by (simp add: Clean_def out_def Let_def)
  have parts: "split_on (CHR ''/'') ?body = (if out = [] then [[]] else rev out)"
    using split_on_join [of "rev out" "CHR ''/''"] el by (auto simp: list_all_iff)
  have fold: "foldl (clean_step (IsAbs p)) [] (split_on (CHR ''/'') ?body) = out"
    using clean_fold_stack [OF cs] by (simp add: parts clean_step_def)
  show ?thesis
  proof (cases "IsAbs p")
    case True
    let ?q = "CHR ''/'' # ?body"
    have q: "Clean p = ?q" "IsAbs ?q" using True by (simp_all add: c IsAbs_def has_prefix_def)
    have "Clean ?q = ?q" using q(2) fold True by (simp add: Clean_def [of ?q] clean_step_def)
    then show ?thesis by (simp add: q(1))
  next
    case rel: False
    show ?thesis
    proof (cases "out = []")
      case True
      then have "Clean p = ''.''" using rel by (simp add: c)
      then show ?thesis by (simp add: Clean_def IsAbs_def has_prefix_def clean_step_def)
    next
      case False
      then have ne: "?body \<noteq> []" using el by (intro join_nonempty) (auto simp: list_all_iff)
      then have q: "Clean p = ?body" using rel by (simp add: c)
      have "\<not> IsAbs ?body" using join_no_slash_prefix [OF el] by (simp add: IsAbs_def)
      then have "Clean ?body = ?body" using ne fold rel by (simp add: Clean_def [of ?body])
      then show ?thesis by (simp add: q)
    qed
  qed
qed

end
