(* ===== verification/Inventory.thy ===== *)
theory Inventory
  imports Paths Wire "HOL-Library.List_Lexorder" "HOL-Library.Char_ord"
begin

text \<open>
  internal/inventory/inventory.go: the observation of one source file. What the operating system and
  SQLite answer is a record of the environment, in the order the code asks; SHA-256 is an argument.
  The entry is filled as the code goes, so an error leaves the fields that were set before it.
\<close>

section \<open>Times and digests\<close>

text \<open>A time.Time is its instant in nanoseconds and the offset of its location in seconds.\<close>

record wtime =
  wnanos :: int
  woffset :: int

definition zero_time :: wtime where
  "zero_time = \<lparr>wnanos = - 62135596800 * 1000000000, woffset = 0\<rparr>"

definition utc :: "wtime \<Rightarrow> wtime" where
  "utc t = t\<lparr>woffset := 0\<rparr>"

definition before :: "wtime \<Rightarrow> wtime \<Rightarrow> bool" where
  "before a b \<longleftrightarrow> wnanos a < wnanos b"

definition same_instant :: "wtime \<Rightarrow> wtime \<Rightarrow> bool" where
  "same_instant a b \<longleftrightarrow> wnanos a = wnanos b"

definition hex_digit :: "nat \<Rightarrow> char" where
  "hex_digit d = (if d < 10 then byte (48 + d) else byte (87 + d))"

definition hex_encode :: "bytes \<Rightarrow> string" where
  "hex_encode bs = concat (map (\<lambda>b. [hex_digit (unat b div 16), hex_digit (unat b mod 16)]) bs)"

definition is_hex :: "char \<Rightarrow> bool" where
  "is_hex c \<longleftrightarrow> (48 \<le> code c \<and> code c \<le> 57) \<or> (97 \<le> code c \<and> code c \<le> 102) \<or> (65 \<le> code c \<and> code c \<le> 70)"

text \<open>hex.DecodeString succeeds with 32 bytes after the prefix.\<close>

definition validID :: "string \<Rightarrow> bool" where
  "validID i \<longleftrightarrow> has_prefix i ''sha256:'' \<and> list_all is_hex (drop 7 i) \<and> length (drop 7 i) = 64"

section \<open>Entries\<close>

record Entry =
  e_name :: string
  SourceID :: string
  PathRef :: string
  Size :: int
  Mtime :: wtime
  Schema :: string
  UserVersion :: int
  SchemaVersion :: int
  Steps :: "int option"
  Generations :: "int option"
  Blockers :: "string list"

record file_stat =
  fs_identity :: nat \<comment> \<open>device and inode\<close>
  fs_regular :: bool
  fs_size :: int
  fs_mtime :: wtime
  fs_mode :: nat

definition unchanged :: "file_stat \<Rightarrow> file_stat \<Rightarrow> bool" where
  "unchanged a b \<longleftrightarrow> fs_identity a = fs_identity b \<and> fs_size a = fs_size b \<and> fs_mtime a = fs_mtime b \<and> fs_mode a = fs_mode b"

definition same_file :: "file_stat \<Rightarrow> file_stat option \<Rightarrow> bool" where
  "same_file a x \<longleftrightarrow> (case x of None \<Rightarrow> False | Some b \<Rightarrow> unchanged a b)"

text \<open>Whether the three sidecar names are absent, as one Lstat each says.\<close>

definition sidecars :: "bool \<times> bool \<times> bool \<Rightarrow> string option" where
  "sidecars s = (case s of (wal, shm, journal) \<Rightarrow>
     if wal \<and> shm \<and> journal then None else Some ''sidecar_present_or_unreadable'')"

section \<open>The private copy\<close>

record db_answers =
  q_open :: bool
  q_integrity :: "string option"
  q_user_version :: "int option"
  q_schema_version :: "int option"
  q_tables :: "int option"
  q_main_tables :: "int option"
  q_columns :: "string \<Rightarrow> (string \<times> string \<times> int) list option" \<comment> \<open>None when the query or a row fails\<close>
  q_steps :: "int option"
  q_gens :: "int option"

definition expected_tables :: "(string \<times> string list) list" where
  "expected_tables =
     [(''steps'', [''idx:INTEGER:1'', ''step_type:INTEGER:0'', ''status:INTEGER:0'', ''has_subtrajectory:numeric:0'',
                   ''metadata:BLOB:0'']),
      (''gen_metadata'', [''idx:INTEGER:1'', ''data:BLOB:0'', ''size:INTEGER:0'']),
      (''trajectory_metadata_blob'', [''id:TEXT:1'', ''data:BLOB:0''])]"

definition column_text :: "string \<times> string \<times> int \<Rightarrow> string" where
  "column_text c = (case c of (n, t, pk) \<Rightarrow> n @ '':'' @ t @ '':'' @ int_string pk)"

text \<open>strings.EqualFold on column descriptions, which are compared with ASCII text.\<close>

definition equal_fold :: "string \<Rightarrow> string \<Rightarrow> bool" where
  "equal_fold a b \<longleftrightarrow> to_lower a = to_lower b"

fun check_tables :: "db_answers \<Rightarrow> (string \<times> string list) list \<Rightarrow> Entry \<Rightarrow> Entry \<times> string option" where
  "check_tables db [] e = (e, None)"
| "check_tables db ((table, want) # ts) e =
     (case q_columns db table of
        None \<Rightarrow> (e, Some ''sqlite_schema_failed'')
      | Some cols \<Rightarrow>
          if \<not> equal_fold (join ''|'' (map column_text cols)) (join ''|'' want)
          then (e\<lparr>Schema := ''unsupported''\<rparr>, Some ''unsupported_schema'')
          else check_tables db ts e)"

definition inspectSnapshot :: "db_answers \<Rightarrow> Entry \<Rightarrow> Entry \<times> string option" where
  "inspectSnapshot db e =
     (if \<not> q_open db then (e, Some ''sqlite_open_failed'')
      else if q_integrity db \<noteq> Some ''ok'' then (e, Some ''sqlite_integrity_failed'')
      else case q_user_version db of None \<Rightarrow> (e, Some ''sqlite_metadata_failed'') | Some uv \<Rightarrow>
      (let e1 = e\<lparr>UserVersion := uv\<rparr>
       in case q_schema_version db of None \<Rightarrow> (e1, Some ''sqlite_metadata_failed'') | Some sv \<Rightarrow>
       (let e2 = e1\<lparr>SchemaVersion := sv\<rparr>
        in case q_tables db of None \<Rightarrow> (e2, Some ''sqlite_schema_failed'') | Some n \<Rightarrow>
        if n \<noteq> 3 \<or> uv \<noteq> 0 then (e2\<lparr>Schema := ''unsupported''\<rparr>, Some ''unsupported_schema'')
        else if q_main_tables db \<noteq> Some 3 then (e2\<lparr>Schema := ''unsupported''\<rparr>, Some ''unsupported_schema'')
        else case check_tables db expected_tables e2 of
               (e3, Some err) \<Rightarrow> (e3, Some err)
             | (e3, None) \<Rightarrow>
                 (case (q_steps db, q_gens db) of
                    (Some s, Some g) \<Rightarrow>
                      (e3\<lparr>Schema := ''tokei_fixture_v1'', Steps := Some s, Generations := Some g\<rparr>, None)
                  | _ \<Rightarrow> (e3, Some ''sqlite_count_failed'')))))"

section \<open>The guarded copy\<close>

record observation =
  ob_stopped :: bool \<comment> \<open>the context ended before the name was reached\<close>
  ob_cancelled :: bool
  ob_before :: "file_stat option"
  ob_sidecars_before :: "bool \<times> bool \<times> bool"
  ob_opened :: bool
  ob_open_stat :: "file_stat option"
  ob_temp :: bool
  ob_create :: bool
  ob_first_read :: "bytes option" \<comment> \<open>at most one byte more than the size; None when copy or close fails\<close>
  ob_seek :: bool
  ob_second_read :: "bytes option"
  ob_after_stat :: "file_stat option"
  ob_path_stat :: "file_stat option"
  ob_sidecars_after :: "bool \<times> bool \<times> bool"
  ob_db :: db_answers
  ob_last_stat :: "file_stat option"
  ob_sidecars_last :: "bool \<times> bool \<times> bool"
  ob_cleanup :: bool

definition digest_of :: "(bytes \<Rightarrow> bytes) \<Rightarrow> bytes \<Rightarrow> string" where
  "digest_of sha b = hex_encode (sha b)"

text \<open>From the snapshot directory on; the deferred removal decides the error when it fails.\<close>

definition read_guarded ::
  "(bytes \<Rightarrow> bytes) \<Rightarrow> observation \<Rightarrow> file_stat \<Rightarrow> (db_answers \<Rightarrow> Entry \<Rightarrow> Entry \<times> string option) \<Rightarrow> Entry \<Rightarrow> Entry \<times> string option" where
  "read_guarded sha ob st inspect e =
     (if \<not> ob_create ob then (e, Some ''snapshot_create_failed'')
      else case ob_first_read ob of None \<Rightarrow> (e, Some ''snapshot_copy_failed'') | Some content \<Rightarrow>
      if int (length content) \<noteq> fs_size st then (e, Some ''snapshot_copy_failed'')
      else if \<not> ob_seek ob then (e, Some ''source_read_failed'')
      else case ob_second_read ob of None \<Rightarrow> (e, Some ''source_changed'') | Some again \<Rightarrow>
      if int (length again) \<noteq> fs_size st \<or> digest_of sha again \<noteq> digest_of sha content
         \<or> \<not> same_file st (ob_after_stat ob) \<or> \<not> same_file st (ob_path_stat ob)
      then (e, Some ''source_changed'')
      else case sidecars (ob_sidecars_after ob) of Some err \<Rightarrow> (e, Some err) | None \<Rightarrow>
        (case inspect (ob_db ob) (e\<lparr>SourceID := ''sha256:'' @ digest_of sha content\<rparr>) of
           (e1, Some err) \<Rightarrow> (e1, Some err)
         | (e1, None) \<Rightarrow>
             if \<not> same_file st (ob_last_stat ob) then (e1, Some ''source_changed'')
             else (e1, sidecars (ob_sidecars_last ob))))"

definition snapshot ::
  "(bytes \<Rightarrow> bytes) \<Rightarrow> observation \<Rightarrow> (db_answers \<Rightarrow> Entry \<Rightarrow> Entry \<times> string option) \<Rightarrow> Entry \<Rightarrow> Entry \<times> string option" where
  "snapshot sha ob inspect e0 =
     (if ob_cancelled ob then (e0, Some ''cancelled'')
      else case ob_before ob of None \<Rightarrow> (e0, Some ''source_missing_or_unreadable'') | Some st \<Rightarrow>
      if \<not> fs_regular st then (e0, Some ''source_not_regular'')
      else let e = e0\<lparr>Size := fs_size st, Mtime := utc (fs_mtime st)\<rparr>
           in if Size e = 0 then (e, Some ''empty_source'')
              else case sidecars (ob_sidecars_before ob) of Some err \<Rightarrow> (e, Some err) | None \<Rightarrow>
              if \<not> ob_opened ob then (e, Some ''source_open_failed'')
              else if \<not> same_file st (ob_open_stat ob) then (e, Some ''source_changed'')
              else if \<not> ob_temp ob then (e, Some ''snapshot_create_failed'')
              else let r = read_guarded sha ob st inspect e
                   in if ob_cleanup ob then r else (fst r, Some ''snapshot_cleanup_failed''))"

definition new_entry :: "(bytes \<Rightarrow> bytes) \<Rightarrow> string \<Rightarrow> string \<Rightarrow> Entry" where
  "new_entry sha dir name =
     \<lparr>e_name = name, SourceID = [], PathRef = ''path-sha256:'' @ digest_of sha (map (\<lambda>c. word_of_nat (code c)) (Join [dir, name])),
      Size = 0, Mtime = zero_time, Schema = ''unverified'', UserVersion = 0, SchemaVersion = 0, Steps = None,
      Generations = None, Blockers = [''activity_unverified'', ''ingest_unverified'', ''retention_not_evaluated'']\<rparr>"

definition Inspect :: "(bytes \<Rightarrow> bytes) \<Rightarrow> string \<Rightarrow> string \<Rightarrow> observation \<Rightarrow> Entry" where
  "Inspect sha dir name ob =
     (let e = new_entry sha dir name
      in if \<not> IsLocal name \<or> Base name \<noteq> name \<or> Ext name \<noteq> ''.db''
         then e\<lparr>Blockers := Blockers e @ [''invalid_source_name'']\<rparr>
         else case snapshot sha ob inspectSnapshot e of
                (e1, None) \<Rightarrow> e1
              | (e1, Some err) \<Rightarrow> e1\<lparr>Blockers := Blockers e1 @ [err]\<rparr>)"

text \<open>Scan inspects the .db names of the directory in order; observations come by name.\<close>

definition Scan :: "(bytes \<Rightarrow> bytes) \<Rightarrow> string \<Rightarrow> (string \<Rightarrow> observation) \<Rightarrow> string list option \<Rightarrow> string + Entry list" where
  "Scan sha dir obs names =
     (case names of
        None \<Rightarrow> Inl ''cannot list source directory''
      | Some ns \<Rightarrow>
          (let dbs = filter (\<lambda>n. Ext n = ''.db'') (sort ns)
           in if \<exists>n \<in> set dbs. ob_stopped (obs n) then Inl ''context ended''
              else Inr (map (\<lambda>n. Inspect sha dir n (obs n)) dbs)))"

section \<open>What an inspection proves\<close>

lemma hex_encode_valid: "length b = 32 \<Longrightarrow> validID (''sha256:'' @ hex_encode b)"
proof -
  assume l: "length b = 32"
  have d: "is_hex (hex_digit d)" if "d < 16" for d
    using that by (auto simp: hex_digit_def is_hex_def)
  have u: "unat x < 256" for x :: "8 word" using unsigned_less [of x, where 'a = nat] by simp
  have "is_hex (hex_digit (unat x div 16))" "is_hex (hex_digit (unat x mod 16))" for x :: "8 word"
    using u [of x] by (auto intro!: d)
  then have "list_all is_hex (hex_encode b)" unfolding hex_encode_def by (induction b) simp_all
  moreover have "length (hex_encode b) = 64"
  proof -
    have "length (hex_encode b) = 2 * length b" unfolding hex_encode_def by (induction b) auto
    then show ?thesis using l by simp
  qed
  ultimately show ?thesis by (simp add: validID_def has_prefix_def)
qed

lemma check_tables_ok: "check_tables db ts e = (e', None) \<Longrightarrow> e' = e"
  by (induction ts arbitrary: e) (auto split: option.splits if_splits)

lemma inspectSnapshot_ok:
  assumes "inspectSnapshot db e = (e', None)"
  shows "Schema e' = ''tokei_fixture_v1''" "SourceID e' = SourceID e" "Size e' = Size e" "Blockers e' = Blockers e"
    "q_integrity db = Some ''ok''"
  using assms
  by (auto simp: inspectSnapshot_def Let_def dest!: check_tables_ok split: option.splits if_splits prod.splits)

lemma check_tables_frame:
  "check_tables db ts e = (e', x) \<Longrightarrow> Blockers e' = Blockers e \<and> SourceID e' = SourceID e \<and> Size e' = Size e"
  by (induction ts arbitrary: e) (auto split: option.splits if_splits)

lemma inspectSnapshot_frame:
  "inspectSnapshot db e = (e', x) \<Longrightarrow> Blockers e' = Blockers e \<and> SourceID e' = SourceID e \<and> Size e' = Size e"
  by (auto simp: inspectSnapshot_def Let_def dest!: check_tables_frame split: option.splits if_splits prod.splits)

lemma read_guarded_frame:
  "read_guarded sha ob st inspectSnapshot e = (e', x) \<Longrightarrow> Blockers e' = Blockers e \<and> Size e' = Size e"
  by (auto simp: read_guarded_def dest!: inspectSnapshot_frame split: option.splits if_splits prod.splits)

lemma snapshot_frame: "Blockers (fst (snapshot sha ob inspectSnapshot e)) = Blockers e"
proof -
  have "Blockers (fst (read_guarded sha ob st inspectSnapshot e)) = Blockers e" for st e
    using read_guarded_frame [of sha ob st e] by (cases "read_guarded sha ob st inspectSnapshot e") simp
  then show ?thesis by (simp add: snapshot_def Let_def split: option.splits)
qed

text \<open>All that a source must have shown: the same regular file at every look, both readings with one
  digest, no sidecar at any time.\<close>

definition steady :: "(bytes \<Rightarrow> bytes) \<Rightarrow> observation \<Rightarrow> file_stat \<Rightarrow> bytes \<Rightarrow> bool" where
  "steady sha ob st content \<longleftrightarrow>
     ob_before ob = Some st \<and> fs_regular st
     \<and> list_all (same_file st) [ob_open_stat ob, ob_after_stat ob, ob_path_stat ob, ob_last_stat ob]
     \<and> list_all (\<lambda>s. sidecars s = None) [ob_sidecars_before ob, ob_sidecars_after ob, ob_sidecars_last ob]
     \<and> ob_first_read ob = Some content \<and> int (length content) = fs_size st
     \<and> (\<exists>again. ob_second_read ob = Some again \<and> digest_of sha again = digest_of sha content)"

lemma read_guarded_ok:
  assumes "read_guarded sha ob st inspectSnapshot e = (e', None)"
  shows "\<exists>content. ob_first_read ob = Some content \<and> int (length content) = fs_size st
    \<and> (\<exists>again. ob_second_read ob = Some again \<and> digest_of sha again = digest_of sha content)
    \<and> list_all (same_file st) [ob_after_stat ob, ob_path_stat ob, ob_last_stat ob]
    \<and> list_all (\<lambda>s. sidecars s = None) [ob_sidecars_after ob, ob_sidecars_last ob]
    \<and> SourceID e' = ''sha256:'' @ digest_of sha content \<and> Size e' = Size e
    \<and> Schema e' = ''tokei_fixture_v1'' \<and> q_integrity (ob_db ob) = Some ''ok''"
  using assms
  by (auto simp: read_guarded_def dest: inspectSnapshot_ok split: option.splits if_splits prod.splits)

lemma snapshot_ok:
  assumes "snapshot sha ob inspectSnapshot e = (e', None)"
  shows "\<exists>st content. steady sha ob st content \<and> SourceID e' = ''sha256:'' @ digest_of sha content
    \<and> Size e' = int (length content) \<and> 0 < length content \<and> Schema e' = ''tokei_fixture_v1''
    \<and> q_integrity (ob_db ob) = Some ''ok''"
proof -
  obtain st where st: "ob_before ob = Some st" "fs_regular st" "fs_size st \<noteq> 0" "sidecars (ob_sidecars_before ob) = None"
    "same_file st (ob_open_stat ob)"
    and r: "read_guarded sha ob st inspectSnapshot (e\<lparr>Size := fs_size st, Mtime := utc (fs_mtime st)\<rparr>) = (e', None)"
    using assms by (auto simp: snapshot_def Let_def split: option.splits if_splits)
  from read_guarded_ok [OF r] st show ?thesis unfolding steady_def by fastforce
qed

section \<open>Properties\<close>

text \<open>An entry without a blocker of its own was read from a source that held still: the digest it
  carries is that of the bytes copied, the second reading had the same digest, the file was the same
  at all five looks, no sidecar was ever seen, and the schema and integrity of the copy were right.\<close>

theorem unblocked_entry_is_steady:
  assumes "length (Blockers (Inspect sha dir name ob)) = 3" and "\<And>b. length (sha b) = 32"
  defines "e \<equiv> Inspect sha dir name ob"
  shows "\<exists>st content. steady sha ob st content \<and> SourceID e = ''sha256:'' @ digest_of sha content \<and> validID (SourceID e)
    \<and> Size e = int (length content) \<and> 0 < Size e \<and> Schema e = ''tokei_fixture_v1''
    \<and> q_integrity (ob_db ob) = Some ''ok''"
proof -
  have n: "length (Blockers (new_entry sha dir name)) = 3" by (simp add: new_entry_def)
  obtain e1 x where s: "snapshot sha ob inspectSnapshot (new_entry sha dir name) = (e1, x)"
    by (cases "snapshot sha ob inspectSnapshot (new_entry sha dir name)")
  then have "Blockers e1 = Blockers (new_entry sha dir name)"
    using snapshot_frame [of sha ob "new_entry sha dir name"] by simp
  then have x: "x = None" "e = e1" using assms(1) n s
    by (auto simp: e_def Inspect_def Let_def split: if_splits option.splits)
  obtain st content where sc: "steady sha ob st content" "SourceID e1 = ''sha256:'' @ digest_of sha content"
    "Size e1 = int (length content)" "0 < length content" "Schema e1 = ''tokei_fixture_v1''" "q_integrity (ob_db ob) = Some ''ok''"
    using snapshot_ok [OF s [unfolded x(1)]] by blast
  have "validID (SourceID e1)" unfolding sc(2) digest_of_def by (rule hex_encode_valid [OF assms(2)])
  then show ?thesis using sc unfolding x(2) by (intro exI [of _ st] exI [of _ content]) simp
qed

definition demo_sha :: "bytes \<Rightarrow> bytes" where
  "demo_sha b = replicate 32 (sum_list b)"

definition demo_stat :: file_stat where
  "demo_stat = \<lparr>fs_identity = 1, fs_regular = True, fs_size = 2, fs_mtime = \<lparr>wnanos = 5, woffset = 0\<rparr>, fs_mode = 0\<rparr>"

definition demo_observation :: observation where
  "demo_observation =
     \<lparr>ob_stopped = False, ob_cancelled = False, ob_before = Some demo_stat, ob_sidecars_before = (True, True, True),
      ob_opened = True, ob_open_stat = Some demo_stat, ob_temp = True, ob_create = True, ob_first_read = Some [1, 2],
      ob_seek = True, ob_second_read = Some [1, 2], ob_after_stat = Some demo_stat, ob_path_stat = Some demo_stat,
      ob_sidecars_after = (True, True, True),
      ob_db = \<lparr>q_open = True, q_integrity = Some ''ok'', q_user_version = Some 0, q_schema_version = Some 4, q_tables = Some 3,
        q_main_tables = Some 3,
        q_columns = (\<lambda>t. if t = ''steps'' then Some [(''idx'', ''INTEGER'', 1), (''step_type'', ''INTEGER'', 0),
            (''status'', ''INTEGER'', 0), (''has_subtrajectory'', ''numeric'', 0), (''metadata'', ''BLOB'', 0)]
          else if t = ''gen_metadata'' then Some [(''idx'', ''INTEGER'', 1), (''data'', ''BLOB'', 0), (''size'', ''INTEGER'', 0)]
          else Some [(''id'', ''TEXT'', 1), (''data'', ''BLOB'', 0)]),
        q_steps = Some 7, q_gens = Some 3\<rparr>,
      ob_last_stat = Some demo_stat, ob_sidecars_last = (True, True, True), ob_cleanup = True\<rparr>"

lemma demo_columns: "check_tables (ob_db demo_observation) expected_tables e = (e, None)"
proof -
  have "int_string 0 = ''0''" "int_string 1 = ''1''" by (simp_all add: int_string_def nat_string.simps digit_char_def go_simps)
  then show ?thesis by (simp add: expected_tables_def demo_observation_def equal_fold_def column_text_def)
qed

lemma demo_inspect: "length (Blockers (Inspect demo_sha ''/c'' ''a.db'' demo_observation)) = 3"
proof -
  have db: "q_open (ob_db demo_observation)" "q_integrity (ob_db demo_observation) = Some ''ok''"
    "q_user_version (ob_db demo_observation) = Some 0" "q_schema_version (ob_db demo_observation) = Some 4"
    "q_tables (ob_db demo_observation) = Some 3" "q_main_tables (ob_db demo_observation) = Some 3"
    "q_steps (ob_db demo_observation) = Some 7" "q_gens (ob_db demo_observation) = Some 3"
    by (simp_all add: demo_observation_def)
  have i: "inspectSnapshot (ob_db demo_observation) e = (e\<lparr>UserVersion := 0, SchemaVersion := 4, Schema := ''tokei_fixture_v1'',
      Steps := Some 7, Generations := Some 3\<rparr>, None)" for e
    by (simp add: inspectSnapshot_def db demo_columns Let_def)
  have f: "ob_before demo_observation = Some demo_stat" "\<not> ob_cancelled demo_observation"
    "ob_sidecars_before demo_observation = (True, True, True)" "ob_opened demo_observation" "ob_temp demo_observation"
    "ob_open_stat demo_observation = Some demo_stat" "ob_create demo_observation" "ob_first_read demo_observation = Some [1, 2]"
    "ob_seek demo_observation" "ob_second_read demo_observation = Some [1, 2]" "ob_after_stat demo_observation = Some demo_stat"
    "ob_path_stat demo_observation = Some demo_stat" "ob_sidecars_after demo_observation = (True, True, True)"
    "ob_last_stat demo_observation = Some demo_stat" "ob_sidecars_last demo_observation = (True, True, True)"
    "ob_cleanup demo_observation"
    by (simp_all add: demo_observation_def)
  have st: "fs_regular demo_stat" "fs_size demo_stat = 2" "same_file demo_stat (Some demo_stat)"
    by (simp_all add: demo_stat_def same_file_def unchanged_def)
  have s: "\<exists>e1. snapshot demo_sha demo_observation inspectSnapshot e = (e1, None) \<and> Blockers e1 = Blockers e" for e
    by (simp add: snapshot_def read_guarded_def f st i sidecars_def Let_def)
  have "IsLocal ''a.db''" "Base ''a.db'' = ''a.db''" "Ext ''a.db'' = ''.db''"
    by (simp_all add: IsLocal_def IsAbs_def has_prefix_def Base_def trim_right_char_def Ext_def)
  then show ?thesis using s [of "new_entry demo_sha ''/c'' ''a.db''"]
    by (auto simp: Inspect_def Let_def) (simp add: new_entry_def)
qed

theorem unblocked_entry_is_steady_witness:
  "Size (Inspect demo_sha ''/c'' ''a.db'' demo_observation) = 2"
proof -
  have "length (demo_sha b) = 32" for b by (simp add: demo_sha_def)
  from unblocked_entry_is_steady [OF demo_inspect this] show ?thesis
    by (auto simp: steady_def demo_observation_def)
qed

end
