(* ===== verification/Retention.thy ===== *)
theory Retention
  imports Inventory
begin

text \<open>
  internal/inventory/policy.go and plan.go: the retention decision of one source, the assessment of
  its ledger manifest, and the plan over all sources of a directory. A duration is a number of
  nanoseconds. The open string types of the code keep a constructor for any other value.
\<close>

section \<open>Inputs and decisions\<close>

datatype ActivityState = ActivityKnown | ActivityUnknown | ActivityAmbiguous | ActivityOther string

record Activity =
  AState :: ActivityState
  ALast :: "wtime option"

datatype IngestState = IngestVerified | IngestMissing | IngestPartial | IngestEvidenceGap | IngestMismatch
  | IngestStale | IngestUnsupported | IngestOther string

record IngestAssessment =
  IState :: IngestState
  ISourceID :: string
  Checkpoint :: wtime
  ActivityCovered :: "wtime option"

datatype SourceState = SourceVerified | SourceChanged | SourceFailed | SourceUnsupported | SourceOther string

datatype Blocker = BlockedActivityUnknown | BlockedActivityAmbiguous | BlockedActive
  | BlockedIncompleteIngestEvidence | BlockedIncompleteIngest | BlockedMissingIngestEvidence
  | BlockedStaleCheckpoint | BlockedUnsupportedEvidence | BlockedSourceChanged | BlockedVerificationFailed
  | BlockedUnsupportedSchema | BlockedRetentionUnset | BlockedRetentionInvalid | BlockedRetentionNotReached
  | BlockedEvaluationTime

record DecisionInput =
  in_SourceID :: string
  in_PathRef :: string
  in_Size :: int
  in_Activity :: Activity
  in_Ingest :: IngestAssessment
  in_Verification :: SourceState
  in_Retention :: "int option"
  in_Now :: wtime

record Decision =
  d_SourceID :: string
  d_PathRef :: string
  d_Activity :: Activity
  d_RetentionDeadline :: "wtime option"
  d_Ingest :: IngestAssessment
  d_IngestVerified :: bool
  d_SourceVerification :: SourceState
  d_SourceIssues :: "string list"
  d_SourceVerified :: bool
  d_Eligible :: bool
  d_ReclaimableBytes :: int
  d_Blockers :: "Blocker list"

text \<open>The year of a time in its own location lies in 1 to 9999.\<close>

definition validTime :: "wtime \<Rightarrow> bool" where
  "validTime t \<longleftrightarrow> wnanos t \<noteq> wnanos zero_time
     \<and> - 62135596800 \<le> wnanos t div 1000000000 + woffset t \<and> wnanos t div 1000000000 + woffset t < 253402300800"

definition ResolveActivity :: "wtime list \<Rightarrow> bool \<Rightarrow> Activity" where
  "ResolveActivity claims authoritative =
     (case claims of
        [] \<Rightarrow> \<lparr>AState = ActivityUnknown, ALast = None\<rparr>
      | c # cs \<Rightarrow>
          if \<not> authoritative \<or> \<not> list_all validTime claims then \<lparr>AState = ActivityUnknown, ALast = None\<rparr>
          else if \<not> list_all (same_instant c) cs then \<lparr>AState = ActivityAmbiguous, ALast = None\<rparr>
          else \<lparr>AState = ActivityKnown, ALast = Some (utc c)\<rparr>)"

section \<open>Evaluate\<close>

definition add_blocker :: "Blocker \<Rightarrow> Decision \<Rightarrow> Decision" where
  "add_blocker b d = (if b \<in> set (d_Blockers d) then d else d\<lparr>d_Blockers := d_Blockers d @ [b]\<rparr>)"

definition initial_decision :: "DecisionInput \<Rightarrow> Decision" where
  "initial_decision inp =
     \<lparr>d_SourceID = in_SourceID inp, d_PathRef = in_PathRef inp, d_Activity = in_Activity inp, d_RetentionDeadline = None,
      d_Ingest = in_Ingest inp, d_IngestVerified = False, d_SourceVerification = in_Verification inp, d_SourceIssues = [],
      d_SourceVerified = False, d_Eligible = False, d_ReclaimableBytes = 0, d_Blockers = []\<rparr>"

definition check_now :: "DecisionInput \<Rightarrow> Decision \<Rightarrow> Decision" where
  "check_now inp d = (if validTime (in_Now inp) then d else add_blocker BlockedEvaluationTime d)"

definition check_source :: "DecisionInput \<Rightarrow> Decision \<Rightarrow> Decision" where
  "check_source inp d =
     (case in_Verification inp of
        SourceVerified \<Rightarrow>
          if validID (in_SourceID inp) \<and> 0 \<le> in_Size inp then d\<lparr>d_SourceVerified := True\<rparr>
          else add_blocker BlockedVerificationFailed d
      | SourceChanged \<Rightarrow> add_blocker BlockedSourceChanged d
      | SourceUnsupported \<Rightarrow> add_blocker BlockedUnsupportedSchema d
      | _ \<Rightarrow> add_blocker BlockedVerificationFailed d)"

definition check_activity :: "DecisionInput \<Rightarrow> Decision \<Rightarrow> Decision" where
  "check_activity inp d =
     (case AState (in_Activity inp) of
        ActivityKnown \<Rightarrow>
          (case ALast (in_Activity inp) of
             None \<Rightarrow> add_blocker BlockedActivityUnknown d
           | Some l \<Rightarrow>
               if \<not> validTime l then add_blocker BlockedActivityUnknown d
               else let d1 = d\<lparr>d_Activity := (d_Activity d)\<lparr>ALast := Some (utc l)\<rparr>\<rparr>
                    in if before (in_Now inp) (utc l) then add_blocker BlockedActive d1 else d1)
      | ActivityAmbiguous \<Rightarrow> add_blocker BlockedActivityAmbiguous d
      | _ \<Rightarrow> add_blocker BlockedActivityUnknown d)"

definition check_ingest :: "DecisionInput \<Rightarrow> Decision \<Rightarrow> Decision" where
  "check_ingest inp d =
     (let g = in_Ingest inp
      in case IState g of
           IngestVerified \<Rightarrow>
             if ISourceID g \<noteq> in_SourceID inp \<or> \<not> validID (ISourceID g) then add_blocker BlockedSourceChanged d
             else if \<not> validTime (Checkpoint g) \<or> before (in_Now inp) (Checkpoint g)
                     \<or> (case ALast (in_Activity inp) of None \<Rightarrow> True | Some l \<Rightarrow> before (Checkpoint g) l)
               then add_blocker BlockedStaleCheckpoint d
             else if (case (ActivityCovered g, ALast (in_Activity inp)) of
                        (Some c, Some l) \<Rightarrow> \<not> same_instant c l | _ \<Rightarrow> True)
               then add_blocker BlockedIncompleteIngestEvidence d
             else d\<lparr>d_IngestVerified := True\<rparr>
         | IngestMissing \<Rightarrow> add_blocker BlockedMissingIngestEvidence d
         | IngestPartial \<Rightarrow> add_blocker BlockedIncompleteIngest d
         | IngestMismatch \<Rightarrow> add_blocker BlockedSourceChanged d
         | IngestStale \<Rightarrow> add_blocker BlockedStaleCheckpoint d
         | IngestUnsupported \<Rightarrow> add_blocker BlockedUnsupportedEvidence d
         | _ \<Rightarrow> add_blocker BlockedIncompleteIngestEvidence d)"

definition deadline :: "wtime \<Rightarrow> int \<Rightarrow> wtime" where
  "deadline l r = (utc l)\<lparr>wnanos := wnanos l + r\<rparr>"

definition check_retention :: "DecisionInput \<Rightarrow> Decision \<Rightarrow> Decision" where
  "check_retention inp d =
     (case in_Retention inp of
        None \<Rightarrow> add_blocker BlockedRetentionUnset d
      | Some r \<Rightarrow>
          if r \<le> 0 then add_blocker BlockedRetentionInvalid d
          else case (AState (in_Activity inp), ALast (in_Activity inp)) of
                 (ActivityKnown, Some l) \<Rightarrow>
                   if validTime l then
                     (if \<not> validTime (deadline l r) then add_blocker BlockedRetentionInvalid d
                      else let d1 = d\<lparr>d_RetentionDeadline := Some (deadline l r)\<rparr>
                           in if before (in_Now inp) (deadline l r) then add_blocker BlockedRetentionNotReached d1 else d1)
                   else d
               | _ \<Rightarrow> d)"

definition Evaluate :: "DecisionInput \<Rightarrow> Decision" where
  "Evaluate inp =
     (let d = check_retention inp (check_ingest inp (check_activity inp (check_source inp (check_now inp (initial_decision inp)))));
          d1 = d\<lparr>d_Eligible := (d_Blockers d = [] \<and> d_SourceVerified d \<and> d_IngestVerified d)\<rparr>
      in if d_Eligible d1 then d1\<lparr>d_ReclaimableBytes := in_Size inp\<rparr> else d1)"

section \<open>The ledger as evidence\<close>

record manifest =
  m_path :: string
  m_digest :: string
  m_size :: int
  m_mtime :: int
  m_complete :: bool
  m_status :: string
  m_scanStatus :: string
  m_parser :: string
  m_checkpoint :: wtime
  m_count :: int
  m_imported :: int

record ledger_answers =
  la_directory :: bool \<comment> \<open>the directory of the ledger opens\<close>
  la_open :: bool
  la_integrity :: "string option"
  la_version :: "int option"
  la_rows :: "manifest option list option" \<comment> \<open>None for a row that does not scan\<close>
  la_rows_end :: bool

type_synonym manifests = "(string \<times> manifest) list"

fun manifest_rows :: "manifests \<Rightarrow> manifest option list \<Rightarrow> string + manifests" where
  "manifest_rows acc [] = Inr acc"
| "manifest_rows acc (r # rs) =
     (case r of None \<Rightarrow> Inl ''ledger_evidence_invalid''
      | Some m \<Rightarrow>
          if \<not> IsAbs (m_path m) then Inl ''ledger_source_identity_ambiguous''
          else if Clean (m_path m) \<in> fst ` set acc then Inl ''ledger_source_identity_ambiguous''
          else manifest_rows (acc @ [(Clean (m_path m), m)]) rs)"

definition ledger_contents :: "ledger_answers \<Rightarrow> string + manifests" where
  "ledger_contents la =
     (if \<not> la_open la then Inl ''ledger_open_failed''
      else if la_integrity la \<noteq> Some ''ok'' then Inl ''ledger_integrity_failed''
      else if la_version la \<noteq> Some 2 then Inl ''ledger_schema_unsupported''
      else case la_rows la of None \<Rightarrow> Inl ''ledger_schema_unsupported''
           | Some rs \<Rightarrow> (case manifest_rows [] rs of Inl e \<Rightarrow> Inl e
                        | Inr ms \<Rightarrow> if la_rows_end la then Inr ms else Inl ''ledger_read_failed''))"

definition readManifests :: "(bytes \<Rightarrow> bytes) \<Rightarrow> observation \<Rightarrow> ledger_answers \<Rightarrow> string + manifests" where
  "readManifests sha ob la =
     (if \<not> la_directory la then Inl ''ledger_directory_unavailable''
      else case snapshot sha ob (\<lambda>db e. (e, case ledger_contents la of Inl err \<Rightarrow> Some err | Inr ms \<Rightarrow> None))
                  (new_entry sha [] []) of
             (e, Some err) \<Rightarrow> Inl err
           | (e, None) \<Rightarrow> ledger_contents la)"

definition assessManifest :: "manifest option \<Rightarrow> Entry \<Rightarrow> wtime \<Rightarrow> IngestAssessment" where
  "assessManifest mo e now =
     (case mo of
        None \<Rightarrow> \<lparr>IState = IngestMissing, ISourceID = [], Checkpoint = zero_time, ActivityCovered = None\<rparr>
      | Some m \<Rightarrow>
          (let a0 = \<lparr>IState = IngestEvidenceGap, ISourceID = [], Checkpoint = utc (m_checkpoint m), ActivityCovered = None\<rparr>;
               i = ''sha256:'' @ to_lower (m_digest m);
               a = (if m_digest m \<noteq> [] \<and> validID i then a0\<lparr>ISourceID := i\<rparr> else a0)
           in if m_digest m \<noteq> [] \<and> \<not> validID i then a\<lparr>IState := IngestUnsupported\<rparr>
              else if m_digest m \<noteq> [] \<and> i \<noteq> SourceID e then a\<lparr>IState := IngestMismatch\<rparr>
              else if m_size m \<noteq> Size e \<or> m_mtime m \<noteq> wrap64 (wnanos (Mtime e)) then a\<lparr>IState := IngestMismatch\<rparr>
              else if \<not> m_complete m \<or> m_status m \<noteq> ''completed'' \<or> m_scanStatus m \<noteq> ''completed''
                      \<or> m_count m \<noteq> m_imported m \<or> m_count m < 0
                then a\<lparr>IState := IngestPartial\<rparr>
              else if \<not> validTime (m_checkpoint m) \<or> before now (m_checkpoint m) \<or> before (m_checkpoint m) (Mtime e)
                then a\<lparr>IState := IngestStale\<rparr>
              else if m_parser m \<noteq> ''1.1.0'' then a\<lparr>IState := IngestUnsupported\<rparr>
              else a))"

section \<open>Plans\<close>

record PlanReport =
  EvaluatedAt :: wtime
  RetentionSeconds :: "int option"
  Sources :: "Decision list"
  TotalReclaimableBytes :: int
  Errors :: "string list"

definition source_state :: "Entry \<Rightarrow> Entry \<Rightarrow> SourceState" where
  "source_state old e =
     (let s1 = (if Schema e = ''unsupported'' then SourceUnsupported
                else if 3 < length (Blockers e) then SourceFailed else SourceVerified);
          s2 = (if SourceID old \<noteq> [] \<and> SourceID e \<noteq> SourceID old then SourceChanged else s1)
      in if ''source_changed'' \<in> set (Blockers e) then SourceChanged else s2)"

definition plan_source ::
  "string + manifests \<Rightarrow> int option \<Rightarrow> wtime \<Rightarrow> string \<Rightarrow> Entry \<Rightarrow> Entry \<Rightarrow> Decision" where
  "plan_source ledger retention now dir old e =
     (let ms = (case ledger of Inl err \<Rightarrow> [] | Inr m \<Rightarrow> m);
          a = assessManifest (map_of ms (Join [dir, e_name old])) e now;
          ingest = (case ledger of Inl err \<Rightarrow> a\<lparr>IState := IngestUnsupported\<rparr> | Inr m \<Rightarrow> a);
          d = Evaluate \<lparr>in_SourceID = SourceID e, in_PathRef = PathRef e, in_Size = Size e,
                in_Activity = ResolveActivity [] False, in_Ingest = ingest, in_Verification = source_state old e,
                in_Retention = retention, in_Now = now\<rparr>
      in d\<lparr>d_SourceIssues := drop 3 (Blockers e)\<rparr>)"

definition max_int64 :: int where "max_int64 = 2 ^ 63 - 1"

fun reclaimTotal :: "int \<Rightarrow> Decision list \<Rightarrow> int option" where
  "reclaimTotal acc [] = Some acc"
| "reclaimTotal acc (d # ds) =
     (if d_Eligible d then
        (if d_ReclaimableBytes d < 0 \<or> max_int64 - acc < d_ReclaimableBytes d then None
         else reclaimTotal (acc + d_ReclaimableBytes d) ds)
      else reclaimTotal acc ds)"

text \<open>The sources before the context ends, each inspected afresh.\<close>

definition plan ::
  "(bytes \<Rightarrow> bytes) \<Rightarrow> string \<Rightarrow> Entry list \<Rightarrow> (string \<Rightarrow> observation) \<Rightarrow> (string + manifests) option \<Rightarrow> int option \<Rightarrow> wtime
     \<Rightarrow> PlanReport \<times> string option" where
  "plan sha dir baseline obs ledger retention now =
     (let lg = (case ledger of None \<Rightarrow> Inr [] | Some l \<Rightarrow> l);
          report = \<lparr>EvaluatedAt = utc now,
             RetentionSeconds = map_option (\<lambda>r. if 0 \<le> r then r div 1000000000 else - ((- r) div 1000000000)) retention,
             Sources = [], TotalReclaimableBytes = 0, Errors = (case lg of Inl err \<Rightarrow> [err] | Inr m \<Rightarrow> [])\<rparr>;
          seen = takeWhile (\<lambda>old. \<not> ob_stopped (obs (e_name old))) baseline;
          r1 = report\<lparr>Sources := map (\<lambda>old. plan_source lg retention now dir old
                         (Inspect sha dir (e_name old) (obs (e_name old)))) seen\<rparr>
      in if length seen < length baseline then (r1, Some ''context ended'')
         else case reclaimTotal 0 (Sources r1) of
                None \<Rightarrow> (r1, Some ''reclaim_total_overflow'')
              | Some t \<Rightarrow> (r1\<lparr>TotalReclaimableBytes := t\<rparr>, None))"

definition Plan ::
  "(bytes \<Rightarrow> bytes) \<Rightarrow> string \<Rightarrow> string list option \<Rightarrow> (string \<Rightarrow> observation) \<Rightarrow> (string \<Rightarrow> observation)
     \<Rightarrow> (string + manifests) option \<Rightarrow> int option \<Rightarrow> wtime \<Rightarrow> PlanReport option \<times> string option" where
  "Plan sha dir names scan_obs plan_obs ledger retention now =
     (case Scan sha dir scan_obs names of
        Inl err \<Rightarrow> (None, Some err)
      | Inr baseline \<Rightarrow> (case plan sha dir baseline plan_obs ledger retention now of (r, err) \<Rightarrow> (Some r, err)))"

section \<open>Which gate blocks\<close>

text \<open>One flag per check: it raises no blocker.\<close>

definition source_gate :: "DecisionInput \<Rightarrow> bool" where
  "source_gate inp \<longleftrightarrow> in_Verification inp = SourceVerified \<and> validID (in_SourceID inp) \<and> 0 \<le> in_Size inp"

definition activity_gate :: "DecisionInput \<Rightarrow> bool" where
  "activity_gate inp \<longleftrightarrow> (\<exists>l. in_Activity inp = \<lparr>AState = ActivityKnown, ALast = Some l\<rparr> \<and> validTime l \<and> wnanos l \<le> wnanos (in_Now inp))"

definition ingest_gate :: "DecisionInput \<Rightarrow> bool" where
  "ingest_gate inp \<longleftrightarrow> IState (in_Ingest inp) = IngestVerified \<and> ISourceID (in_Ingest inp) = in_SourceID inp
     \<and> validID (in_SourceID inp) \<and> validTime (Checkpoint (in_Ingest inp))
     \<and> (\<exists>l c. ALast (in_Activity inp) = Some l \<and> ActivityCovered (in_Ingest inp) = Some c \<and> wnanos c = wnanos l
           \<and> wnanos l \<le> wnanos (Checkpoint (in_Ingest inp)) \<and> wnanos (Checkpoint (in_Ingest inp)) \<le> wnanos (in_Now inp))"

lemma blockers_add: "d_Blockers (add_blocker b d) \<noteq> []"
  by (auto simp: add_blocker_def)

lemma flags_add [simp]:
  "d_SourceVerified (add_blocker b d) = d_SourceVerified d" "d_IngestVerified (add_blocker b d) = d_IngestVerified d"
  by (simp_all add: add_blocker_def)

lemma check_now_gate: "d_Blockers (check_now inp d) = [] \<longleftrightarrow> d_Blockers d = [] \<and> validTime (in_Now inp)"
  "d_IngestVerified (check_now inp d) = d_IngestVerified d" "d_SourceVerified (check_now inp d) = d_SourceVerified d"
  by (simp_all add: check_now_def blockers_add)

lemma check_source_gate: "d_Blockers (check_source inp d) = [] \<longleftrightarrow> d_Blockers d = [] \<and> source_gate inp"
  "d_IngestVerified (check_source inp d) = d_IngestVerified d" "source_gate inp \<Longrightarrow> d_SourceVerified (check_source inp d)"
  by (simp_all add: check_source_def source_gate_def blockers_add split: SourceState.splits)

lemma check_activity_gate: "d_Blockers (check_activity inp d) = [] \<longleftrightarrow> d_Blockers d = [] \<and> activity_gate inp"
  "d_IngestVerified (check_activity inp d) = d_IngestVerified d"
  "d_SourceVerified (check_activity inp d) = d_SourceVerified d"
  by (cases "in_Activity inp"; auto simp: check_activity_def activity_gate_def blockers_add before_def utc_def Let_def
      split: ActivityState.splits option.splits)+

lemma check_ingest_gate: "d_Blockers (check_ingest inp d) = [] \<longleftrightarrow> d_Blockers d = [] \<and> ingest_gate inp"
  "ingest_gate inp \<Longrightarrow> d_IngestVerified (check_ingest inp d)"
  "d_SourceVerified (check_ingest inp d) = d_SourceVerified d"
  by (auto simp: check_ingest_def ingest_gate_def blockers_add before_def same_instant_def not_less Let_def
      split: IngestState.splits option.splits)

lemma check_retention_blocks: "d_Blockers (check_retention inp d) = [] \<Longrightarrow> d_Blockers d = []"
  by (simp add: check_retention_def blockers_add Let_def split: option.splits ActivityState.splits if_splits)

lemma check_retention_flags:
  "d_IngestVerified (check_retention inp d) = d_IngestVerified d"
  "d_SourceVerified (check_retention inp d) = d_SourceVerified d"
  by (simp_all add: check_retention_def Let_def split: option.splits ActivityState.splits)

definition retention_gate :: "DecisionInput \<Rightarrow> bool" where
  "retention_gate inp \<longleftrightarrow>
     (\<exists>l r. ALast (in_Activity inp) = Some l \<and> in_Retention inp = Some r \<and> 0 < r \<and> validTime (deadline l r)
        \<and> wnanos l + r \<le> wnanos (in_Now inp))"

lemma check_retention_gate:
  assumes "activity_gate inp"
  shows "d_Blockers (check_retention inp d) = [] \<longleftrightarrow> d_Blockers d = [] \<and> retention_gate inp"
proof -
  obtain l where l: "AState (in_Activity inp) = ActivityKnown" "ALast (in_Activity inp) = Some l" "validTime l"
    using assms by (auto simp: activity_gate_def)
  have w: "wnanos (deadline l r) = wnanos l + r" for r by (simp add: deadline_def)
  show ?thesis
    by (cases "in_Retention inp") (auto simp: check_retention_def retention_gate_def l blockers_add before_def w Let_def)
qed

lemma Evaluate_eligible:
  "d_Eligible (Evaluate inp) \<longleftrightarrow>
     validTime (in_Now inp) \<and> source_gate inp \<and> activity_gate inp \<and> ingest_gate inp \<and> retention_gate inp"
proof -
  let ?s = "check_source inp (check_now inp (initial_decision inp))"
  let ?d = "check_ingest inp (check_activity inp ?s)"
  have b: "d_Blockers ?d = [] \<longleftrightarrow> validTime (in_Now inp) \<and> source_gate inp \<and> activity_gate inp \<and> ingest_gate inp"
    by (simp add: check_ingest_gate(1) check_activity_gate(1) check_source_gate(1) check_now_gate(1) initial_decision_def)
  have r: "d_Blockers (check_retention inp ?d) = [] \<longleftrightarrow> d_Blockers ?d = [] \<and> retention_gate inp"
    using b check_retention_gate [of inp ?d] check_retention_blocks [of inp ?d] by blast
  have f: "d_SourceVerified (check_retention inp ?d) \<longleftrightarrow> d_SourceVerified ?s"
    "d_IngestVerified (check_retention inp ?d) \<longleftrightarrow> d_IngestVerified ?d"
    by (simp_all add: check_retention_flags check_ingest_gate(3) check_activity_gate(3))
  have "d_Eligible (Evaluate inp) \<longleftrightarrow> d_Blockers (check_retention inp ?d) = [] \<and> d_SourceVerified ?s \<and> d_IngestVerified ?d"
    using f by (simp add: Evaluate_def Let_def)
  then show ?thesis
    using r b check_source_gate(3) [of inp "check_now inp (initial_decision inp)"]
      check_ingest_gate(2) [of inp "check_activity inp ?s"] by blast
qed

lemma Evaluate_bytes: "d_ReclaimableBytes (Evaluate inp) = (if d_Eligible (Evaluate inp) then in_Size inp else 0)"
proof -
  let ?d = "check_retention inp (check_ingest inp (check_activity inp (check_source inp (check_now inp (initial_decision inp)))))"
  have keep: "d_ReclaimableBytes (add_blocker b d) = d_ReclaimableBytes d" for b d by (simp add: add_blocker_def)
  have "d_ReclaimableBytes (check_retention inp d) = d_ReclaimableBytes d"
    "d_ReclaimableBytes (check_ingest inp d) = d_ReclaimableBytes d"
    "d_ReclaimableBytes (check_activity inp d) = d_ReclaimableBytes d"
    "d_ReclaimableBytes (check_source inp d) = d_ReclaimableBytes d"
    "d_ReclaimableBytes (check_now inp d) = d_ReclaimableBytes d" for d
    by (simp_all add: check_retention_def check_ingest_def check_activity_def check_source_def check_now_def keep Let_def
        split: option.splits ActivityState.splits IngestState.splits SourceState.splits)
  then have "d_ReclaimableBytes ?d = 0" by (simp add: initial_decision_def)
  then show ?thesis
    by (cases "d_Blockers ?d = [] \<and> d_SourceVerified ?d \<and> d_IngestVerified ?d") (auto simp: Evaluate_def Let_def)
qed

lemma Evaluate_blockers:
  "d_Blockers (Evaluate inp) = d_Blockers (check_retention inp (check_ingest inp (check_activity inp
     (check_source inp (check_now inp (initial_decision inp))))))"
  by (simp add: Evaluate_def Let_def)

lemma blocked_without_activity:
  assumes "\<not> activity_gate inp"
  shows "d_Blockers (Evaluate inp) \<noteq> []"
proof
  assume "d_Blockers (Evaluate inp) = []"
  from check_retention_blocks [OF this [unfolded Evaluate_blockers]] show False
    using assms by (simp add: check_ingest_gate(1) check_activity_gate(1))
qed

lemma assess_not_verified: "IState (assessManifest m e now) \<noteq> IngestVerified"
  by (simp add: assessManifest_def Let_def split: option.splits)

lemma plan_source_blocked:
  "\<not> d_Eligible (plan_source ledger retention now dir old e) \<and> d_ReclaimableBytes (plan_source ledger retention now dir old e) = 0"
  by (simp add: plan_source_def Let_def Evaluate_bytes Evaluate_eligible activity_gate_def ResolveActivity_def)

lemma reclaim_none: "list_all (\<lambda>d. \<not> d_Eligible d) ds \<Longrightarrow> reclaimTotal n ds = Some n"
  by (induction ds) simp_all

section \<open>Properties\<close>

text \<open>The documented conditions, and nothing else.\<close>

definition reclaimable :: "DecisionInput \<Rightarrow> bool" where
  "reclaimable inp \<longleftrightarrow>
     (\<exists>last retention covered.
        in_Activity inp = \<lparr>AState = ActivityKnown, ALast = Some last\<rparr> \<and> in_Retention inp = Some retention
        \<and> ActivityCovered (in_Ingest inp) = Some covered
        \<and> validTime (in_Now inp) \<and> validTime last \<and> validTime (Checkpoint (in_Ingest inp)) \<and> validTime (deadline last retention)
        \<and> in_Verification inp = SourceVerified \<and> validID (in_SourceID inp) \<and> 0 \<le> in_Size inp
        \<and> IState (in_Ingest inp) = IngestVerified \<and> ISourceID (in_Ingest inp) = in_SourceID inp
        \<and> same_instant covered last \<and> 0 < retention
        \<and> wnanos last \<le> wnanos (Checkpoint (in_Ingest inp)) \<and> wnanos (Checkpoint (in_Ingest inp)) \<le> wnanos (in_Now inp)
        \<and> wnanos last + retention \<le> wnanos (in_Now inp))"

text \<open>C18: A source is eligible exactly when every documented gate is open: a verified snapshot with a
  valid digest, known valid activity, an ingest verified for the same digest whose checkpoint lies
  between that activity and the evaluation and covers it, and a positive retention interval that has
  passed, the deadline itself included. Only then are its bytes counted.\<close>

theorem eligible_iff_all_gates:
  "(d_Eligible (Evaluate inp) \<longleftrightarrow> reclaimable inp)
    \<and> d_ReclaimableBytes (Evaluate inp) = (if reclaimable inp then in_Size inp else 0)"
proof -
  have "d_Eligible (Evaluate inp) \<longleftrightarrow> reclaimable inp"
    unfolding Evaluate_eligible reclaimable_def
    by (auto simp: source_gate_def activity_gate_def ingest_gate_def retention_gate_def same_instant_def)
  then show ?thesis by (simp add: Evaluate_bytes)
qed

text \<open>Time only opens the gate: a source that is eligible stays eligible at every later evaluation
  with a valid time, as long as nothing else changes.\<close>

theorem eligibility_persists:
  assumes "d_Eligible (Evaluate inp)" and "wnanos (in_Now inp) \<le> wnanos later" and "validTime later"
  shows "d_Eligible (Evaluate (inp\<lparr>in_Now := later\<rparr>))"
  using assms unfolding Evaluate_eligible
  by (auto simp: source_gate_def activity_gate_def ingest_gate_def retention_gate_def intro: order_trans)

text \<open>No plan reclaims anything: whatever the directory, the ledger and the retention interval hold,
  every source of a plan is blocked and the total is zero, because the program has no source of
  activity or of complete ingestion that it accepts as proof.\<close>

theorem plans_reclaim_nothing:
  "case Plan sha dir names scan_obs plan_obs ledger retention now of
     (None, err) \<Rightarrow> err \<noteq> None
   | (Some report, err) \<Rightarrow>
       list_all (\<lambda>d. \<not> d_Eligible d \<and> d_ReclaimableBytes d = 0 \<and> d_Blockers d \<noteq> []) (Sources report)
       \<and> TotalReclaimableBytes report = 0 \<and> err \<noteq> Some ''reclaim_total_overflow''"
proof -
  have blocked: "d_Blockers (plan_source lg retention now dir old e) \<noteq> []" for lg old e
  proof -
    define inp where "inp i = \<lparr>in_SourceID = SourceID e, in_PathRef = PathRef e, in_Size = Size e, in_Activity = ResolveActivity [] False,
      in_Ingest = i, in_Verification = source_state old e, in_Retention = retention, in_Now = now\<rparr>" for i
    have "\<not> activity_gate (inp i)" for i by (simp add: activity_gate_def ResolveActivity_def inp_def)
    then have "d_Blockers (Evaluate (inp i)) \<noteq> []" for i by (rule blocked_without_activity)
    then show ?thesis by (simp add: plan_source_def inp_def Let_def)
  qed
  have all: "list_all (\<lambda>d. \<not> d_Eligible d \<and> d_ReclaimableBytes d = 0 \<and> d_Blockers d \<noteq> [])
      (map (\<lambda>old. plan_source lg retention now dir old (f old)) olds)" for lg f olds
    using plan_source_blocked blocked by (simp add: list_all_iff)
  then have "reclaimTotal 0 (map (\<lambda>old. plan_source lg retention now dir old (f old)) olds) = Some 0" for lg f olds
    by (intro reclaim_none) (simp add: list_all_iff)
  then show ?thesis using all
    by (simp add: Plan_def plan_def Let_def split: sum.splits)
qed

definition demo_input :: DecisionInput where
  "demo_input =
     (let t = \<lparr>wnanos = 10 ^ 18, woffset = 0\<rparr>; i = ''sha256:'' @ replicate 64 (CHR ''a'')
      in \<lparr>in_SourceID = i, in_PathRef = [], in_Size = 7, in_Activity = \<lparr>AState = ActivityKnown, ALast = Some t\<rparr>,
          in_Ingest = \<lparr>IState = IngestVerified, ISourceID = i, Checkpoint = t, ActivityCovered = Some t\<rparr>,
          in_Verification = SourceVerified, in_Retention = Some (10 ^ 9), in_Now = \<lparr>wnanos = 10 ^ 18 + 10 ^ 9, woffset = 0\<rparr>\<rparr>)"

lemma demo_reclaimable: "reclaimable demo_input"
  by (simp add: reclaimable_def demo_input_def validTime_def zero_time_def validID_def has_prefix_def is_hex_def deadline_def
      utc_def same_instant_def go_simps Let_def list_all_iff)

theorem eligibility_persists_witness:
  "d_Eligible (Evaluate (demo_input\<lparr>in_Now := \<lparr>wnanos = 2 * 10 ^ 18, woffset = 0\<rparr>\<rparr>))"
proof (rule eligibility_persists)
  show "d_Eligible (Evaluate demo_input)" using demo_reclaimable
    unfolding Evaluate_eligible reclaimable_def
    by (auto simp: source_gate_def activity_gate_def ingest_gate_def retention_gate_def same_instant_def)
qed (simp_all add: demo_input_def validTime_def zero_time_def Let_def)

end
