(* ===== verification/Config_Guard.thy ===== *)
theory Config_Guard
  imports Paths
begin

text \<open>
  internal/config/config.go: the static configuration file and the guards in front of every write.
  The file system is an argument: what EvalSymlinks and Lstat with Readlink say of a path at the time
  of the check. So are encoding/json and net.ParseIP. Error texts are shortened.
\<close>

section \<open>The host\<close>

datatype lstat_result = NoFile | NotALink | Link "string option" \<comment> \<open>None when Readlink fails\<close>

record host =
  h_cwd :: "string option"
  h_HOME :: string
  h_user_home :: string \<comment> \<open>of the user database, empty when unknown\<close>
  h_eval :: "string \<Rightarrow> string option"
  h_lstat :: "string \<Rightarrow> lstat_result"

definition home_dir :: "host \<Rightarrow> string" where
  "home_dir h = (if h_HOME h = [] then h_user_home h else h_HOME h)"

definition expandUser :: "host \<Rightarrow> string \<Rightarrow> string" where
  "expandUser h p =
     (if p = ''~'' then home_dir h
      else if has_prefix p ''~/'' then Join [home_dir h, drop 2 p]
      else p)"

definition Abs :: "host \<Rightarrow> string \<Rightarrow> string option" where
  "Abs h p = (if IsAbs p then Some (Clean p) else map_option (\<lambda>wd. Join [wd, p]) (h_cwd h))"

definition Dir :: "string \<Rightarrow> string" where
  "Dir p = Clean (rev (dropWhile (\<lambda>c. c \<noteq> CHR ''/'') (rev p)))"

definition under :: "string \<Rightarrow> string \<Rightarrow> bool" where
  "under p d \<longleftrightarrow> p = d \<or> has_prefix p (d @ ''/'')"

section \<open>The configuration file\<close>

record StaticConfig =
  Version :: int
  Listen :: string
  Port :: int
  CfgStrategy :: string
  Binary :: "string option"
  MaxSizeBytes :: int
  BackupCount :: int

definition config_defaults :: StaticConfig where
  "config_defaults = \<lparr>Version = 0, Listen = ''127.0.0.1'', Port = 8899, CfgStrategy = ''max_quota'', Binary = None,
     MaxSizeBytes = 5242880, BackupCount = 1\<rparr>"

record config_std =
  read_file :: "string \<Rightarrow> string option"
  json_keys :: "string \<Rightarrow> string list option" \<comment> \<open>of the top-level object\<close>
  json_strict :: "string \<Rightarrow> StaticConfig \<Rightarrow> StaticConfig option" \<comment> \<open>decode over the defaults, no unknown field\<close>
  is_ip :: "string \<Rightarrow> bool"

datatype config_error = InvalidPath | ReadFailed | MalformedJSON | ForbiddenKey string | DecodeFailed
  | UnsupportedVersion int | InvalidPort int | InvalidListen string | InvalidStrategy string
  | InvalidMaxSize int | InvalidBackupCount int

definition forbiddenKeys :: "string list" where
  "forbiddenKeys =
     [''directory'', ''data_dir'', ''state_dir'', ''accounts'', ''tokens'', ''quota'', ''active_account_id'',
      ''round_robin cursor'', ''round_robin_last_account_id'', ''PID'', ''pid'', ''runtime counters'', ''runtime'',
      ''cooldown'', ''working directory'', ''working_directory'', ''cwd'']"

definition resolve_binary :: "string \<Rightarrow> StaticConfig \<Rightarrow> StaticConfig" where
  "resolve_binary absPath cfg =
     (case Binary cfg of
        Some b \<Rightarrow> if b \<noteq> [] \<and> \<not> IsAbs b then cfg\<lparr>Binary := Some (Clean (Join [Dir absPath, b]))\<rparr> else cfg
      | None \<Rightarrow> cfg)"

definition LoadConfigFile :: "host \<Rightarrow> config_std \<Rightarrow> string \<Rightarrow> config_error + StaticConfig" where
  "LoadConfigFile h std path =
     (case Abs h (expandUser h path) of None \<Rightarrow> Inl InvalidPath | Some absPath \<Rightarrow>
      case read_file std absPath of None \<Rightarrow> Inl ReadFailed | Some data \<Rightarrow>
      case json_keys std data of None \<Rightarrow> Inl MalformedJSON | Some ks \<Rightarrow>
      case List.find (\<lambda>k. k \<in> set ks) forbiddenKeys of Some k \<Rightarrow> Inl (ForbiddenKey k) | None \<Rightarrow>
      case json_strict std data config_defaults of None \<Rightarrow> Inl DecodeFailed | Some cfg \<Rightarrow>
        if Version cfg \<noteq> 1 then Inl (UnsupportedVersion (Version cfg))
        else if Port cfg \<le> 0 \<or> 65535 < Port cfg then Inl (InvalidPort (Port cfg))
        else let cfg1 = (if Listen cfg = [] then cfg\<lparr>Listen := ''127.0.0.1''\<rparr> else cfg)
             in if Listen cfg \<noteq> [] \<and> Listen cfg \<noteq> ''localhost'' \<and> \<not> is_ip std (Listen cfg) then Inl (InvalidListen (Listen cfg))
                else if CfgStrategy cfg1 \<notin> {''max_quota'', ''least_used'', ''round_robin''} then Inl (InvalidStrategy (CfgStrategy cfg1))
                else if MaxSizeBytes cfg1 \<le> 0 then Inl (InvalidMaxSize (MaxSizeBytes cfg1))
                else if BackupCount cfg1 < 0 then Inl (InvalidBackupCount (BackupCount cfg1))
                else Inr (resolve_binary absPath cfg1))"

section \<open>Protected directories\<close>

record guard_state =
  g_sandbox :: string
  g_sandbox_env :: string
  g_realProd :: string
  g_realHome :: string
  g_forbidden :: "string list"
  g_testMode :: bool
  g_nativeDir :: string

definition isProtectedProductionDir :: "guard_state \<Rightarrow> string \<Rightarrow> bool" where
  "isProtectedProductionDir g path =
     (let clean = Clean path
      in if g_sandbox g \<noteq> [] \<and> under clean (g_sandbox g) then False
         else if g_realProd g \<noteq> [] \<and> under clean (g_realProd g) then True
         else g_testMode g \<and> (\<exists>d \<in> set (g_forbidden g). under clean d))"

fun follow_links :: "nat \<Rightarrow> host \<Rightarrow> string \<Rightarrow> string" where
  "follow_links 0 h p = p"
| "follow_links (Suc n) h p =
     (case h_lstat h p of
        Link (Some t) \<Rightarrow> follow_links n h (Clean (if IsAbs t then t else Join [Dir p, t]))
      | _ \<Rightarrow> p)"

definition resolvePathSymlinks :: "host \<Rightarrow> string \<Rightarrow> string" where
  "resolvePathSymlinks h path =
     (let clean = Clean path
      in case h_eval h clean of
           Some e \<Rightarrow> Clean e
         | None \<Rightarrow>
             Clean (foldl (\<lambda>curr part. if part = [] \<or> part = ''.'' then curr else follow_links 16 h (Join [curr, part]))
               (if IsAbs clean then ''/'' else ''.'') (split_on (CHR ''/'') clean)))"

text \<open>Check 3: whether a hop of the chain of links meets a protected directory.\<close>

fun chain_protected :: "nat \<Rightarrow> guard_state \<Rightarrow> host \<Rightarrow> string \<Rightarrow> bool" where
  "chain_protected 0 g h p = False"
| "chain_protected (Suc n) g h p =
     (case h_lstat h p of
        Link (Some t) \<Rightarrow>
          (let target = Clean (if IsAbs t then t else Join [Dir p, t])
           in isProtectedProductionDir g target
              \<or> (case h_eval h (Dir target) of Some e \<Rightarrow> isProtectedProductionDir g (Clean e) | None \<Rightarrow> False)
              \<or> chain_protected n g h target)
      | _ \<Rightarrow> False)"

datatype guard_error = Unresolved | Protected | EmptyPath | OutsideSandbox | Unconfigured | NonCanonical | EscapesDirectory | SystemDirectory

definition AssertSafeDestructivePath :: "guard_state \<Rightarrow> host \<Rightarrow> string \<Rightarrow> guard_error option" where
  "AssertSafeDestructivePath g h path =
     (if path = [] then None
      else case Abs h (expandUser h path) of None \<Rightarrow> Some Unresolved | Some a \<Rightarrow>
        let p = Clean a
        in if isProtectedProductionDir g p then Some Protected
           else if (case h_eval h (Dir p) of None \<Rightarrow> False
                    | Some e \<Rightarrow> isProtectedProductionDir g (Clean e) \<or> isProtectedProductionDir g (Join [Clean e, Base p]))
             then Some Protected
           else if chain_protected 16 g h p then Some Protected
           else if (case h_eval h p of None \<Rightarrow> False | Some e \<Rightarrow> isProtectedProductionDir g (Clean e)) then Some Protected
           else if isProtectedProductionDir g (resolvePathSymlinks h p) then Some Protected
           else None)"

definition AssertSafeWritePath :: "guard_state \<Rightarrow> host \<Rightarrow> string \<Rightarrow> guard_error option" where
  "AssertSafeWritePath g h path = AssertSafeDestructivePath g h path"

definition AssertSafeReadPath :: "guard_state \<Rightarrow> host \<Rightarrow> string \<Rightarrow> guard_error option" where
  "AssertSafeReadPath g h path =
     (if \<not> g_testMode g \<or> path = [] then None
      else case Abs h (expandUser h path) of None \<Rightarrow> Some Unresolved | Some a \<Rightarrow>
        let p = Clean a
        in if isProtectedProductionDir g p then Some Protected
           else if (case h_eval h p of None \<Rightarrow> False | Some e \<Rightarrow> isProtectedProductionDir g (Clean e)) then Some Protected
           else if isProtectedProductionDir g (resolvePathSymlinks h p) then Some Protected
           else None)"

section \<open>The native token file\<close>

definition GetAgyTokenFile :: "guard_state \<Rightarrow> string" where
  "GetAgyTokenFile g = Join [Join [g_nativeDir g, ''antigravity-cli''], ''antigravity-oauth-token'']"

definition GetSyntheticSandboxRoot :: "guard_state \<Rightarrow> string" where
  "GetSyntheticSandboxRoot g = (if g_sandbox g \<noteq> [] then g_sandbox g else g_sandbox_env g)"

definition either_under :: "string \<Rightarrow> string \<Rightarrow> string \<Rightarrow> bool" where
  "either_under target resolved d \<longleftrightarrow> under target d \<or> under resolved d"

definition test_mode_refusal :: "guard_state \<Rightarrow> string \<Rightarrow> string \<Rightarrow> guard_error option" where
  "test_mode_refusal g target resolved =
     (if g_realProd g \<noteq> [] \<and> either_under target resolved (Clean (g_realProd g)) then Some Protected
      else if g_realHome g \<noteq> [] \<and> either_under target resolved (Clean (Join [g_realHome g, ''.gemini''])) then Some Protected
      else if \<exists>d \<in> set (g_forbidden g). either_under target resolved d then Some Protected
      else if \<not> (GetSyntheticSandboxRoot g \<noteq> [] \<and> under target (GetSyntheticSandboxRoot g))
              \<and> \<not> (g_nativeDir g \<noteq> [] \<and> under target (g_nativeDir g))
        then Some OutsideSandbox
      else None)"

definition is_canonical :: "string \<Rightarrow> string \<Rightarrow> bool" where
  "is_canonical canonical target \<longleftrightarrow>
     target = canonical \<or> target = canonical @ ''.lock''
     \<or> (Dir target = Dir canonical \<and> has_prefix (Base target) (Base canonical @ ''.'') \<and> \<not> contains (Base target) ''..'')"

definition AssertSafeNativeTokenWrite :: "guard_state \<Rightarrow> host \<Rightarrow> string \<Rightarrow> guard_error option" where
  "AssertSafeNativeTokenWrite g h path =
     (if path = [] then Some EmptyPath
      else case Abs h (expandUser h path) of None \<Rightarrow> Some Unresolved | Some a \<Rightarrow>
        let target = Clean a; resolved = resolvePathSymlinks h target
        in case (if g_testMode g then test_mode_refusal g target resolved else None) of Some e \<Rightarrow> Some e | None \<Rightarrow>
           if GetAgyTokenFile g = [] then Some Unconfigured
           else case Abs h (expandUser h (GetAgyTokenFile g)) of None \<Rightarrow> Some Unresolved | Some ca \<Rightarrow>
             let canonical = Clean ca; dir = resolvePathSymlinks h (Dir canonical)
             in if \<not> is_canonical canonical target then Some NonCanonical
                else if \<not> under resolved dir then Some EscapesDirectory
                else if \<exists>d \<in> set [''/usr'', ''/bin'', ''/sbin'', ''/etc'', ''/var'']. under resolved d then Some SystemDirectory
                else None)"

section \<open>Absolute paths\<close>

lemma IsAbs_Clean [simp]: "IsAbs (Clean p) \<longleftrightarrow> IsAbs p"
proof (cases "IsAbs p")
  case True
  then show ?thesis by (simp add: Clean_def IsAbs_def has_prefix_def Let_def)
next
  case False
  define out where "out = foldl (clean_step False) [] (split_on (CHR ''/'') p)"
  have "clean_stack False out" unfolding out_def
    by (rule clean_stack_fold) (auto simp: clean_stack_def list_all_iff dest: split_on_parts)
  then have "list_all (\<lambda>w. CHR ''/'' \<notin> set w \<and> w \<noteq> []) (rev out)" using clean_stack_elements by (simp add: list_all_iff)
  then have "\<not> has_prefix (join ''/'' (rev out)) ''/''" by (rule join_no_slash_prefix)
  then show ?thesis using False by (simp add: Clean_def out_def [symmetric] IsAbs_def has_prefix_def Let_def)
qed

lemma IsAbs_append [simp]: "IsAbs p \<Longrightarrow> IsAbs (p @ q)"
  by (auto simp: IsAbs_def has_prefix_def)

lemma IsAbs_Join: "IsAbs d \<Longrightarrow> IsAbs (Join [d, p])"
  by (cases p) (auto simp: Join_def Let_def IsAbs_def [of "[]"] has_prefix_def)

lemma IsAbs_Abs: "Abs h p = Some a \<Longrightarrow> (\<And>wd. h_cwd h = Some wd \<Longrightarrow> IsAbs wd) \<Longrightarrow> IsAbs a"
  by (auto simp: Abs_def IsAbs_Join split: if_splits)

lemma dropWhile_last: "\<not> P c \<Longrightarrow> dropWhile P (xs @ [c]) = dropWhile P xs @ [c]"
  by (induction xs) auto

lemma IsAbs_slash: "IsAbs (CHR ''/'' # q)"
  by (simp add: IsAbs_def has_prefix_def)

lemma IsAbs_Dir: "IsAbs p \<Longrightarrow> IsAbs (Dir p)"
proof -
  assume "IsAbs p"
  then obtain q where p: "p = CHR ''/'' # q" by (auto simp: IsAbs_def has_prefix_def prefix_def)
  have "dropWhile (\<lambda>c. c \<noteq> CHR ''/'') (rev p) = dropWhile (\<lambda>c. c \<noteq> CHR ''/'') (rev q) @ [CHR ''/'']"
    unfolding p rev.simps by (rule dropWhile_last) simp
  then show ?thesis by (simp add: Dir_def IsAbs_slash)
qed

lemma dir_part_snoc: "CHR ''/'' \<notin> set s \<Longrightarrow> Dir (p @ s) = Dir p"
proof -
  assume "CHR ''/'' \<notin> set s"
  then have "dropWhile (\<lambda>c. c \<noteq> CHR ''/'') (rev s @ rev p) = dropWhile (\<lambda>c. c \<noteq> CHR ''/'') (rev p)"
    by (intro dropWhile_append2) auto
  then show ?thesis by (simp add: Dir_def)
qed

section \<open>Where a write lands\<close>

definition link_target :: "string \<Rightarrow> string \<Rightarrow> string" where
  "link_target p t = Clean (if IsAbs t then t else Join [Dir p, t])"

text \<open>
  The place an open for writing reaches, with the number of dangling links it goes through: an
  existing file, a new one in an existing directory, or what a dangling link points to.
\<close>

inductive lands :: "host \<Rightarrow> nat \<Rightarrow> string \<Rightarrow> string \<Rightarrow> bool" for h where
  existing: "h_eval h p = Some q \<Longrightarrow> lands h 0 p q"
| created: "h_eval h p = None \<Longrightarrow> h_lstat h p = NoFile \<Longrightarrow> h_eval h (Dir p) = Some d \<Longrightarrow> lands h 0 p (Join [d, Base p])"
| dangling: "h_eval h p = None \<Longrightarrow> h_lstat h p = Link (Some t) \<Longrightarrow> lands h n (link_target p t) q \<Longrightarrow> lands h (Suc n) p q"

inductive_cases lands_zero: "lands h 0 p q"

text \<open>EvalSymlinks gives clean paths and resolves a link as its target.\<close>

definition file_system :: "host \<Rightarrow> bool" where
  "file_system h \<longleftrightarrow> (\<forall>p e. h_eval h p = Some e \<longrightarrow> Clean e = e)
     \<and> (\<forall>p t. h_lstat h p = Link (Some t) \<longrightarrow> h_eval h p = h_eval h (link_target p t))"

lemma chain_step:
  "h_lstat h p = Link (Some t) \<Longrightarrow> \<not> chain_protected (Suc k) g h p \<Longrightarrow>
     \<not> isProtectedProductionDir g (link_target p t) \<and> \<not> chain_protected k g h (link_target p t)
     \<and> (\<forall>e. h_eval h (Dir (link_target p t)) = Some e \<longrightarrow> \<not> isProtectedProductionDir g (Clean e))"
  by (auto simp: link_target_def Let_def)

lemma chain_lands:
  assumes "lands h n p q" and "file_system h" and "\<not> chain_protected k g h p" and "0 < n" and "n \<le> k"
  shows "\<exists>d b. q = Join [d, b] \<and> \<not> isProtectedProductionDir g d"
  using assms
proof (induction arbitrary: k rule: lands.induct)
  case (dangling p t n q)
  obtain j where k: "k = Suc j" using dangling.prems(4) by (cases k) auto
  note c = chain_step [OF dangling.hyps(2) dangling.prems(2) [unfolded k]]
  show ?case
  proof (cases n)
    case 0
    have e: "h_eval h (link_target p t) = None"
      using dangling.prems(1) dangling.hyps(1,2) unfolding file_system_def by metis
    from dangling.hyps(3) [unfolded 0] show ?thesis
    proof (cases rule: lands.cases)
      case existing
      then show ?thesis using e by simp
    next
      case (created d)
      then have "Clean d = d" using dangling.prems(1) by (simp add: file_system_def)
      then show ?thesis using created c by metis
    qed
  next
    case (Suc m)
    then show ?thesis using dangling.IH [of j] c dangling.prems k by simp
  qed
qed simp_all

lemma protected_Clean [simp]: "isProtectedProductionDir g (Clean p) \<longleftrightarrow> isProtectedProductionDir g p"
  by (simp add: isProtectedProductionDir_def)

lemma guard_checks:
  assumes "AssertSafeDestructivePath g h path = None" and "path \<noteq> []" and "Abs h (expandUser h path) = Some a"
  shows "\<not> isProtectedProductionDir g a" "\<not> chain_protected 16 g h (Clean a)"
    "h_eval h (Clean a) = Some e \<Longrightarrow> \<not> isProtectedProductionDir g e"
    "h_eval h (Dir (Clean a)) = Some d \<Longrightarrow> \<not> isProtectedProductionDir g (Join [Clean d, Base (Clean a)])"
  using assms by (auto simp: AssertSafeDestructivePath_def Let_def split: if_splits)

section \<open>Properties\<close>


text \<open>The native token guard accepts only the token file, its lock, or a staging file named after it,
  all in the canonical directory; the resolved target stays under the resolved directory and outside
  the system directories; and in test mode neither the path nor its resolution is in a protected place.\<close>

theorem native_token_write_confined:
  assumes "AssertSafeNativeTokenWrite g h path = None"
  shows "\<exists>a ca. Abs h (expandUser h path) = Some a \<and> Abs h (expandUser h (GetAgyTokenFile g)) = Some ca
    \<and> Dir (Clean a) = Dir (Clean ca)
    \<and> (Clean a = Clean ca \<or> Clean a = Clean ca @ ''.lock'' \<or> has_prefix (Base (Clean a)) (Base (Clean ca) @ ''.''))
    \<and> under (resolvePathSymlinks h (Clean a)) (resolvePathSymlinks h (Dir (Clean ca)))
    \<and> list_all (\<lambda>d. \<not> under (resolvePathSymlinks h (Clean a)) d) [''/usr'', ''/bin'', ''/sbin'', ''/etc'', ''/var'']
    \<and> (g_testMode g \<longrightarrow> list_all (\<lambda>d. \<not> either_under (Clean a) (resolvePathSymlinks h (Clean a)) d) (g_forbidden g))"
proof -
  obtain a where a: "Abs h (expandUser h path) = Some a"
    using assms by (auto simp: AssertSafeNativeTokenWrite_def split: if_splits option.splits)
  obtain ca where ca: "Abs h (expandUser h (GetAgyTokenFile g)) = Some ca"
    using assms by (auto simp: AssertSafeNativeTokenWrite_def a Let_def split: if_splits option.splits)
  let ?r = "resolvePathSymlinks h (Clean a)"
  have c: "is_canonical (Clean ca) (Clean a)" "under ?r (resolvePathSymlinks h (Dir (Clean ca)))"
    "\<not> (\<exists>d \<in> set [''/usr'', ''/bin'', ''/sbin'', ''/etc'', ''/var'']. under ?r d)"
    "g_testMode g \<Longrightarrow> test_mode_refusal g (Clean a) ?r = None"
    using assms unfolding AssertSafeNativeTokenWrite_def a ca option.case Let_def
    by (auto simp del: Clean_idem split: if_splits option.splits)
  have d: "Dir (Clean a) = Dir (Clean ca)"
    using c(1) dir_part_snoc [of "''.lock''" "Clean ca"] by (auto simp: is_canonical_def)
  have t: "list_all (\<lambda>d. \<not> either_under (Clean a) ?r d) (g_forbidden g)" if "g_testMode g"
    using c(4) [OF that] by (auto simp: test_mode_refusal_def list_all_iff split: if_splits)
  show ?thesis using a ca c d t by (intro exI [of _ a] exI [of _ ca]) (auto simp: is_canonical_def list_all_iff)
qed

text \<open>A configuration that loads is usable as it is: version 1, a port between 1 and 65535, a listen
  address that is localhost or an IP address, one of the three strategies, positive log limits, and a
  binary that is named by an absolute path if at all.\<close>

theorem loaded_config_valid:
  assumes "LoadConfigFile h std path = Inr cfg" and "\<And>wd. h_cwd h = Some wd \<Longrightarrow> IsAbs wd"
    and "is_ip std ''127.0.0.1''"
  shows "Version cfg = 1 \<and> 1 \<le> Port cfg \<and> Port cfg \<le> 65535
    \<and> (Listen cfg = ''localhost'' \<or> is_ip std (Listen cfg))
    \<and> CfgStrategy cfg \<in> {''max_quota'', ''least_used'', ''round_robin''} \<and> 0 < MaxSizeBytes cfg \<and> 0 \<le> BackupCount cfg
    \<and> (\<forall>b. Binary cfg = Some b \<longrightarrow> b = [] \<or> IsAbs b)"
proof -
  obtain a c where a: "Abs h (expandUser h path) = Some a" and cfg: "cfg = resolve_binary a c"
    and c: "Version c = 1" "1 \<le> Port c" "Port c \<le> 65535" "Listen c = ''localhost'' \<or> is_ip std (Listen c)"
      "CfgStrategy c \<in> {''max_quota'', ''least_used'', ''round_robin''}" "0 < MaxSizeBytes c" "0 \<le> BackupCount c"
    using assms(1,3) by (auto simp: LoadConfigFile_def Let_def split: option.splits if_splits)
  have "Version cfg = Version c \<and> Port cfg = Port c \<and> Listen cfg = Listen c \<and> CfgStrategy cfg = CfgStrategy c
      \<and> MaxSizeBytes cfg = MaxSizeBytes c \<and> BackupCount cfg = BackupCount c"
    by (simp add: cfg resolve_binary_def split: option.splits)
  moreover have "b = [] \<or> IsAbs b" if "Binary cfg = Some b" for b
    using that IsAbs_Join [OF IsAbs_Dir [OF IsAbs_Abs [OF a assms(2)]]]
    by (auto simp: cfg resolve_binary_def split: option.splits if_splits)
  ultimately show ?thesis using c by simp
qed

definition demo_host :: host where
  "demo_host =
     \<lparr>h_cwd = Some ''/'', h_HOME = ''/home'', h_user_home = [],
      h_eval = (\<lambda>p. if p = ''/'' \<or> p = ''/safe'' \<or> p = ''/home'' then Some p else if p = ''/safe/h'' then Some ''/home'' else None),
      h_lstat = (\<lambda>p. if p = ''/'' \<or> p = ''/safe'' \<or> p = ''/home'' then NotALink
                     else if p = ''/safe/h'' then Link (Some ''/home'')
                     else if p = ''/safe/a'' then Link (Some ''/safe/h/.gemini'') else NoFile)\<rparr>"

definition demo_guard :: guard_state where
  "demo_guard = \<lparr>g_sandbox = [], g_sandbox_env = [], g_realProd = ''/home/.gemini'', g_realHome = ''/home'', g_forbidden = [],
     g_testMode = False, g_nativeDir = ''/home/.gemini''\<rparr>"

lemma demo_host_sane: "file_system demo_host"
proof -
  have "Clean ''/'' = ''/''" "Clean ''/safe'' = ''/safe''" "Clean ''/home'' = ''/home''"
    "link_target ''/safe/h'' ''/home'' = ''/home''" "link_target ''/safe/a'' ''/safe/h/.gemini'' = ''/safe/h/.gemini''"
    by code_simp+
  then show ?thesis by (simp add: file_system_def demo_host_def)
qed


theorem native_token_write_confined_witness:
  "Dir ''/home/.gemini/antigravity-cli/antigravity-oauth-token.tmp'' = ''/home/.gemini/antigravity-cli''"
proof -
  let ?p = "''/home/.gemini/antigravity-cli/antigravity-oauth-token.tmp''"
  have c: "AssertSafeNativeTokenWrite demo_guard demo_host ?p = None" "Clean ?p = ?p"
    "Abs demo_host (expandUser demo_host ?p) = Some ?p"
    "Abs demo_host (expandUser demo_host (GetAgyTokenFile demo_guard)) = Some ''/home/.gemini/antigravity-cli/antigravity-oauth-token''"
    "Dir (Clean ''/home/.gemini/antigravity-cli/antigravity-oauth-token'') = ''/home/.gemini/antigravity-cli''" by code_simp+
  from native_token_write_confined [OF c(1)] show ?thesis by (simp add: c)
qed

theorem loaded_config_valid_witness:
  "1 \<le> Port (config_defaults\<lparr>Version := 1, Binary := Some ''/c/agy''\<rparr>)"
proof -
  let ?std = "\<lparr>read_file = (\<lambda>p. Some ''{}''), json_keys = (\<lambda>d. Some [''version'']),
    json_strict = (\<lambda>d c. Some (c\<lparr>Version := 1, Binary := Some ''agy''\<rparr>)), is_ip = (\<lambda>s. s = ''127.0.0.1'')\<rparr>"
  have p: "Abs demo_host (expandUser demo_host ''/c/x.json'') = Some ''/c/x.json''" "Clean (Join [Dir ''/c/x.json'', ''agy'']) = ''/c/agy''"
    "\<not> IsAbs ''agy''" by code_simp+
  have f: "List.find (\<lambda>k. k = ''version'') forbiddenKeys = None" by (simp add: forbiddenKeys_def)
  have l: "LoadConfigFile demo_host ?std ''/c/x.json'' = Inr (config_defaults\<lparr>Version := 1, Binary := Some ''/c/agy''\<rparr>)"
    by (simp add: LoadConfigFile_def p f config_defaults_def resolve_binary_def Let_def)
  have "h_cwd demo_host = Some wd \<Longrightarrow> IsAbs wd" for wd by (auto simp: demo_host_def IsAbs_slash)
  from loaded_config_valid [OF l this] show ?thesis by simp
qed

text \<open>C36: The guard has a gap: a dangling link whose target lies behind a second link is accepted
  although the file it creates is the protected directory itself, because the chain check looks at the
  resolved parent of a target but not at the target inside that parent.\<close>

theorem dangling_link_reaches_protected:
  "AssertSafeDestructivePath demo_guard demo_host ''/safe/a'' = None
   \<and> lands demo_host 1 ''/safe/a'' ''/home/.gemini'' \<and> isProtectedProductionDir demo_guard ''/home/.gemini''"
proof -
  have c: "link_target ''/safe/a'' ''/safe/h/.gemini'' = ''/safe/h/.gemini''" "Dir ''/safe/h/.gemini'' = ''/safe/h''"
    "Join [''/home'', Base ''/safe/h/.gemini''] = ''/home/.gemini''"
    "AssertSafeDestructivePath demo_guard demo_host ''/safe/a'' = None" "isProtectedProductionDir demo_guard ''/home/.gemini''"
    by code_simp+
  have "lands demo_host 0 ''/safe/h/.gemini'' ''/home/.gemini''"
    using created [of demo_host "''/safe/h/.gemini''" "''/home''"] by (simp add: c demo_host_def)
  then have "lands demo_host 1 ''/safe/a'' ''/home/.gemini''"
    using dangling [of demo_host "''/safe/a''" "''/safe/h/.gemini''" 0] by (simp add: c demo_host_def)
  then show ?thesis using c by simp
qed

end
