(* ===== verification/Base64.thy ===== *)
theory Base64
  imports Prelude "HOL-Library.Word"
begin

text \<open>
  base64.StdEncoding of package encoding/base64: the padded standard alphabet. Decoding skips carriage
  returns and newlines wherever they stand, and does not look at the unused bits before the padding.
\<close>

definition b64_char :: "nat \<Rightarrow> char" where
  "b64_char v =
     (if v < 26 then byte (65 + v) else if v < 52 then byte (71 + v) else if v < 62 then byte (v - 4)
      else if v = 62 then CHR ''+'' else CHR ''/'')"

definition b64_value :: "char \<Rightarrow> nat option" where
  "b64_value c =
     (let n = code c
      in if 65 \<le> n \<and> n \<le> 90 then Some (n - 65)
         else if 97 \<le> n \<and> n \<le> 122 then Some (n - 71)
         else if 48 \<le> n \<and> n \<le> 57 then Some (n + 4)
         else if n = 43 then Some 62
         else if n = 47 then Some 63
         else None)"

fun b64_groups :: "nat list \<Rightarrow> string" where
  "b64_groups [] = []"
| "b64_groups [a] = [b64_char (a div 4), b64_char (a mod 4 * 16), CHR ''='', CHR ''='']"
| "b64_groups [a, b] = [b64_char (a div 4), b64_char (a mod 4 * 16 + b div 16), b64_char (b mod 16 * 4), CHR ''='']"
| "b64_groups (a # b # c # r) =
     b64_char (a div 4) # b64_char (a mod 4 * 16 + b div 16) # b64_char (b mod 16 * 4 + c div 64) # b64_char (c mod 64)
     # b64_groups r"

fun b64_ungroup :: "string \<Rightarrow> nat list option" where
  "b64_ungroup [] = Some []"
| "b64_ungroup (c1 # c2 # c3 # c4 # r) =
     (case (b64_value c1, b64_value c2) of
        (Some w, Some x) \<Rightarrow>
          (case b64_value c3 of
             None \<Rightarrow> if c3 = CHR ''='' \<and> c4 = CHR ''='' \<and> r = [] then Some [w * 4 + x div 16] else None
           | Some y \<Rightarrow>
               (case b64_value c4 of
                  None \<Rightarrow> if c4 = CHR ''='' \<and> r = [] then Some [w * 4 + x div 16, x mod 16 * 16 + y div 4] else None
                | Some z \<Rightarrow>
                    map_option (\<lambda>t. (w * 4 + x div 16) # (x mod 16 * 16 + y div 4) # (y mod 4 * 64 + z) # t)
                      (b64_ungroup r)))
      | _ \<Rightarrow> None)"
| "b64_ungroup _ = None"

definition EncodeToString :: "8 word list \<Rightarrow> string" where
  "EncodeToString bs = b64_groups (map unat bs)"

definition DecodeString :: "string \<Rightarrow> 8 word list option" where
  "DecodeString s =
     map_option (map word_of_nat) (b64_ungroup (filter (\<lambda>c. c \<noteq> byte 10 \<and> c \<noteq> byte 13) s))"

section \<open>Decoding inverts encoding\<close>

lemma b64_value_char: "v < 64 \<Longrightarrow> b64_value (b64_char v) = Some v"
proof -
  assume v: "v < 64"
  have p: "code (CHR ''+'') = 43" "code (CHR ''/'') = 47" by (simp_all add: go_simps)
  consider "v < 26" | "26 \<le> v" "v < 52" | "52 \<le> v" "v < 62" | "v = 62" | "v = 63" using v by linarith
  then show ?thesis by cases (auto simp: b64_value_def b64_char_def p Let_def)
qed

lemma b64_pad: "b64_value (CHR ''='') = None"
  by (simp add: b64_value_def go_simps Let_def)

lemma b64_char_visible: "v < 64 \<Longrightarrow> b64_char v \<noteq> byte 10 \<and> b64_char v \<noteq> byte 13"
proof -
  assume v: "v < 64"
  have "b64_value (byte 10) = None" "b64_value (byte 13) = None" by (simp_all add: b64_value_def Let_def)
  then show ?thesis using b64_value_char [OF v] by (metis option.distinct(1))
qed

lemma six_bits:
  fixes a b :: nat
  shows "a < 256 \<Longrightarrow> a div 4 < 64" "a mod 4 * 16 < 64" "b < 256 \<Longrightarrow> a mod 4 * 16 + b div 16 < 64" "a mod 16 * 4 < 64"
    "b < 256 \<Longrightarrow> a mod 16 * 4 + b div 64 < 64" "a mod 64 < 64"
  by auto

lemma eight_bits:
  fixes a b c :: nat
  shows "b < 256 \<Longrightarrow> a div 4 * 4 + (a mod 4 * 16 + b div 16) div 16 = a" "a div 4 * 4 + a mod 4 * 16 div 16 = a"
    "b < 256 \<Longrightarrow> (a mod 4 * 16 + b div 16) mod 16 = b div 16"
    "c < 256 \<Longrightarrow> b div 16 * 16 + (b mod 16 * 4 + c div 64) div 4 = b" "b div 16 * 16 + b mod 16 * 4 div 4 = b"
    "c < 256 \<Longrightarrow> (b mod 16 * 4 + c div 64) mod 4 * 64 + c mod 64 = c"
proof -
  show "c < 256 \<Longrightarrow> b div 16 * 16 + (b mod 16 * 4 + c div 64) div 4 = b"
  proof -
    assume "c < 256"
    then have "(b mod 16 * 4 + c div 64) div 4 = b mod 16" by auto
    then show ?thesis by simp
  qed
  show "c < 256 \<Longrightarrow> (b mod 16 * 4 + c div 64) mod 4 * 64 + c mod 64 = c"
  proof -
    assume "c < 256"
    then have "(b mod 16 * 4 + c div 64) mod 4 = c div 64" by auto
    then show ?thesis by simp
  qed
qed auto

lemma high_bits: "b < 256 \<Longrightarrow> b div 16 div 16 = 0" "b < 256 \<Longrightarrow> b div 16 mod 16 = b div 16"
  "b < 256 \<Longrightarrow> b div 64 div 4 = 0" "b < 256 \<Longrightarrow> b div 64 mod 4 = b div 64" for b :: nat
  by auto

lemma b64_roundtrip: "list_all (\<lambda>b. b < 256) bs \<Longrightarrow> b64_ungroup (b64_groups bs) = Some bs"
proof (induction bs rule: b64_groups.induct)
  case (2 a)
  then show ?case by (simp add: b64_value_char b64_pad six_bits eight_bits high_bits)
next
  case (3 a b)
  then show ?case by (simp add: b64_value_char b64_pad six_bits eight_bits high_bits)
next
  case (4 a b c r)
  then show ?case by (simp add: b64_value_char six_bits eight_bits high_bits)
qed simp

lemma b64_groups_visible:
  "list_all (\<lambda>b. b < 256) bs \<Longrightarrow> list_all (\<lambda>c. c \<noteq> byte 10 \<and> c \<noteq> byte 13) (b64_groups bs)"
proof -
  have pad: "CHR ''='' \<noteq> byte 10" "CHR ''='' \<noteq> byte 13" by (simp_all add: go_simps)
  show "list_all (\<lambda>b. b < 256) bs \<Longrightarrow> list_all (\<lambda>c. c \<noteq> byte 10 \<and> c \<noteq> byte 13) (b64_groups bs)"
    by (induction bs rule: b64_groups.induct) (simp_all add: b64_char_visible six_bits pad)
qed

lemma Decode_Encode [simp]: "DecodeString (EncodeToString bs) = Some bs"
proof -
  have b: "list_all (\<lambda>b. b < 256) (map unat bs)"
    using unsigned_less [where 'a = nat and 'b = 8] by (simp add: list_all_iff)
  have "filter (\<lambda>c. c \<noteq> byte 10 \<and> c \<noteq> byte 13) (b64_groups (map unat bs)) = b64_groups (map unat bs)"
    using b64_groups_visible [OF b] by (simp add: list_all_iff filter_id_conv)
  then show ?thesis by (simp add: DecodeString_def EncodeToString_def b64_roundtrip [OF b] comp_def)
qed

end
