(* ===== verification/Backup.thy ===== *)
theory Backup
  imports Accounts Wire Tables Base64
begin

text \<open>
  internal/accounts/crypto.go: the encrypted backup format, and the export and import of the pool.
  PBKDF2 and HMAC-SHA256 are arguments, and so is encoding/json: the value of a text, the text of a
  value, and the bundle struct of a text. The file contents, the random bytes and the clock are inputs.
\<close>

section \<open>Encrypted bundles\<close>

record crypto =
  pbkdf2 :: "bytes \<Rightarrow> bytes \<Rightarrow> int \<Rightarrow> bytes"
  hmac :: "bytes \<Rightarrow> bytes \<Rightarrow> bytes"

record EncryptedBundle =
  Format :: string
  KDF :: string
  Iterations :: int
  Salt :: string
  Nonce :: string
  Ciphertext :: string
  Tag :: string

datatype crypto_error = RandomFailed | BadFormat | CorruptedMetadata | TooManyIterations | InvalidPassword

definition string_bytes :: "string \<Rightarrow> bytes" where
  "string_bytes s = map (\<lambda>c. word_of_nat (code c)) s"

definition be64 :: "nat \<Rightarrow> bytes" where
  "be64 i = map (\<lambda>k. word_of_nat (i div 256 ^ k)) [7, 6, 5, 4, 3, 2, 1, 0]"

text \<open>copy(ctrBuf[:16], nonce): the first sixteen bytes, padded with zeros.\<close>

definition ctr_prefix :: "bytes \<Rightarrow> bytes" where
  "ctr_prefix nonce = take 16 (nonce @ replicate 16 0)"

function ctr_xor :: "crypto \<Rightarrow> bytes \<Rightarrow> bytes \<Rightarrow> nat \<Rightarrow> bytes \<Rightarrow> bytes" where
  "ctr_xor c key nonce i data =
     (if data = [] then []
      else map2 (\<lambda>a b. Bit_Operations.xor a b) (take 32 data) (hmac c key (ctr_prefix nonce @ be64 i))
           @ ctr_xor c key nonce (i + 1) (drop 32 data))"
  by pat_completeness auto
termination by (relation "measure (\<lambda>(c, key, nonce, i, data). length data)") auto

declare ctr_xor.simps [simp del]

definition bundle_tag :: "crypto \<Rightarrow> bytes \<Rightarrow> bytes \<Rightarrow> bytes \<Rightarrow> bytes \<Rightarrow> bytes" where
  "bundle_tag c keyMAC salt nonce ciphertext = hmac c keyMAC (salt @ nonce @ ciphertext)"

text \<open>An empty salt or nonce is replaced by sixteen random bytes.\<close>

definition fresh_bytes :: "bytes option \<Rightarrow> bytes \<Rightarrow> bytes option" where
  "fresh_bytes random b = (if b = [] then random else Some b)"

definition EncryptBundle ::
  "crypto \<Rightarrow> bytes option \<Rightarrow> bytes option \<Rightarrow> bytes \<Rightarrow> string \<Rightarrow> bytes \<Rightarrow> bytes \<Rightarrow> crypto_error + EncryptedBundle" where
  "EncryptBundle c rndSalt rndNonce plaintext password salt0 nonce0 =
     (case fresh_bytes rndSalt salt0 of None \<Rightarrow> Inl RandomFailed | Some salt \<Rightarrow>
      case fresh_bytes rndNonce nonce0 of None \<Rightarrow> Inl RandomFailed | Some nonce \<Rightarrow>
      (let dk = pbkdf2 c (string_bytes password) salt 100000;
           keyEnc = take 32 dk; keyMAC = drop 32 dk;
           ciphertext = ctr_xor c keyEnc nonce 0 plaintext
       in Inr \<lparr>Format = ''agy-pool-encrypted-v1'', KDF = ''pbkdf2_hmac_sha256'', Iterations = 100000,
            Salt = EncodeToString salt, Nonce = EncodeToString nonce, Ciphertext = EncodeToString ciphertext,
            Tag = EncodeToString (bundle_tag c keyMAC salt nonce ciphertext)\<rparr>))"

definition DecryptBundle :: "crypto \<Rightarrow> EncryptedBundle \<Rightarrow> string \<Rightarrow> crypto_error + bytes" where
  "DecryptBundle c b password =
     (if Format b \<noteq> ''agy-pool-encrypted-v1'' then Inl BadFormat
      else case (DecodeString (Salt b), DecodeString (Nonce b), DecodeString (Ciphertext b), DecodeString (Tag b)) of
             (Some salt, Some nonce, Some ciphertext, Some tag) \<Rightarrow>
               (let iterations = (if Iterations b \<le> 0 then 100000 else Iterations b)
                in if 1000000 < iterations then Inl TooManyIterations
                   else let dk = pbkdf2 c (string_bytes password) salt iterations
                        in if tag \<noteq> bundle_tag c (drop 32 dk) salt nonce ciphertext then Inl InvalidPassword
                           else Inr (ctr_xor c (take 32 dk) nonce 0 ciphertext))
           | _ \<Rightarrow> Inl CorruptedMetadata)"

section \<open>Export\<close>

type_synonym json_object = "(string \<times> any) list"

record backup_json =
  json_value :: "bytes \<Rightarrow> any option"
  json_bundle :: "bytes \<Rightarrow> EncryptedBundle option"
  json_text :: "any \<Rightarrow> bytes option"
  json_bundle_text :: "EncryptedBundle \<Rightarrow> bytes option"
  quota_value :: "QuotaState \<Rightarrow> any"

definition any_float :: "float64 option \<Rightarrow> any" where
  "any_float f = (case f of None \<Rightarrow> ANil | Some x \<Rightarrow> AFloat x)"

definition any_int :: "int option \<Rightarrow> any" where
  "any_int i = (case i of None \<Rightarrow> ANil | Some n \<Rightarrow> AInt64 n)"

definition export_account :: "backup_json \<Rightarrow> bool \<Rightarrow> Account \<Rightarrow> any" where
  "export_account j noStats a =
     AObj ([(''email'', AStr (Email a)), (''name'', AStr (Name a)), (''refresh_token'', AStr (RefreshToken a)),
            (''access_token'', AStr (AccessToken a)), (''token_expiry'', any_float (TokenExpiry a)),
            (''created_at'', any_int (CreatedAt a))]
       @ (if noStats then []
          else [(''request_count'', AInt64 (RequestCount a)),
                (''gen_count'', AInt64 (case GenCount a of None \<Rightarrow> 0 | Some n \<Rightarrow> n))])
       @ (case LastQuota a of None \<Rightarrow> [] | Some q \<Rightarrow> [(''last_quota'', quota_value j q)]))"

definition active_email :: "Pool \<Rightarrow> any" where
  "active_email pool =
     (case ActiveAccountID pool of
        None \<Rightarrow> ANil
      | Some i \<Rightarrow> (case List.find (\<lambda>a. ID a = i) (Accounts pool) of None \<Rightarrow> ANil | Some a \<Rightarrow> AStr (Email a)))"

definition export_bundle :: "backup_json \<Rightarrow> bool \<Rightarrow> int \<Rightarrow> Pool \<Rightarrow> any" where
  "export_bundle j noStats now pool =
     AObj [(''version'', AInt 1), (''app'', AStr ''agy-pool''), (''exported_at'', AInt64 now),
           (''strategy'', AStr (Strategy pool)), (''active_account_email'', active_email pool),
           (''accounts'', AArr (map (export_account j noStats) (Accounts pool)))]"

datatype backup_error = ReadFailed | NoAccounts | MarshalFailed | PasswordRequired | CryptoFailed crypto_error
  | NotJson | CorruptedBundle | BadPlaintext | NoAccountsList | TransactionFailed gerror

text \<open>The contents that are written, a newline included; the file system follows.\<close>

definition ExportPool ::
  "crypto \<Rightarrow> backup_json \<Rightarrow> bytes option \<Rightarrow> bytes option \<Rightarrow> int \<Rightarrow> bool \<Rightarrow> string \<Rightarrow> bool \<Rightarrow> Pool \<Rightarrow> backup_error + bytes" where
  "ExportPool c j rndSalt rndNonce now encrypt password noStats pool =
     (if Accounts pool = [] then Inl NoAccounts
      else case json_text j (export_bundle j noStats now pool) of None \<Rightarrow> Inl MarshalFailed | Some raw \<Rightarrow>
        if \<not> (encrypt \<or> password \<noteq> []) then Inr (raw @ [10])
        else if password = [] then Inl PasswordRequired
        else case EncryptBundle c rndSalt rndNonce raw password [] [] of Inl e \<Rightarrow> Inl (CryptoFailed e) | Inr b \<Rightarrow>
          (case json_bundle_text j b of None \<Rightarrow> Inl MarshalFailed | Some t \<Rightarrow> Inr (t @ [10])))"

section \<open>Import\<close>

text \<open>json.Unmarshal into a map that has entries keeps those the text does not name.\<close>

definition unmarshal_into :: "any option \<Rightarrow> json_object \<Rightarrow> json_object option" where
  "unmarshal_into v m =
     (case v of
        Some (AObj kvs) \<Rightarrow> Some (foldl (\<lambda>t kv. put_row (fst kv) (snd kv) t) m kvs)
      | Some ANil \<Rightarrow> Some []
      | _ \<Rightarrow> None)"

definition str_field :: "json_object \<Rightarrow> string \<Rightarrow> string" where
  "str_field m k = (case map_of m k of Some (AStr s) \<Rightarrow> s | _ \<Rightarrow> [])"

definition num_field :: "json_object \<Rightarrow> string \<Rightarrow> float64 option" where
  "num_field m k = (case map_of m k of Some (AFloat f) \<Rightarrow> Some f | _ \<Rightarrow> None)"

definition backup_object :: "crypto \<Rightarrow> backup_json \<Rightarrow> string \<Rightarrow> bytes \<Rightarrow> backup_error + json_object" where
  "backup_object c j password content =
     (case unmarshal_into (json_value j content) [] of None \<Rightarrow> Inl NotJson | Some raw \<Rightarrow>
      if str_field raw ''format'' \<noteq> ''agy-pool-encrypted-v1'' then Inr raw
      else if password = [] then Inl PasswordRequired
      else case json_bundle j content of None \<Rightarrow> Inl CorruptedBundle | Some b \<Rightarrow>
      case DecryptBundle c b password of Inl e \<Rightarrow> Inl (CryptoFailed e) | Inr plaintext \<Rightarrow>
      case unmarshal_into (json_value j plaintext) raw of None \<Rightarrow> Inl BadPlaintext | Some obj \<Rightarrow> Inr obj)"

record ImportResult =
  Added :: nat
  Updated :: nat
  Skipped :: nat
  Total :: nat

text \<open>The object of an entry with an e-mail address and a refresh token.\<close>

definition usable_entry :: "any \<Rightarrow> json_object option" where
  "usable_entry item =
     (case item of
        AObj m \<Rightarrow> if str_field m ''email'' = [] \<or> str_field m ''refresh_token'' = [] then None else Some m
      | _ \<Rightarrow> None)"

definition to_int :: "go_std \<Rightarrow> float64 \<Rightarrow> int" where
  "to_int std f = trunc_int64 (int64_oob std) f"

definition replacement :: "go_std \<Rightarrow> int \<Rightarrow> nat \<Rightarrow> json_object \<Rightarrow> Account" where
  "replacement std now i m =
     zero_account\<lparr>ID := account_id (i + 1), Email := str_field m ''email'', Name := str_field m ''name'',
       RefreshToken := str_field m ''refresh_token'', AccessToken := str_field m ''access_token'',
       TokenExpiry := num_field m ''token_expiry'',
       CreatedAt := Some (case num_field m ''created_at'' of Some f \<Rightarrow> to_int std f | None \<Rightarrow> now),
       RequestCount := (case num_field m ''request_count'' of Some f \<Rightarrow> to_int std f | None \<Rightarrow> 0),
       GenCount := map_option (to_int std) (num_field m ''gen_count'')\<rparr>"

definition replacements :: "go_std \<Rightarrow> int \<Rightarrow> any list \<Rightarrow> Account list" where
  "replacements std now items =
     concat (map (\<lambda>(i, item). case usable_entry item of None \<Rightarrow> [] | Some m \<Rightarrow> [replacement std now i m])
       (enumerate 0 items))"

definition replace_accounts :: "go_std \<Rightarrow> int \<Rightarrow> any list \<Rightarrow> string \<Rightarrow> string \<Rightarrow> ImportResult mutator" where
  "replace_accounts std now items strategy email pool =
     (let newList = replacements std now items;
          chosen = (if email = [] then None else List.find (\<lambda>a. Email a = email) newList);
          active = (case chosen of Some a \<Rightarrow> Some (ID a)
                    | None \<Rightarrow> (case newList of [] \<Rightarrow> None | a # as \<Rightarrow> Some (ID a)))
      in Inr (\<lparr>Added = length newList, Updated = 0, Skipped = 0, Total = length newList\<rparr>,
              pool\<lparr>Accounts := newList, Strategy := (if strategy \<noteq> [] then strategy else Strategy pool),
                   ActiveAccountID := active, RoundRobinLastAccountID := None\<rparr>))"

text \<open>The accounts by e-mail address, by their position: the list only grows at its end.\<close>

definition email_map :: "Account list \<Rightarrow> string \<Rightarrow> nat option" where
  "email_map as = foldl (\<lambda>m (i, a). if Email a \<noteq> [] then m(Email a \<mapsto> i) else m) Map.empty (enumerate 0 as)"

definition merge_into :: "json_object \<Rightarrow> Account \<Rightarrow> Account" where
  "merge_into m a =
     (let a1 = a\<lparr>RefreshToken := str_field m ''refresh_token''\<rparr>;
          a2 = (if str_field m ''access_token'' = [] then a1
                else let a1' = a1\<lparr>AccessToken := str_field m ''access_token''\<rparr>
                     in case num_field m ''token_expiry'' of None \<Rightarrow> a1' | Some f \<Rightarrow> a1'\<lparr>TokenExpiry := Some f\<rparr>);
          a3 = (if str_field m ''name'' \<noteq> [] \<and> Name a2 = [] then a2\<lparr>Name := str_field m ''name''\<rparr> else a2)
      in a3\<lparr>Status := [], RateLimitedUntil := None\<rparr>)"

definition added_account :: "int \<Rightarrow> json_object \<Rightarrow> Account list \<Rightarrow> Account" where
  "added_account now m as =
     zero_account\<lparr>ID := NextAccountID (map Some as), Email := str_field m ''email'', Name := str_field m ''name'',
       RefreshToken := str_field m ''refresh_token'', AccessToken := str_field m ''access_token'',
       TokenExpiry := num_field m ''token_expiry'', CreatedAt := Some now\<rparr>"

type_synonym merge_state = "Account list \<times> (string \<Rightarrow> nat option) \<times> ImportResult"

definition merge_entry :: "int \<Rightarrow> bool \<Rightarrow> merge_state \<Rightarrow> any \<Rightarrow> merge_state" where
  "merge_entry now skipExisting s item =
     (case s of (as, em, r) \<Rightarrow>
        (case usable_entry item of
           None \<Rightarrow> s
         | Some m \<Rightarrow>
             (case em (str_field m ''email'') of
                Some i \<Rightarrow>
                  if skipExisting then (as, em, r\<lparr>Skipped := Skipped r + 1\<rparr>)
                  else (as[i := merge_into m (as ! i)], em, r\<lparr>Updated := Updated r + 1\<rparr>)
              | None \<Rightarrow>
                  (as @ [added_account now m as], em(str_field m ''email'' \<mapsto> length as), r\<lparr>Added := Added r + 1\<rparr>))))"

definition merge_accounts :: "int \<Rightarrow> bool \<Rightarrow> any list \<Rightarrow> ImportResult mutator" where
  "merge_accounts now skipExisting items pool =
     (case foldl (merge_entry now skipExisting)
             (Accounts pool, email_map (Accounts pool), \<lparr>Added = 0, Updated = 0, Skipped = 0, Total = 0\<rparr>) items of
        (as, em, r) \<Rightarrow> Inr (r\<lparr>Total := length as\<rparr>, pool\<lparr>Accounts := as\<rparr>))"

text \<open>An empty list of accounts changes nothing; \<open>load_ok\<close> is whether the pool can be counted then.\<close>

definition ImportPool ::
  "go_std \<Rightarrow> crypto \<Rightarrow> backup_json \<Rightarrow> int \<Rightarrow> bool \<Rightarrow> gerror option \<Rightarrow> bytes option \<Rightarrow> string \<Rightarrow> bool \<Rightarrow> bool \<Rightarrow> store
     \<Rightarrow> (backup_error + ImportResult) \<times> store" where
  "ImportPool std c j now load_ok failure content password replace skipExisting s =
     (case content of None \<Rightarrow> (Inl ReadFailed, s) | Some text \<Rightarrow>
      case backup_object c j password text of Inl e \<Rightarrow> (Inl e, s) | Inr obj \<Rightarrow>
      case map_of obj ''accounts'' of
        Some (AArr items) \<Rightarrow>
          if items = []
          then (Inr \<lparr>Added = 0, Updated = 0, Skipped = 0, Total = (if load_ok then length (Accounts (spool s)) else 0)\<rparr>, s)
          else (case PoolTransaction failure
                       (if replace then replace_accounts std now items (str_field obj ''strategy'')
                                          (str_field obj ''active_account_email'')
                        else merge_accounts now skipExisting items) s of
                  (Inl e, s1) \<Rightarrow> (Inl (TransactionFailed e), s1)
                | (Inr r, s1) \<Rightarrow> (Inr r, s1))
      | _ \<Rightarrow> (Inl NoAccountsList, s))"

section \<open>Decryption inverts encryption\<close>

lemma ctr_xor_empty [simp]: "ctr_xor c key nonce i [] = []"
  by (simp add: ctr_xor.simps)

lemma ctr_xor_step:
  "data \<noteq> [] \<Longrightarrow> ctr_xor c key nonce i data =
     map2 (\<lambda>a b. Bit_Operations.xor a b) (take 32 data) (hmac c key (ctr_prefix nonce @ be64 i))
     @ ctr_xor c key nonce (i + 1) (drop 32 data)"
  by (subst ctr_xor.simps) simp

lemma map2_xor_twice:
  "length xs \<le> length ks \<Longrightarrow>
     map2 (\<lambda>a b. Bit_Operations.xor a b) (map2 (\<lambda>a b. Bit_Operations.xor a b) xs ks) ks = (xs :: bytes)"
  by (induction xs ks rule: list_induct2') (simp_all add: xor.assoc)

lemma ctr_xor_length:
  assumes "\<And>m. length (hmac c key m) = 32"
  shows "length (ctr_xor c key nonce i data) = length data"
proof (induction data arbitrary: i rule: length_induct)
  case (1 data)
  then show ?case by (cases "data = []") (simp_all add: ctr_xor_step assms min_def)
qed

lemma ctr_xor_twice:
  assumes h: "\<And>m. length (hmac c key m) = 32"
  shows "ctr_xor c key nonce i (ctr_xor c key nonce i data) = data"
proof (induction data arbitrary: i rule: length_induct)
  case (1 data)
  show ?case
  proof (cases "data = []")
    case False
    let ?k = "hmac c key (ctr_prefix nonce @ be64 i)" and ?r = "ctr_xor c key nonce (i + 1) (drop 32 data)"
    let ?b = "map2 (\<lambda>a b. Bit_Operations.xor a b) (take 32 data) ?k"
    have e: "ctr_xor c key nonce i data = ?b @ ?r" by (rule ctr_xor_step [OF False])
    have lb: "length ?b = min 32 (length data)" by (simp add: h)
    have parts: "take 32 (?b @ ?r) = ?b" "drop 32 (?b @ ?r) = ?r"
      using lb by (cases "32 \<le> length data"; simp)+
    have "?b @ ?r \<noteq> []"
    proof
      assume "?b @ ?r = []"
      then have "length ?b = 0" by (simp only: append_is_Nil_conv list.size)
      then show False using lb False by (cases data) simp_all
    qed
    then have "ctr_xor c key nonce i (?b @ ?r)
        = map2 (\<lambda>a b. Bit_Operations.xor a b) ?b ?k @ ctr_xor c key nonce (i + 1) ?r"
      using ctr_xor_step parts by metis
    moreover have "ctr_xor c key nonce (i + 1) ?r = drop 32 data" using 1 False by simp
    moreover have "map2 (\<lambda>a b. Bit_Operations.xor a b) ?b ?k = take 32 data" by (rule map2_xor_twice) (simp add: h)
    ultimately show ?thesis by (simp add: e)
  qed simp
qed

text \<open>HMAC-SHA256 gives 32 bytes.\<close>

definition sha256_sized :: "crypto \<Rightarrow> bool" where
  "sha256_sized c \<longleftrightarrow> (\<forall>k m. length (hmac c k m) = 32)"

lemma DecryptBundle_ok:
  assumes "DecryptBundle c b password = Inr p"
  obtains salt nonce ciphertext tag iterations where
    "Format b = ''agy-pool-encrypted-v1''" "DecodeString (Salt b) = Some salt" "DecodeString (Nonce b) = Some nonce"
    "DecodeString (Ciphertext b) = Some ciphertext" "DecodeString (Tag b) = Some tag"
    "iterations = (if Iterations b \<le> 0 then 100000 else Iterations b)" "iterations \<le> 1000000"
    "tag = bundle_tag c (drop 32 (pbkdf2 c (string_bytes password) salt iterations)) salt nonce ciphertext"
    "p = ctr_xor c (take 32 (pbkdf2 c (string_bytes password) salt iterations)) nonce 0 ciphertext"
  using assms by (auto simp: DecryptBundle_def Let_def not_less split: if_splits option.splits)

lemma decrypt_encrypt:
  assumes "EncryptBundle c rs rn plaintext password salt nonce = Inr b" and "sha256_sized c"
  shows "DecryptBundle c b password = Inr plaintext"
  using assms
  by (auto simp: EncryptBundle_def DecryptBundle_def Let_def sha256_sized_def ctr_xor_twice split: option.splits)

section \<open>Account ids\<close>

lemma replacements_from:
  "map ID (concat (map (\<lambda>(i, item). case usable_entry item of None \<Rightarrow> [] | Some m \<Rightarrow> [replacement std now i m]) (enumerate n items)))
     = map (account_id \<circ> Suc) (map fst (filter (\<lambda>(i, item). usable_entry item \<noteq> None) (enumerate n items)))"
  by (induction items arbitrary: n) (auto simp: replacement_def split: option.splits)

lemma replacement_ids: "distinct (map ID (replacements std now items))" "[] \<notin> set (map ID (replacements std now items))"
proof -
  let ?l = "map fst (filter (\<lambda>(i, item). usable_entry item \<noteq> None) (enumerate 0 items))"
  have e: "map ID (replacements std now items) = map (account_id \<circ> Suc) ?l"
    unfolding replacements_def by (rule replacements_from)
  have "distinct ?l" by (rule distinct_map_filter) simp
  then show "distinct (map ID (replacements std now items))" unfolding e by (simp add: distinct_map inj_on_def)
  show "[] \<notin> set (map ID (replacements std now items))" unfolding e by (auto simp: account_id_def)
qed

lemma pool_wf_replace:
  assumes "replace_accounts std now items strategy email p = Inr (r, q)"
  shows "pool_wf q"
proof -
  let ?new = "replacements std now items"
  have "ActiveAccountID q = Some i \<Longrightarrow> i \<in> ID ` set ?new" for i
    using assms by (auto simp: replace_accounts_def Let_def find_Some_iff split: option.splits list.splits if_splits)
  moreover have "Accounts q = ?new" using assms by (auto simp: replace_accounts_def Let_def)
  ultimately show ?thesis using replacement_ids [of std now items]
    by (auto simp: pool_wf_def ids_def split: option.splits)
qed

lemma merge_into_ID [simp]: "ID (merge_into m a) = ID a" "Email (merge_into m a) = Email a"
  by (simp_all add: merge_into_def Let_def split: option.splits)

lemma map_update_same: "(\<And>a. f (g a) = f a) \<Longrightarrow> map f (as[i := g (as ! i)]) = map f as"
  by (cases "i < length as") (simp_all add: map_update list_update_same_conv list_update_beyond)

lemma merge_entry_ids:
  "map ID (fst (merge_entry now skip s item)) = map ID (fst s)
   \<or> map ID (fst (merge_entry now skip s item)) = map ID (fst s) @ [NextAccountID (map Some (fst s))]"
  by (cases s) (auto simp: merge_entry_def map_update_same added_account_def split: option.splits)

lemma merge_ids:
  assumes "distinct (map ID (fst s))" "[] \<notin> set (map ID (fst s))"
  shows "distinct (map ID (fst (foldl (merge_entry now skip) s items)))
    \<and> [] \<notin> set (map ID (fst (foldl (merge_entry now skip) s items)))
    \<and> (\<exists>new. map ID (fst (foldl (merge_entry now skip) s items)) = map ID (fst s) @ new)"
proof (induction items rule: rev_induct)
  case (snoc item items)
  let ?t = "foldl (merge_entry now skip) s items"
  define as where "as = fst ?t"
  have n: "NextAccountID (map Some as) \<notin> set (map ID as)" using NextAccountID_fresh by (metis imageE set_map)
  have ne: "NextAccountID (map Some as) \<noteq> []" by simp
  obtain new where ih: "distinct (map ID as)" "[] \<notin> set (map ID as)" "map ID as = map ID (fst s) @ new"
    using snoc.IH unfolding as_def by blast
  have "map ID (fst (foldl (merge_entry now skip) s (items @ [item]))) = map ID as
    \<or> map ID (fst (foldl (merge_entry now skip) s (items @ [item]))) = map ID as @ [NextAccountID (map Some as)]"
    using merge_entry_ids [of now skip ?t item] by (simp add: as_def)
  then show ?case
  proof
    assume "map ID (fst (foldl (merge_entry now skip) s (items @ [item]))) = map ID as"
    then show ?thesis using ih by metis
  next
    assume e: "map ID (fst (foldl (merge_entry now skip) s (items @ [item]))) = map ID as @ [NextAccountID (map Some as)]"
    have "map ID as @ [NextAccountID (map Some as)] = map ID (fst s) @ (new @ [NextAccountID (map Some as)])"
      by (simp only: ih(3) append_assoc)
    moreover have "distinct (map ID as @ [NextAccountID (map Some as)])" using ih(1) n by auto
    moreover have "[] \<notin> set (map ID as @ [NextAccountID (map Some as)])"
      using ih(2) ne by (metis Un_iff empty_iff empty_set insert_iff list.simps(15) set_append)
    ultimately show ?thesis unfolding e by blast
  qed
qed (use assms in auto)

lemma merge_accounts_ids:
  assumes "merge_accounts now skip items p = Inr (r, q)" and "pool_wf p"
  shows "distinct (ids q) \<and> [] \<notin> set (ids q) \<and> (\<exists>new. ids q = ids p @ new) \<and> ActiveAccountID q = ActiveAccountID p
    \<and> PExtra q = PExtra p"
  using assms merge_ids [of "(Accounts p, email_map (Accounts p), \<lparr>Added = 0, Updated = 0, Skipped = 0, Total = 0\<rparr>)" now skip items]
  by (cases "foldl (merge_entry now skip)
       (Accounts p, email_map (Accounts p), \<lparr>Added = 0, Updated = 0, Skipped = 0, Total = 0\<rparr>) items")
    (auto simp: merge_accounts_def pool_wf_def ids_def)

lemma pool_wf_merge: "merge_accounts now skip items p = Inr (r, q) \<Longrightarrow> pool_wf p \<Longrightarrow> pool_wf q"
  using merge_accounts_ids [of now skip items p r q] by (auto simp: pool_wf_def split: option.splits)

section \<open>What a merge leaves\<close>

definition by_email :: "Account list \<Rightarrow> string \<Rightarrow> Account option" where
  "by_email as = map_of (map (\<lambda>a. (Email a, a)) as)"

lemma by_email_append_one:
  "Email x \<notin> set (map Email as) \<Longrightarrow> by_email (as @ [x]) = (by_email as)(Email x \<mapsto> x)"
  by (induction as) (auto simp: by_email_def fun_eq_iff)

lemma by_email_update:
  "distinct (map Email as) \<Longrightarrow> i < length as \<Longrightarrow> Email x = Email (as ! i) \<Longrightarrow>
     by_email (as[i := x]) = (by_email as)(Email x \<mapsto> x)"
proof (induction as arbitrary: i)
  case (Cons a as)
  show ?case
  proof (cases i)
    case (Suc k)
    then have "k < length as" "Email x = Email (as ! k)" using Cons.prems by auto
    moreover from this have "Email a \<noteq> Email x" using Cons.prems(1) by (metis distinct.simps(2) length_map list.simps(9) nth_map nth_mem)
    ultimately show ?thesis using Cons.IH [of k] Cons.prems(1) Suc by (auto simp: by_email_def fun_eq_iff)
  qed (use Cons.prems in \<open>auto simp: by_email_def fun_eq_iff\<close>)
qed simp

definition merge_inv :: "merge_state \<Rightarrow> bool" where
  "merge_inv s \<longleftrightarrow> (case s of (as, em, r) \<Rightarrow> distinct (map Email as)
     \<and> (\<forall>e i. em e = Some i \<longleftrightarrow> e \<noteq> [] \<and> i < length as \<and> Email (as ! i) = e))"

lemma email_map_index:
  "distinct (map Email as) \<Longrightarrow> email_map as e = Some i \<longleftrightarrow> e \<noteq> [] \<and> i < length as \<and> Email (as ! i) = e"
proof (induction as arbitrary: e i rule: rev_induct)
  case (snoc a as)
  have d: "distinct (map Email as)" "\<And>k. k < length as \<Longrightarrow> Email (as ! k) \<noteq> Email a"
  proof -
    show "distinct (map Email as)" using snoc.prems by simp
    have "Email a \<notin> set (map Email as)" using snoc.prems by simp
    then show "Email (as ! k) \<noteq> Email a" if "k < length as" for k using that by (metis length_map nth_map nth_mem)
  qed
  have "email_map (as @ [a]) = (if Email a \<noteq> [] then (email_map as)(Email a \<mapsto> length as) else email_map as)"
    by (simp add: email_map_def enumerate_append_eq)
  then show ?case using snoc.IH [OF d(1)] d(2) by (auto simp: nth_append less_Suc_eq split: if_splits)
qed (simp add: email_map_def)

lemma merge_entry_step:
  assumes "merge_inv s" and "usable_entry item = Some m"
  shows "merge_inv (merge_entry now False s item) \<and> (\<exists>x. RefreshToken x = str_field m ''refresh_token'' \<and> Status x = []
    \<and> RateLimitedUntil x = None \<and> by_email (fst (merge_entry now False s item)) = (by_email (fst s))(str_field m ''email'' \<mapsto> x))"
proof -
  obtain as em r where s: "s = (as, em, r)" by (cases s)
  define e where "e = str_field m ''email''"
  have d: "distinct (map Email as)" and em: "\<And>e i. em e = Some i \<longleftrightarrow> e \<noteq> [] \<and> i < length as \<and> Email (as ! i) = e"
    using assms(1) by (auto simp: merge_inv_def s)
  have ne: "e \<noteq> []" using assms(2) by (auto simp: usable_entry_def e_def split: any.splits if_splits)
  show ?thesis
  proof (cases "em e")
    case None
    let ?x = "added_account now m as"
    have x: "Email ?x = e" "RefreshToken ?x = str_field m ''refresh_token''" "Status ?x = []" "RateLimitedUntil ?x = None"
      by (simp_all add: added_account_def e_def zero_account_def)
    have fresh: "e \<notin> set (map Email as)"
    proof
      assume "e \<in> set (map Email as)"
      then obtain i where "i < length as" "Email (as ! i) = e" by (auto simp: in_set_conv_nth)
      then have "em e = Some i" using em ne by blast
      then show False using None by simp
    qed
    have nofresh: "\<forall>k < length as. Email (as ! k) \<noteq> e" using fresh by (metis length_map nth_map nth_mem)
    have r: "merge_entry now False s item = (as @ [?x], em(e \<mapsto> length as), r\<lparr>Added := Added r + 1\<rparr>)"
      using None assms(2) by (simp add: merge_entry_def s e_def)
    have "merge_inv (merge_entry now False s item)"
      using d em fresh nofresh ne x(1) by (auto simp: merge_inv_def r nth_append less_Suc_eq)
    moreover have "by_email (fst (merge_entry now False s item)) = (by_email (fst s))(e \<mapsto> ?x)"
      using by_email_append_one [of ?x as] fresh x(1) unfolding r unfolding s fst_conv by simp
    ultimately show ?thesis using x unfolding e_def [symmetric] by blast
  next
    case (Some i)
    let ?x = "merge_into m (as ! i)"
    have i: "i < length as" "Email (as ! i) = e" using em Some by auto
    have x: "Email ?x = e" "RefreshToken ?x = str_field m ''refresh_token''" "Status ?x = []" "RateLimitedUntil ?x = None"
      using i by (simp_all add: merge_into_def Let_def split: option.splits)
    have r: "merge_entry now False s item = (as[i := ?x], em, r\<lparr>Updated := Updated r + 1\<rparr>)"
      using Some assms(2) by (simp add: merge_entry_def s e_def)
    have m: "map Email (as[i := ?x]) = map Email as" by (rule map_update_same) simp
    have n: "Email (as[i := ?x] ! k) = Email (as ! k)" if "k < length as" for k
      using m that by (metis length_list_update nth_map)
    have "merge_inv (merge_entry now False s item)" using d em n by (auto simp: merge_inv_def r m)
    moreover have "by_email (fst (merge_entry now False s item)) = (by_email (fst s))(e \<mapsto> ?x)"
      using by_email_update [OF d i(1), of ?x] x(1) i(2) unfolding r unfolding s fst_conv by simp
    ultimately show ?thesis using x unfolding e_def [symmetric] by blast
  qed
qed

text \<open>The usable entry of a backup that comes last for an e-mail address.\<close>

definition last_entry :: "any list \<Rightarrow> string \<Rightarrow> json_object option" where
  "last_entry items e = List.find (\<lambda>m. str_field m ''email'' = e) (rev (List.map_filter usable_entry items))"

lemma merge_fold:
  assumes "merge_inv s"
  shows "merge_inv (foldl (merge_entry now False) s items) \<and>
    (case last_entry items e of
       None \<Rightarrow> by_email (fst (foldl (merge_entry now False) s items)) e = by_email (fst s) e
     | Some m \<Rightarrow> \<exists>x. by_email (fst (foldl (merge_entry now False) s items)) e = Some x
         \<and> RefreshToken x = str_field m ''refresh_token'' \<and> Status x = [] \<and> RateLimitedUntil x = None)"
proof (induction items rule: rev_induct)
  case (snoc item items)
  let ?t = "foldl (merge_entry now False) s items"
  show ?case
  proof (cases "usable_entry item")
    case None
    then have "merge_entry now False ?t item = ?t" by (simp add: merge_entry_def split: prod.splits)
    then have "foldl (merge_entry now False) s (items @ [item]) = ?t" by simp
    moreover have "last_entry (items @ [item]) e = last_entry items e" using None by (simp add: last_entry_def map_filter_def)
    ultimately show ?thesis using snoc.IH by metis
  next
    case (Some m)
    then have "last_entry (items @ [item]) e = (if str_field m ''email'' = e then Some m else last_entry items e)"
      by (simp add: last_entry_def map_filter_def)
    then show ?thesis using snoc.IH merge_entry_step [of ?t item m now] Some by (auto split: option.splits)
  qed
qed (simp add: assms last_entry_def map_filter_def)

lemma merge_skip_prefix:
  "\<exists>new. fst (foldl (merge_entry now True) s items) = fst s @ new"
proof (induction items rule: rev_induct)
  case (snoc item items)
  then show ?case by (auto simp: merge_entry_def split: option.splits prod.splits)
qed simp

section \<open>Properties\<close>

definition demo_crypto :: crypto where
  "demo_crypto = \<lparr>pbkdf2 = (\<lambda>p s n. map (\<lambda>i. word_of_nat (i + length p + length s)) [0..<64]),
     hmac = (\<lambda>k m. map (\<lambda>i. word_of_nat (i + length m) + fold (+) m 0) [0..<32])\<rparr>"

lemma demo_crypto_sized: "sha256_sized demo_crypto"
  by (simp add: sha256_sized_def demo_crypto_def)

definition demo_bundle :: EncryptedBundle where
  "demo_bundle = projr (EncryptBundle demo_crypto (Some [1, 2]) (Some [3]) [7, 8, 9] ''secret'' [] [])"

lemma demo_bundle:
  "EncryptBundle demo_crypto (Some [1, 2]) (Some [3]) [7, 8, 9] ''secret'' [] [] = Inr demo_bundle"
  "DecodeString (Nonce demo_bundle) = Some [3]"
  "\<exists>ct. DecodeString (Ciphertext demo_bundle) = Some ct \<and> length ct = 3"
proof -
  have "length (ctr_xor demo_crypto k [3] 0 [7, 8, 9]) = 3" for k
    using ctr_xor_length [of demo_crypto] demo_crypto_sized by (simp add: sha256_sized_def)
  then show "\<exists>ct. DecodeString (Ciphertext demo_bundle) = Some ct \<and> length ct = 3"
    by (simp add: demo_bundle_def EncryptBundle_def fresh_bytes_def Let_def)
qed (simp_all add: demo_bundle_def EncryptBundle_def fresh_bytes_def Let_def)

text \<open>A backup that EncryptBundle made opens again: DecryptBundle with the same password gives back
  the bytes that were encrypted, whatever their length and whether salt and nonce were passed or drawn.\<close>

theorem encrypted_backup_opens:
  assumes "EncryptBundle c rndSalt rndNonce plaintext password salt nonce = Inr b" and "sha256_sized c"
  shows "DecryptBundle c b password = Inr plaintext"
  using assms by (rule decrypt_encrypt)

theorem encrypted_backup_opens_witness:
  "DecryptBundle demo_crypto demo_bundle ''secret'' = Inr [7, 8, 9]"
  by (rule encrypted_backup_opens [OF demo_bundle(1) demo_crypto_sized])

text \<open>C35: The authentication tag does not fix where the nonce ends and the ciphertext begins: for every
  accepted bundle, moving the first bytes of the ciphertext to the end of the nonce gives a bundle that
  is accepted under the same password and tag, with fewer bytes of plaintext.\<close>

theorem tag_leaves_boundary_open:
  assumes "DecryptBundle c b password = Inr p" and "sha256_sized c"
    and "DecodeString (Nonce b) = Some nonce" and "DecodeString (Ciphertext b) = Some ciphertext"
    and "k \<le> length ciphertext"
  shows "\<exists>q. DecryptBundle c (b\<lparr>Nonce := EncodeToString (nonce @ take k ciphertext),
      Ciphertext := EncodeToString (drop k ciphertext)\<rparr>) password = Inr q \<and> length q = length p - k"
  using assms(1)
proof (rule DecryptBundle_ok)
  fix salt n ct tag iterations
  assume d: "Format b = ''agy-pool-encrypted-v1''" "DecodeString (Salt b) = Some salt" "DecodeString (Nonce b) = Some n"
    "DecodeString (Ciphertext b) = Some ct" "DecodeString (Tag b) = Some tag"
    "iterations = (if Iterations b \<le> 0 then 100000 else Iterations b)" "iterations \<le> 1000000"
    "tag = bundle_tag c (drop 32 (pbkdf2 c (string_bytes password) salt iterations)) salt n ct"
    "p = ctr_xor c (take 32 (pbkdf2 c (string_bytes password) salt iterations)) n 0 ct"
  have same: "n = nonce" "ct = ciphertext" using d(3,4) assms(3,4) by simp_all
  have t: "bundle_tag c key salt (nonce @ take k ciphertext) (drop k ciphertext) = bundle_tag c key salt nonce ciphertext" for key
    by (simp add: bundle_tag_def)
  have "length p = length ciphertext" using assms(2) by (simp add: d(9) same ctr_xor_length sha256_sized_def)
  then show ?thesis using d assms(2) unfolding same
    by (auto simp: DecryptBundle_def Let_def t ctr_xor_length sha256_sized_def)
qed

theorem tag_leaves_boundary_open_witness:
  "\<exists>nonce ct q. nonce \<noteq> Nonce demo_bundle \<and> DecryptBundle demo_crypto (demo_bundle\<lparr>Nonce := nonce, Ciphertext := ct\<rparr>) ''secret'' = Inr q
     \<and> length q = 2"
proof -
  obtain ct where ct: "DecodeString (Ciphertext demo_bundle) = Some ct" "length ct = 3" using demo_bundle(3) by blast
  have ok: "DecryptBundle demo_crypto demo_bundle ''secret'' = Inr [7, 8, 9]"
    using demo_bundle(1) demo_crypto_sized by (rule decrypt_encrypt)
  have "EncodeToString ([3] @ take 1 ct) \<noteq> Nonce demo_bundle"
  proof
    assume "EncodeToString ([3] @ take 1 ct) = Nonce demo_bundle"
    then have "Some ([3] @ take 1 ct) = Some [3 :: 8 word]" using demo_bundle(2) by (metis Decode_Encode)
    then show False using ct(2) by simp
  qed
  then show ?thesis
    using tag_leaves_boundary_open [OF ok demo_crypto_sized demo_bundle(2) ct(1), of 1] ct(2) by fastforce
qed

text \<open>Importing a backup in merge mode: e-mail addresses stay unique; for every address with a usable
  entry the account has the refresh token of its last entry and is no longer restricted or cooling
  down; every account whose address the backup does not name is unchanged.\<close>

theorem merge_import_effect:
  assumes "merge_accounts now False items p = Inr (r, q)" and "distinct (map Email (Accounts p))"
  shows "distinct (map Email (Accounts q)) \<and>
    (\<forall>e. case last_entry items e of
           None \<Rightarrow> by_email (Accounts q) e = by_email (Accounts p) e
         | Some m \<Rightarrow> \<exists>x. by_email (Accounts q) e = Some x \<and> RefreshToken x = str_field m ''refresh_token''
             \<and> Status x = [] \<and> RateLimitedUntil x = None)"
proof -
  let ?s = "(Accounts p, email_map (Accounts p), \<lparr>Added = 0, Updated = 0, Skipped = 0, Total = 0\<rparr>)"
  have i: "merge_inv ?s" using assms(2) email_map_index by (simp add: merge_inv_def)
  have q: "Accounts q = fst (foldl (merge_entry now False) ?s items)"
    using assms(1) by (auto simp: merge_accounts_def split: prod.splits)
  have d: "distinct (map Email (Accounts q))"
    using conjunct1 [OF merge_fold [OF i, where items = items and now = now and e = undefined]] unfolding q merge_inv_def
    by (auto split: prod.splits)
  have "case last_entry items e of
           None \<Rightarrow> by_email (Accounts q) e = by_email (Accounts p) e
         | Some m \<Rightarrow> \<exists>x. by_email (Accounts q) e = Some x \<and> RefreshToken x = str_field m ''refresh_token''
             \<and> Status x = [] \<and> RateLimitedUntil x = None" for e
    using conjunct2 [OF merge_fold [OF i, where items = items and now = now and e = e]] unfolding q fst_conv .
  then show ?thesis using d by blast
qed

theorem merge_import_effect_witness:
  "\<exists>q r. merge_accounts 5 False
       [AObj [(''email'', AStr ''x''), (''refresh_token'', AStr ''old'')], AStr ''junk'',
        AObj [(''email'', AStr ''x''), (''refresh_token'', AStr ''new'')]] NewEmptyPool = Inr (r, q)
     \<and> (\<exists>a. by_email (Accounts q) ''x'' = Some a \<and> RefreshToken a = ''new'')"
proof -
  let ?items = "[AObj [(''email'', AStr ''x''), (''refresh_token'', AStr ''old'')], AStr ''junk'',
        AObj [(''email'', AStr ''x''), (''refresh_token'', AStr ''new'')]]"
  obtain r q where m: "merge_accounts 5 False ?items NewEmptyPool = Inr (r, q)"
    by (cases "merge_accounts 5 False ?items NewEmptyPool") (auto simp: merge_accounts_def split: prod.splits)
  have "last_entry ?items ''x'' = Some [(''email'', AStr ''x''), (''refresh_token'', AStr ''new'')]"
    by (simp add: last_entry_def map_filter_def usable_entry_def str_field_def)
  moreover have "distinct (map Email (Accounts NewEmptyPool))" by (simp add: NewEmptyPool_def)
  ultimately show ?thesis using merge_import_effect [OF m] m by (auto simp: str_field_def dest!: spec [of _ "''x''"])
qed

section \<open>Export and import\<close>

text \<open>What encoding/json makes of a value that it wrote: numbers are read as float64, and an object has
  the same keys, in any order.\<close>

inductive decodes :: "any \<Rightarrow> any \<Rightarrow> bool" where
  dec_nil: "decodes ANil ANil"
| dec_bool: "decodes (ABool b) (ABool b)"
| dec_float: "decodes (AFloat f) (AFloat f)"
| dec_int: "decodes (AInt n) (AFloat (f_of_int n))"
| dec_int64: "decodes (AInt64 n) (AFloat (f_of_int n))"
| dec_str: "decodes (AStr s) (AStr s)"
| dec_arr: "list_all2 decodes xs ys \<Longrightarrow> decodes (AArr xs) (AArr ys)"
| dec_obj: "distinct (map fst ys) \<Longrightarrow> \<forall>k. rel_option decodes (map_of xs k) (map_of ys k) \<Longrightarrow> decodes (AObj xs) (AObj ys)"

inductive_cases decodes_cases:
  "decodes ANil w" "decodes (AFloat f) w" "decodes (AInt n) w" "decodes (AInt64 n) w" "decodes (AStr s) w"
  "decodes (AArr xs) w" "decodes (AObj xs) w"

inductive_simps decodes_simps [simp]:
  "decodes ANil w" "decodes (AFloat f) w" "decodes (AInt n) w" "decodes (AInt64 n) w" "decodes (AStr s) w"

definition reads_back :: "backup_json \<Rightarrow> any \<Rightarrow> bool" where
  "reads_back j v \<longleftrightarrow> (\<forall>t. json_text j v = Some t \<longrightarrow>
     (\<exists>w. decodes v w \<and> json_value j t = Some w \<and> json_value j (t @ [10]) = Some w))"

definition bundle_reads_back :: "backup_json \<Rightarrow> EncryptedBundle \<Rightarrow> bool" where
  "bundle_reads_back j b \<longleftrightarrow> (\<forall>t. json_bundle_text j b = Some t \<longrightarrow> json_bundle j (t @ [10]) = Some b
     \<and> (\<exists>kvs. json_value j (t @ [10]) = Some (AObj kvs) \<and> distinct (map fst kvs)
          \<and> map_of kvs ''format'' = Some (AStr (Format b))))"

lemma decodes_objD:
  assumes "decodes (AObj xs) w"
  obtains ys where "w = AObj ys" "distinct (map fst ys)" "\<And>k. rel_option decodes (map_of xs k) (map_of ys k)"
  using assms by (auto elim: decodes_cases)

lemma field_values:
  assumes "rel_option decodes (map_of xs k) (map_of ys k)"
  shows "map_of xs k = None \<Longrightarrow> map_of ys k = None" "map_of xs k = Some (AStr s) \<Longrightarrow> map_of ys k = Some (AStr s)"
    "map_of xs k = Some (AInt64 n) \<Longrightarrow> map_of ys k = Some (AFloat (f_of_int n))"
    "map_of xs k = Some ANil \<Longrightarrow> map_of ys k = Some ANil"
    "map_of xs k = Some (AFloat f) \<Longrightarrow> map_of ys k = Some (AFloat f)"
  using assms by (auto elim: option.rel_cases)

lemma unmarshal_lookup:
  "distinct (map fst kvs) \<Longrightarrow> unmarshal_into (Some (AObj kvs)) m = Some t \<Longrightarrow>
     map_of t k = (case map_of kvs k of None \<Rightarrow> map_of m k | Some v \<Rightarrow> Some v)"
  using rows.lookup_put_all_distinct [of kvs m k] by (auto simp: unmarshal_into_def rows.put_all_def)

definition restored :: "bool \<Rightarrow> nat \<Rightarrow> Account \<Rightarrow> Account" where
  "restored noStats i a =
     zero_account\<lparr>ID := account_id (i + 1), Email := Email a, Name := Name a, RefreshToken := RefreshToken a,
       AccessToken := AccessToken a, TokenExpiry := TokenExpiry a, CreatedAt := CreatedAt a,
       RequestCount := (if noStats then 0 else RequestCount a),
       GenCount := (if noStats then None else Some (case GenCount a of None \<Rightarrow> 0 | Some n \<Rightarrow> n))\<rparr>"

text \<open>What an account needs for its entry to be read without loss: float64 holds the integers up to 2^53.\<close>

definition exportable :: "Account \<Rightarrow> bool" where
  "exportable a \<longleftrightarrow> Email a \<noteq> [] \<and> RefreshToken a \<noteq> [] \<and> \<bar>RequestCount a\<bar> \<le> 2 ^ 53
     \<and> (case CreatedAt a of None \<Rightarrow> False | Some n \<Rightarrow> \<bar>n\<bar> \<le> 2 ^ 53)
     \<and> (case GenCount a of None \<Rightarrow> True | Some n \<Rightarrow> \<bar>n\<bar> \<le> 2 ^ 53)"

lemma to_int_exact: "\<bar>n\<bar> \<le> 2 ^ 53 \<Longrightarrow> to_int std (f_of_int n) = n"
  by (auto simp: to_int_def trunc_int64_def)

lemma export_account_fields:
  obtains kvs where "export_account j ns a = AObj kvs" "map_of kvs ''email'' = Some (AStr (Email a))"
    "map_of kvs ''name'' = Some (AStr (Name a))" "map_of kvs ''refresh_token'' = Some (AStr (RefreshToken a))"
    "map_of kvs ''access_token'' = Some (AStr (AccessToken a))"
    "map_of kvs ''token_expiry'' = Some (any_float (TokenExpiry a))" "map_of kvs ''created_at'' = Some (any_int (CreatedAt a))"
    "map_of kvs ''request_count'' = (if ns then None else Some (AInt64 (RequestCount a)))"
    "map_of kvs ''gen_count'' = (if ns then None else Some (AInt64 (case GenCount a of None \<Rightarrow> 0 | Some n \<Rightarrow> n)))"
  by (rule that [OF export_account_def]) (simp_all split: option.split)

lemma exported_entry:
  assumes "exportable a" and "decodes (export_account j ns a) w"
  obtains m where "usable_entry w = Some m" "replacement std now i m = restored ns i a"
proof (rule export_account_fields [of j ns a])
  fix kvs
  assume k: "export_account j ns a = AObj kvs" "map_of kvs ''email'' = Some (AStr (Email a))"
    "map_of kvs ''name'' = Some (AStr (Name a))" "map_of kvs ''refresh_token'' = Some (AStr (RefreshToken a))"
    "map_of kvs ''access_token'' = Some (AStr (AccessToken a))"
    "map_of kvs ''token_expiry'' = Some (any_float (TokenExpiry a))" "map_of kvs ''created_at'' = Some (any_int (CreatedAt a))"
    "map_of kvs ''request_count'' = (if ns then None else Some (AInt64 (RequestCount a)))"
    "map_of kvs ''gen_count'' = (if ns then None else Some (AInt64 (case GenCount a of None \<Rightarrow> 0 | Some n \<Rightarrow> n)))"
  obtain m where w: "w = AObj m" and rel: "\<And>k. rel_option decodes (map_of kvs k) (map_of m k)"
    using assms(2) unfolding k(1) by (rule decodes_objD) blast
  note f = field_values [OF rel]
  obtain created where c: "CreatedAt a = Some created" "\<bar>created\<bar> \<le> 2 ^ 53" using assms(1) by (auto simp: exportable_def split: option.splits)
  have strs: "str_field m ''email'' = Email a" "str_field m ''name'' = Name a" "str_field m ''refresh_token'' = RefreshToken a"
    "str_field m ''access_token'' = AccessToken a"
    using f(2) [OF k(2)] f(2) [OF k(3)] f(2) [OF k(4)] f(2) [OF k(5)] by (simp_all add: str_field_def)
  have expiry: "num_field m ''token_expiry'' = TokenExpiry a"
    using k(6) f(4,5) [of "''token_expiry''"] by (cases "TokenExpiry a") (auto simp: num_field_def any_float_def)
  have made: "num_field m ''created_at'' = Some (f_of_int created)"
    using k(7) f(3) [of "''created_at''"] by (simp add: num_field_def any_int_def c)
  have count: "num_field m ''request_count'' = (if ns then None else Some (f_of_int (RequestCount a)))"
    using k(8) f(1,3) [of "''request_count''"] by (cases ns) (simp_all add: num_field_def)
  have gens: "num_field m ''gen_count'' = (if ns then None else Some (f_of_int (case GenCount a of None \<Rightarrow> 0 | Some n \<Rightarrow> n)))"
    using k(9) f(1,3) [of "''gen_count''"] by (cases ns) (simp_all add: num_field_def)
  have bounds: "\<bar>RequestCount a\<bar> \<le> 2 ^ 53" "\<bar>case GenCount a of None \<Rightarrow> 0 | Some n \<Rightarrow> n\<bar> \<le> 2 ^ 53"
    using assms(1) by (auto simp: exportable_def split: option.splits)
  have "usable_entry w = Some m" using assms(1) by (simp add: w usable_entry_def strs exportable_def)
  moreover have "replacement std now i m = restored ns i a"
    by (simp add: replacement_def restored_def strs expiry made count gens to_int_exact [OF bounds(1)]
        to_int_exact [OF bounds(2)] to_int_exact [OF c(2)] c(1))
  ultimately show thesis by (rule that)
qed

lemma exported_entries:
  assumes "list_all2 decodes (map (export_account j ns) as) ws" and "\<forall>a \<in> set as. exportable a"
  shows "concat (map (\<lambda>(i, item). case usable_entry item of None \<Rightarrow> [] | Some m \<Rightarrow> [replacement std now i m]) (enumerate n ws))
    = map (\<lambda>(i, a). restored ns i a) (enumerate n as)"
  using assms
proof (induction as arbitrary: ws n)
  case (Cons a as)
  then obtain w ws' where ws: "ws = w # ws'" "decodes (export_account j ns a) w" "list_all2 decodes (map (export_account j ns) as) ws'"
    by (auto simp: list_all2_Cons1)
  have a: "exportable a" using Cons.prems(2) by simp
  obtain m where "usable_entry w = Some m" "replacement std now n m = restored ns n a"
    using exported_entry [OF a ws(2), of std now n] by blast
  then show ?case using Cons.IH [OF ws(3), of "Suc n"] Cons.prems(2) by (simp add: ws(1))
qed simp

lemma active_email_nth:
  assumes "n < length (Accounts p)" and "ActiveAccountID p = Some (ID (Accounts p ! n))" and "distinct (ids p)"
  shows "active_email p = AStr (Email (Accounts p ! n))"
proof -
  have "List.find (\<lambda>a. ID a = ID (Accounts p ! n)) (Accounts p) = Some (Accounts p ! n)"
    using assms(1,3) by (auto simp: find_Some_iff ids_def distinct_conv_nth intro!: exI [of _ n])
  then show ?thesis by (simp add: active_email_def assms(2))
qed

lemma restored_chosen:
  assumes "n < length as" and "distinct (map Email as)"
  shows "List.find (\<lambda>b. Email b = Email (as ! n)) (map (\<lambda>(i, a). restored ns i a) (enumerate 0 as)) = Some (restored ns n (as ! n))"
  unfolding find_Some_iff
proof (intro exI [of _ n] conjI allI impI)
  show "n < length (map (\<lambda>(i, a). restored ns i a) (enumerate 0 as))" using assms(1) by simp
  show "Email (map (\<lambda>(i, a). restored ns i a) (enumerate 0 as) ! n) = Email (as ! n)"
    "restored ns n (as ! n) = map (\<lambda>(i, a). restored ns i a) (enumerate 0 as) ! n"
    using assms(1) by (simp_all add: nth_enumerate_eq restored_def)
  show "Email (map (\<lambda>(i, a). restored ns i a) (enumerate 0 as) ! k) \<noteq> Email (as ! n)" if "k < n" for k
    using assms that by (simp add: nth_enumerate_eq restored_def distinct_conv_nth)
qed

lemma exported_object:
  assumes "ExportPool c j rs rn now encrypt password ns pool = Inr content" and "sha256_sized c"
    and "reads_back j (export_bundle j ns now pool)" and "\<forall>raw b. json_text j (export_bundle j ns now pool) = Some raw \<and>
      EncryptBundle c rs rn raw password [] [] = Inr b \<longrightarrow> bundle_reads_back j b"
  obtains obj ws where "backup_object c j password content = Inr obj" "map_of obj ''accounts'' = Some (AArr ws)"
    "list_all2 decodes (map (export_account j ns) (Accounts pool)) ws" "str_field obj ''strategy'' = Strategy pool"
    "\<And>e. active_email pool = AStr e \<Longrightarrow> str_field obj ''active_account_email'' = e"
proof -
  obtain raw where raw: "json_text j (export_bundle j ns now pool) = Some raw"
    using assms(1) by (auto simp: ExportPool_def split: if_splits option.splits)
  obtain w where w: "decodes (export_bundle j ns now pool) w" "json_value j raw = Some w" "json_value j (raw @ [10]) = Some w"
    using assms(3) raw unfolding reads_back_def by blast
  obtain m where m: "w = AObj m" "distinct (map fst m)"
    and rel: "\<And>k. rel_option decodes (map_of [(''version'', AInt 1), (''app'', AStr ''agy-pool''), (''exported_at'', AInt64 now),
           (''strategy'', AStr (Strategy pool)), (''active_account_email'', active_email pool),
           (''accounts'', AArr (map (export_account j ns) (Accounts pool)))] k) (map_of m k)"
    using w(1) unfolding export_bundle_def by (rule decodes_objD) blast
  obtain ws where ws: "map_of m ''accounts'' = Some (AArr ws)" "list_all2 decodes (map (export_account j ns) (Accounts pool)) ws"
    using rel [of "''accounts''"] by (auto elim!: decodes_cases simp: option_rel_Some1)
  have fields: "map_of m ''strategy'' = Some (AStr (Strategy pool))" "map_of m ''format'' = None"
    using rel [of "''strategy''"] rel [of "''format''"] by (auto simp: option_rel_Some1)
  have active: "map_of m ''active_account_email'' = Some (AStr e)" if "active_email pool = AStr e" for e
    using rel [of "''active_account_email''"] that by (auto simp: option_rel_Some1)
  have into: "\<exists>obj. unmarshal_into (Some w) t = Some obj \<and> map_of obj ''accounts'' = Some (AArr ws)
      \<and> str_field obj ''strategy'' = Strategy pool \<and> (map_of t ''format'' = None \<longrightarrow> map_of obj ''format'' = None)
      \<and> (\<forall>e. active_email pool = AStr e \<longrightarrow> str_field obj ''active_account_email'' = e)" for t
  proof -
    obtain obj where o: "unmarshal_into (Some w) t = Some obj" by (simp add: unmarshal_into_def m(1))
    note l = unmarshal_lookup [OF m(2) o [unfolded m(1)]]
    show ?thesis using o by (auto simp: l ws(1) fields active str_field_def)
  qed
  show thesis
  proof (cases "password = []")
    case True
    then have "content = raw @ [10]" using assms(1) by (auto simp: ExportPool_def raw split: if_splits)
    moreover obtain obj where "unmarshal_into (Some w) [] = Some obj" "map_of obj ''accounts'' = Some (AArr ws)"
      "str_field obj ''strategy'' = Strategy pool" "map_of obj ''format'' = None"
      "\<forall>e. active_email pool = AStr e \<longrightarrow> str_field obj ''active_account_email'' = e" using into [of "[]"] by auto
    ultimately show thesis using ws(2) that by (auto simp: backup_object_def w(3) str_field_def)
  next
    case False
    then obtain b t where b: "EncryptBundle c rs rn raw password [] [] = Inr b" "json_bundle_text j b = Some t" "content = t @ [10]"
      using assms(1) by (auto simp: ExportPool_def raw split: if_splits option.splits sum.splits)
    have f: "Format b = ''agy-pool-encrypted-v1''"
      using b(1) by (auto simp: EncryptBundle_def Let_def split: option.splits)
    obtain kvs where k: "json_bundle j content = Some b" "json_value j content = Some (AObj kvs)" "distinct (map fst kvs)"
      "map_of kvs ''format'' = Some (AStr (Format b))"
      using assms(4) raw b unfolding bundle_reads_back_def by blast
    obtain t0 where t0: "unmarshal_into (Some (AObj kvs)) [] = Some t0" by (simp add: unmarshal_into_def)
    have "str_field t0 ''format'' = ''agy-pool-encrypted-v1''"
      using unmarshal_lookup [OF k(3) t0, of "''format''"] k(4) f by (simp add: str_field_def)
    moreover have "DecryptBundle c b password = Inr raw" using b(1) assms(2) by (rule decrypt_encrypt)
    moreover obtain obj where "unmarshal_into (Some w) t0 = Some obj" "map_of obj ''accounts'' = Some (AArr ws)"
      "str_field obj ''strategy'' = Strategy pool"
      "\<forall>e. active_email pool = AStr e \<longrightarrow> str_field obj ''active_account_email'' = e" using into [of t0] by auto
    ultimately show thesis using False ws(2) that by (auto simp: backup_object_def k(1,2) t0 w(2))
  qed
qed


definition sample_account :: Account where
  "sample_account = zero_account\<lparr>ID := ''acc_7'', Email := ''x'', Name := ''n'', RefreshToken := ''r'', AccessToken := ''a'',
     CreatedAt := Some 12, RequestCount := 3\<rparr>"

definition sample_pool :: Pool where
  "sample_pool = NewEmptyPool\<lparr>Accounts := [sample_account], ActiveAccountID := Some ''acc_7''\<rparr>"

definition sample_entry :: any where
  "sample_entry = AObj [(''email'', AStr ''x''), (''name'', AStr ''n''), (''refresh_token'', AStr ''r''),
       (''access_token'', AStr ''a''), (''token_expiry'', ANil), (''created_at'', AFloat (f_of_int 12)),
       (''request_count'', AFloat (f_of_int 3)), (''gen_count'', AFloat (f_of_int 0))]"

definition sample_document :: any where
  "sample_document = AObj [(''version'', AFloat (f_of_int 1)), (''app'', AStr ''agy-pool''), (''exported_at'', AFloat (f_of_int 99)),
     (''strategy'', AStr ''max_quota''), (''active_account_email'', AStr ''x''),
     (''accounts'', AArr [sample_entry])]"

definition sample_bundle :: EncryptedBundle where
  "sample_bundle = projr (EncryptBundle demo_crypto (Some [1, 2]) (Some [3]) [1] ''secret'' [] [])"

definition sample_json :: backup_json where
  "sample_json = \<lparr>json_value = (\<lambda>t. if t = [1] \<or> t = [1, 10] then Some sample_document
       else if t = [2, 10] then Some (AObj [(''format'', AStr ''agy-pool-encrypted-v1'')]) else None),
     json_bundle = (\<lambda>t. Some sample_bundle), json_text = (\<lambda>v. Some [1]), json_bundle_text = (\<lambda>b. Some [2]),
     quota_value = (\<lambda>q. ANil)\<rparr>"

lemma decodes_same_keys:
  assumes "map fst xs = map fst ys" and "distinct (map fst ys)" and "list_all2 decodes (map snd xs) (map snd ys)"
  shows "decodes (AObj xs) (AObj ys)"
proof (rule dec_obj [OF assms(2)], intro allI)
  fix k
  show "rel_option decodes (map_of xs k) (map_of ys k)" using assms(1,3)
  proof (induction xs arbitrary: ys)
    case (Cons x xs)
    then show ?case by (cases ys) auto
  qed simp
qed

lemma sample_document_decodes: "decodes (export_bundle sample_json False 99 sample_pool) sample_document"
proof -
  have a: "decodes (export_account sample_json False sample_account)
    sample_entry"
    unfolding export_account_def sample_entry_def
    by (rule decodes_same_keys) (simp_all add: sample_account_def zero_account_def any_int_def any_float_def)
  have "Accounts sample_pool = [sample_account]" "Strategy sample_pool = ''max_quota''" "active_email sample_pool = AStr ''x''"
    by (simp_all add: sample_pool_def sample_account_def NewEmptyPool_def active_email_def)
  then show ?thesis unfolding export_bundle_def sample_document_def
    by (intro decodes_same_keys) (simp_all add: dec_arr a)
qed


end
