(* ===== verification/Archive.thy ===== *)
theory Archive
  imports Inventory Config_Guard
begin

text \<open>
  Archives of conversations: the verifier of internal/inventory/archive.go and verify.go. An archive is
  a directory with a manifest; every look at a file, and the walk over the directory, is an observation,
  because files may change between two looks. SHA-256 and encoding/json are arguments, and the answers
  of SQLite on the snapshot are inputs.
\<close>

section \<open>Manifests\<close>

record ArchiveFile =
  af_path :: string
  af_size :: int
  af_sha256 :: string
  af_role :: string

record ArchiveManifest =
  am_format :: int
  am_archive_id :: string
  am_created :: wtime
  am_conversation_id :: string
  am_schema :: string
  am_schema_version :: int
  am_observed_state :: string
  am_main_sha256 :: string
  am_snapshot_sha256 :: string
  am_size :: int
  am_files :: "ArchiveFile list"
  am_brain :: bool
  am_summary :: bool
  am_tool :: string

definition validConversationID :: "string \<Rightarrow> bool" where
  "validConversationID i \<longleftrightarrow> i \<noteq> [] \<and> length i \<le> 128 \<and> i \<noteq> ''.'' \<and> i \<noteq> ''..''
     \<and> list_all (\<lambda>c. (97 \<le> code c \<and> code c \<le> 122) \<or> (65 \<le> code c \<and> code c \<le> 90) \<or> (48 \<le> code c \<and> code c \<le> 57)
                  \<or> c = CHR ''-'' \<or> c = CHR ''_'') i"

definition lower_hex :: "nat \<Rightarrow> string \<Rightarrow> bool" where
  "lower_hex n s \<longleftrightarrow> length s = n \<and> to_lower s = s \<and> list_all is_hex s"

definition validArchiveID :: "string \<Rightarrow> bool" where
  "validArchiveID i \<longleftrightarrow> lower_hex 32 i"

definition validSHA256 :: "string \<Rightarrow> bool" where
  "validSHA256 s \<longleftrightarrow> lower_hex 64 s"

section \<open>Looks at files\<close>

datatype archive_error = Missing | OtherIO | Cancelled | Named string

datatype open_result = Opened | NotFound | OpenFailed

record file_obs =
  fo_open :: open_result
  fo_stat :: "(file_stat \<times> bool) option" \<comment> \<open>with whether there are several links\<close>
  fo_path :: "file_stat option"
  fo_content :: "bytes option"
  fo_stat_after :: "file_stat option"
  fo_path_after :: "file_stat option"

text \<open>The checks before and after the reading; the first gives the size.\<close>

definition look_before :: "file_obs \<Rightarrow> file_stat option" where
  "look_before fo =
     (case fo_stat fo of
        Some (st, links) \<Rightarrow> if fs_regular st \<and> \<not> links \<and> same_file st (fo_path fo) then Some st else None
      | None \<Rightarrow> None)"

definition look_after :: "file_stat \<Rightarrow> file_obs \<Rightarrow> bool" where
  "look_after st fo \<longleftrightarrow> same_file st (fo_stat_after fo) \<and> same_file st (fo_path_after fo)"

definition open_error :: "file_obs \<Rightarrow> archive_error option" where
  "open_error fo = (case fo_open fo of Opened \<Rightarrow> None | NotFound \<Rightarrow> Some Missing | OpenFailed \<Rightarrow> Some OtherIO)"

definition archiveFileRecord :: "(bytes \<Rightarrow> bytes) \<Rightarrow> file_obs \<Rightarrow> string \<Rightarrow> string \<Rightarrow> archive_error + ArchiveFile" where
  "archiveFileRecord sha fo path role =
     (case open_error fo of Some e \<Rightarrow> Inl e | None \<Rightarrow>
      case look_before fo of None \<Rightarrow> Inl (Named ''archive_file_invalid'') | Some st \<Rightarrow>
      case fo_content fo of None \<Rightarrow> Inl (Named ''archive_hash_failed'') | Some content \<Rightarrow>
        if int (length content) \<noteq> fs_size st \<or> \<not> look_after st fo then Inl (Named ''archive_hash_failed'')
        else Inr \<lparr>af_path = path, af_size = int (length content), af_sha256 = digest_of sha content, af_role = role\<rparr>)"

definition readArchiveFile :: "file_obs \<Rightarrow> nat \<Rightarrow> archive_error + bytes" where
  "readArchiveFile fo limit =
     (case open_error fo of Some e \<Rightarrow> Inl e | None \<Rightarrow>
      case look_before fo of None \<Rightarrow> Inl (Named ''archive_manifest_unsafe'') | Some st \<Rightarrow>
        if fs_size st < 0 \<or> int limit < fs_size st then Inl (Named ''archive_manifest_invalid'')
        else case fo_content fo of None \<Rightarrow> Inl (Named ''archive_manifest_unsafe'') | Some content \<Rightarrow>
          if look_after st fo then Inr (take (limit + 1) content) else Inl (Named ''archive_manifest_unsafe''))"

section \<open>The snapshot\<close>

record snapshot_obs =
  so_open :: bool
  so_stat :: "(file_stat \<times> bool) option"
  so_path :: "file_stat option"
  so_db :: bool
  so_integrity :: "string option"
  so_version :: "int option"
  so_items :: "(string \<times> string) list option" \<comment> \<open>type and name, ordered; None when the query or a row fails\<close>
  so_columns :: "string \<Rightarrow> (string \<times> string \<times> int) list option"
  so_index :: "string \<Rightarrow> string option"

definition archiveSchemaMatches :: "(string \<Rightarrow> (string \<times> string \<times> int) list option) \<Rightarrow> (string \<times> string list) list \<Rightarrow> bool" where
  "archiveSchemaMatches cols expected \<longleftrightarrow>
     list_all (\<lambda>(table, want). case cols table of
        None \<Rightarrow> False
      | Some got \<Rightarrow> equal_fold (join ''|'' (map column_text got)) (join ''|'' want)) expected"

definition archiveIndexMatches :: "(string \<Rightarrow> string option) \<Rightarrow> string \<Rightarrow> string \<Rightarrow> bool" where
  "archiveIndexMatches idx index column \<longleftrightarrow> idx index = Some column"

definition fixture_items :: "string list" where
  "fixture_items = [''table:gen_metadata'', ''table:steps'', ''table:trajectory_metadata_blob'']"

definition production_items :: "string list" where
  "production_items =
     [''index:idx_steps_status'', ''index:idx_steps_step_type'', ''table:battle_mode_infos'', ''table:executor_metadata'',
      ''table:gen_metadata'', ''table:parent_references'', ''table:steps'', ''table:trajectory_meta'',
      ''table:trajectory_metadata_blob'']"

definition production_columns :: "(string \<times> string list) list" where
  "production_columns =
     [(''trajectory_meta'', [''trajectory_id:TEXT:1'', ''cascade_id:TEXT:0'', ''trajectory_type:INTEGER:0'', ''source:INTEGER:0'']),
      (''trajectory_metadata_blob'', [''id:TEXT:1'', ''data:BLOB:0'']),
      (''steps'', [''idx:INTEGER:1'', ''step_type:INTEGER:0'', ''status:INTEGER:0'', ''has_subtrajectory:numeric:0'',
                   ''metadata:BLOB:0'', ''error_details:BLOB:0'', ''permissions:BLOB:0'', ''task_details:BLOB:0'',
                   ''render_info:BLOB:0'', ''step_payload:BLOB:0'', ''step_format:INTEGER:0'']),
      (''gen_metadata'', [''idx:INTEGER:1'', ''data:BLOB:0'', ''size:INTEGER:0'']),
      (''executor_metadata'', [''idx:INTEGER:1'', ''data:BLOB:0'']),
      (''parent_references'', [''idx:INTEGER:1'', ''data:BLOB:0'']),
      (''battle_mode_infos'', [''idx:INTEGER:1'', ''data:BLOB:0''])]"

definition inspectArchiveSnapshot :: "snapshot_obs \<Rightarrow> archive_error + string \<times> int" where
  "inspectArchiveSnapshot so =
     (if \<not> so_open so then Inl (Named ''snapshot_open_failed'')
      else if (case so_stat so of None \<Rightarrow> True
               | Some (st, links) \<Rightarrow> \<not> (fs_regular st \<and> \<not> links \<and> same_file st (so_path so)))
        then Inl (Named ''snapshot_open_failed'')
      else if \<not> so_db so then Inl (Named ''snapshot_open_failed'')
      else if so_integrity so \<noteq> Some ''ok'' then Inl (Named ''snapshot_integrity_failed'')
      else case so_version so of None \<Rightarrow> Inl (Named ''snapshot_integrity_failed'') | Some version \<Rightarrow>
      case so_items so of None \<Rightarrow> Inl (Named ''snapshot_schema_failed'') | Some rows \<Rightarrow>
        let items = map (\<lambda>(typ, name). typ @ '':'' @ name) rows
        in if version = 0 \<and> items = fixture_items \<and> archiveSchemaMatches (so_columns so) expected_tables
           then Inr (''tokei_fixture_v1'', version)
           else if version = 1 \<and> items = production_items \<and> archiveSchemaMatches (so_columns so) production_columns
                   \<and> archiveIndexMatches (so_index so) ''idx_steps_status'' ''status''
                   \<and> archiveIndexMatches (so_index so) ''idx_steps_step_type'' ''step_type''
           then Inr (''agy_production_v1'', version)
           else Inl (Named ''snapshot_schema_unsupported''))"

section \<open>The verifier\<close>

datatype entry_kind = WalkError archive_error | Directory | Symlink | Regular | OtherKind

datatype lstat_look = Absent | Present | LookFailed

text \<open>
  The looks of one verification, in the order of the code: the manifest, the listed files by their
  position, the sidecars, the walk, the snapshot, the snapshot file again, and the summary.
\<close>

record archive_obs =
  ao_manifest :: file_obs
  ao_file :: "nat \<Rightarrow> file_obs"
  ao_sidecar :: "string \<Rightarrow> lstat_look"
  ao_walk :: "(string \<times> entry_kind) list"
  ao_snapshot :: snapshot_obs
  ao_snapshot_again :: file_obs
  ao_summary :: file_obs

record archive_json =
  strict_manifest :: "bytes \<Rightarrow> ArchiveManifest option" \<comment> \<open>no unknown field, nothing but white space after it\<close>
  object_size :: "bytes \<Rightarrow> nat option" \<comment> \<open>the number of keys of an object\<close>

text \<open>The directories above a clean relative path, which repeated filepath.Dir visits.\<close>

definition ancestors :: "string \<Rightarrow> string list" where
  "ancestors p = (let ws = split_on (CHR ''/'') p in map (\<lambda>k. join ''/'' (take k ws)) (rev [1..<length ws]))"

record verify_state =
  vs_seen :: "string list"
  vs_dirs :: "string list"
  vs_snapshot :: string
  vs_summary :: "ArchiveFile option"
  vs_brain :: bool

definition verify_start :: verify_state where
  "verify_start = \<lparr>vs_seen = [], vs_dirs = [''.''], vs_snapshot = [], vs_summary = None, vs_brain = False\<rparr>"

definition path_safe :: "string list \<Rightarrow> ArchiveFile \<Rightarrow> bool" where
  "path_safe seen f \<longleftrightarrow> IsLocal (Clean (af_path f)) \<and> Clean (af_path f) = af_path f \<and> af_path f \<notin> set seen
     \<and> af_path f \<noteq> ''manifest.json'' \<and> 0 \<le> af_size f \<and> validSHA256 (af_sha256 f)"

definition classify_file :: "ArchiveFile \<Rightarrow> verify_state \<Rightarrow> archive_error + verify_state" where
  "classify_file f s =
     (if af_path f = ''conversation/main.db'' \<and> af_role f = ''sqlite_snapshot'' then Inr (s\<lparr>vs_snapshot := af_sha256 f\<rparr>)
      else if af_path f = ''summary/metadata.json'' \<and> af_role f = ''summary_metadata'' then Inr (s\<lparr>vs_summary := Some f\<rparr>)
      else if has_prefix (af_path f) ''brain/'' \<and> af_role f = ''brain'' then Inr (s\<lparr>vs_brain := True\<rparr>)
      else Inl (Named ''archive_manifest_invalid''))"

definition verify_file :: "(bytes \<Rightarrow> bytes) \<Rightarrow> verify_state \<Rightarrow> ArchiveFile \<times> file_obs \<Rightarrow> archive_error + verify_state" where
  "verify_file sha s ff =
     (case ff of (f, fo) \<Rightarrow>
        if \<not> path_safe (vs_seen s) f then Inl (Named ''archive_manifest_unsafe'')
        else let s1 = s\<lparr>vs_seen := vs_seen s @ [af_path f], vs_dirs := vs_dirs s @ ancestors (af_path f)\<rparr>
             in case archiveFileRecord sha fo (af_path f) (af_role f) of
                  Inl Missing \<Rightarrow> Inl (Named ''archive_incomplete'')
                | Inl e \<Rightarrow> if e = Named ''archive_file_invalid'' then Inl (Named ''archive_manifest_unsafe'')
                           else Inl (Named ''archive_verification_failed'')
                | Inr a \<Rightarrow> if af_size a \<noteq> af_size f \<or> af_sha256 a \<noteq> af_sha256 f
                           then Inl (Named ''archive_verification_failed'')
                           else classify_file f s1)"

fun check_sidecars :: "(string \<Rightarrow> lstat_look) \<Rightarrow> string list \<Rightarrow> archive_error option" where
  "check_sidecars look [] = None"
| "check_sidecars look (suf # sufs) =
     (case look suf of
        Present \<Rightarrow> Some (Named ''archive_incomplete'')
      | LookFailed \<Rightarrow> Some (Named ''archive_manifest_unsafe'')
      | Absent \<Rightarrow> check_sidecars look sufs)"

definition walk_entry :: "verify_state \<Rightarrow> string \<times> entry_kind \<Rightarrow> archive_error option" where
  "walk_entry s e =
     (case e of (path, kind) \<Rightarrow>
        (case kind of
           WalkError err \<Rightarrow> Some err
         | Directory \<Rightarrow> if path = ''.'' \<or> path \<in> set (vs_dirs s) then None else Some (Named ''archive_unexpected_file'')
         | Regular \<Rightarrow> if path = ''manifest.json'' \<or> path \<in> set (vs_seen s) then None else Some (Named ''archive_unexpected_file'')
         | _ \<Rightarrow> Some (Named ''archive_manifest_unsafe'')))"

fun first_error :: "('a \<Rightarrow> 'e option) \<Rightarrow> 'a list \<Rightarrow> 'e option" where
  "first_error f [] = None"
| "first_error f (x # xs) = (case f x of Some e \<Rightarrow> Some e | None \<Rightarrow> first_error f xs)"

definition check_summary :: "(bytes \<Rightarrow> bytes) \<Rightarrow> archive_json \<Rightarrow> file_obs \<Rightarrow> ArchiveFile option \<Rightarrow> bool" where
  "check_summary sha jd fo expected \<longleftrightarrow>
     (case (readArchiveFile fo (16 * 2 ^ 20), expected) of
        (Inr data, Some f) \<Rightarrow> int (length data) = af_size f \<and> digest_of sha data = af_sha256 f
           \<and> (case object_size jd data of None \<Rightarrow> False | Some n \<Rightarrow> 0 < n)
      | _ \<Rightarrow> False)"

definition manifest_valid :: "ArchiveManifest \<Rightarrow> bool" where
  "manifest_valid m \<longleftrightarrow> validArchiveID (am_archive_id m) \<and> validConversationID (am_conversation_id m)
     \<and> wnanos (am_created m) \<noteq> wnanos zero_time \<and> validSHA256 (am_main_sha256 m) \<and> validSHA256 (am_snapshot_sha256 m)"

definition verify_manifest :: "(bytes \<Rightarrow> bytes) \<Rightarrow> archive_json \<Rightarrow> archive_obs \<Rightarrow> ArchiveManifest \<Rightarrow> archive_error + ArchiveManifest" where
  "verify_manifest sha jd ao m =
     (case fold_err (verify_file sha) verify_start (zip (am_files m) (map (ao_file ao) [0..<length (am_files m)])) of
        Inl e \<Rightarrow> Inl e
      | Inr s0 \<Rightarrow>
          let s = (if am_brain m then s0\<lparr>vs_dirs := vs_dirs s0 @ [''brain'']\<rparr> else s0)
          in if ''conversation/main.db'' \<notin> set (vs_seen s) \<or> vs_snapshot s \<noteq> am_snapshot_sha256 m
                \<or> (vs_summary s \<noteq> None) \<noteq> am_summary m \<or> (vs_brain s \<and> \<not> am_brain m)
             then Inl (Named ''archive_incomplete'')
             else case check_sidecars (ao_sidecar ao) [''-wal'', ''-shm'', ''-journal''] of Some e \<Rightarrow> Inl e | None \<Rightarrow>
             case first_error (walk_entry s) (ao_walk ao) of Some e \<Rightarrow> Inl e | None \<Rightarrow>
             case inspectArchiveSnapshot (ao_snapshot ao) of Inl e \<Rightarrow> Inl e | Inr x \<Rightarrow>
             case archiveFileRecord sha (ao_snapshot_again ao) ''conversation/main.db'' ''sqlite_snapshot'' of
               Inl e \<Rightarrow> Inl (Named ''archive_verification_failed'')
             | Inr again \<Rightarrow>
                 if af_sha256 again \<noteq> vs_snapshot s then Inl (Named ''archive_verification_failed'')
                 else if am_summary m \<and> \<not> check_summary sha jd (ao_summary ao) (vs_summary s)
                 then Inl (Named ''archive_summary_invalid'')
                 else Inr m)"

definition verifyArchiveDirectory :: "(bytes \<Rightarrow> bytes) \<Rightarrow> archive_json \<Rightarrow> archive_obs \<Rightarrow> archive_error + ArchiveManifest" where
  "verifyArchiveDirectory sha jd ao =
     (case readArchiveFile (ao_manifest ao) (2 ^ 20) of
        Inl Missing \<Rightarrow> Inl (Named ''archive_incomplete'')
      | Inl e \<Rightarrow> Inl e
      | Inr data \<Rightarrow>
          (case strict_manifest jd data of
             None \<Rightarrow> Inl (Named ''archive_manifest_invalid'')
           | Some m \<Rightarrow>
               if am_format m \<noteq> 1 then Inl (Named ''archive_format_unsupported'')
               else if \<not> manifest_valid m then Inl (Named ''archive_manifest_invalid'')
               else verify_manifest sha jd ao m))"

section \<open>What an accepted archive is\<close>

text \<open>A listed file was read as the regular file it was before and after, with the listed size and digest.\<close>

definition file_matches :: "(bytes \<Rightarrow> bytes) \<Rightarrow> ArchiveFile \<Rightarrow> file_obs \<Rightarrow> bool" where
  "file_matches sha f fo \<longleftrightarrow>
     fo_open fo = Opened \<and>
     (\<exists>st content. look_before fo = Some st \<and> look_after st fo \<and> fo_content fo = Some content
        \<and> fs_size st = af_size f \<and> int (length content) = af_size f \<and> digest_of sha content = af_sha256 f)"

definition role_of_path :: "ArchiveFile \<Rightarrow> bool" where
  "role_of_path f \<longleftrightarrow>
     (af_path f = ''conversation/main.db'' \<and> af_role f = ''sqlite_snapshot'')
     \<or> (af_path f = ''summary/metadata.json'' \<and> af_role f = ''summary_metadata'')
     \<or> (has_prefix (af_path f) ''brain/'' \<and> af_role f = ''brain'')"

lemma archiveFileRecord_ok:
  assumes "archiveFileRecord sha fo path role = Inr a"
  shows "af_path a = path \<and> af_role a = role \<and> fo_open fo = Opened
    \<and> file_matches sha a fo"
  using assms
  by (auto simp: archiveFileRecord_def file_matches_def open_error_def split: option.splits if_splits open_result.splits)

lemma classify_file_ok:
  assumes "classify_file f s = Inr t"
  shows "vs_seen t = vs_seen s \<and> vs_dirs t = vs_dirs s \<and> role_of_path f
    \<and> vs_snapshot t = (if af_path f = ''conversation/main.db'' then af_sha256 f else vs_snapshot s)
    \<and> vs_summary t = (if af_path f = ''summary/metadata.json'' then Some f else vs_summary s)
    \<and> vs_brain t = (vs_brain s \<or> has_prefix (af_path f) ''brain/'')"
  using assms
  by (auto simp: classify_file_def role_of_path_def has_prefix_def split: if_splits)

lemma verify_file_ok:
  assumes "verify_file sha s (f, fo) = Inr t"
  shows "path_safe (vs_seen s) f \<and> file_matches sha f fo \<and> role_of_path f \<and> vs_seen t = vs_seen s @ [af_path f]
    \<and> vs_dirs t = vs_dirs s @ ancestors (af_path f)
    \<and> vs_snapshot t = (if af_path f = ''conversation/main.db'' then af_sha256 f else vs_snapshot s)
    \<and> vs_summary t = (if af_path f = ''summary/metadata.json'' then Some f else vs_summary s)
    \<and> vs_brain t = (vs_brain s \<or> has_prefix (af_path f) ''brain/'')"
proof -
  let ?s1 = "s\<lparr>vs_seen := vs_seen s @ [af_path f], vs_dirs := vs_dirs s @ ancestors (af_path f)\<rparr>"
  obtain a where a: "archiveFileRecord sha fo (af_path f) (af_role f) = Inr a" "af_size a = af_size f" "af_sha256 a = af_sha256 f"
    and c: "classify_file f ?s1 = Inr t" and p: "path_safe (vs_seen s) f"
    using assms by (auto simp: verify_file_def Let_def split: if_splits sum.splits archive_error.splits)
  have "file_matches sha f fo" using archiveFileRecord_ok [OF a(1)] a(2,3) by (simp add: file_matches_def)
  then show ?thesis using classify_file_ok [OF c] p by simp
qed

text \<open>The state of the verifier after the files of a list.\<close>

definition verify_inv :: "(bytes \<Rightarrow> bytes) \<Rightarrow> (ArchiveFile \<times> file_obs) list \<Rightarrow> verify_state \<Rightarrow> bool" where
  "verify_inv sha ffs s \<longleftrightarrow>
     vs_seen s = map (af_path \<circ> fst) ffs \<and> distinct (vs_seen s)
     \<and> vs_dirs s = ''.'' # concat (map (ancestors \<circ> af_path \<circ> fst) ffs)
     \<and> list_all (\<lambda>(f, fo). path_safe [] f \<and> file_matches sha f fo \<and> role_of_path f) ffs
     \<and> (\<forall>f \<in> set (map fst ffs). af_path f = ''conversation/main.db'' \<longrightarrow> vs_snapshot s = af_sha256 f)
     \<and> (vs_summary s = List.find (\<lambda>f. af_path f = ''summary/metadata.json'') (map fst ffs))
     \<and> (vs_brain s \<longleftrightarrow> (\<exists>f \<in> set (map fst ffs). has_prefix (af_path f) ''brain/''))"

lemma find_snoc: "List.find P (xs @ [x]) = (case List.find P xs of None \<Rightarrow> if P x then Some x else None | Some y \<Rightarrow> Some y)"
  by (induction xs) auto

lemma verify_inv_step:
  assumes "verify_inv sha ffs s" and "verify_file sha s (f, fo) = Inr t"
  shows "verify_inv sha (ffs @ [(f, fo)]) t"
proof -
  note v = verify_file_ok [OF assms(2)]
  have fresh: "af_path f \<notin> set (vs_seen s)" and safe: "path_safe [] f" using v by (auto simp: path_safe_def)
  have "vs_seen s = map af_path (map fst ffs)" using assms(1) by (simp add: verify_inv_def)
  then have other: "af_path g \<noteq> af_path f" if "g \<in> set (map fst ffs)" for g
    using fresh that by (metis imageI set_map)
  have one: "List.find (\<lambda>f. af_path f = ''summary/metadata.json'') (map fst ffs) = None"
    if "af_path f = ''summary/metadata.json''"
    using other that unfolding find_None_iff by metis
  have i: "vs_seen s = map (af_path \<circ> fst) ffs" "distinct (vs_seen s)"
    "vs_dirs s = ''.'' # concat (map (ancestors \<circ> af_path \<circ> fst) ffs)"
    "list_all (\<lambda>(f, fo). path_safe [] f \<and> file_matches sha f fo \<and> role_of_path f) ffs"
    "\<forall>f \<in> set (map fst ffs). af_path f = ''conversation/main.db'' \<longrightarrow> vs_snapshot s = af_sha256 f"
    "vs_summary s = List.find (\<lambda>f. af_path f = ''summary/metadata.json'') (map fst ffs)"
    "vs_brain s \<longleftrightarrow> (\<exists>f \<in> set (map fst ffs). has_prefix (af_path f) ''brain/'')"
    using assms(1) unfolding verify_inv_def by blast+
  have w: "path_safe (vs_seen s) f" "file_matches sha f fo" "role_of_path f" "vs_seen t = vs_seen s @ [af_path f]"
    "vs_dirs t = vs_dirs s @ ancestors (af_path f)"
    "vs_snapshot t = (if af_path f = ''conversation/main.db'' then af_sha256 f else vs_snapshot s)"
    "vs_summary t = (if af_path f = ''summary/metadata.json'' then Some f else vs_summary s)"
    "vs_brain t = (vs_brain s \<or> has_prefix (af_path f) ''brain/'')"
    using v by blast+
  show ?thesis unfolding verify_inv_def
  proof (intro conjI)
    show "vs_seen t = map (af_path \<circ> fst) (ffs @ [(f, fo)])" using i(1) w(4) by simp
    show "distinct (vs_seen t)" using i(2) fresh w(4) by simp
    show "vs_dirs t = ''.'' # concat (map (ancestors \<circ> af_path \<circ> fst) (ffs @ [(f, fo)]))" using i(3) w(5) by simp
    show "list_all (\<lambda>(f, fo). path_safe [] f \<and> file_matches sha f fo \<and> role_of_path f) (ffs @ [(f, fo)])"
      using i(4) safe w(2,3) by simp
    show "\<forall>g \<in> set (map fst (ffs @ [(f, fo)])). af_path g = ''conversation/main.db'' \<longrightarrow> vs_snapshot t = af_sha256 g"
    proof (intro ballI impI)
      fix g assume g: "g \<in> set (map fst (ffs @ [(f, fo)]))" "af_path g = ''conversation/main.db''"
      show "vs_snapshot t = af_sha256 g"
      proof (cases "g = f")
        case False
        then have "g \<in> set (map fst ffs)" using g(1) by simp
        then show ?thesis using other [of g] i(5) g(2) w(6) by metis
      qed (use g(2) w(6) in simp)
    qed
    show "vs_summary t = List.find (\<lambda>f. af_path f = ''summary/metadata.json'') (map fst (ffs @ [(f, fo)]))"
      using one w(7) i(6) by (cases "af_path f = ''summary/metadata.json''") (simp_all add: find_snoc split: option.split)
    show "vs_brain t \<longleftrightarrow> (\<exists>f \<in> set (map fst (ffs @ [(f, fo)])). has_prefix (af_path f) ''brain/'')"
      using w(8) i(7) by simp blast
  qed
qed

lemma verify_fold:
  assumes "fold_err (verify_file sha) s0 ffs = Inr s" and "verify_inv sha done0 s0"
  shows "verify_inv sha (done0 @ ffs) s"
  using assms
proof (induction ffs arbitrary: s0 done0)
  case (Cons ff ffs)
  obtain f fo where ff: "ff = (f, fo)" by (cases ff)
  obtain s1 where s1: "verify_file sha s0 (f, fo) = Inr s1" "fold_err (verify_file sha) s1 ffs = Inr s"
    using Cons.prems(1) ff by (auto split: sum.splits)
  show ?case using Cons.IH [OF s1(2) verify_inv_step [OF Cons.prems(2) s1(1)]] ff by simp
qed simp

lemma verify_start_inv: "verify_inv sha [] verify_start"
  by (simp add: verify_inv_def verify_start_def)

lemma first_error_None: "first_error f xs = None \<longleftrightarrow> list_all (\<lambda>x. f x = None) xs"
  by (induction xs) (auto split: option.split)

lemma check_sidecars_None: "check_sidecars look sufs = None \<longleftrightarrow> list_all (\<lambda>x. look x = Absent) sufs"
  by (induction sufs) (auto split: lstat_look.split)

lemma file_matches_record:
  "file_matches sha f fo \<Longrightarrow> archiveFileRecord sha fo (af_path f) (af_role f) = Inr f"
  by (auto simp: file_matches_def archiveFileRecord_def open_error_def)

lemma verify_file_complete:
  assumes "path_safe (vs_seen s) f" and "file_matches sha f fo" and "role_of_path f"
  obtains t where "verify_file sha s (f, fo) = Inr t"
proof -
  have "\<exists>t. classify_file f s1 = Inr t" for s1 using assms(3) by (auto simp: role_of_path_def classify_file_def)
  then show thesis
    using that file_matches_record [OF assms(2)] assms(1) by (simp add: verify_file_def Let_def) blast
qed

lemma verify_fold_complete:
  assumes "verify_inv sha done0 s0" and "distinct (map (af_path \<circ> fst) (done0 @ ffs))"
    and "list_all (\<lambda>(f, fo). path_safe [] f \<and> file_matches sha f fo \<and> role_of_path f) ffs"
  shows "\<exists>s. fold_err (verify_file sha) s0 ffs = Inr s"
  using assms
proof (induction ffs arbitrary: s0 done0)
  case (Cons ff ffs)
  obtain f fo where ff: "ff = (f, fo)" by (cases ff)
  have seen: "vs_seen s0 = map (af_path \<circ> fst) done0" using Cons.prems(1) by (simp add: verify_inv_def)
  have "af_path f \<notin> set (vs_seen s0)" using Cons.prems(2) unfolding seen ff by auto
  moreover have "path_safe [] f" using Cons.prems(3) by (simp add: ff)
  ultimately have "path_safe (vs_seen s0) f" unfolding path_safe_def by blast
  then obtain t where t: "verify_file sha s0 (f, fo) = Inr t"
    using verify_file_complete [of s0 f sha fo] Cons.prems(3) by (auto simp: ff)
  have "\<exists>s. fold_err (verify_file sha) t ffs = Inr s"
    using Cons.IH [OF verify_inv_step [OF Cons.prems(1) t]] Cons.prems(2,3) by (simp add: ff)
  then show ?case by (simp add: ff t)
qed simp

text \<open>The specification of an archive that the looks of a verification show to be whole.\<close>

definition listed :: "ArchiveManifest \<Rightarrow> archive_obs \<Rightarrow> (ArchiveFile \<times> file_obs) list" where
  "listed m ao = zip (am_files m) (map (ao_file ao) [0..<length (am_files m)])"

definition entry_expected :: "ArchiveManifest \<Rightarrow> string \<times> entry_kind \<Rightarrow> bool" where
  "entry_expected m e \<longleftrightarrow>
     (snd e = Regular \<and> (fst e = ''manifest.json'' \<or> fst e \<in> set (map af_path (am_files m))))
     \<or> (snd e = Directory \<and> (fst e = ''.'' \<or> (\<exists>f \<in> set (am_files m). fst e \<in> set (ancestors (af_path f))) \<or> (am_brain m \<and> fst e = ''brain'')))"

definition archive_whole :: "(bytes \<Rightarrow> bytes) \<Rightarrow> archive_json \<Rightarrow> archive_obs \<Rightarrow> ArchiveManifest \<Rightarrow> bool" where
  "archive_whole sha jd ao m \<longleftrightarrow>
     am_format m = 1 \<and> manifest_valid m
     \<and> distinct (map af_path (am_files m))
     \<and> list_all (\<lambda>(f, fo). path_safe [] f \<and> file_matches sha f fo \<and> role_of_path f) (listed m ao)
     \<and> (\<exists>f \<in> set (am_files m). af_path f = ''conversation/main.db'' \<and> af_sha256 f = am_snapshot_sha256 m)
     \<and> (\<exists>a. archiveFileRecord sha (ao_snapshot_again ao) ''conversation/main.db'' ''sqlite_snapshot'' = Inr a
            \<and> af_sha256 a = am_snapshot_sha256 m)
     \<and> (\<exists>x. inspectArchiveSnapshot (ao_snapshot ao) = Inr x)
     \<and> list_all (\<lambda>suf. ao_sidecar ao suf = Absent) [''-wal'', ''-shm'', ''-journal'']
     \<and> list_all (entry_expected m) (ao_walk ao)
     \<and> ((\<exists>f \<in> set (am_files m). has_prefix (af_path f) ''brain/'') \<longrightarrow> am_brain m)
     \<and> (case List.find (\<lambda>f. af_path f = ''summary/metadata.json'') (am_files m) of
          None \<Rightarrow> \<not> am_summary m
        | Some f \<Rightarrow> am_summary m \<and> check_summary sha jd (ao_summary ao) (Some f))"

lemma listed_fst: "map fst (listed m ao) = am_files m"
  by (simp add: listed_def)

lemma listed_paths: "map (af_path \<circ> fst) (listed m ao) = map af_path (am_files m)"
  using listed_fst [of m ao] by (metis map_map)

lemma main_snapshot:
  assumes "verify_inv sha (listed m ao) s"
  shows "''conversation/main.db'' \<in> set (vs_seen s) \<and> vs_snapshot s = am_snapshot_sha256 m
    \<longleftrightarrow> (\<exists>f \<in> set (am_files m). af_path f = ''conversation/main.db'' \<and> af_sha256 f = am_snapshot_sha256 m)"
proof -
  have "vs_seen s = map af_path (am_files m)"
    and "\<forall>f \<in> set (am_files m). af_path f = ''conversation/main.db'' \<longrightarrow> vs_snapshot s = af_sha256 f"
    using assms unfolding verify_inv_def listed_fst listed_paths by blast+
  then show ?thesis by force
qed

lemma walk_expected:
  assumes "verify_inv sha (listed m ao) s"
    and "t = (if am_brain m then s\<lparr>vs_dirs := vs_dirs s @ [''brain'']\<rparr> else s)"
  shows "walk_entry t e = None \<longleftrightarrow> entry_expected m e"
proof -
  have "vs_seen t = map af_path (am_files m)"
    and "vs_dirs s = ''.'' # concat (map (ancestors \<circ> af_path) (am_files m))"
    using assms unfolding verify_inv_def listed_paths by (simp_all add: listed_fst [of m ao, symmetric] comp_assoc)
  then have "set (vs_seen t) = af_path ` set (am_files m)"
    "set (vs_dirs t) = insert ''.'' ((\<Union>f \<in> set (am_files m). set (ancestors (af_path f))) \<union> (if am_brain m then {''brain''} else {}))"
    using assms(2) by simp_all
  then show ?thesis by (cases e) (auto simp: walk_entry_def entry_expected_def split: entry_kind.splits if_splits)
qed

lemma verifyArchiveDirectory_iff:
  "verifyArchiveDirectory sha jd ao = Inr m \<longleftrightarrow>
     (\<exists>data. readArchiveFile (ao_manifest ao) (2 ^ 20) = Inr data \<and> strict_manifest jd data = Some m)
     \<and> archive_whole sha jd ao m"
proof -
  have body: "verify_manifest sha jd ao m = Inr m' \<longleftrightarrow> m' = m \<and> archive_whole sha jd ao m"
    if fm: "am_format m = 1" "manifest_valid m" for m m'
  proof (cases "fold_err (verify_file sha) verify_start (listed m ao)")
    case (Inl e)
    have "\<not> archive_whole sha jd ao m"
      using verify_fold_complete [OF verify_start_inv, of "listed m ao" sha] Inl
      by (auto simp: archive_whole_def listed_paths)
    then show ?thesis using Inl by (simp add: verify_manifest_def listed_def [symmetric])
  next
    case (Inr s)
    have inv: "verify_inv sha (listed m ao) s" using verify_fold [OF Inr verify_start_inv] by simp
    define t where "t = (if am_brain m then s\<lparr>vs_dirs := vs_dirs s @ [''brain'']\<rparr> else s)"
    have same: "vs_seen t = vs_seen s" "vs_snapshot t = vs_snapshot s" "vs_summary t = vs_summary s" "vs_brain t = vs_brain s"
      by (simp_all add: t_def)
    have facts: "vs_summary s = List.find (\<lambda>f. af_path f = ''summary/metadata.json'') (am_files m)"
      "vs_brain s \<longleftrightarrow> (\<exists>f \<in> set (am_files m). has_prefix (af_path f) ''brain/'')"
      "distinct (map af_path (am_files m))"
      "list_all (\<lambda>(f, fo). path_safe [] f \<and> file_matches sha f fo \<and> role_of_path f) (listed m ao)"
      using inv unfolding verify_inv_def listed_fst listed_paths by (blast, blast, metis, blast)
    note main = main_snapshot [OF inv]
    have walk: "first_error (walk_entry t) (ao_walk ao) = None \<longleftrightarrow> list_all (entry_expected m) (ao_walk ao)"
      by (simp add: first_error_None walk_expected [OF inv t_def])
    have "verify_manifest sha jd ao m = Inr m' \<longleftrightarrow> m' = m \<and>
        (''conversation/main.db'' \<in> set (vs_seen s) \<and> vs_snapshot s = am_snapshot_sha256 m)
        \<and> (vs_summary s \<noteq> None \<longleftrightarrow> am_summary m) \<and> (vs_brain s \<longrightarrow> am_brain m)
        \<and> list_all (\<lambda>suf. ao_sidecar ao suf = Absent) [''-wal'', ''-shm'', ''-journal'']
        \<and> list_all (entry_expected m) (ao_walk ao)
        \<and> (\<exists>x. inspectArchiveSnapshot (ao_snapshot ao) = Inr x)
        \<and> (\<exists>a. archiveFileRecord sha (ao_snapshot_again ao) ''conversation/main.db'' ''sqlite_snapshot'' = Inr a
              \<and> af_sha256 a = am_snapshot_sha256 m)
        \<and> (am_summary m \<longrightarrow> check_summary sha jd (ao_summary ao) (vs_summary s))"
      unfolding verify_manifest_def listed_def [symmetric] Inr sum.case Let_def t_def [symmetric] same
        walk [symmetric] check_sidecars_None [symmetric]
      by (auto split: option.split sum.split)
    then show ?thesis unfolding main archive_whole_def using fm facts
      by (cases "List.find (\<lambda>f. af_path f = ''summary/metadata.json'') (am_files m)") auto
  qed
  show ?thesis
    by (auto simp: verifyArchiveDirectory_def body archive_whole_def split: sum.splits option.splits archive_error.splits if_splits)
qed

text \<open>C10: The verifier accepts exactly the archives that are whole: a readable manifest of format 1 with
  valid ids and digests; every listed file at a clean local path of its role, read as one steady regular
  file of the listed size and digest; nothing else in the directory; no sidecar; a snapshot with the
  recorded digest, sound and of a known schema; and the summary exactly when the manifest says so.\<close>

theorem archive_accepted_iff_whole:
  "verifyArchiveDirectory sha jd ao = Inr m \<longleftrightarrow>
     (\<exists>data. readArchiveFile (ao_manifest ao) (2 ^ 20) = Inr data \<and> strict_manifest jd data = Some m)
     \<and> archive_whole sha jd ao m"
  by (rule verifyArchiveDirectory_iff)

text \<open>Why \<open>ancestors\<close> is what the loop of filepath.Dir visits: Dir drops the last name.\<close>

lemma join_snoc: "ws \<noteq> [] \<Longrightarrow> join sep (ws @ [w]) = join sep ws @ sep @ w"
  by (induction ws rule: induct_list012) simp_all

lemma split_trailing: "split_on (CHR ''/'') (s @ ''/'') = split_on (CHR ''/'') s @ [[]]"
  by (induction s) (auto split: list.splits)

lemma Dir_join:
  assumes "list_all clean_name (ws @ [w])"
  shows "Dir (join ''/'' (ws @ [w])) = (if ws = [] then ''.'' else join ''/'' ws)"
proof -
  have w: "CHR ''/'' \<notin> set w" and names: "list_all clean_name ws" using assms by (auto simp: clean_name_def)
  show ?thesis
  proof (cases "ws = []")
    case True
    then show ?thesis using dir_part_snoc [OF w, of "[]"]
      by (simp add: Dir_def Clean_def IsAbs_def has_prefix_def clean_step_def)
  next
    case False
    have parts: "list_all (\<lambda>w. CHR ''/'' \<notin> set w) ws" "list_all (\<lambda>w. CHR ''/'' \<notin> set w \<and> w \<noteq> []) ws"
      using names by (simp_all add: list_all_iff clean_name_def)
    have ne: "join ''/'' ws \<noteq> []" using False names by (intro join_nonempty) (auto simp: list_all_iff clean_name_def)
    then obtain c cs where j: "join ''/'' ws = c # cs" by (cases "join ''/'' ws") auto
    have rel: "\<not> IsAbs (join ''/'' ws @ ''/'')"
      using join_no_slash_prefix [OF parts(2)] by (simp add: j IsAbs_def has_prefix_def)
    have split: "split_on (CHR ''/'') (join ''/'' ws @ ''/'') = ws @ [[]]"
      using split_on_join [OF False parts(1)] by (simp add: split_trailing)
    have fold: "foldl (clean_step False) [] (ws @ [[]]) = rev ws"
      using clean_fold_names [of "rev ws" False "[]"] names by (simp add: clean_step_def)
    have "join ''/'' (ws @ [w]) = (join ''/'' ws @ ''/'') @ w" using join_snoc [OF False] by simp
    then have "Dir (join ''/'' (ws @ [w])) = Dir (join ''/'' ws @ ''/'')" using dir_part_snoc [OF w] by metis
    also have "\<dots> = Clean (join ''/'' ws @ ''/'')" by (simp add: Dir_def)
    also have "\<dots> = join ''/'' ws" using rel split fold ne by (simp add: Clean_def)
    finally show ?thesis using False by simp
  qed
qed

section \<open>VerifyArchive\<close>

datatype ArchiveVerificationState = ArchiveValid | ArchiveCorrupt | ArchiveIncomplete | ArchiveUnsupported | ArchiveUnsafe

record ArchiveVerificationResult =
  vr_state :: ArchiveVerificationState
  vr_archive_id :: string
  vr_conversation_id :: string
  vr_path_ref :: string
  vr_manifest_sha256 :: string
  vr_files :: int
  vr_bytes :: int
  vr_reason :: string
  vr_verified_at :: wtime
  vr_manifest :: "ArchiveManifest option"

definition classifyArchiveVerificationError :: "archive_error \<Rightarrow> ArchiveVerificationState \<times> string" where
  "classifyArchiveVerificationError err =
     (case err of
        Named e \<Rightarrow>
          if e = ''archive_incomplete'' then (ArchiveIncomplete, ''required_archive_artifact_missing'')
          else if e \<in> {''archive_format_unsupported'', ''snapshot_schema_unsupported''}
            then (ArchiveUnsupported, ''archive_format_or_schema_unsupported'')
          else if e \<in> {''archive_manifest_unsafe'', ''archive_file_invalid''} then (ArchiveUnsafe, ''archive_path_or_file_unsafe'')
          else if e = ''archive_manifest_invalid'' then (ArchiveCorrupt, ''manifest_invalid'')
          else if e = ''archive_verification_failed'' then (ArchiveCorrupt, ''archive_hash_or_size_mismatch'')
          else if e \<in> {''snapshot_integrity_failed'', ''snapshot_open_failed'', ''snapshot_schema_failed''}
            then (ArchiveCorrupt, ''sqlite_snapshot_invalid'')
          else if e \<in> {''archive_summary_invalid'', ''archive_unexpected_file''} then (ArchiveCorrupt, ''archive_payload_invalid'')
          else (ArchiveUnsafe, ''archive_unreadable'')
      | Cancelled \<Rightarrow> (ArchiveIncomplete, ''verification_interrupted'')
      | _ \<Rightarrow> (ArchiveUnsafe, ''archive_unreadable''))"

record root_obs =
  rb_open :: bool
  rb_stat :: "(file_stat \<times> bool) option" \<comment> \<open>with whether it is a directory\<close>
  rb_path :: "file_stat option"

definition root_safe :: "root_obs \<Rightarrow> bool" where
  "root_safe rb \<longleftrightarrow> rb_open rb
     \<and> (case rb_stat rb of None \<Rightarrow> False | Some (st, dir) \<Rightarrow> dir \<and> same_file st (rb_path rb))"

text \<open>The manifest is read a second time for its digest.\<close>

definition VerifyArchive ::
  "(bytes \<Rightarrow> bytes) \<Rightarrow> archive_json \<Rightarrow> host \<Rightarrow> root_obs \<Rightarrow> archive_obs \<Rightarrow> file_obs \<Rightarrow> string \<Rightarrow> wtime \<Rightarrow> ArchiveVerificationResult" where
  "VerifyArchive sha jd h rb ao manifest_again path now =
     (let start = \<lparr>vr_state = ArchiveUnsafe, vr_archive_id = [], vr_conversation_id = [], vr_path_ref = [], vr_manifest_sha256 = [],
            vr_files = 0, vr_bytes = 0, vr_reason = ''archive_root_unsafe'', vr_verified_at = utc now, vr_manifest = None\<rparr>
      in case Abs h path of None \<Rightarrow> start | Some p \<Rightarrow>
         let res = start\<lparr>vr_path_ref := ''path-sha256:'' @ digest_of sha (map (\<lambda>c. word_of_nat (code c)) p)\<rparr>
         in if h_eval h p \<noteq> Some p \<or> \<not> root_safe rb then res
            else case verifyArchiveDirectory sha jd ao of
                   Inl e \<Rightarrow> (case classifyArchiveVerificationError e of (st, why) \<Rightarrow> res\<lparr>vr_state := st, vr_reason := why\<rparr>)
                 | Inr m \<Rightarrow>
                     (case readArchiveFile manifest_again (2 ^ 20) of
                        Inl e \<Rightarrow> (case classifyArchiveVerificationError e of (st, why) \<Rightarrow> res\<lparr>vr_state := st, vr_reason := why\<rparr>)
                      | Inr data \<Rightarrow>
                          res\<lparr>vr_state := ArchiveValid, vr_reason := [], vr_archive_id := am_archive_id m,
                            vr_conversation_id := am_conversation_id m, vr_manifest_sha256 := digest_of sha data,
                            vr_files := int (length (am_files m)),
                            vr_bytes := foldl (\<lambda>n f. wrap64 (n + af_size f)) 0 (am_files m), vr_manifest := Some m\<rparr>))"

lemma VerifyArchive_valid:
  assumes "vr_state (VerifyArchive sha jd h rb ao again path now) = ArchiveValid"
  shows "\<exists>p m data. Abs h path = Some p \<and> h_eval h p = Some p \<and> verifyArchiveDirectory sha jd ao = Inr m
    \<and> readArchiveFile again (2 ^ 20) = Inr data
    \<and> vr_manifest (VerifyArchive sha jd h rb ao again path now) = Some m
    \<and> vr_manifest_sha256 (VerifyArchive sha jd h rb ao again path now) = digest_of sha data
    \<and> vr_verified_at (VerifyArchive sha jd h rb ao again path now) = utc now"
proof -
  have c: "fst (classifyArchiveVerificationError e) \<noteq> ArchiveValid" for e
    by (simp add: classifyArchiveVerificationError_def split: archive_error.split)
  have n: "classifyArchiveVerificationError e = (ArchiveValid, why) \<Longrightarrow> False" for e why using c [of e] by simp
  show ?thesis
    using assms by (auto simp: VerifyArchive_def Let_def dest: n split: option.splits if_splits sum.splits prod.splits)
qed

lemma VerifyArchive_manifest:
  "vr_manifest (VerifyArchive sha jd h rb ao again path now) = Some m \<Longrightarrow>
     vr_state (VerifyArchive sha jd h rb ao again path now) = ArchiveValid"
  by (auto simp: VerifyArchive_def Let_def split: option.splits if_splits sum.splits prod.splits)

section \<open>An archive\<close>

text \<open>A conversation of two bytes with one file of its brain directory, as the verifier sees them.\<close>

definition demo_content :: bytes where
  "demo_content = [1, 2]"

definition demo_look :: file_obs where
  "demo_look = \<lparr>fo_open = Opened, fo_stat = Some (demo_stat, False), fo_path = Some demo_stat, fo_content = Some demo_content,
     fo_stat_after = Some demo_stat, fo_path_after = Some demo_stat\<rparr>"

definition demo_snapshot :: snapshot_obs where
  "demo_snapshot = \<lparr>so_open = True, so_stat = Some (demo_stat, False), so_path = Some demo_stat, so_db = True,
     so_integrity = Some ''ok'', so_version = Some 0,
     so_items = Some [(''table'', ''gen_metadata''), (''table'', ''steps''), (''table'', ''trajectory_metadata_blob'')],
     so_columns = q_columns (ob_db demo_observation), so_index = (\<lambda>_. None)\<rparr>"

definition demo_main :: ArchiveFile where
  "demo_main = \<lparr>af_path = ''conversation/main.db'', af_size = 2, af_sha256 = digest_of demo_sha demo_content, af_role = ''sqlite_snapshot''\<rparr>"

definition demo_task :: ArchiveFile where
  "demo_task = \<lparr>af_path = ''brain/task'', af_size = 2, af_sha256 = digest_of demo_sha demo_content, af_role = ''brain''\<rparr>"

definition demo_manifest :: ArchiveManifest where
  "demo_manifest = \<lparr>am_format = 1, am_archive_id = replicate 32 (CHR ''a''), am_created = \<lparr>wnanos = 5, woffset = 0\<rparr>,
     am_conversation_id = ''c1'', am_schema = ''tokei_fixture_v1'', am_schema_version = 0, am_observed_state = ''no_wal'',
     am_main_sha256 = digest_of demo_sha demo_content, am_snapshot_sha256 = digest_of demo_sha demo_content, am_size = 2,
     am_files = [demo_task, demo_main], am_brain = True, am_summary = False, am_tool = ''agy-db-v2-cp2''\<rparr>"

definition demo_json :: archive_json where
  "demo_json = \<lparr>strict_manifest = (\<lambda>b. Some demo_manifest), object_size = (\<lambda>b. None)\<rparr>"

definition demo_archive :: archive_obs where
  "demo_archive = \<lparr>ao_manifest = demo_look, ao_file = (\<lambda>_. demo_look), ao_sidecar = (\<lambda>_. Absent),
     ao_walk = [(''.'', Directory), (''brain'', Directory), (''brain/task'', Regular), (''conversation'', Directory),
       (''conversation/main.db'', Regular), (''manifest.json'', Regular)],
     ao_snapshot = demo_snapshot, ao_snapshot_again = demo_look, ao_summary = demo_look\<rparr>"

definition local_host :: host where
  "local_host = \<lparr>h_cwd = Some ''/w'', h_HOME = [], h_user_home = [], h_eval = Some, h_lstat = (\<lambda>_. NotALink)\<rparr>"

definition demo_root :: root_obs where
  "demo_root = \<lparr>rb_open = True, rb_stat = Some (demo_stat, True), rb_path = Some demo_stat\<rparr>"

lemma demo_manifest_read: "0 < n \<Longrightarrow> readArchiveFile demo_look (Suc n) = Inr demo_content"
  by (simp add: readArchiveFile_def open_error_def look_before_def look_after_def demo_look_def demo_stat_def demo_content_def
      same_file_def unchanged_def)

lemma demo_record: "archiveFileRecord demo_sha demo_look p r
    = Inr \<lparr>af_path = p, af_size = 2, af_sha256 = digest_of demo_sha demo_content, af_role = r\<rparr>"
  by (simp add: archiveFileRecord_def open_error_def look_before_def look_after_def demo_look_def demo_stat_def demo_content_def
      same_file_def unchanged_def)

lemma demo_digest: "validSHA256 (digest_of demo_sha demo_content)"
  by code_simp

lemma demo_fold: "fold_err (verify_file demo_sha) verify_start [(demo_task, demo_look), (demo_main, demo_look)]
    = Inr \<lparr>vs_seen = [''brain/task'', ''conversation/main.db''], vs_dirs = [''.'', ''brain'', ''conversation''],
        vs_snapshot = digest_of demo_sha demo_content, vs_summary = None, vs_brain = True\<rparr>"
proof -
  have p: "path_safe [] demo_task" "path_safe [''brain/task''] demo_main" by code_simp+
  have a: "ancestors ''brain/task'' = [''brain'']" "ancestors ''conversation/main.db'' = [''conversation'']" by code_simp+
  show ?thesis using p unfolding demo_task_def demo_main_def
    by (simp add: verify_file_def verify_start_def demo_record classify_file_def a has_prefix_def)
qed

lemma demo_inspected: "inspectArchiveSnapshot demo_snapshot = Inr (''tokei_fixture_v1'', 0)"
proof -
  have "archiveSchemaMatches (so_columns demo_snapshot) expected_tables" by code_simp
  then show ?thesis
    by (simp add: inspectArchiveSnapshot_def demo_snapshot_def demo_stat_def same_file_def unchanged_def fixture_items_def)
qed

lemma demo_archive_verified: "verifyArchiveDirectory demo_sha demo_json demo_archive = Inr demo_manifest"
proof -
  have m: "manifest_valid demo_manifest" by code_simp
  have f: "zip (am_files demo_manifest) (map (ao_file demo_archive) [0..<length (am_files demo_manifest)])
      = [(demo_task, demo_look), (demo_main, demo_look)]" by (simp add: demo_manifest_def demo_archive_def)
  have "verify_manifest demo_sha demo_json demo_archive demo_manifest = Inr demo_manifest"
    unfolding verify_manifest_def f demo_fold
    by (simp add: demo_manifest_def demo_archive_def demo_inspected demo_record walk_entry_def)
  then show ?thesis using m demo_manifest_read [of 1048575]
    by (simp add: verifyArchiveDirectory_def demo_archive_def demo_json_def) (simp add: demo_manifest_def)
qed

lemma demo_verified:
  "vr_state (VerifyArchive demo_sha demo_json local_host demo_root demo_archive demo_look ''/archive'' \<lparr>wnanos = 9, woffset = 0\<rparr>) = ArchiveValid
   \<and> vr_manifest (VerifyArchive demo_sha demo_json local_host demo_root demo_archive demo_look ''/archive'' \<lparr>wnanos = 9, woffset = 0\<rparr>) = Some demo_manifest"
proof -
  have a: "Abs local_host ''/archive'' = Some ''/archive''" by code_simp
  have b: "root_safe demo_root" by code_simp
  show ?thesis using a b demo_archive_verified demo_manifest_read [of 1048575] by (simp add: VerifyArchive_def Let_def local_host_def)
qed

end
