(* ===== verification/Registry.thy ===== *)
theory Registry
  imports Archive Tables
begin

text \<open>
  The registry of archives: internal/inventory/registry.go. Its three tables are lists keyed by their
  primary keys. Times are stored as text; formatting and parsing are arguments, as is the random event
  id. A statement or transaction that fails for a reason outside the model is a Boolean argument.
\<close>

section \<open>Tables\<close>

record archive_row =
  ra_conversation :: string
  ra_path :: string
  ra_format :: int
  ra_created :: string
  ra_main_sha256 :: string
  ra_snapshot_sha256 :: string
  ra_manifest_sha256 :: string
  ra_state :: string
  ra_verified :: "string option"
  ra_registered :: string

record file_row =
  rf_size :: int
  rf_sha256 :: string
  rf_role :: string

record restore_event =
  re_archive :: string
  re_conversation :: string
  re_restored :: string
  re_result :: string
  re_destination :: string
  re_db_published :: bool
  re_brain_published :: bool
  re_catalog :: bool
  re_tool :: string

record registry =
  rg_archives :: "(string \<times> archive_row) list"
  rg_files :: "((string \<times> string) \<times> file_row) list"
  rg_events :: "(string \<times> restore_event) list"

definition empty_registry :: registry where
  "empty_registry = \<lparr>rg_archives = [], rg_files = [], rg_events = []\<rparr>"

record time_text =
  format_nano :: "wtime \<Rightarrow> string"
  parse_nano :: "string \<Rightarrow> wtime option"

definition state_text :: "ArchiveVerificationState \<Rightarrow> string" where
  "state_text s = (case s of ArchiveValid \<Rightarrow> ''valid'' | ArchiveCorrupt \<Rightarrow> ''corrupt'' | ArchiveIncomplete \<Rightarrow> ''incomplete''
     | ArchiveUnsupported \<Rightarrow> ''unsupported'' | ArchiveUnsafe \<Rightarrow> ''unsafe'')"

definition validArchiveVerificationState :: "string \<Rightarrow> bool" where
  "validArchiveVerificationState s \<longleftrightarrow> s \<in> {''valid'', ''corrupt'', ''incomplete'', ''unsupported'', ''unsafe''}"

datatype registry_error = InvalidArchivePath | UpdateFailed | IdCollision | InvalidEvent | EventFailed | InvalidArchiveId
  | QueryFailed | DataInvalid

section \<open>Verifications\<close>

definition archive_row_of :: "time_text \<Rightarrow> string \<Rightarrow> ArchiveVerificationResult \<Rightarrow> ArchiveManifest \<Rightarrow> archive_row" where
  "archive_row_of tt path v m =
     \<lparr>ra_conversation = am_conversation_id m, ra_path = path, ra_format = am_format m, ra_created = format_nano tt (am_created m),
      ra_main_sha256 = am_main_sha256 m, ra_snapshot_sha256 = am_snapshot_sha256 m, ra_manifest_sha256 = vr_manifest_sha256 v,
      ra_state = state_text (vr_state v), ra_verified = Some (format_nano tt (vr_verified_at v)),
      ra_registered = format_nano tt (vr_verified_at v)\<rparr>"

definition same_identity :: "archive_row \<Rightarrow> archive_row \<Rightarrow> bool" where
  "same_identity a b \<longleftrightarrow> ra_conversation a = ra_conversation b \<and> ra_format a = ra_format b
     \<and> ra_main_sha256 a = ra_main_sha256 b \<and> ra_snapshot_sha256 a = ra_snapshot_sha256 b
     \<and> ra_manifest_sha256 a = ra_manifest_sha256 b"

text \<open>INSERT OR IGNORE, by archive and path.\<close>

definition add_file :: "string \<Rightarrow> ((string \<times> string) \<times> file_row) list \<Rightarrow> ArchiveFile \<Rightarrow> ((string \<times> string) \<times> file_row) list" where
  "add_file i fs f =
     (if map_of fs (i, af_path f) \<noteq> None then fs
      else fs @ [((i, af_path f), \<lparr>rf_size = af_size f, rf_sha256 = af_sha256 f, rf_role = af_role f\<rparr>)])"

text \<open>archive_path is unique; a known archive is updated only when its identity is the same.\<close>

definition registerValid ::
  "time_text \<Rightarrow> bool \<Rightarrow> string \<Rightarrow> ArchiveVerificationResult \<Rightarrow> ArchiveManifest \<Rightarrow> registry \<Rightarrow> registry_error + registry" where
  "registerValid tt fault path v m r =
     (let i = am_archive_id m; new = archive_row_of tt path v m
      in if fault \<or> (\<exists>(j, row) \<in> set (rg_archives r). j \<noteq> i \<and> ra_path row = path) then Inl UpdateFailed
         else case (case map_of (rg_archives r) i of
                      None \<Rightarrow> Some new
                    | Some old \<Rightarrow> if same_identity old new
                                  then Some (old\<lparr>ra_path := path, ra_state := ra_state new, ra_verified := ra_verified new\<rparr>)
                                  else None) of
                None \<Rightarrow> Inl IdCollision
              | Some row \<Rightarrow> Inr (r\<lparr>rg_archives := put_row i row (rg_archives r),
                                 rg_files := foldl (add_file i) (rg_files r) (am_files m)\<rparr>))"

definition mark_row :: "time_text \<Rightarrow> string \<Rightarrow> ArchiveVerificationResult \<Rightarrow> archive_row \<Rightarrow> archive_row" where
  "mark_row tt path v row = (if ra_path row = path
     then row\<lparr>ra_state := state_text (vr_state v), ra_verified := Some (format_nano tt (vr_verified_at v))\<rparr> else row)"

definition mark_verified :: "time_text \<Rightarrow> string \<Rightarrow> ArchiveVerificationResult \<Rightarrow> registry \<Rightarrow> registry" where
  "mark_verified tt path v r = r\<lparr>rg_archives := map (\<lambda>(i, row). (i, mark_row tt path v row)) (rg_archives r)\<rparr>"

definition RecordVerification ::
  "time_text \<Rightarrow> host \<Rightarrow> bool \<Rightarrow> bool \<Rightarrow> string \<Rightarrow> ArchiveVerificationResult \<Rightarrow> registry \<Rightarrow> registry_error option \<times> registry" where
  "RecordVerification tt h fault1 fault2 archivePath v r =
     (case Abs h archivePath of None \<Rightarrow> (Some InvalidArchivePath, r) | Some path \<Rightarrow>
      case (case vr_manifest v of
              Some m \<Rightarrow> if vr_state v = ArchiveValid then registerValid tt fault1 path v m r else Inr r
            | None \<Rightarrow> Inr r) of
        Inl e \<Rightarrow> (Some e, r)
      | Inr r1 \<Rightarrow> if fault2 then (Some UpdateFailed, r1) else (None, mark_verified tt path v r1))"

section \<open>Listing\<close>

record ArchiveRegistryEntry =
  rl_archive_id :: string
  rl_conversation_id :: string
  rl_path_ref :: string
  rl_created :: wtime
  rl_snapshot_sha256 :: string
  rl_state :: string
  rl_verified :: "wtime option"
  rl_files :: nat
  rl_bytes :: int

definition registryPathRef :: "(bytes \<Rightarrow> bytes) \<Rightarrow> string \<Rightarrow> string" where
  "registryPathRef sha path = ''path-sha256:'' @ digest_of sha (map (\<lambda>c. word_of_nat (code c)) (trim_space path))"

definition files_of :: "string \<Rightarrow> registry \<Rightarrow> file_row list" where
  "files_of i r = map snd (filter (\<lambda>f. fst (fst f) = i) (rg_files r))"

definition list_entry :: "(bytes \<Rightarrow> bytes) \<Rightarrow> time_text \<Rightarrow> registry \<Rightarrow> string \<times> archive_row \<Rightarrow> registry_error + ArchiveRegistryEntry" where
  "list_entry sha tt r ir =
     (case ir of (i, row) \<Rightarrow>
        let fs = files_of i r; bytes = sum_list (map rf_size fs)
        in if bytes < - (2 ^ 63) \<or> 2 ^ 63 \<le> bytes then Inl QueryFailed
           else if \<not> validArchiveID i \<or> \<not> validConversationID (ra_conversation row) \<or> \<not> IsAbs (ra_path row)
             \<or> \<not> validSHA256 (ra_snapshot_sha256 row) \<or> \<not> validArchiveVerificationState (ra_state row) \<or> bytes < 0
           then Inl DataInvalid
           else case parse_nano tt (ra_created row) of None \<Rightarrow> Inl DataInvalid | Some created \<Rightarrow>
             let entry = \<lparr>rl_archive_id = i, rl_conversation_id = ra_conversation row, rl_path_ref = registryPathRef sha (ra_path row),
                   rl_created = created, rl_snapshot_sha256 = ra_snapshot_sha256 row, rl_state = ra_state row, rl_verified = None,
                   rl_files = length fs, rl_bytes = bytes\<rparr>
             in case ra_verified row of
                  Some t \<Rightarrow> if t = [] then Inr entry
                            else (case parse_nano tt t of None \<Rightarrow> Inl DataInvalid | Some u \<Rightarrow> Inr (entry\<lparr>rl_verified := Some u\<rparr>))
                | None \<Rightarrow> Inr entry)"

text \<open>ORDER BY created_at DESC, archive_id: both columns are compared as text.\<close>

definition listing_order :: "string \<times> archive_row \<Rightarrow> string \<times> archive_row \<Rightarrow> bool" where
  "listing_order a b \<longleftrightarrow> ra_created (snd b) < ra_created (snd a)
     \<or> (ra_created (snd a) = ra_created (snd b) \<and> fst a \<le> fst b)"

fun insert_by :: "('a \<Rightarrow> 'a \<Rightarrow> bool) \<Rightarrow> 'a \<Rightarrow> 'a list \<Rightarrow> 'a list" where
  "insert_by le x [] = [x]"
| "insert_by le x (y # ys) = (if le x y then x # y # ys else y # insert_by le x ys)"

definition ListArchives ::
  "(bytes \<Rightarrow> bytes) \<Rightarrow> time_text \<Rightarrow> bool \<Rightarrow> string \<Rightarrow> registry \<Rightarrow> registry_error + ArchiveRegistryEntry list" where
  "ListArchives sha tt fault archiveID r =
     (if archiveID \<noteq> [] \<and> \<not> validArchiveID archiveID then Inl InvalidArchiveId
      else if fault then Inl QueryFailed
      else fold_err (\<lambda>acc ir. case list_entry sha tt r ir of Inl e \<Rightarrow> Inl e | Inr x \<Rightarrow> Inr (acc @ [x])) []
             (foldr (insert_by listing_order)
                (filter (\<lambda>ir. archiveID = [] \<or> fst ir = archiveID) (rg_archives r)) []))"

section \<open>Restore events\<close>

datatype RestoreStatus = RestoreRestored | RestoreConflict | RestoreInvalidArchive | RestoreUnsafeDestination
  | RestoreStagingFailed | RestoreVerificationFailed | RestorePartialPublish | RestoreRegistryFailed

definition status_text :: "RestoreStatus \<Rightarrow> string" where
  "status_text s = (case s of RestoreRestored \<Rightarrow> ''restored'' | RestoreConflict \<Rightarrow> ''conflict''
     | RestoreInvalidArchive \<Rightarrow> ''invalid_archive'' | RestoreUnsafeDestination \<Rightarrow> ''unsafe_destination''
     | RestoreStagingFailed \<Rightarrow> ''staging_failed'' | RestoreVerificationFailed \<Rightarrow> ''verification_failed''
     | RestorePartialPublish \<Rightarrow> ''partial_publish'' | RestoreRegistryFailed \<Rightarrow> ''registry_failed'')"

record RestoreResult =
  rr_archive_id :: string
  rr_conversation_id :: string
  rr_status :: RestoreStatus
  rr_file_status :: "RestoreStatus option"
  rr_reason :: string
  rr_published :: "string list"
  rr_db_ref :: string
  rr_brain_ref :: string
  rr_summary :: bool
  rr_guidance :: string
  rr_restored_at :: wtime

text \<open>The eight constants are the valid statuses; the event id is random, None when the generator fails.\<close>

definition RecordRestoreEvent ::
  "time_text \<Rightarrow> bool \<Rightarrow> string option \<Rightarrow> RestoreResult \<Rightarrow> registry \<Rightarrow> registry_error + registry" where
  "RecordRestoreEvent tt fault event res r =
     (if wnanos (rr_restored_at res) = wnanos zero_time then Inl InvalidEvent
      else case event of None \<Rightarrow> Inl EventFailed | Some i \<Rightarrow>
        if fault \<or> map_of (rg_events r) i \<noteq> None then Inl EventFailed
        else Inr (r\<lparr>rg_events := rg_events r @ [(i,
          \<lparr>re_archive = rr_archive_id res, re_conversation = rr_conversation_id res, re_restored = format_nano tt (rr_restored_at res),
           re_result = status_text (rr_status res), re_destination = rr_db_ref res @ ''|'' @ rr_brain_ref res,
           re_db_published = (''conversation_db'' \<in> set (rr_published res)), re_brain_published = (''brain'' \<in> set (rr_published res)),
           re_catalog = False, re_tool = ''agy-db-v2-cp3''\<rparr>)]\<rparr>))"

section \<open>What a verification keeps\<close>

lemma add_files_keep: "map_of fs k = Some x \<Longrightarrow> map_of (foldl (add_file i) fs files) k = Some x"
proof (induction files arbitrary: fs)
  case (Cons f files)
  then show ?case by (simp add: add_file_def map_add_def)
qed simp

lemma add_files_keys: "fst ` set (foldl (add_file i) fs files) \<subseteq> fst ` set fs \<union> (\<lambda>f. (i, af_path f)) ` set files"
proof (induction files arbitrary: fs)
  case (Cons f files)
  have a: "fst ` set (add_file i fs f) \<subseteq> insert (i, af_path f) (fst ` set fs)" by (auto simp: add_file_def)
  have "fst ` set (foldl (add_file i) fs (f # files)) \<subseteq> fst ` set (add_file i fs f) \<union> (\<lambda>f. (i, af_path f)) ` set files"
    using Cons.IH [of "add_file i fs f"] by simp
  also have "\<dots> \<subseteq> insert (i, af_path f) (fst ` set fs) \<union> (\<lambda>f. (i, af_path f)) ` set files" by (rule Un_mono [OF a order_refl])
  also have "\<dots> = fst ` set fs \<union> (\<lambda>f. (i, af_path f)) ` set (f # files)" by auto
  finally show ?case .
qed simp

text \<open>The row a registration leaves for its archive.\<close>

definition registered_row :: "time_text \<Rightarrow> string \<Rightarrow> ArchiveVerificationResult \<Rightarrow> ArchiveManifest \<Rightarrow> registry \<Rightarrow> archive_row" where
  "registered_row tt path v m r =
     (case map_of (rg_archives r) (am_archive_id m) of
        None \<Rightarrow> archive_row_of tt path v m
      | Some old \<Rightarrow> old\<lparr>ra_path := path, ra_state := state_text (vr_state v), ra_verified := Some (format_nano tt (vr_verified_at v))\<rparr>)"

lemma registerValid_ok:
  assumes "registerValid tt fault path v m r = Inr r'"
  shows "(\<forall>j x. (j, x) \<in> set (rg_archives r) \<and> ra_path x = path \<longrightarrow> j = am_archive_id m)
    \<and> rg_archives r' = put_row (am_archive_id m) (registered_row tt path v m r) (rg_archives r)
    \<and> rg_files r' = foldl (add_file (am_archive_id m)) (rg_files r) (am_files m) \<and> rg_events r' = rg_events r
    \<and> (\<forall>old. map_of (rg_archives r) (am_archive_id m) = Some old \<longrightarrow> same_identity old (archive_row_of tt path v m))"
proof -
  have free: "\<forall>j x. (j, x) \<in> set (rg_archives r) \<and> ra_path x = path \<longrightarrow> j = am_archive_id m"
    using assms by (auto simp: registerValid_def Let_def split: if_splits)
  have n: "ra_state (archive_row_of tt path v m) = state_text (vr_state v)"
    "ra_verified (archive_row_of tt path v m) = Some (format_nano tt (vr_verified_at v))" by (simp_all add: archive_row_of_def)
  show ?thesis
  proof (cases "map_of (rg_archives r) (am_archive_id m)")
    case None
    have "r' = r\<lparr>rg_archives := put_row (am_archive_id m) (archive_row_of tt path v m) (rg_archives r),
        rg_files := foldl (add_file (am_archive_id m)) (rg_files r) (am_files m)\<rparr>"
      using assms None by (simp add: registerValid_def Let_def split: if_splits)
    then show ?thesis using free None by (simp add: registered_row_def)
  next
    case (Some old)
    have "same_identity old (archive_row_of tt path v m) \<and> r' = r\<lparr>rg_archives := put_row (am_archive_id m)
          (old\<lparr>ra_path := path, ra_state := state_text (vr_state v), ra_verified := Some (format_nano tt (vr_verified_at v))\<rparr>) (rg_archives r),
        rg_files := foldl (add_file (am_archive_id m)) (rg_files r) (am_files m)\<rparr>"
      using assms Some by (simp add: registerValid_def Let_def n split: if_splits)
    then show ?thesis using free Some by (simp add: registered_row_def)
  qed
qed

lemma map_of_map_row: "map_of (map (\<lambda>(i, row). (i, f row)) t) k = map_option f (map_of t k)"
  by (induction t) auto

lemma mark_verified_fields:
  "map_of (rg_archives (mark_verified tt path v r)) i = map_option (mark_row tt path v) (map_of (rg_archives r) i)"
  "rg_files (mark_verified tt path v r) = rg_files r" "rg_events (mark_verified tt path v r) = rg_events r"
  by (simp_all add: mark_verified_def map_of_map_row)

text \<open>The steps of RecordVerification: nothing, a registration, a mark, or both.\<close>

lemma RecordVerification_cases:
  assumes "RecordVerification tt h f1 f2 archivePath v r = (e, r')"
  obtains "r' = r"
  | path r1 where "Abs h archivePath = Some path" "r1 = r \<or> (\<exists>m. vr_manifest v = Some m \<and> vr_state v = ArchiveValid \<and> registerValid tt f1 path v m r = Inr r1)"
      "r' = r1 \<or> r' = mark_verified tt path v r1"
  using assms
  by (auto simp: RecordVerification_def split: option.splits sum.splits if_splits)

definition keeps_row :: "archive_row \<Rightarrow> archive_row \<Rightarrow> bool" where
  "keeps_row a b \<longleftrightarrow> same_identity a b \<and> ra_created b = ra_created a \<and> ra_registered b = ra_registered a"

definition keeps_registry :: "registry \<Rightarrow> registry \<Rightarrow> bool" where
  "keeps_registry r r' \<longleftrightarrow>
     (\<forall>i row. map_of (rg_archives r) i = Some row \<longrightarrow> (\<exists>row'. map_of (rg_archives r') i = Some row' \<and> keeps_row row row'))
     \<and> (\<forall>k f. map_of (rg_files r) k = Some f \<longrightarrow> map_of (rg_files r') k = Some f)
     \<and> rg_events r' = rg_events r"

lemma keeps_row_refl: "keeps_row a a"
  by (simp add: keeps_row_def same_identity_def)

lemma keeps_registry_trans:
  assumes "keeps_registry a b" and "keeps_registry b c"
  shows "keeps_registry a c"
proof -
  have t: "keeps_row x y \<Longrightarrow> keeps_row y z \<Longrightarrow> keeps_row x z" for x y z by (simp add: keeps_row_def same_identity_def)
  have "\<exists>z. map_of (rg_archives c) i = Some z \<and> keeps_row x z" if x: "map_of (rg_archives a) i = Some x" for i x
  proof -
    obtain y where y: "map_of (rg_archives b) i = Some y" "keeps_row x y" using assms(1) x unfolding keeps_registry_def by blast
    obtain z where "map_of (rg_archives c) i = Some z" "keeps_row y z" using assms(2) y(1) unfolding keeps_registry_def by blast
    then show ?thesis using t [OF y(2)] by blast
  qed
  then show ?thesis using assms unfolding keeps_registry_def by simp
qed

lemma keeps_registry_refl: "keeps_registry r r"
  using keeps_row_refl by (auto simp: keeps_registry_def)

lemma registerValid_keeps:
  assumes "registerValid tt f path v m r = Inr r'"
  shows "keeps_registry r r'"
proof -
  note ok = registerValid_ok [OF assms]
  have same: "keeps_row old (registered_row tt path v m r)" if "map_of (rg_archives r) (am_archive_id m) = Some old" for old
    using that by (simp add: keeps_row_def same_identity_def registered_row_def)
  have "\<exists>row'. map_of (rg_archives r') i = Some row' \<and> keeps_row row row'" if "map_of (rg_archives r) i = Some row" for i row
    using that same keeps_row_refl ok by (cases "i = am_archive_id m") auto
  moreover have "map_of (rg_files r') k = Some x" if "map_of (rg_files r) k = Some x" for k x
    using ok add_files_keep [OF that] by simp
  ultimately show ?thesis using ok unfolding keeps_registry_def by blast
qed

lemma mark_keeps: "keeps_registry r (mark_verified tt path v r)"
  by (auto simp: keeps_registry_def mark_verified_fields mark_row_def keeps_row_def same_identity_def)

text \<open>C29: A registered archive keeps its identity: whatever is verified later, at whatever path and with
  whatever result, its conversation, format, digests and times of creation and registration stay, and so
  does every file recorded for it; only its place, state and time of verification can change.\<close>

theorem registered_identity_kept:
  assumes "RecordVerification tt h f1 f2 archivePath v r = (e, r')" and "map_of (rg_archives r) i = Some row"
  shows "\<exists>row'. map_of (rg_archives r') i = Some row' \<and> same_identity row row' \<and> ra_created row' = ra_created row
    \<and> ra_registered row' = ra_registered row \<and> (\<forall>p f. map_of (rg_files r) (i, p) = Some f \<longrightarrow> map_of (rg_files r') (i, p) = Some f)"
proof -
  have "keeps_registry r r'"
  proof (rule RecordVerification_cases [OF assms(1)])
    assume "r' = r" then show ?thesis by (simp add: keeps_registry_refl)
  next
    fix path r1
    assume r: "r1 = r \<or> (\<exists>m. vr_manifest v = Some m \<and> vr_state v = ArchiveValid \<and> registerValid tt f1 path v m r = Inr r1)"
      "r' = r1 \<or> r' = mark_verified tt path v r1"
    have "keeps_registry r r1" using r(1) registerValid_keeps keeps_registry_refl by metis
    moreover have "keeps_registry r1 r'" using r(2) mark_keeps keeps_registry_refl by metis
    ultimately show ?thesis by (rule keeps_registry_trans)
  qed
  then show ?thesis using assms(2) unfolding keeps_registry_def keeps_row_def by blast
qed

section \<open>A well-formed registry\<close>

text \<open>The times that JSON and RFC 3339 can carry, and what time.Format and time.Parse promise for them.\<close>

definition json_time :: "wtime \<Rightarrow> bool" where
  "json_time t \<longleftrightarrow> - 62167219200 \<le> wnanos t div 1000000000 + woffset t \<and> wnanos t div 1000000000 + woffset t < 253402300800"

definition times_parse :: "time_text \<Rightarrow> bool" where
  "times_parse tt \<longleftrightarrow> (\<forall>t. json_time t \<longrightarrow> parse_nano tt (format_nano tt t) \<noteq> None)"

definition manifest_times :: "archive_json \<Rightarrow> bool" where
  "manifest_times jd \<longleftrightarrow> (\<forall>data m. strict_manifest jd data = Some m \<longrightarrow> json_time (am_created m))"

inductive registry_reachable :: "(bytes \<Rightarrow> bytes) \<Rightarrow> archive_json \<Rightarrow> time_text \<Rightarrow> registry \<Rightarrow> bool" for sha jd tt where
  reg_new: "registry_reachable sha jd tt empty_registry"
| reg_verify: "registry_reachable sha jd tt r \<Longrightarrow> (\<And>wd. h_cwd h = Some wd \<Longrightarrow> IsAbs wd) \<Longrightarrow> json_time (utc now) \<Longrightarrow>
     RecordVerification tt h f1 f2 path (VerifyArchive sha jd h rb ao again path now) r = (e, r') \<Longrightarrow> registry_reachable sha jd tt r'"
| reg_event: "registry_reachable sha jd tt r \<Longrightarrow> RecordRestoreEvent tt f ev res r = Inr r' \<Longrightarrow> registry_reachable sha jd tt r'"

definition row_ok :: "time_text \<Rightarrow> string \<times> archive_row \<Rightarrow> bool" where
  "row_ok tt ir \<longleftrightarrow> (case ir of (i, row) \<Rightarrow>
     validArchiveID i \<and> validConversationID (ra_conversation row) \<and> IsAbs (ra_path row) \<and> validSHA256 (ra_snapshot_sha256 row)
     \<and> validArchiveVerificationState (ra_state row) \<and> parse_nano tt (ra_created row) \<noteq> None
     \<and> (case ra_verified row of None \<Rightarrow> True | Some t \<Rightarrow> parse_nano tt t \<noteq> None))"

definition registry_ok :: "time_text \<Rightarrow> registry \<Rightarrow> bool" where
  "registry_ok tt r \<longleftrightarrow> distinct (map fst (rg_archives r)) \<and> distinct (map (ra_path \<circ> snd) (rg_archives r))
     \<and> list_all (row_ok tt) (rg_archives r) \<and> list_all (\<lambda>f. 0 \<le> rf_size (snd f)) (rg_files r)"

lemma state_text_valid [simp]: "validArchiveVerificationState (state_text s)"
  by (cases s) (simp_all add: validArchiveVerificationState_def state_text_def)

lemma set_put_row: "x \<in> set (put_row k v t) \<Longrightarrow> x = (k, v) \<or> x \<in> set t"
  by (induction t) (auto split: if_splits)

lemma distinct_paths_put:
  assumes "distinct (map fst t)" and "distinct (map (ra_path \<circ> snd) t)"
    and "\<forall>j x. (j, x) \<in> set t \<and> ra_path x = ra_path row \<longrightarrow> j = i"
  shows "distinct (map (ra_path \<circ> snd) (put_row i row t))"
  using assms
proof (induction t)
  case (Cons y t)
  obtain j x where y: "y = (j, x)" by (cases y)
  show ?case
  proof (cases "j = i")
    case True
    have "\<forall>z \<in> set t. ra_path row \<noteq> ra_path (snd z)"
    proof
      fix z assume z: "z \<in> set t"
      have "fst z \<noteq> i" using Cons.prems(1) True y z by force
      then show "ra_path row \<noteq> ra_path (snd z)" using Cons.prems(3) z by (metis list.set_intros(2) prod.collapse)
    qed
    then have "ra_path row \<notin> set (map (ra_path \<circ> snd) t)" by (auto simp: image_iff)
    then show ?thesis using Cons.prems(2) unfolding y True by simp
  next
    case False
    have "ra_path x \<noteq> ra_path row" using Cons.prems(3) False y by auto
    moreover have "ra_path x \<notin> ra_path ` snd ` set t" using Cons.prems(2) y by (auto simp: image_image)
    ultimately have "ra_path x \<notin> ra_path ` snd ` set (put_row i row t)" using set_put_row [of _ i row t] by fastforce
    then show ?thesis using Cons False y by (auto simp: image_image)
  qed
qed simp

lemma files_nonneg: "list_all (\<lambda>f. 0 \<le> rf_size (snd f)) fs \<Longrightarrow> list_all (\<lambda>f. 0 \<le> af_size f) files \<Longrightarrow>
     list_all (\<lambda>f. 0 \<le> rf_size (snd f)) (foldl (add_file i) fs files)"
proof (induction files arbitrary: fs)
  case (Cons f files)
  have "list_all (\<lambda>f. 0 \<le> rf_size (snd f)) (add_file i fs f)" using Cons.prems by (simp add: add_file_def)
  then show ?case using Cons by simp
qed simp

lemma verified_manifest:
  assumes "vr_manifest (VerifyArchive sha jd h rb ao again path now) = Some m" and "manifest_times jd"
  shows "manifest_valid m \<and> list_all (\<lambda>f. 0 \<le> af_size f) (am_files m) \<and> json_time (am_created m)
    \<and> vr_verified_at (VerifyArchive sha jd h rb ao again path now) = utc now"
proof -
  have "vr_state (VerifyArchive sha jd h rb ao again path now) = ArchiveValid" using assms(1) by (rule VerifyArchive_manifest)
  then obtain data where v: "verifyArchiveDirectory sha jd ao = Inr m"
    "vr_verified_at (VerifyArchive sha jd h rb ao again path now) = utc now"
    using VerifyArchive_valid [of sha jd h rb ao again path now] assms(1) by auto
  have w: "\<exists>data. strict_manifest jd data = Some m" "archive_whole sha jd ao m"
    using v(1) unfolding verifyArchiveDirectory_iff by blast+
  have l: "list_all (\<lambda>(f, fo). path_safe [] f \<and> file_matches sha f fo \<and> role_of_path f) (listed m ao)"
    using w(2) unfolding archive_whole_def by blast
  have "0 \<le> af_size f" if "f \<in> set (am_files m)" for f
  proof -
    have "f \<in> fst ` set (listed m ao)" using that listed_fst [of m ao] by (metis set_map)
    then show ?thesis using l by (auto simp: list_all_iff path_safe_def)
  qed
  moreover have "manifest_valid m" using w(2) unfolding archive_whole_def by blast
  ultimately show ?thesis using w(1) assms(2) v(2) by (auto simp: manifest_times_def list_all_iff)
qed

lemma registerValid_registry_ok:
  assumes "registerValid tt f path v m r = Inr r'" and "registry_ok tt r" and "manifest_valid m"
    and "list_all (\<lambda>f. 0 \<le> af_size f) (am_files m)" and "IsAbs path"
    and "parse_nano tt (format_nano tt (am_created m)) \<noteq> None" and "parse_nano tt (format_nano tt (vr_verified_at v)) \<noteq> None"
  shows "registry_ok tt r'"
proof -
  note ok = registerValid_ok [OF assms(1)]
  let ?row = "registered_row tt path v m r"
  have path: "ra_path ?row = path" by (simp add: registered_row_def archive_row_of_def split: option.split)
  have "row_ok tt (am_archive_id m, ?row)"
  proof (cases "map_of (rg_archives r) (am_archive_id m)")
    case None
    then show ?thesis using assms(3,5,6,7) by (simp add: registered_row_def row_ok_def archive_row_of_def manifest_valid_def)
  next
    case (Some old)
    then have "row_ok tt (am_archive_id m, old)" using assms(2) by (auto simp: registry_ok_def list_all_iff dest: map_of_SomeD)
    then show ?thesis using Some assms(5,7) by (simp add: registered_row_def row_ok_def)
  qed
  then have rows: "list_all (row_ok tt) (put_row (am_archive_id m) ?row (rg_archives r))"
    using assms(2) set_put_row by (fastforce simp: registry_ok_def list_all_iff)
  have "distinct (map (ra_path \<circ> snd) (put_row (am_archive_id m) ?row (rg_archives r)))"
    using ok assms(2) path by (intro distinct_paths_put) (simp_all add: registry_ok_def)
  then show ?thesis using ok rows assms(2,4) files_nonneg by (simp add: registry_ok_def)
qed

lemma mark_row_ok: "row_ok tt (i, row) \<Longrightarrow> parse_nano tt (format_nano tt (vr_verified_at v)) \<noteq> None \<Longrightarrow>
     row_ok tt (i, mark_row tt path v row)"
  unfolding row_ok_def mark_row_def prod.case by (cases "ra_path row = path") simp_all

lemma mark_row_path: "ra_path (mark_row tt path v row) = ra_path row"
  by (simp add: mark_row_def)

lemma mark_verified_ok:
  assumes "registry_ok tt r" and "parse_nano tt (format_nano tt (vr_verified_at v)) \<noteq> None"
  shows "registry_ok tt (mark_verified tt path v r)"
proof -
  have "map (ra_path \<circ> snd) (rg_archives (mark_verified tt path v r)) = map (ra_path \<circ> snd) (rg_archives r)"
    and "map fst (rg_archives (mark_verified tt path v r)) = map fst (rg_archives r)"
    by (auto simp: mark_verified_def mark_row_path)
  moreover have "list_all (row_ok tt) (rg_archives (mark_verified tt path v r))"
    using assms(1) mark_row_ok assms(2) by (fastforce simp: registry_ok_def list_all_iff mark_verified_def)
  ultimately show ?thesis using assms(1) by (simp add: registry_ok_def mark_verified_fields)
qed

lemma registry_reachable_ok:
  assumes "registry_reachable sha jd tt r" and "times_parse tt" and "manifest_times jd"
  shows "registry_ok tt r"
  using assms(1)
proof (induction rule: registry_reachable.induct)
  case reg_new
  then show ?case by (simp add: registry_ok_def empty_registry_def)
next
  case (reg_verify r h now f1 f2 path rb ao again e r')
  let ?v = "VerifyArchive sha jd h rb ao again path now"
  have at: "vr_verified_at ?v = utc now"
    by (auto simp: VerifyArchive_def Let_def split: option.splits sum.splits prod.splits)
  have now: "parse_nano tt (format_nano tt (vr_verified_at ?v)) \<noteq> None"
    using assms(2) reg_verify.hyps(3) at by (simp add: times_parse_def)
  show ?case
  proof (rule RecordVerification_cases [OF reg_verify.hyps(4)])
    assume "r' = r" then show ?thesis using reg_verify.IH by simp
  next
    fix p r1
    assume p: "Abs h path = Some p"
      and r1: "r1 = r \<or> (\<exists>m. vr_manifest ?v = Some m \<and> vr_state ?v = ArchiveValid \<and> registerValid tt f1 p ?v m r = Inr r1)"
      and r': "r' = r1 \<or> r' = mark_verified tt p ?v r1"
    have "registry_ok tt r1" using r1
    proof
      assume "\<exists>m. vr_manifest ?v = Some m \<and> vr_state ?v = ArchiveValid \<and> registerValid tt f1 p ?v m r = Inr r1"
      then obtain m where m: "vr_manifest ?v = Some m" "registerValid tt f1 p ?v m r = Inr r1" by blast
      note w = verified_manifest [OF m(1) assms(3)]
      have "parse_nano tt (format_nano tt (am_created m)) \<noteq> None" using w assms(2) unfolding times_parse_def by blast
      then show ?thesis using w registerValid_registry_ok [OF m(2) reg_verify.IH] IsAbs_Abs [OF p reg_verify.hyps(2)] now by blast
    qed (use reg_verify.IH in simp)
    then show ?thesis using r' mark_verified_ok now by blast
  qed
next
  case (reg_event r f ev res r')
  then have "rg_archives r' = rg_archives r" "rg_files r' = rg_files r"
    by (auto simp: RecordRestoreEvent_def split: if_splits option.splits)
  then show ?case using reg_event.IH by (simp add: registry_ok_def)
qed

section \<open>What the registry answers\<close>

lemma set_insert_by [simp]: "set (insert_by le x ys) = insert x (set ys)"
  by (induction ys) auto

lemma mset_insert_by [simp]: "mset (insert_by le x ys) = add_mset x (mset ys)"
  by (induction ys) auto

lemma mset_listing: "mset (foldr (insert_by le) xs []) = mset xs"
  by (induction xs) simp_all

lemma fold_entries:
  assumes "\<And>x. x \<in> set xs \<Longrightarrow> \<exists>y. f x = Inr y \<and> g y = h x"
  shows "\<exists>es. fold_err (\<lambda>acc x. case f x of Inl e \<Rightarrow> Inl e | Inr y \<Rightarrow> Inr (acc @ [y])) acc xs = Inr (acc @ es) \<and> map g es = map h xs"
  using assms
proof (induction xs arbitrary: acc)
  case (Cons x xs)
  obtain y where y: "f x = Inr y" "g y = h x" using Cons.prems by force
  obtain es where "fold_err (\<lambda>acc x. case f x of Inl e \<Rightarrow> Inl e | Inr y \<Rightarrow> Inr (acc @ [y])) (acc @ [y]) xs = Inr ((acc @ [y]) @ es)"
    "map g es = map h xs" using Cons.IH [of "acc @ [y]"] Cons.prems by force
  then show ?case using y by (intro exI [of _ "y # es"]) simp
qed simp

lemma sum_nonneg_files: "list_all (\<lambda>f. 0 \<le> rf_size (snd f)) fs \<Longrightarrow> 0 \<le> sum_list (map rf_size (map snd (filter P fs)))"
  by (rule sum_list_nonneg) (auto simp: list_all_iff)

lemma list_entry_ok:
  assumes "registry_ok tt r" and "ir \<in> set (rg_archives r)" and "sum_list (map rf_size (files_of (fst ir) r)) < 2 ^ 63"
  shows "\<exists>e. list_entry sha tt r ir = Inr e \<and> (rl_archive_id e, rl_conversation_id e, rl_state e) = (fst ir, ra_conversation (snd ir), ra_state (snd ir))"
proof -
  obtain i row where ir: "ir = (i, row)" by (cases ir)
  let ?b = "sum_list (map rf_size (files_of i r))"
  have b: "0 \<le> ?b" "?b < 2 ^ 63" using assms(1,3) ir by (auto simp: files_of_def registry_ok_def intro!: sum_nonneg_files [unfolded map_map])
  have ok: "row_ok tt (i, row)" using assms(1,2) ir by (simp add: registry_ok_def list_all_iff)
  then obtain c where c: "parse_nano tt (ra_created row) = Some c" unfolding row_ok_def by auto
  have v: "\<exists>u. parse_nano tt t = Some u" if "ra_verified row = Some t" for t using ok that unfolding row_ok_def by auto
  show ?thesis
  proof (cases "ra_verified row")
    case None
    then show ?thesis using ok b c ir by (simp add: list_entry_def Let_def row_ok_def)
  next
    case (Some t)
    obtain u where "parse_nano tt t = Some u" using v [OF Some] by blast
    then show ?thesis using ok b c ir Some by (simp add: list_entry_def Let_def row_ok_def)
  qed
qed

text \<open>However archives are verified and restored, the registry stays one its own queries accept: no two
  rows share an archive id or a path, and (sizes within 64 bits, times that RFC 3339 can carry) the listing
  answers, with exactly one entry for every registered archive, under its id, conversation and state.\<close>

theorem registry_lists:
  assumes "registry_reachable sha jd tt r" and "times_parse tt" and "manifest_times jd"
    and "\<forall>i. sum_list (map rf_size (files_of i r)) < 2 ^ 63"
  shows "distinct (map fst (rg_archives r)) \<and> distinct (map (ra_path \<circ> snd) (rg_archives r))
    \<and> (\<exists>es. ListArchives sha2 tt False [] r = Inr es \<and>
         mset (map (\<lambda>e. (rl_archive_id e, rl_conversation_id e, rl_state e)) es)
         = mset (map (\<lambda>(i, row). (i, ra_conversation row, ra_state row)) (rg_archives r)))"
proof -
  have ok: "registry_ok tt r" using registry_reachable_ok [OF assms(1,2,3)] .
  let ?xs = "foldr (insert_by listing_order) (rg_archives r) []"
  have s: "set ?xs = set (rg_archives r)" using mset_listing by (metis set_mset_mset)
  have "\<exists>es. fold_err (\<lambda>acc ir. case list_entry sha2 tt r ir of Inl e \<Rightarrow> Inl e | Inr x \<Rightarrow> Inr (acc @ [x])) [] ?xs = Inr ([] @ es)
      \<and> map (\<lambda>e. (rl_archive_id e, rl_conversation_id e, rl_state e)) es = map (\<lambda>ir. (fst ir, ra_conversation (snd ir), ra_state (snd ir))) ?xs"
    using list_entry_ok [OF ok] assms(4) s by (intro fold_entries) simp
  then obtain es where es: "ListArchives sha2 tt False [] r = Inr es"
    "map (\<lambda>e. (rl_archive_id e, rl_conversation_id e, rl_state e)) es = map (\<lambda>ir. (fst ir, ra_conversation (snd ir), ra_state (snd ir))) ?xs"
    by (auto simp: ListArchives_def)
  have "mset (map (\<lambda>ir. (fst ir, ra_conversation (snd ir), ra_state (snd ir))) ?xs)
      = mset (map (\<lambda>ir. (fst ir, ra_conversation (snd ir), ra_state (snd ir))) (rg_archives r))"
    unfolding mset_map mset_listing ..
  then have "mset (map (\<lambda>e. (rl_archive_id e, rl_conversation_id e, rl_state e)) es)
      = mset (map (\<lambda>(i, row). (i, ra_conversation row, ra_state row)) (rg_archives r))"
    unfolding es(2) case_prod_beta .
  then show ?thesis using ok es(1) unfolding registry_ok_def by blast
qed

lemma add_files_present:
  assumes "distinct (map af_path files)" and "\<forall>f \<in> set files. map_of fs (i, af_path f) = None" and "f \<in> set files"
  shows "map_of (foldl (add_file i) fs files) (i, af_path f) = Some \<lparr>rf_size = af_size f, rf_sha256 = af_sha256 f, rf_role = af_role f\<rparr>"
  using assms
proof (induction files arbitrary: fs)
  case (Cons g files)
  let ?row = "\<lambda>g. \<lparr>rf_size = af_size g, rf_sha256 = af_sha256 g, rf_role = af_role g\<rparr>"
  have a: "add_file i fs g = fs @ [((i, af_path g), ?row g)]" using Cons.prems(2) by (simp add: add_file_def)
  have g: "map_of (add_file i fs g) (i, af_path g) = Some (?row g)" using Cons.prems(2) unfolding a by (simp add: map_add_def)
  show ?case
  proof (cases "f = g")
    case True
    then show ?thesis using add_files_keep [OF g] by simp
  next
    case False
    have "\<forall>f \<in> set files. map_of (add_file i fs g) (i, af_path f) = None"
      using Cons.prems(1,2) unfolding a by (auto simp: map_add_def image_iff)
    then show ?thesis using Cons.IH [of "add_file i fs g"] Cons.prems(1,3) False by simp
  qed
qed simp

text \<open>An archive verified valid whose id is new to the registry, at a path no other archive holds, is
  recorded: its row states that path and the verified digests, as valid, and each of its files is there.\<close>

theorem verification_recorded:
  assumes "Abs h archivePath = Some path" and "vr_manifest v = Some m" and "vr_state v = ArchiveValid"
    and "map_of (rg_archives r) (am_archive_id m) = None" and "\<forall>(j, row) \<in> set (rg_archives r). ra_path row \<noteq> path"
    and "distinct (map af_path (am_files m))" and "\<forall>p. map_of (rg_files r) (am_archive_id m, p) = None"
  shows "\<exists>r' row. RecordVerification tt h False False archivePath v r = (None, r')
    \<and> map_of (rg_archives r') (am_archive_id m) = Some row \<and> ra_path row = path \<and> ra_state row = ''valid''
    \<and> ra_snapshot_sha256 row = am_snapshot_sha256 m \<and> ra_manifest_sha256 row = vr_manifest_sha256 v
    \<and> (\<forall>f \<in> set (am_files m). map_of (rg_files r') (am_archive_id m, af_path f) = Some \<lparr>rf_size = af_size f, rf_sha256 = af_sha256 f, rf_role = af_role f\<rparr>)"
proof -
  let ?row = "archive_row_of tt path v m"
  let ?r1 = "r\<lparr>rg_archives := put_row (am_archive_id m) ?row (rg_archives r), rg_files := foldl (add_file (am_archive_id m)) (rg_files r) (am_files m)\<rparr>"
  have "registerValid tt False path v m r = Inr ?r1"
    using assms(4,5) by (auto simp: registerValid_def Let_def)
  then have rv: "RecordVerification tt h False False archivePath v r = (None, mark_verified tt path v ?r1)"
    using assms(1-3) by (simp add: RecordVerification_def)
  have row: "map_of (rg_archives (mark_verified tt path v ?r1)) (am_archive_id m) = Some (mark_row tt path v ?row)"
    by (simp add: mark_verified_fields)
  have "\<forall>f \<in> set (am_files m). map_of (rg_files (mark_verified tt path v ?r1)) (am_archive_id m, af_path f)
      = Some \<lparr>rf_size = af_size f, rf_sha256 = af_sha256 f, rf_role = af_role f\<rparr>"
    using add_files_present [OF assms(6)] assms(7) by (simp add: mark_verified_fields)
  then show ?thesis using rv row assms(3) by (simp add: mark_row_def archive_row_of_def state_text_def)
qed

section \<open>A registry with one archive\<close>

definition demo_times :: time_text where
  "demo_times = \<lparr>format_nano = (\<lambda>t. ''T''), parse_nano = (\<lambda>s. if s = ''T'' then Some \<lparr>wnanos = 5, woffset = 0\<rparr> else None)\<rparr>"

definition demo_valid :: ArchiveVerificationResult where
  "demo_valid = VerifyArchive demo_sha demo_json local_host demo_root demo_archive demo_look ''/archive'' \<lparr>wnanos = 9, woffset = 0\<rparr>"

definition demo_registry :: registry where
  "demo_registry = snd (RecordVerification demo_times local_host False False ''/archive'' demo_valid empty_registry)"

lemma demo_valid_fields: "vr_state demo_valid = ArchiveValid" "vr_manifest demo_valid = Some demo_manifest"
  using demo_verified unfolding demo_valid_def by blast+

lemma demo_abs: "Abs local_host ''/archive'' = Some ''/archive''"
  by code_simp

lemma demo_row: "map_of (rg_archives demo_registry) (am_archive_id demo_manifest)
    = Some (mark_row demo_times ''/archive'' demo_valid (archive_row_of demo_times ''/archive'' demo_valid demo_manifest))"
  by (simp add: demo_registry_def RecordVerification_def demo_abs demo_valid_fields registerValid_def Let_def empty_registry_def mark_verified_fields)

lemma demo_files: "rg_files demo_registry = foldl (add_file (am_archive_id demo_manifest)) [] (am_files demo_manifest)"
  by (simp add: demo_registry_def RecordVerification_def demo_abs demo_valid_fields registerValid_def Let_def empty_registry_def mark_verified_fields)

lemma demo_registry_reachable: "registry_reachable demo_sha demo_json demo_times demo_registry"
proof (rule reg_verify [OF reg_new])
  show "RecordVerification demo_times local_host False False ''/archive''
      (VerifyArchive demo_sha demo_json local_host demo_root demo_archive demo_look ''/archive'' \<lparr>wnanos = 9, woffset = 0\<rparr>) empty_registry
    = (fst (RecordVerification demo_times local_host False False ''/archive'' demo_valid empty_registry), demo_registry)"
    unfolding demo_registry_def demo_valid_def by simp
  show "IsAbs wd" if "h_cwd local_host = Some wd" for wd using that by (auto simp: local_host_def IsAbs_def has_prefix_def)
  show "json_time (utc \<lparr>wnanos = 9, woffset = 0\<rparr>)" by (simp add: json_time_def utc_def)
qed

theorem registered_identity_kept_witness:
  "\<exists>row'. map_of (rg_archives (snd (RecordVerification demo_times local_host False False ''/archive'' (demo_valid\<lparr>vr_state := ArchiveCorrupt\<rparr>) demo_registry)))
     (am_archive_id demo_manifest) = Some row' \<and> ra_conversation row' = ''c1''"
proof -
  obtain e r' where r: "RecordVerification demo_times local_host False False ''/archive'' (demo_valid\<lparr>vr_state := ArchiveCorrupt\<rparr>) demo_registry = (e, r')"
    by (cases "RecordVerification demo_times local_host False False ''/archive'' (demo_valid\<lparr>vr_state := ArchiveCorrupt\<rparr>) demo_registry")
  have "ra_conversation (mark_row demo_times ''/archive'' demo_valid (archive_row_of demo_times ''/archive'' demo_valid demo_manifest)) = ''c1''"
    by (simp add: mark_row_def archive_row_of_def demo_manifest_def)
  then show ?thesis using registered_identity_kept [OF r demo_row] unfolding r same_identity_def by auto
qed

lemma demo_times_parse: "times_parse demo_times"
  by (simp add: times_parse_def demo_times_def)

lemma demo_manifest_times: "manifest_times demo_json"
  by (simp add: manifest_times_def demo_json_def json_time_def demo_manifest_def)

theorem registry_lists_witness:
  "\<exists>es. ListArchives demo_sha demo_times False [] demo_registry = Inr es"
proof -
  have f: "rg_files demo_registry =
      [((am_archive_id demo_manifest, ''brain/task''), \<lparr>rf_size = 2, rf_sha256 = digest_of demo_sha demo_content, rf_role = ''brain''\<rparr>),
       ((am_archive_id demo_manifest, ''conversation/main.db''), \<lparr>rf_size = 2, rf_sha256 = digest_of demo_sha demo_content, rf_role = ''sqlite_snapshot''\<rparr>)]"
    unfolding demo_files by (simp add: demo_manifest_def demo_task_def demo_main_def add_file_def)
  have "\<forall>i. sum_list (map rf_size (files_of i demo_registry)) < 2 ^ 63" unfolding files_of_def f by simp
  from registry_lists [OF demo_registry_reachable demo_times_parse demo_manifest_times this] show ?thesis by blast
qed

theorem verification_recorded_witness:
  "\<exists>r' row. RecordVerification demo_times local_host False False ''/archive'' demo_valid empty_registry = (None, r')
     \<and> map_of (rg_archives r') (am_archive_id demo_manifest) = Some row \<and> ra_state row = ''valid''"
proof -
  have d: "distinct (map af_path (am_files demo_manifest))" by (simp add: demo_manifest_def demo_task_def demo_main_def)
  have e: "map_of (rg_archives empty_registry) (am_archive_id demo_manifest) = None"
    "\<forall>(j, row) \<in> set (rg_archives empty_registry). ra_path row \<noteq> ''/archive''"
    "\<forall>p. map_of (rg_files empty_registry) (am_archive_id demo_manifest, p) = None" by (simp_all add: empty_registry_def)
  from verification_recorded [OF demo_abs demo_valid_fields(2,1) e(1,2) d e(3)] show ?thesis by blast
qed

end
