(* ===== verification/Restore.thy ===== *)
theory Restore
  imports Registry
begin

text \<open>
  Restoring an archive: internal/inventory/restore.go. The two destination directories are one map from
  directory and name to what is there; what other processes do to it between the steps is a function of
  the point reached. Every look at a file and every system call that may fail is an answer in a record.
  The hooks of the tests (afterDBStage and the like) are absent.
\<close>

section \<open>Destinations\<close>

datatype placed = Foreign nat | Stage | RestoredDB string | RestoredBrain string

type_synonym dirs = "string \<times> string \<Rightarrow> placed option"

definition put_new :: "'k \<Rightarrow> 'v \<Rightarrow> ('k \<Rightarrow> 'v option) \<Rightarrow> ('k \<Rightarrow> 'v option) option" where
  "put_new k x fs = (if fs k = None then Some (fs(k \<mapsto> x)) else None)"

text \<open>filepath.Rel of two clean paths; None is its error.\<close>

definition path_names :: "string \<Rightarrow> string list" where
  "path_names p = filter (\<lambda>w. w \<noteq> [] \<and> w \<noteq> ''.'') (split_on (CHR ''/'') (Clean p))"

fun rel_names :: "string list \<Rightarrow> string list \<Rightarrow> string list option" where
  "rel_names [] ts = Some ts"
| "rel_names (b # bs) [] = (if b = ''..'' then None else Some (replicate (length (b # bs)) ''..''))"
| "rel_names (b # bs) (t # ts) =
     (if b = t then rel_names bs ts
      else if b = ''..'' then None
      else Some (replicate (length (b # bs)) ''..'' @ t # ts))"

definition Rel :: "string \<Rightarrow> string \<Rightarrow> string option" where
  "Rel base targ =
     (if IsAbs base \<noteq> IsAbs targ then None
      else map_option (\<lambda>ws. if ws = [] then ''.'' else join ''/'' ws) (rel_names (path_names base) (path_names targ)))"

definition pathWithin :: "string \<Rightarrow> string \<Rightarrow> bool" where
  "pathWithin path parent \<longleftrightarrow>
     (case Rel parent path of
        None \<Rightarrow> False
      | Some rel \<Rightarrow> rel = ''.'' \<or> (rel \<noteq> ''..'' \<and> \<not> has_prefix rel ''../''))"

definition openRestoreRoot :: "host \<Rightarrow> string option \<Rightarrow> root_obs \<Rightarrow> string \<Rightarrow> string option" where
  "openRestoreRoot h eval rb path =
     (case Abs h path of None \<Rightarrow> None | Some p \<Rightarrow>
        if path = [] \<or> eval \<noteq> Some p \<or> \<not> root_safe rb then None else Some p)"

definition restoreRootUnchanged :: "file_stat option \<times> file_stat option \<Rightarrow> bool" where
  "restoreRootUnchanged looks = (case looks of (Some opened, Some at_path) \<Rightarrow> unchanged opened at_path | _ \<Rightarrow> False)"

text \<open>Fstatat answers ENOENT; an entry and any other error refuse alike.\<close>

definition restoreTargetAbsent :: "dirs \<Rightarrow> (string \<times> string \<Rightarrow> bool) \<Rightarrow> string \<times> string \<Rightarrow> bool" where
  "restoreTargetAbsent fs fails k \<longleftrightarrow> fs k = None \<and> \<not> fails k"

section \<open>Files\<close>

abbreviation mode_0600 :: nat where "mode_0600 \<equiv> 6 * 64"

abbreviation mode_0700 :: nat where "mode_0700 \<equiv> 7 * 64"

definition manifestFile :: "ArchiveManifest \<Rightarrow> string \<Rightarrow> string \<Rightarrow> ArchiveFile option" where
  "manifestFile m path role = List.find (\<lambda>f. af_path f = path \<and> af_role f = role) (am_files m)"

definition manifestRoleFiles :: "ArchiveManifest \<Rightarrow> string \<Rightarrow> ArchiveFile list" where
  "manifestRoleFiles m role = sort_key af_path (filter (\<lambda>f. af_role f = role) (am_files m))"

record copy_obs =
  co_source :: file_obs
  co_created :: bool
  co_closed :: bool

definition copyRestoreFile :: "(bytes \<Rightarrow> bytes) \<Rightarrow> copy_obs \<Rightarrow> ArchiveFile \<Rightarrow> archive_error option" where
  "copyRestoreFile sha co expected =
     (let fo = co_source co
      in case open_error fo of Some e \<Rightarrow> Some e | None \<Rightarrow>
         case look_before fo of None \<Rightarrow> Some (Named ''unsafe_archive_file'') | Some st \<Rightarrow>
           if fs_size st \<noteq> af_size expected then Some (Named ''unsafe_archive_file'')
           else if \<not> co_created co then Some OtherIO
           else case fo_content fo of None \<Rightarrow> Some (Named ''archive_changed'') | Some content \<Rightarrow>
             if \<not> co_closed co \<or> int (length content) \<noteq> af_size expected \<or> digest_of sha content \<noteq> af_sha256 expected
                \<or> \<not> look_after st fo
             then Some (Named ''archive_changed'') else None)"

record db_obs =
  do_mode :: "nat option" \<comment> \<open>the permissions at Lstat\<close>
  do_file :: file_obs
  do_sidecar :: "string \<Rightarrow> lstat_look"
  do_snapshot :: snapshot_obs

definition verifyStagedDB :: "(bytes \<Rightarrow> bytes) \<Rightarrow> db_obs \<Rightarrow> ArchiveManifest \<Rightarrow> ArchiveFile \<Rightarrow> archive_error option" where
  "verifyStagedDB sha d m expected =
     (if do_mode d \<noteq> Some mode_0600 then Some (Named ''restored_db_mode_invalid'')
      else case archiveFileRecord sha (do_file d) (af_path expected) (af_role expected) of
             Inl e \<Rightarrow> Some (Named ''restored_db_hash_mismatch'')
           | Inr actual \<Rightarrow>
               if af_size actual \<noteq> af_size expected \<or> af_sha256 actual \<noteq> af_sha256 expected \<or> af_sha256 actual \<noteq> am_snapshot_sha256 m
               then Some (Named ''restored_db_hash_mismatch'')
               else if \<not> list_all (\<lambda>suf. do_sidecar d suf = Absent) [''-wal'', ''-shm'', ''-journal'']
               then Some (Named ''restored_db_sidecar'')
               else if inspectArchiveSnapshot (do_snapshot d) \<noteq> Inr (am_schema m, am_schema_version m)
               then Some (Named ''restored_db_schema_mismatch'')
               else None)"

datatype brain_kind =
    BrainWalkError archive_error
  | BrainDir "nat option" \<comment> \<open>the permissions, None when Info fails\<close>
  | BrainFile file_obs "nat option"
  | BrainOther

record brain_obs =
  bo_root :: "(bool \<times> nat) option" \<comment> \<open>whether it is a directory, its permissions\<close>
  bo_walk :: "(string \<times> brain_kind) list"

definition brain_rel :: "ArchiveFile \<Rightarrow> string" where
  "brain_rel f = (if has_prefix (af_path f) ''brain/'' then drop 6 (af_path f) else af_path f)"

definition brain_want :: "ArchiveFile list \<Rightarrow> (string \<times> ArchiveFile) list" where
  "brain_want files = foldl (\<lambda>w f. put_row (brain_rel f) f w) [] files"

definition brain_dirs :: "ArchiveFile list \<Rightarrow> string list" where
  "brain_dirs files = ''.'' # concat (map (\<lambda>f. ancestors (brain_rel f)) files)"

definition brain_entry ::
  "(bytes \<Rightarrow> bytes) \<Rightarrow> (string \<times> ArchiveFile) list \<Rightarrow> string list \<Rightarrow> string list \<Rightarrow> string \<times> brain_kind \<Rightarrow> archive_error + string list" where
  "brain_entry sha want dirs seen e =
     (case e of (path, kind) \<Rightarrow>
        (case kind of
           BrainWalkError err \<Rightarrow> Inl err
         | _ \<Rightarrow> if path = ''.'' then Inr seen else
             (case kind of
                BrainDir perm \<Rightarrow> if path \<in> set dirs \<and> perm = Some mode_0700 then Inr seen else Inl (Named ''restored_brain_unsafe'')
              | BrainFile fo perm \<Rightarrow>
                  (case map_of want path of
                     None \<Rightarrow> Inl (Named ''restored_brain_unexpected'')
                   | Some f \<Rightarrow>
                       if path \<in> set seen then Inl (Named ''restored_brain_unexpected'')
                       else (case archiveFileRecord sha fo (af_path f) (af_role f) of
                               Inl err \<Rightarrow> Inl (Named ''restored_brain_mismatch'')
                             | Inr actual \<Rightarrow>
                                 if perm = Some mode_0600 \<and> af_size actual = af_size f \<and> af_sha256 actual = af_sha256 f
                                 then Inr (path # seen) else Inl (Named ''restored_brain_mismatch'')))
              | _ \<Rightarrow> Inl (Named ''restored_brain_unsafe''))))"

definition verifyRestoredBrain :: "(bytes \<Rightarrow> bytes) \<Rightarrow> brain_obs \<Rightarrow> ArchiveFile list \<Rightarrow> archive_error option" where
  "verifyRestoredBrain sha bo files =
     (if \<not> list_all (\<lambda>f. has_prefix (af_path f) ''brain/'' \<and> IsLocal (brain_rel f)) files
      then Some (Named ''restored_brain_manifest_invalid'')
      else if bo_root bo \<noteq> Some (True, mode_0700) then Some (Named ''restored_brain_mode_invalid'')
      else case fold_err (brain_entry sha (brain_want files) (brain_dirs files)) [] (bo_walk bo) of
             Inl e \<Rightarrow> Some (Named ''restored_brain_verification_failed'')
           | Inr seen \<Rightarrow> if length seen \<noteq> length (brain_want files) then Some (Named ''restored_brain_verification_failed'') else None)"

section \<open>The restoration\<close>

record restore_obs =
  ro_conv_eval :: "string option"
  ro_conv_root :: root_obs
  ro_brain_eval :: "string option"
  ro_brain_root :: root_obs
  ro_stat_fails :: "string \<times> string \<Rightarrow> bool"
  ro_archive_eval :: "string option"
  ro_archive_root :: root_obs
  ro_archive :: archive_obs
  ro_conv_stage :: "string option" \<comment> \<open>the random part of the name\<close>
  ro_conv_chmod :: bool
  ro_copy_main :: copy_obs
  ro_staged_db :: db_obs
  ro_brain_stage :: "string option"
  ro_brain_chmod :: bool
  ro_brain_payload :: bool
  ro_copy_brain :: "nat \<Rightarrow> bool \<times> copy_obs" \<comment> \<open>whether the directories above were made\<close>
  ro_staged_brain :: brain_obs
  ro_roots1 :: "(file_stat option \<times> file_stat option) \<times> (file_stat option \<times> file_stat option)"
  ro_conv_handle :: bool
  ro_rename_db :: bool
  ro_published_db :: db_obs
  ro_roots2 :: "(file_stat option \<times> file_stat option) \<times> (file_stat option \<times> file_stat option)"
  ro_brain_handle :: bool
  ro_rename_brain :: bool
  ro_published_brain :: brain_obs
  ro_roots3 :: "(file_stat option \<times> file_stat option) \<times> (file_stat option \<times> file_stat option)"
  ro_event :: "string option"
  ro_event_fault :: bool
  ro_conv_removed :: bool
  ro_brain_removed :: bool

definition roots_unchanged :: "(file_stat option \<times> file_stat option) \<times> (file_stat option \<times> file_stat option) \<Rightarrow> bool" where
  "roots_unchanged rs \<longleftrightarrow> restoreRootUnchanged (fst rs) \<and> restoreRootUnchanged (snd rs)"

text \<open>What a step that stops hands to finish.\<close>

type_synonym stop = "RestoreStatus \<times> string \<times> RestoreResult"

definition stage_key :: "string \<Rightarrow> string \<Rightarrow> string \<times> string" where
  "stage_key dir random = (dir, ''.agy-db-restore-'' @ random)"

definition db_key :: "string \<Rightarrow> ArchiveManifest \<Rightarrow> string \<times> string" where
  "db_key dir m = (dir, am_conversation_id m @ ''.db'')"

text \<open>The destinations: safe, outside the archive, and without anything under the names to publish.\<close>

definition check_destinations ::
  "(bytes \<Rightarrow> bytes) \<Rightarrow> host \<Rightarrow> restore_obs \<Rightarrow> string \<Rightarrow> string \<Rightarrow> string \<Rightarrow> ArchiveManifest \<Rightarrow> dirs \<Rightarrow> RestoreResult
   \<Rightarrow> stop + string \<times> string \<times> RestoreResult" where
  "check_destinations sha h ro archive_path conv_dir brain_dir m fs res =
     (case openRestoreRoot h (ro_conv_eval ro) (ro_conv_root ro) conv_dir of
        None \<Rightarrow> Inl (RestoreUnsafeDestination, ''conversation_destination_unsafe'', res)
      | Some conv \<Rightarrow>
        (case openRestoreRoot h (ro_brain_eval ro) (ro_brain_root ro) brain_dir of
           None \<Rightarrow> Inl (RestoreUnsafeDestination, ''brain_destination_unsafe'', res)
         | Some brain \<Rightarrow>
           (case Abs h archive_path of
              None \<Rightarrow> Inl (RestoreUnsafeDestination, ''destination_overlaps_archive'', res)
            | Some archive \<Rightarrow>
                if pathWithin conv archive \<or> pathWithin brain archive
                then Inl (RestoreUnsafeDestination, ''destination_overlaps_archive'', res)
                else let db = am_conversation_id m @ ''.db'';
                         res1 = res\<lparr>rr_db_ref := registryPathRef sha (Join [conv, db]),
                           rr_brain_ref := registryPathRef sha (Join [brain, am_conversation_id m])\<rparr>
                     in if \<not> list_all (\<lambda>suf. restoreTargetAbsent fs (ro_stat_fails ro) (conv, db @ suf)) [[], ''-wal'', ''-shm'', ''-journal'']
                        then Inl (RestoreConflict, ''conversation_destination_exists'', res1)
                        else if \<not> restoreTargetAbsent fs (ro_stat_fails ro) (brain, am_conversation_id m)
                        then Inl (RestoreConflict, ''brain_destination_exists'', res1)
                        else Inr (conv, brain, res1))))"

text \<open>The archive is opened and verified again; its manifest replaces the first one.\<close>

definition pin_archive ::
  "(bytes \<Rightarrow> bytes) \<Rightarrow> archive_json \<Rightarrow> host \<Rightarrow> restore_obs \<Rightarrow> string \<Rightarrow> ArchiveManifest \<Rightarrow> RestoreResult \<Rightarrow> stop + ArchiveManifest" where
  "pin_archive sha jd h ro archive_path m res =
     (case openRestoreRoot h (ro_archive_eval ro) (ro_archive_root ro) archive_path of
        None \<Rightarrow> Inl (RestoreInvalidArchive, ''archive_changed_after_verification'', res)
      | Some _ \<Rightarrow>
          (case verifyArchiveDirectory sha jd (ro_archive ro) of
             Inl e \<Rightarrow> Inl (RestoreInvalidArchive, ''archive_changed_after_verification'', res)
           | Inr pinned \<Rightarrow>
               if am_archive_id pinned \<noteq> am_archive_id m \<or> am_snapshot_sha256 pinned \<noteq> am_snapshot_sha256 m
               then Inl (RestoreInvalidArchive, ''archive_changed_after_verification'', res)
               else Inr pinned))"

text \<open>MkdirTemp and Chmod: the new directories, and whether staging may go on.\<close>

definition make_stage :: "string \<Rightarrow> string option \<Rightarrow> bool \<Rightarrow> dirs \<Rightarrow> dirs \<times> (string \<times> string) option" where
  "make_stage dir random chmod fs =
     (case random of None \<Rightarrow> (fs, None) | Some s \<Rightarrow>
      case put_new (stage_key dir s) Stage fs of None \<Rightarrow> (fs, None)
      | Some fs1 \<Rightarrow> (fs1, if chmod then Some (stage_key dir s) else None))"

definition fill_db_stage :: "(bytes \<Rightarrow> bytes) \<Rightarrow> restore_obs \<Rightarrow> ArchiveManifest \<Rightarrow> RestoreResult \<Rightarrow> stop + ArchiveFile" where
  "fill_db_stage sha ro m res =
     (case manifestFile m ''conversation/main.db'' ''sqlite_snapshot'' of
        None \<Rightarrow> Inl (RestoreStagingFailed, ''conversation_staging_failed'', res)
      | Some main \<Rightarrow>
          if copyRestoreFile sha (ro_copy_main ro) main \<noteq> None
          then Inl (RestoreStagingFailed, ''conversation_staging_failed'', res)
          else if verifyStagedDB sha (ro_staged_db ro) m main \<noteq> None
          then Inl (RestoreVerificationFailed, ''staged_conversation_verification_failed'', res)
          else Inr main)"

definition fill_brain_stage :: "(bytes \<Rightarrow> bytes) \<Rightarrow> restore_obs \<Rightarrow> ArchiveManifest \<Rightarrow> RestoreResult \<Rightarrow> stop option" where
  "fill_brain_stage sha ro m res =
     (let files = manifestRoleFiles m ''brain''
      in if \<not> ro_brain_payload ro
            \<or> \<not> list_all (\<lambda>i. fst (ro_copy_brain ro i) \<and> copyRestoreFile sha (snd (ro_copy_brain ro i)) (files ! i) = None) [0..<length files]
         then Some (RestoreStagingFailed, ''brain_staging_failed'', res)
         else if verifyRestoredBrain sha (ro_staged_brain ro) files \<noteq> None
         then Some (RestoreVerificationFailed, ''staged_brain_verification_failed'', res)
         else None)"

text \<open>Renameat2 with RENAME_NOREPLACE: EEXIST when the name is taken, another error when the answer says so.\<close>

definition publish_db ::
  "(bytes \<Rightarrow> bytes) \<Rightarrow> restore_obs \<Rightarrow> string \<times> string \<Rightarrow> ArchiveManifest \<Rightarrow> ArchiveFile \<Rightarrow> RestoreResult \<Rightarrow> dirs
   \<Rightarrow> dirs \<times> (stop + RestoreResult)" where
  "publish_db sha ro k m main res fs =
     (if \<not> roots_unchanged (ro_roots1 ro) then (fs, Inl (RestoreUnsafeDestination, ''destination_root_changed'', res))
      else if \<not> ro_conv_handle ro \<or> \<not> ro_rename_db ro then (fs, Inl (RestoreStagingFailed, ''conversation_publish_failed'', res))
      else case put_new k (RestoredDB (am_archive_id m)) fs of
             None \<Rightarrow> (fs, Inl (RestoreConflict, ''conversation_destination_exists'', res))
           | Some fs1 \<Rightarrow>
               let res1 = res\<lparr>rr_published := rr_published res @ [''conversation_db'']\<rparr>
               in if verifyStagedDB sha (ro_published_db ro) m main \<noteq> None
                  then (fs1, Inl (RestorePartialPublish, ''published_conversation_verification_failed'',
                         res1\<lparr>rr_guidance := ''conversation DB was published but failed post-publication verification''\<rparr>))
                  else (fs1, Inr res1))"

definition publish_brain ::
  "(bytes \<Rightarrow> bytes) \<Rightarrow> restore_obs \<Rightarrow> string \<times> string \<Rightarrow> ArchiveManifest \<Rightarrow> RestoreResult \<Rightarrow> dirs \<Rightarrow> dirs \<times> (stop + RestoreResult)" where
  "publish_brain sha ro k m res fs =
     (if \<not> roots_unchanged (ro_roots2 ro)
      then (fs, Inl (RestorePartialPublish, ''destination_root_changed'',
             res\<lparr>rr_guidance := ''conversation DB is published; a destination root changed before brain publication''\<rparr>))
      else if \<not> ro_brain_handle ro
      then (fs, Inl (RestorePartialPublish, ''brain_publish_failed'',
             res\<lparr>rr_guidance := ''conversation DB is published; brain staging could not be reopened''\<rparr>))
      else case (if ro_rename_brain ro then put_new k (RestoredBrain (am_archive_id m)) fs else None) of
             None \<Rightarrow> (fs, Inl (RestorePartialPublish, ''brain_publish_failed'',
                      res\<lparr>rr_guidance := ''conversation DB is published; resolve the brain destination before recovery''\<rparr>))
           | Some fs1 \<Rightarrow>
               let res1 = res\<lparr>rr_published := rr_published res @ [''brain'']\<rparr>
               in if verifyRestoredBrain sha (ro_published_brain ro) (manifestRoleFiles m ''brain'') \<noteq> None
                  then (fs1, Inl (RestorePartialPublish, ''published_brain_verification_failed'',
                         res1\<lparr>rr_guidance := ''DB and brain were published; brain failed post-publication verification''\<rparr>))
                  else (fs1, Inr res1))"

text \<open>
  Staging and publication. The points of the other processes: 1 before the staging of the database,
  2 before its publication, 3 before the publication of the brain. Answers the new directories, the
  stages to remove, and how it ended.
\<close>

definition publish_all ::
  "(bytes \<Rightarrow> bytes) \<Rightarrow> restore_obs \<Rightarrow> (nat \<Rightarrow> dirs \<Rightarrow> dirs) \<Rightarrow> string \<times> string \<Rightarrow> string \<times> string \<Rightarrow> ArchiveManifest \<Rightarrow> ArchiveFile
   \<Rightarrow> RestoreResult \<Rightarrow> dirs \<Rightarrow> dirs \<times> stop" where
  "publish_all sha ro others dbk brk m main res fs =
     (case publish_db sha ro dbk m main res (others 2 fs) of
        (fs1, Inl st) \<Rightarrow> (fs1, st)
      | (fs1, Inr res1) \<Rightarrow>
          (case (if am_brain m then publish_brain sha ro brk m res1 (others 3 fs1) else (fs1, Inr res1)) of
             (fs2, Inl st) \<Rightarrow> (fs2, st)
           | (fs2, Inr res2) \<Rightarrow>
               if \<not> roots_unchanged (ro_roots3 ro)
               then (fs2, RestorePartialPublish, ''destination_root_changed'',
                      res2\<lparr>rr_guidance := ''restored files were published through pinned roots, but a configured root path changed''\<rparr>)
               else (fs2, RestoreRestored, [], res2)))"

definition stage_and_publish ::
  "(bytes \<Rightarrow> bytes) \<Rightarrow> restore_obs \<Rightarrow> (nat \<Rightarrow> dirs \<Rightarrow> dirs) \<Rightarrow> string \<Rightarrow> string \<Rightarrow> ArchiveManifest \<Rightarrow> ArchiveManifest
   \<Rightarrow> RestoreResult \<Rightarrow> dirs \<Rightarrow> dirs \<times> ((string \<times> string) \<times> bool) list \<times> stop" where
  "stage_and_publish sha ro others conv brain m0 m res fs =
     (case make_stage conv (ro_conv_stage ro) (ro_conv_chmod ro) fs of
        (fs1, None) \<Rightarrow> (fs1, [], RestoreStagingFailed, ''conversation_staging_failed'', res)
      | (fs1, Some k1) \<Rightarrow>
          let c1 = (k1, ro_conv_removed ro) in
          case fill_db_stage sha ro m res of
            Inl st \<Rightarrow> (fs1, [c1], st)
          | Inr main \<Rightarrow>
              let publish = publish_all sha ro others (db_key conv m0) (brain, am_conversation_id m) m main res
              in if \<not> am_brain m then (case publish fs1 of (fs2, st) \<Rightarrow> (fs2, [c1], st))
                 else case make_stage brain (ro_brain_stage ro) (ro_brain_chmod ro) fs1 of
                        (fs2, None) \<Rightarrow> (fs2, [c1], RestoreStagingFailed, ''brain_staging_failed'', res)
                      | (fs2, Some k2) \<Rightarrow>
                          let cs = [(k2, ro_brain_removed ro), c1] in
                          case fill_brain_stage sha ro m res of
                            Some st \<Rightarrow> (fs2, cs, st)
                          | None \<Rightarrow> (case publish fs2 of (fs3, st) \<Rightarrow> (fs3, cs, st)))"

text \<open>The deferred removals of the stages; a removal that fails leaves its stage.\<close>

definition remove_stages :: "((string \<times> string) \<times> bool) list \<Rightarrow> dirs \<Rightarrow> dirs" where
  "remove_stages cs fs = foldl (\<lambda>fs c. if snd c then fs(fst c := None) else fs) fs cs"

definition finish ::
  "time_text \<Rightarrow> restore_obs \<Rightarrow> registry \<Rightarrow> stop \<Rightarrow> RestoreResult \<times> string option \<times> registry" where
  "finish tt ro r st =
     (case st of (status, reason, res0) \<Rightarrow>
        let res = res0\<lparr>rr_status := status, rr_reason := reason\<rparr>
        in case RecordRestoreEvent tt (ro_event_fault ro) (ro_event ro) res r of
             Inl e \<Rightarrow>
               if rr_published res \<noteq> [] \<or> status = RestoreRestored
               then (res\<lparr>rr_file_status := Some status, rr_status := RestoreRegistryFailed, rr_reason := ''restore_registry_update_failed'',
                       rr_guidance := ''restored files remain published; reconcile the agy-db registry''\<rparr>,
                     Some ''restore_registry_update_failed'', r)
               else (res, Some reason, r)
           | Inr r1 \<Rightarrow> (res, if status \<noteq> RestoreRestored then Some reason else None, r1))"

text \<open>
  Restore with a registry (or without: None). The first verification comes with its own looks; the
  removals run after finish, at point 4.
\<close>

definition Restore ::
  "(bytes \<Rightarrow> bytes) \<Rightarrow> archive_json \<Rightarrow> time_text \<Rightarrow> host \<Rightarrow> root_obs \<Rightarrow> archive_obs \<Rightarrow> file_obs \<Rightarrow> bool \<times> bool \<Rightarrow> restore_obs
   \<Rightarrow> (nat \<Rightarrow> dirs \<Rightarrow> dirs) \<Rightarrow> wtime \<Rightarrow> string \<Rightarrow> string \<Rightarrow> string \<Rightarrow> dirs \<Rightarrow> registry option
   \<Rightarrow> RestoreResult \<times> string option \<times> dirs \<times> registry option" where
  "Restore sha jd tt h rb ao again faults ro others now archive_path conv_dir brain_dir fs reg =
     (let v = VerifyArchive sha jd h rb ao again archive_path (utc now);
          res = \<lparr>rr_archive_id = [], rr_conversation_id = [], rr_status = RestoreInvalidArchive, rr_file_status = None, rr_reason = [],
            rr_published = [], rr_db_ref = [], rr_brain_ref = [], rr_summary = False, rr_guidance = [], rr_restored_at = utc now\<rparr>;
          bad = ''archive_verification_'' @ state_text (vr_state v)
      in case (if vr_state v = ArchiveValid then vr_manifest v else None) of
           None \<Rightarrow> (res\<lparr>rr_reason := bad\<rparr>, Some bad, fs, reg)
         | Some m0 \<Rightarrow>
             let res1 = res\<lparr>rr_archive_id := am_archive_id m0, rr_conversation_id := am_conversation_id m0, rr_summary := am_summary m0\<rparr>
             in case reg of
                  None \<Rightarrow> (res1\<lparr>rr_status := RestoreRegistryFailed, rr_reason := ''restore_registry_unavailable''\<rparr>,
                           Some ''restore_registry_unavailable'', fs, None)
                | Some r \<Rightarrow>
                    (case RecordVerification tt h (fst faults) (snd faults) archive_path v r of
                       (Some e, r1) \<Rightarrow> (res1\<lparr>rr_status := RestoreRegistryFailed, rr_reason := ''restore_registry_update_failed''\<rparr>,
                                       Some ''restore_registry_update_failed'', fs, Some r1)
                     | (None, r1) \<Rightarrow>
                         let ended = (\<lambda>(fs1, cs, st).
                               case finish tt ro r1 st of (res2, err, r2) \<Rightarrow> (res2, err, remove_stages cs (others 4 fs1), Some r2))
                         in case check_destinations sha h ro archive_path conv_dir brain_dir m0 fs res1 of
                              Inl st \<Rightarrow> ended (fs, [], st)
                            | Inr (conv, brain, res2) \<Rightarrow>
                                (case pin_archive sha jd h ro archive_path m0 res2 of
                                   Inl st \<Rightarrow> ended (fs, [], st)
                                 | Inr m \<Rightarrow> ended (stage_and_publish sha ro others conv brain m0 m res2 (others 1 fs)))))"

section \<open>What the checks establish\<close>

lemma verifyStagedDB_ok:
  "verifyStagedDB sha d m f = None \<longleftrightarrow>
     do_mode d = Some mode_0600 \<and> file_matches sha f (do_file d) \<and> af_sha256 f = am_snapshot_sha256 m
     \<and> (\<forall>suf \<in> {''-wal'', ''-shm'', ''-journal''}. do_sidecar d suf = Absent)
     \<and> inspectArchiveSnapshot (do_snapshot d) = Inr (am_schema m, am_schema_version m)"
proof (cases "archiveFileRecord sha (do_file d) (af_path f) (af_role f)")
  case (Inl e)
  then have "\<not> file_matches sha f (do_file d)" using file_matches_record [of sha f "do_file d"] by auto
  then show ?thesis using Inl by (simp add: verifyStagedDB_def)
next
  case (Inr a)
  have "file_matches sha f (do_file d) \<longleftrightarrow> af_size a = af_size f \<and> af_sha256 a = af_sha256 f"
    using archiveFileRecord_ok [OF Inr] file_matches_record [of sha f "do_file d"] Inr by (auto simp: file_matches_def)
  then show ?thesis using Inr by (auto simp: verifyStagedDB_def)
qed

lemma brain_want_fold:
  assumes "distinct (map fst w)"
  shows "distinct (map fst (foldl (\<lambda>w f. put_row (brain_rel f) f w) w files))
    \<and> fst ` set (foldl (\<lambda>w f. put_row (brain_rel f) f w) w files) = fst ` set w \<union> brain_rel ` set files
    \<and> (\<forall>p f. map_of (foldl (\<lambda>w f. put_row (brain_rel f) f w) w files) p = Some f \<longrightarrow> map_of w p = Some f \<or> (f \<in> set files \<and> brain_rel f = p))"
  using assms
proof (induction files arbitrary: w)
  case (Cons g files)
  have "distinct (map fst (put_row (brain_rel g) g w))" using Cons.prems by simp
  note ih = Cons.IH [OF this]
  let ?w = "foldl (\<lambda>w f. put_row (brain_rel f) f w) (put_row (brain_rel g) g w) files"
  have "fst ` set ?w = fst ` set w \<union> brain_rel ` set (g # files)" using ih by (simp add: fst_put_row)
  moreover have "map_of w p = Some f \<or> (f \<in> set (g # files) \<and> brain_rel f = p)" if m: "map_of ?w p = Some f" for p f
  proof -
    have "map_of (put_row (brain_rel g) g w) p = Some f \<or> (f \<in> set files \<and> brain_rel f = p)" using ih m by blast
    then show ?thesis by (cases "p = brain_rel g") auto
  qed
  ultimately show ?case using ih by simp
qed simp

lemma brain_want_start: "distinct (map fst ([] :: (string \<times> ArchiveFile) list))"
  by simp

lemma brain_want_keys: "distinct (map fst (brain_want files))" "fst ` set (brain_want files) = brain_rel ` set files"
  using brain_want_fold [OF brain_want_start, of files, folded brain_want_def] by (blast, force)

lemma brain_want_file:
  assumes "map_of (brain_want files) p = Some f"
  shows "f \<in> set files \<and> brain_rel f = p"
proof -
  have "map_of [] p = Some f \<or> (f \<in> set files \<and> brain_rel f = p)"
    using brain_want_fold [OF brain_want_start, of files, folded brain_want_def] assms by blast
  then show ?thesis by simp
qed

definition brain_seen :: "(bytes \<Rightarrow> bytes) \<Rightarrow> ArchiveFile list \<Rightarrow> string \<times> brain_kind \<Rightarrow> bool" where
  "brain_seen sha files e \<longleftrightarrow>
     (case e of (path, kind) \<Rightarrow>
        (case kind of
           BrainWalkError err \<Rightarrow> False
         | BrainDir perm \<Rightarrow> path = ''.'' \<or> (perm = Some mode_0700 \<and> (\<exists>f \<in> set files. path \<in> set (ancestors (brain_rel f))))
         | BrainFile fo perm \<Rightarrow> path = ''.'' \<or> (perm = Some mode_0600 \<and> (\<exists>f \<in> set files. brain_rel f = path \<and> file_matches sha f fo))
         | BrainOther \<Rightarrow> path = ''.''))"

text \<open>A restored brain directory is whole when it holds the files of the manifest, as they were, and nothing else.\<close>

definition brain_whole :: "(bytes \<Rightarrow> bytes) \<Rightarrow> brain_obs \<Rightarrow> ArchiveFile list \<Rightarrow> bool" where
  "brain_whole sha bo files \<longleftrightarrow> bo_root bo = Some (True, mode_0700) \<and> list_all (brain_seen sha files) (bo_walk bo)
     \<and> (\<forall>f \<in> set files. \<exists>fo perm. (brain_rel f, BrainFile fo perm) \<in> set (bo_walk bo))"

lemma brain_entry_ok:
  assumes "brain_entry sha (brain_want files) (brain_dirs files) seen (path, kind) = Inr seen'"
  shows "brain_seen sha files (path, kind)
    \<and> (seen' = seen \<or> (seen' = path # seen \<and> path \<notin> set seen \<and> path \<in> fst ` set (brain_want files) \<and> (\<exists>fo perm. kind = BrainFile fo perm)))"
proof -
  have kept: "(\<exists>f \<in> set files. brain_rel f = path \<and> file_matches sha f fo) \<and> path \<in> fst ` set (brain_want files)"
    if "map_of (brain_want files) path = Some f" "archiveFileRecord sha fo (af_path f) (af_role f) = Inr a"
      "af_size a = af_size f" "af_sha256 a = af_sha256 f" for f fo a
    using brain_want_file [OF that(1)] archiveFileRecord_ok [OF that(2)] that(3,4) that(1)
    by (force simp: file_matches_def dest: map_of_SomeD)
  show ?thesis
  proof (cases kind)
    case (BrainFile fo perm)
    then show ?thesis using assms kept
      by (auto simp: brain_entry_def brain_seen_def split: if_splits option.splits sum.splits)
  qed (use assms in \<open>auto simp: brain_entry_def brain_seen_def brain_dirs_def split: if_splits\<close>)
qed

lemma brain_fold_ok:
  assumes "fold_err (brain_entry sha (brain_want files) (brain_dirs files)) seen walk = Inr seen'"
    and "distinct seen" and "set seen \<subseteq> fst ` set (brain_want files)"
  shows "list_all (brain_seen sha files) walk \<and> distinct seen' \<and> set seen' \<subseteq> fst ` set (brain_want files)
    \<and> (\<forall>p \<in> set seen'. p \<in> set seen \<or> (\<exists>fo perm. (p, BrainFile fo perm) \<in> set walk))"
  using assms
proof (induction walk arbitrary: seen)
  case (Cons e walk)
  obtain path kind where e: "e = (path, kind)" by (cases e)
  let ?f = "brain_entry sha (brain_want files) (brain_dirs files)"
  obtain s1 where s1: "?f seen (path, kind) = Inr s1" and rest: "fold_err ?f s1 walk = Inr seen'"
    using Cons.prems(1) unfolding e by (cases "?f seen (path, kind)") simp_all
  note one = brain_entry_ok [OF s1]
  have "set s1 \<subseteq> insert path (set seen) \<and> (set s1 \<subseteq> set seen \<or> path \<in> fst ` set (brain_want files))" using one by auto
  then have d2: "set s1 \<subseteq> fst ` set (brain_want files)" using Cons.prems(3) by blast
  have d: "distinct s1" and new: "\<And>p. p \<in> set s1 \<Longrightarrow> p \<in> set seen \<or> (p = path \<and> (\<exists>fo perm. kind = BrainFile fo perm))"
    using one Cons.prems(2) by auto
  have "\<forall>p \<in> set seen'. p \<in> set seen \<or> (\<exists>fo perm. (p, BrainFile fo perm) \<in> set (e # walk))"
    using Cons.IH [OF rest d d2] new unfolding e by (metis list.set_intros)
  then show ?case using Cons.IH [OF rest d d2] one unfolding e by simp
qed simp

lemma verifyRestoredBrain_whole:
  assumes "verifyRestoredBrain sha bo files = None"
  shows "brain_whole sha bo files"
proof -
  let ?f = "brain_entry sha (brain_want files) (brain_dirs files)"
  obtain seen where seen: "fold_err ?f [] (bo_walk bo) = Inr seen" "length seen = length (brain_want files)"
    and root: "bo_root bo = Some (True, mode_0700)"
    using assms by (auto simp: verifyRestoredBrain_def split: if_splits sum.splits)
  have w: "list_all (brain_seen sha files) (bo_walk bo)" "distinct seen" "set seen \<subseteq> fst ` set (brain_want files)"
    "\<forall>p \<in> set seen. \<exists>fo perm. (p, BrainFile fo perm) \<in> set (bo_walk bo)"
    using brain_fold_ok [OF seen(1)] by auto
  have "card (set seen) = card (fst ` set (brain_want files))"
    using w(2) seen(2) brain_want_keys(1) [of files] distinct_card [of seen] distinct_card [of "map fst (brain_want files)"] by simp
  then have "set seen = fst ` set (brain_want files)" using w(3) by (intro card_subset_eq) simp_all
  then have "\<forall>f \<in> set files. \<exists>fo perm. (brain_rel f, BrainFile fo perm) \<in> set (bo_walk bo)"
    using w(4) brain_want_keys(2) by auto
  then show ?thesis using w(1) root by (simp add: brain_whole_def)
qed

section \<open>The steps of a restoration\<close>

lemma put_new_Some: "put_new k x fs = Some fs1 \<longleftrightarrow> fs k = None \<and> fs1 = fs(k \<mapsto> x)"
  by (auto simp: put_new_def)

lemma make_stage_cases:
  assumes "make_stage dir random chmod fs = (fs1, ok)"
  shows "(fs1 = fs \<and> ok = None)
    \<or> (\<exists>s. fs (stage_key dir s) = None \<and> fs1 = fs(stage_key dir s \<mapsto> Stage) \<and> (ok = None \<or> ok = Some (stage_key dir s)))"
proof (cases random)
  case (Some s)
  show ?thesis
  proof (cases "fs (stage_key dir s)")
    case None
    have "fs1 = fs(stage_key dir s \<mapsto> Stage)" "ok = (if chmod then Some (stage_key dir s) else None)"
      using assms Some None by (simp_all add: make_stage_def put_new_def)
    then show ?thesis using None by (cases chmod) auto
  qed (use assms Some in \<open>simp add: make_stage_def put_new_def\<close>)
qed (use assms in \<open>simp add: make_stage_def\<close>)

text \<open>Nothing published, published but not as it should be, or published and verified.\<close>

definition db_outcome ::
  "(bytes \<Rightarrow> bytes) \<Rightarrow> restore_obs \<Rightarrow> string \<times> string \<Rightarrow> ArchiveManifest \<Rightarrow> ArchiveFile \<Rightarrow> RestoreResult \<Rightarrow> dirs \<Rightarrow> dirs \<Rightarrow> stop + RestoreResult \<Rightarrow> bool" where
  "db_outcome sha ro k m main res fs fs1 out \<longleftrightarrow>
     (fs1 = fs \<and> (\<exists>st why. out = Inl (st, why, res) \<and> st \<noteq> RestoreRestored \<and> st \<noteq> RestorePartialPublish))
     \<or> (fs k = None \<and> fs1 = fs(k \<mapsto> RestoredDB (am_archive_id m))
        \<and> ((\<exists>why g. out = Inl (RestorePartialPublish, why, res\<lparr>rr_published := rr_published res @ [''conversation_db''], rr_guidance := g\<rparr>))
           \<or> (out = Inr (res\<lparr>rr_published := rr_published res @ [''conversation_db'']\<rparr>) \<and> verifyStagedDB sha (ro_published_db ro) m main = None)))"

definition brain_outcome ::
  "(bytes \<Rightarrow> bytes) \<Rightarrow> restore_obs \<Rightarrow> string \<times> string \<Rightarrow> ArchiveManifest \<Rightarrow> RestoreResult \<Rightarrow> dirs \<Rightarrow> dirs \<Rightarrow> stop + RestoreResult \<Rightarrow> bool" where
  "brain_outcome sha ro k m res fs fs1 out \<longleftrightarrow>
     (fs1 = fs \<and> (\<exists>why g. out = Inl (RestorePartialPublish, why, res\<lparr>rr_guidance := g\<rparr>)))
     \<or> (fs k = None \<and> fs1 = fs(k \<mapsto> RestoredBrain (am_archive_id m))
        \<and> ((\<exists>why g. out = Inl (RestorePartialPublish, why, res\<lparr>rr_published := rr_published res @ [''brain''], rr_guidance := g\<rparr>))
           \<or> (out = Inr (res\<lparr>rr_published := rr_published res @ [''brain'']\<rparr>)
              \<and> brain_whole sha (ro_published_brain ro) (manifestRoleFiles m ''brain''))))"

lemma publish_db_outcome:
  assumes "publish_db sha ro k m main res fs = (fs1, out)"
  shows "db_outcome sha ro k m main res fs fs1 out"
proof (cases "roots_unchanged (ro_roots1 ro) \<and> ro_conv_handle ro \<and> ro_rename_db ro")
  case True
  show ?thesis
  proof (cases "fs k")
    case None
    have "fs1 = fs(k \<mapsto> RestoredDB (am_archive_id m))" using assms True None by (simp add: publish_db_def put_new_def Let_def split: if_splits)
    moreover have "(\<exists>why g. out = Inl (RestorePartialPublish, why, res\<lparr>rr_published := rr_published res @ [''conversation_db''], rr_guidance := g\<rparr>))
        \<or> (out = Inr (res\<lparr>rr_published := rr_published res @ [''conversation_db'']\<rparr>) \<and> verifyStagedDB sha (ro_published_db ro) m main = None)"
      using assms True None by (cases "verifyStagedDB sha (ro_published_db ro) m main") (auto simp: publish_db_def put_new_def Let_def)
    ultimately show ?thesis using None unfolding db_outcome_def by blast
  next
    case (Some x)
    then show ?thesis using assms True by (auto simp: publish_db_def put_new_def db_outcome_def)
  qed
next
  case False
  then show ?thesis using assms by (auto simp: publish_db_def db_outcome_def split: if_splits)
qed

lemma publish_brain_outcome:
  assumes "publish_brain sha ro k m res fs = (fs1, out)"
  shows "brain_outcome sha ro k m res fs fs1 out"
proof (cases "roots_unchanged (ro_roots2 ro) \<and> ro_brain_handle ro \<and> ro_rename_brain ro")
  case True
  show ?thesis
  proof (cases "fs k")
    case None
    let ?v = "verifyRestoredBrain sha (ro_published_brain ro) (manifestRoleFiles m ''brain'')"
    have "fs1 = fs(k \<mapsto> RestoredBrain (am_archive_id m))" using assms True None by (simp add: publish_brain_def put_new_def Let_def split: if_splits)
    moreover have "(\<exists>why g. out = Inl (RestorePartialPublish, why, res\<lparr>rr_published := rr_published res @ [''brain''], rr_guidance := g\<rparr>))
        \<or> (out = Inr (res\<lparr>rr_published := rr_published res @ [''brain'']\<rparr>) \<and> ?v = None)"
      using assms True None by (cases ?v) (auto simp: publish_brain_def put_new_def Let_def)
    ultimately show ?thesis using None verifyRestoredBrain_whole unfolding brain_outcome_def by blast
  next
    case (Some x)
    then show ?thesis using assms True by (auto simp: publish_brain_def put_new_def brain_outcome_def)
  qed
next
  case False
  then show ?thesis using assms by (auto simp: publish_brain_def brain_outcome_def split: if_splits)
qed

text \<open>Staging and publication together: what was published, and where the directories stand.\<close>

definition published_state ::
  "(nat \<Rightarrow> dirs \<Rightarrow> dirs) \<Rightarrow> string \<times> string \<Rightarrow> string \<times> string \<Rightarrow> ArchiveManifest \<Rightarrow> dirs \<Rightarrow> RestoreStatus \<Rightarrow> string list \<Rightarrow> dirs \<Rightarrow> bool" where
  "published_state others dbk brk m fs status pub fs1 \<longleftrightarrow>
     (pub = [] \<and> fs1 = others 2 fs \<and> status \<noteq> RestoreRestored \<and> status \<noteq> RestorePartialPublish)
     \<or> (others 2 fs dbk = None \<and> (status = RestoreRestored \<or> status = RestorePartialPublish)
        \<and> (let d = (others 2 fs)(dbk \<mapsto> RestoredDB (am_archive_id m)) in
             (pub = [''conversation_db''] \<and> (fs1 = d \<or> fs1 = others 3 d) \<and> (status = RestoreRestored \<longrightarrow> \<not> am_brain m))
             \<or> (pub = [''conversation_db'', ''brain''] \<and> others 3 d brk = None \<and> fs1 = (others 3 d)(brk \<mapsto> RestoredBrain (am_archive_id m))
                \<and> am_brain m)))"

definition same_run :: "RestoreResult \<Rightarrow> RestoreResult \<Rightarrow> bool" where
  "same_run a b \<longleftrightarrow> rr_archive_id a = rr_archive_id b \<and> rr_file_status a = rr_file_status b"

lemma publish_all_outcome:
  assumes "publish_all sha ro others dbk brk m main res fs = (fs1, status, why, res')"
  shows "\<exists>pub. rr_published res' = rr_published res @ pub \<and> same_run res' res \<and> published_state others dbk brk m fs status pub fs1
    \<and> (status = RestoreRestored \<longrightarrow> verifyStagedDB sha (ro_published_db ro) m main = None
        \<and> (am_brain m \<longrightarrow> brain_whole sha (ro_published_brain ro) (manifestRoleFiles m ''brain'')))"
proof -
  obtain d out where db: "publish_db sha ro dbk m main res (others 2 fs) = (d, out)"
    by (cases "publish_db sha ro dbk m main res (others 2 fs)")
  note o1 = publish_db_outcome [OF db, unfolded db_outcome_def]
  show ?thesis
  proof (cases out)
    case (Inl st)
    have eq: "d = fs1" "st = (status, why, res')" using assms db Inl by (simp_all add: publish_all_def)
    show ?thesis using o1 unfolding Inl eq
      by (elim disjE) (auto simp: published_state_def same_run_def Let_def)
  next
    case (Inr res1)
    let ?d = "(others 2 fs)(dbk \<mapsto> RestoredDB (am_archive_id m))"
    have v: "others 2 fs dbk = None" "d = ?d" "verifyStagedDB sha (ro_published_db ro) m main = None"
      "res1 = res\<lparr>rr_published := rr_published res @ [''conversation_db'']\<rparr>" using o1 unfolding Inr by auto
    obtain e out2 where br: "(if am_brain m then publish_brain sha ro brk m res1 (others 3 d) else (d, Inr res1)) = (e, out2)"
      by (cases "if am_brain m then publish_brain sha ro brk m res1 (others 3 d) else (d, Inr res1)")
    have all: "(fs1, status, why, res') = (case out2 of Inl st \<Rightarrow> (e, st)
         | Inr res2 \<Rightarrow> if \<not> roots_unchanged (ro_roots3 ro)
               then (e, RestorePartialPublish, ''destination_root_changed'',
                      res2\<lparr>rr_guidance := ''restored files were published through pinned roots, but a configured root path changed''\<rparr>)
               else (e, RestoreRestored, [], res2))"
      using assms db Inr br by (simp add: publish_all_def split: sum.splits)
    show ?thesis
    proof (cases "am_brain m")
      case False
      then have "e = ?d" "out2 = Inr res1" using br v(2) by simp_all
      then show ?thesis using all v False
        by (auto simp: published_state_def same_run_def Let_def split: if_splits)
    next
      case True
      then have "brain_outcome sha ro brk m res1 (others 3 ?d) e out2" using br v(2) by (intro publish_brain_outcome) simp
      note o2 = this [unfolded brain_outcome_def]
      show ?thesis
      proof (cases out2)
        case (Inl st)
        then have eq: "st = (status, why, res')" "e = fs1" using all by simp_all
        show ?thesis using o2 v(1) True unfolding Inl eq v(4)
          by (elim disjE) (auto simp: published_state_def same_run_def Let_def)
      next
        case (Inr res2)
        then have w: "others 3 ?d brk = None" "e = (others 3 ?d)(brk \<mapsto> RestoredBrain (am_archive_id m))"
          "res2 = res1\<lparr>rr_published := rr_published res1 @ [''brain'']\<rparr>"
          "brain_whole sha (ro_published_brain ro) (manifestRoleFiles m ''brain'')" using o2 by auto
        have "fs1 = e" "status = RestoreRestored \<or> status = RestorePartialPublish" "rr_published res' = rr_published res2" "same_run res' res2"
          using all Inr by (auto simp: same_run_def split: if_splits)
        then show ?thesis using v w True
          by (intro exI [of _ "[''conversation_db'', ''brain'']"]) (simp add: published_state_def same_run_def Let_def)
      qed
    qed
  qed
qed

text \<open>New stages, under names of their own, and nothing else; the ones to remove are among them.\<close>

definition staged :: "dirs \<Rightarrow> dirs \<Rightarrow> (string \<times> string) set \<Rightarrow> bool" where
  "staged fs base ks \<longleftrightarrow>
     (\<forall>k. base k = fs k \<or> (fs k = None \<and> base k = Some Stage \<and> (\<exists>d s. k = stage_key d s)))
     \<and> (\<forall>k \<in> ks. fs k = None \<and> (\<exists>d s. k = stage_key d s))"

lemma staged_refl: "staged fs fs {}"
  by (simp add: staged_def)

lemma staged_make:
  assumes "staged fs base ks" and "make_stage dir random chmod base = (fs1, ok)"
  shows "staged fs fs1 (ks \<union> set_option ok)"
  using make_stage_cases [OF assms(2)]
proof
  assume "fs1 = base \<and> ok = None"
  then show ?thesis using assms(1) by simp
next
  assume "\<exists>s. base (stage_key dir s) = None \<and> fs1 = base(stage_key dir s \<mapsto> Stage) \<and> (ok = None \<or> ok = Some (stage_key dir s))"
  then obtain s where s: "base (stage_key dir s) = None" "fs1 = base(stage_key dir s \<mapsto> Stage)" "ok = None \<or> ok = Some (stage_key dir s)"
    by blast
  then have "fs (stage_key dir s) = None" using assms(1) unfolding staged_def by (metis option.distinct(1))
  then show ?thesis using assms(1) s unfolding staged_def by auto metis
qed

definition run_outcome ::
  "(bytes \<Rightarrow> bytes) \<Rightarrow> restore_obs \<Rightarrow> (nat \<Rightarrow> dirs \<Rightarrow> dirs) \<Rightarrow> string \<times> string \<Rightarrow> string \<times> string \<Rightarrow> ArchiveManifest \<Rightarrow> RestoreResult \<Rightarrow> dirs
   \<Rightarrow> dirs \<Rightarrow> (string \<times> string) set \<Rightarrow> RestoreStatus \<Rightarrow> RestoreResult \<Rightarrow> bool" where
  "run_outcome sha ro others dbk brk m res fs fs1 ks status res' \<longleftrightarrow>
     (\<exists>pub base. rr_published res' = rr_published res @ pub \<and> same_run res' res \<and> staged fs base ks
        \<and> ((pub = [] \<and> fs1 = base \<and> status \<noteq> RestoreRestored \<and> status \<noteq> RestorePartialPublish)
           \<or> published_state others dbk brk m base status pub fs1))
     \<and> (status = RestoreRestored \<longrightarrow>
          (\<exists>main. manifestFile m ''conversation/main.db'' ''sqlite_snapshot'' = Some main \<and> verifyStagedDB sha (ro_published_db ro) m main = None)
          \<and> (am_brain m \<longrightarrow> brain_whole sha (ro_published_brain ro) (manifestRoleFiles m ''brain'')))"

lemma run_stopped:
  "staged fs fs1 ks \<Longrightarrow> status \<noteq> RestoreRestored \<Longrightarrow> status \<noteq> RestorePartialPublish \<Longrightarrow> run_outcome sha ro others dbk brk m res fs fs1 ks status res"
  by (auto simp: run_outcome_def same_run_def)

lemma run_published:
  assumes "publish_all sha ro others dbk brk m main res base = (fs1, status, why, res')" and "staged fs base ks"
    and "manifestFile m ''conversation/main.db'' ''sqlite_snapshot'' = Some main"
  shows "run_outcome sha ro others dbk brk m res fs fs1 ks status res'"
  using publish_all_outcome [OF assms(1)] assms(2,3) unfolding run_outcome_def by blast

lemma fill_db_cases:
  "fill_db_stage sha ro m res = out \<Longrightarrow>
     (\<exists>status why. out = Inl (status, why, res) \<and> status \<noteq> RestoreRestored \<and> status \<noteq> RestorePartialPublish)
     \<or> (\<exists>main. out = Inr main \<and> manifestFile m ''conversation/main.db'' ''sqlite_snapshot'' = Some main)"
  by (auto simp: fill_db_stage_def split: option.splits if_splits)

lemma fill_brain_cases:
  "fill_brain_stage sha ro m res = Some st \<Longrightarrow> \<exists>status why. st = (status, why, res) \<and> status \<noteq> RestoreRestored \<and> status \<noteq> RestorePartialPublish"
  by (auto simp: fill_brain_stage_def Let_def split: if_splits)

lemma stage_and_publish_outcome:
  assumes "stage_and_publish sha ro others conv brain m0 m res fs = (fs1, cs, status, why, res')"
  shows "run_outcome sha ro others (db_key conv m0) (brain, am_conversation_id m) m res fs fs1 (fst ` set cs) status res'"
proof -
  obtain b1 ok1 where s1: "make_stage conv (ro_conv_stage ro) (ro_conv_chmod ro) fs = (b1, ok1)"
    by (cases "make_stage conv (ro_conv_stage ro) (ro_conv_chmod ro) fs")
  note g1 = staged_make [OF staged_refl s1]
  show ?thesis
  proof (cases ok1)
    case None
    then show ?thesis using assms s1 g1 by (auto simp: stage_and_publish_def intro: run_stopped)
  next
    case (Some k1)
    let ?c1 = "(k1, ro_conv_removed ro)"
    have g1': "staged fs b1 {k1}" using g1 Some by simp
    consider (stop) st w where "fill_db_stage sha ro m res = Inl (st, w, res)" "st \<noteq> RestoreRestored" "st \<noteq> RestorePartialPublish"
      | (filled) main where "fill_db_stage sha ro m res = Inr main" "manifestFile m ''conversation/main.db'' ''sqlite_snapshot'' = Some main"
      using fill_db_cases [OF refl] by metis
    then show ?thesis
    proof cases
      case stop
      then show ?thesis using assms s1 Some g1' by (auto simp: stage_and_publish_def Let_def intro: run_stopped)
    next
      case filled
      let ?publish = "publish_all sha ro others (db_key conv m0) (brain, am_conversation_id m) m main res"
      show ?thesis
      proof (cases "am_brain m")
        case False
        have "?publish b1 = (fs1, status, why, res')" "cs = [?c1]"
          using assms s1 Some filled False by (auto simp: stage_and_publish_def Let_def split: prod.splits)
        then show ?thesis using run_published [OF _ g1' filled(2)] by simp
      next
        case True
        obtain b2 ok2 where s2: "make_stage brain (ro_brain_stage ro) (ro_brain_chmod ro) b1 = (b2, ok2)"
          by (cases "make_stage brain (ro_brain_stage ro) (ro_brain_chmod ro) b1")
        note g2 = staged_make [OF g1' s2]
        show ?thesis
        proof (cases ok2)
          case None
          have "fs1 = b2" "cs = [?c1]" "status = RestoreStagingFailed" "res' = res"
            using assms s1 Some filled True s2 None by (auto simp: stage_and_publish_def Let_def)
          then show ?thesis using g2 None by (auto intro: run_stopped)
        next
          case (Some k2)
          let ?cs = "[(k2, ro_brain_removed ro), ?c1]"
          have g3: "staged fs b2 (fst ` set ?cs)" using g2 Some by (simp add: insert_commute)
          have all: "(fs1, cs, status, why, res') = (case fill_brain_stage sha ro m res of
              Some st \<Rightarrow> (b2, ?cs, st) | None \<Rightarrow> (case ?publish b2 of (fs3, st) \<Rightarrow> (fs3, ?cs, st)))"
            using assms s1 \<open>ok1 = Some k1\<close> filled True s2 Some by (simp add: stage_and_publish_def Let_def)
          show ?thesis
          proof (cases "fill_brain_stage sha ro m res")
            case None
            then have "?publish b2 = (fs1, status, why, res')" "cs = ?cs" using all by (auto split: prod.splits)
            then show ?thesis using run_published [OF _ g3 filled(2)] by simp
          next
            case (Some st)
            obtain x w where x: "st = (x, w, res)" "x \<noteq> RestoreRestored" "x \<noteq> RestorePartialPublish"
              using fill_brain_cases [OF Some] by blast
            then show ?thesis using all Some run_stopped [OF g3] by simp
          qed
        qed
      qed
    qed
  qed
qed

section \<open>A whole run\<close>

lemma finish_facts:
  assumes "finish tt ro r (status, why, res0) = (res, err, r2)"
  shows "(rr_status res = RestoreRestored \<longleftrightarrow> err = None) \<and> (rr_status res = RestoreRestored \<longrightarrow> status = RestoreRestored)
    \<and> rr_published res = rr_published res0 \<and> rr_archive_id res = rr_archive_id res0
    \<and> (r2 = r \<and> err \<noteq> None \<or> (\<exists>i ev. rg_events r2 = rg_events r @ [(i, ev)] \<and> rg_archives r2 = rg_archives r
          \<and> re_result ev = status_text (rr_status res) \<and> re_archive ev = rr_archive_id res
          \<and> (re_db_published ev \<longleftrightarrow> ''conversation_db'' \<in> set (rr_published res)) \<and> (re_brain_published ev \<longleftrightarrow> ''brain'' \<in> set (rr_published res))))"
proof -
  let ?res = "res0\<lparr>rr_status := status, rr_reason := why\<rparr>"
  show ?thesis
  proof (cases "RecordRestoreEvent tt (ro_event_fault ro) (ro_event ro) ?res r")
    case (Inl e)
    then show ?thesis using assms by (auto simp: finish_def Let_def split: if_splits)
  next
    case (Inr r1)
    have r: "res = ?res" "err = (if status \<noteq> RestoreRestored then Some why else None)" "r2 = r1"
      using assms Inr by (simp_all add: finish_def Let_def)
    have "\<exists>i ev. rg_events r1 = rg_events r @ [(i, ev)] \<and> rg_archives r1 = rg_archives r
          \<and> re_result ev = status_text status \<and> re_archive ev = rr_archive_id res0
          \<and> (re_db_published ev \<longleftrightarrow> ''conversation_db'' \<in> set (rr_published res0)) \<and> (re_brain_published ev \<longleftrightarrow> ''brain'' \<in> set (rr_published res0))"
      using Inr by (auto simp: RecordRestoreEvent_def split: option.splits if_splits)
    then show ?thesis unfolding r by simp
  qed
qed

text \<open>How a run ends: before anything is asked of the destinations, or in finish.\<close>

lemma check_destinations_stop:
  assumes "check_destinations sha h ro archive_path conv_dir brain_dir m fs res = Inl (status, why, res')"
  shows "status \<noteq> RestoreRestored \<and> status \<noteq> RestorePartialPublish \<and> rr_published res' = rr_published res \<and> same_run res' res"
  using assms by (auto simp: check_destinations_def Let_def same_run_def split: option.splits if_splits)

lemma check_destinations_go:
  assumes "check_destinations sha h ro archive_path conv_dir brain_dir m fs res = Inr (conv, brain, res')"
  shows "rr_published res' = rr_published res \<and> same_run res' res \<and> fs (db_key conv m) = None \<and> fs (brain, am_conversation_id m) = None
    \<and> (\<exists>archive. Abs h archive_path = Some archive \<and> \<not> pathWithin conv archive \<and> \<not> pathWithin brain archive)"
  using assms by (auto simp: check_destinations_def Let_def same_run_def restoreTargetAbsent_def db_key_def split: option.splits if_splits)

lemma pin_archive_stop:
  "pin_archive sha jd h ro archive_path m res = Inl (status, why, res') \<Longrightarrow> status = RestoreInvalidArchive \<and> res' = res"
  by (auto simp: pin_archive_def split: option.splits sum.splits if_splits)

lemma pin_archive_go:
  "pin_archive sha jd h ro archive_path m res = Inr m' \<Longrightarrow>
     verifyArchiveDirectory sha jd (ro_archive ro) = Inr m' \<and> am_archive_id m' = am_archive_id m \<and> am_snapshot_sha256 m' = am_snapshot_sha256 m"
  by (auto simp: pin_archive_def split: option.splits sum.splits if_splits)

definition ended_run ::
  "(bytes \<Rightarrow> bytes) \<Rightarrow> archive_json \<Rightarrow> time_text \<Rightarrow> restore_obs \<Rightarrow> (nat \<Rightarrow> dirs \<Rightarrow> dirs) \<Rightarrow> dirs \<Rightarrow> ArchiveManifest
   \<Rightarrow> RestoreResult \<Rightarrow> string option \<Rightarrow> dirs \<Rightarrow> registry option \<Rightarrow> bool" where
  "ended_run sha jd tt ro others fs m0 res err fs' reg' \<longleftrightarrow>
     (\<exists>r1 status why res0 cs fs1 r2.
        finish tt ro r1 (status, why, res0) = (res, err, r2) \<and> reg' = Some r2 \<and> fs' = remove_stages cs (others 4 fs1)
        \<and> rr_archive_id res0 = am_archive_id m0
        \<and> ((fs1 = fs \<and> cs = [] \<and> status \<noteq> RestoreRestored \<and> status \<noteq> RestorePartialPublish \<and> rr_published res0 = [])
           \<or> (\<exists>conv brain m res2. verifyArchiveDirectory sha jd (ro_archive ro) = Inr m \<and> am_archive_id m = am_archive_id m0
                \<and> rr_published res2 = [] \<and> fs (db_key conv m0) = None
                \<and> run_outcome sha ro others (db_key conv m0) (brain, am_conversation_id m) m res2 (others 1 fs) fs1 (fst ` set cs) status res0)))"

lemma Restore_ends:
  assumes "Restore sha jd tt h rb ao again faults ro others now archive_path conv_dir brain_dir fs reg = (res, err, fs', reg')"
  shows "(fs' = fs \<and> err \<noteq> None \<and> rr_status res \<noteq> RestoreRestored \<and> rr_status res \<noteq> RestorePartialPublish \<and> rr_published res = [])
    \<or> (\<exists>m0. verifyArchiveDirectory sha jd ao = Inr m0 \<and> ended_run sha jd tt ro others fs m0 res err fs' reg')"
proof -
  let ?v = "VerifyArchive sha jd h rb ao again archive_path (utc now)"
  let ?early = "fs' = fs \<and> err \<noteq> None \<and> rr_status res \<noteq> RestoreRestored \<and> rr_status res \<noteq> RestorePartialPublish \<and> rr_published res = []"
  show ?thesis
  proof (cases "if vr_state ?v = ArchiveValid then vr_manifest ?v else None")
    case None
    then have ?early using assms by (auto simp: Restore_def Let_def)
    then show ?thesis by simp
  next
    case (Some m0)
    then have valid: "vr_state ?v = ArchiveValid" "vr_manifest ?v = Some m0" by (simp_all split: if_splits)
    then have m0: "verifyArchiveDirectory sha jd ao = Inr m0" using VerifyArchive_valid [OF valid(1)] by auto
    show ?thesis
    proof (cases reg)
      case None
      then have ?early using assms Some by (auto simp: Restore_def Let_def)
      then show ?thesis by simp
    next
      case (Some r)
      obtain e r1 where rv: "RecordVerification tt h (fst faults) (snd faults) archive_path ?v r = (e, r1)"
        by (cases "RecordVerification tt h (fst faults) (snd faults) archive_path ?v r")
      show ?thesis
      proof (cases e)
        case (Some x)
        then have ?early using assms valid \<open>reg = Some r\<close> rv by (auto simp: Restore_def Let_def)
        then show ?thesis by simp
      next
        case None
        let ?res1 = "\<lparr>rr_archive_id = am_archive_id m0, rr_conversation_id = am_conversation_id m0, rr_status = RestoreInvalidArchive,
            rr_file_status = None, rr_reason = [], rr_published = [], rr_db_ref = [], rr_brain_ref = [], rr_summary = am_summary m0,
            rr_guidance = [], rr_restored_at = utc now\<rparr>"
        let ?ended = "\<lambda>(fs1, cs, st). case finish tt ro r1 st of (res2, err, r2) \<Rightarrow> (res2, err, remove_stages cs (others 4 fs1), Some r2)"
        have run: "(res, err, fs', reg') =
            (case check_destinations sha h ro archive_path conv_dir brain_dir m0 fs ?res1 of
               Inl st \<Rightarrow> ?ended (fs, [], st)
             | Inr (conv, brain, res2) \<Rightarrow>
                 (case pin_archive sha jd h ro archive_path m0 res2 of
                    Inl st \<Rightarrow> ?ended (fs, [], st)
                  | Inr m \<Rightarrow> ?ended (stage_and_publish sha ro others conv brain m0 m res2 (others 1 fs))))"
          using assms valid Some rv None by (simp add: Restore_def Let_def)
        have over: "ended_run sha jd tt ro others fs m0 res err fs' reg'"
          if "(res, err, fs', reg') = ?ended (fs1, cs, status, why, res0)" and "rr_archive_id res0 = am_archive_id m0"
            and "(fs1 = fs \<and> cs = [] \<and> status \<noteq> RestoreRestored \<and> status \<noteq> RestorePartialPublish \<and> rr_published res0 = [])
           \<or> (\<exists>conv brain m res2. verifyArchiveDirectory sha jd (ro_archive ro) = Inr m \<and> am_archive_id m = am_archive_id m0
                \<and> rr_published res2 = [] \<and> fs (db_key conv m0) = None
                \<and> run_outcome sha ro others (db_key conv m0) (brain, am_conversation_id m) m res2 (others 1 fs) fs1 (fst ` set cs) status res0)"
          for fs1 cs status why res0
        proof -
          obtain a b c where f: "finish tt ro r1 (status, why, res0) = (a, b, c)" by (cases "finish tt ro r1 (status, why, res0)")
          then have "a = res" "b = err" "reg' = Some c" "fs' = remove_stages cs (others 4 fs1)" using that(1) by simp_all
          then show ?thesis using f that(2,3) unfolding ended_run_def by blast
        qed
        show ?thesis
        proof (cases "check_destinations sha h ro archive_path conv_dir brain_dir m0 fs ?res1")
          case (Inl st)
          obtain status why res0 where st: "st = (status, why, res0)" by (cases st)
          note stop = check_destinations_stop [OF Inl [unfolded st]]
          have "ended_run sha jd tt ro others fs m0 res err fs' reg'"
            by (rule over [of fs "[]" status why res0]) (use run Inl st stop in \<open>simp_all add: same_run_def\<close>)
          then show ?thesis using m0 by blast
        next
          case (Inr x)
          obtain conv brain res2 where x: "x = (conv, brain, res2)" by (cases x)
          note go = check_destinations_go [OF Inr [unfolded x]]
          show ?thesis
          proof (cases "pin_archive sha jd h ro archive_path m0 res2")
            case (Inl st)
            obtain status why res0 where st: "st = (status, why, res0)" by (cases st)
            note stop = pin_archive_stop [OF Inl [unfolded st]]
            have "ended_run sha jd tt ro others fs m0 res err fs' reg'"
              by (rule over [of fs "[]" status why res0]) (use run Inr x Inl st stop go in \<open>simp_all add: same_run_def\<close>)
            then show ?thesis using m0 by blast
          next
            case (Inr m)
            note pin = pin_archive_go [OF Inr]
            obtain fs1 cs status why res0 where sp: "stage_and_publish sha ro others conv brain m0 m res2 (others 1 fs) = (fs1, cs, status, why, res0)"
              by (metis prod_cases5)
            note out = stage_and_publish_outcome [OF sp]
            have "ended_run sha jd tt ro others fs m0 res err fs' reg'"
            proof (rule over [of fs1 cs status why res0])
              show "(res, err, fs', reg') = ?ended (fs1, cs, status, why, res0)"
                using run \<open>check_destinations _ _ _ _ _ _ _ _ _ = _\<close> x Inr sp by simp
              show "rr_archive_id res0 = am_archive_id m0" using out go by (auto simp: run_outcome_def same_run_def)
            qed (use out pin go in \<open>auto\<close>)
            then show ?thesis using m0 by blast
          qed
        qed
      qed
    qed
  qed
qed

lemma remove_stages_other: "k \<notin> fst ` set cs \<Longrightarrow> remove_stages cs fs k = fs k"
  unfolding remove_stages_def by (induction cs arbitrary: fs) auto

lemma remove_stages_either: "remove_stages cs fs k = fs k \<or> remove_stages cs fs k = None"
  unfolding remove_stages_def
proof (induction cs arbitrary: fs)
  case (Cons c cs)
  show ?case using Cons.IH [of "if snd c then fs(fst c := None) else fs"] by (auto split: if_splits)
qed simp

section \<open>What a restoration promises\<close>

text \<open>The database of a manifest, as a look at it finds it.\<close>

definition db_whole :: "(bytes \<Rightarrow> bytes) \<Rightarrow> db_obs \<Rightarrow> ArchiveManifest \<Rightarrow> ArchiveFile \<Rightarrow> bool" where
  "db_whole sha d m main \<longleftrightarrow>
     main \<in> set (am_files m) \<and> af_path main = ''conversation/main.db'' \<and> af_sha256 main = am_snapshot_sha256 m
     \<and> do_mode d = Some mode_0600 \<and> file_matches sha main (do_file d)
     \<and> (\<forall>suf \<in> {''-wal'', ''-shm'', ''-journal''}. do_sidecar d suf = Absent)
     \<and> inspectArchiveSnapshot (do_snapshot d) = Inr (am_schema m, am_schema_version m)"

lemma restored_run:
  assumes "run_outcome sha ro others dbk brk m res2 fs fs1 ks RestoreRestored res0" and "rr_published res2 = []"
  shows "(\<exists>main. db_whole sha (ro_published_db ro) m main)
    \<and> (am_brain m \<longrightarrow> brain_whole sha (ro_published_brain ro) (manifestRoleFiles m ''brain''))
    \<and> rr_published res0 = (if am_brain m then [''conversation_db'', ''brain''] else [''conversation_db''])"
proof -
  note out = assms(1) [unfolded run_outcome_def]
  obtain main where main: "manifestFile m ''conversation/main.db'' ''sqlite_snapshot'' = Some main"
    "verifyStagedDB sha (ro_published_db ro) m main = None" using out by blast
  have "main \<in> set (am_files m)" "af_path main = ''conversation/main.db''"
    using main(1) by (auto simp: manifestFile_def find_Some_iff)
  then have whole: "db_whole sha (ro_published_db ro) m main" using main(2) unfolding verifyStagedDB_ok db_whole_def by blast
  obtain pub base where "rr_published res0 = rr_published res2 @ pub" "published_state others dbk brk m base RestoreRestored pub fs1"
    using out by blast
  then have "rr_published res0 = (if am_brain m then [''conversation_db'', ''brain''] else [''conversation_db''])"
    using assms(2) by (auto simp: published_state_def Let_def)
  then show ?thesis using whole out by blast
qed

lemma restored_event:
  assumes "finish tt ro r (status, why, res0) = (res, err, r2)" and "rr_status res = RestoreRestored"
  shows "status = RestoreRestored \<and> err = None \<and> (\<exists>i ev. (i, ev) \<in> set (rg_events r2) \<and> re_archive ev = rr_archive_id res \<and> re_result ev = ''restored'')"
proof -
  note f = finish_facts [OF assms(1)]
  have e: "err = None" using f assms(2) by blast
  obtain i ev where ev: "rg_events r2 = rg_events r @ [(i, ev)]" "re_result ev = status_text (rr_status res)"
    "re_archive ev = rr_archive_id res" using f e by blast
  have "(i, ev) \<in> set (rg_events r2)" "re_result ev = ''restored''" using ev assms(2) by (simp_all add: status_text_def)
  then show ?thesis using f e ev(3) assms(2) by blast
qed

text \<open>C8: A restoration that answers restored, and only that one, answers without an error; then the archive
  was whole when it was read from its pinned directory, the published database was read back as the
  recorded snapshot (mode 0600, its digest and schema, no sidecar), the brain directory, published exactly
  when the manifest has one, holds its listed files and nothing else, and the registry has the event.\<close>

theorem restored_is_whole:
  assumes "Restore sha jd tt h rb ao again faults ro others now archive_path conv_dir brain_dir fs reg = (res, err, fs', reg')"
  shows "(err = None \<longleftrightarrow> rr_status res = RestoreRestored)
    \<and> (rr_status res = RestoreRestored \<longrightarrow>
        (\<exists>m. verifyArchiveDirectory sha jd (ro_archive ro) = Inr m \<and> am_archive_id m = rr_archive_id res
           \<and> (\<exists>main. db_whole sha (ro_published_db ro) m main)
           \<and> (am_brain m \<longrightarrow> brain_whole sha (ro_published_brain ro) (manifestRoleFiles m ''brain''))
           \<and> rr_published res = (if am_brain m then [''conversation_db'', ''brain''] else [''conversation_db'']))
        \<and> (\<exists>r i ev. reg' = Some r \<and> (i, ev) \<in> set (rg_events r) \<and> re_archive ev = rr_archive_id res \<and> re_result ev = ''restored''))"
  using Restore_ends [OF assms]
proof
  assume "fs' = fs \<and> err \<noteq> None \<and> rr_status res \<noteq> RestoreRestored \<and> rr_status res \<noteq> RestorePartialPublish \<and> rr_published res = []"
  then show ?thesis by simp
next
  assume "\<exists>m0. verifyArchiveDirectory sha jd ao = Inr m0 \<and> ended_run sha jd tt ro others fs m0 res err fs' reg'"
  then obtain m0 r1 status why res0 cs fs1 r2 where
    fin: "finish tt ro r1 (status, why, res0) = (res, err, r2)" "reg' = Some r2" and "fs' = remove_stages cs (others 4 fs1)"
    and id: "rr_archive_id res0 = am_archive_id m0"
    and run: "(fs1 = fs \<and> cs = [] \<and> status \<noteq> RestoreRestored \<and> status \<noteq> RestorePartialPublish \<and> rr_published res0 = [])
      \<or> (\<exists>conv brain m res2. verifyArchiveDirectory sha jd (ro_archive ro) = Inr m \<and> am_archive_id m = am_archive_id m0
           \<and> rr_published res2 = [] \<and> fs (db_key conv m0) = None
           \<and> run_outcome sha ro others (db_key conv m0) (brain, am_conversation_id m) m res2 (others 1 fs) fs1 (fst ` set cs) status res0)"
    unfolding ended_run_def by (elim exE conjE) (rule that)
  note f = finish_facts [OF fin(1)]
  show ?thesis
  proof (cases "rr_status res = RestoreRestored")
    case True
    note ev = restored_event [OF fin(1) True]
    obtain conv brain m res2 where m: "verifyArchiveDirectory sha jd (ro_archive ro) = Inr m" "am_archive_id m = am_archive_id m0"
      "rr_published res2 = []"
      "run_outcome sha ro others (db_key conv m0) (brain, am_conversation_id m) m res2 (others 1 fs) fs1 (fst ` set cs) RestoreRestored res0"
      using run ev by blast
    have "rr_published res = rr_published res0" "am_archive_id m = rr_archive_id res" using f id m(2) by simp_all
    then show ?thesis using True m(1) restored_run [OF m(4,3)] ev fin(2) by auto
  qed (use f in blast)
qed

text \<open>C9: A restoration never replaces and never removes what it finds: an entry of a destination directory
  that the other processes leave alone is there, unchanged, after every run, restored or not.\<close>

theorem restore_never_overwrites:
  assumes "Restore sha jd tt h rb ao again faults ro others now archive_path conv_dir brain_dir fs reg = (res, err, fs', reg')"
    and "\<forall>n d. d k = Some x \<longrightarrow> others n d k = Some x" and "fs k = Some x"
  shows "fs' k = Some x"
  using Restore_ends [OF assms(1)]
proof
  assume "\<exists>m0. verifyArchiveDirectory sha jd ao = Inr m0 \<and> ended_run sha jd tt ro others fs m0 res err fs' reg'"
  then obtain m0 status res0 cs fs1 where
    fs': "fs' = remove_stages cs (others 4 fs1)"
    and run: "(fs1 = fs \<and> cs = [])
      \<or> (\<exists>conv brain m res2. run_outcome sha ro others (db_key conv m0) (brain, am_conversation_id m) m res2 (others 1 fs) fs1 (fst ` set cs) status res0)"
    unfolding ended_run_def by blast
  have "fs1 k = Some x \<and> k \<notin> fst ` set cs"
    using run
  proof
    assume "\<exists>conv brain m res2. run_outcome sha ro others (db_key conv m0) (brain, am_conversation_id m) m res2 (others 1 fs) fs1 (fst ` set cs) status res0"
    then obtain conv brain m res2 pub base where st: "staged (others 1 fs) base (fst ` set cs)"
      and p: "fs1 = base \<or> published_state others (db_key conv m0) (brain, am_conversation_id m) m base status pub fs1"
      unfolding run_outcome_def by blast
    have "others 1 fs k = Some x" using assms(2,3) by blast
    then have b: "base k = Some x" "k \<notin> fst ` set cs" using st unfolding staged_def by (metis option.distinct(1))+
    then have b2: "others 2 base k = Some x" using assms(2) by blast
    let ?d = "(others 2 base)(db_key conv m0 \<mapsto> RestoredDB (am_archive_id m))"
    have "others 2 base (db_key conv m0) = None \<longrightarrow> ?d k = Some x" using b2 by auto
    then have "others 2 base (db_key conv m0) = None \<longrightarrow> ?d k = Some x \<and> others 3 ?d k = Some x" using assms(2) by blast
    then show ?thesis using p b b2 by (auto simp: published_state_def Let_def)
  qed (use assms(3) in simp)
  then show ?thesis using fs' assms(2) remove_stages_other by metis
qed (use assms(3) in simp)

lemma stage_name_new:
  assumes "validConversationID i"
  shows "stage_key d s \<noteq> (dir, i @ ext)"
proof -
  obtain c cs where i: "i = c # cs" using assms by (cases i) (auto simp: validConversationID_def)
  then have "c \<noteq> CHR ''.''" using assms by (auto simp: validConversationID_def code_def)
  then show ?thesis by (simp add: stage_key_def i)
qed

lemma whole_names: "verifyArchiveDirectory sha jd ao = Inr m \<Longrightarrow> stage_key d s \<noteq> (dir, am_conversation_id m @ ext)"
  unfolding verifyArchiveDirectory_iff archive_whole_def manifest_valid_def by (intro stage_name_new) blast

lemma published_dirs:
  assumes st: "staged fs base ks" and fs': "\<forall>k. fs' k = fs1 k \<or> (k \<in> ks \<and> fs' k = None)"
    and p: "(pub = [] \<and> fs1 = base) \<or> published_state (\<lambda>_ d. d) db br m base status pub fs1"
    and out: "db \<notin> ks" "br \<notin> ks"
  shows "(''conversation_db'' \<in> set pub \<longleftrightarrow> (\<exists>k. fs k = None \<and> fs' k = Some (RestoredDB (am_archive_id m))))
    \<and> (''brain'' \<in> set pub \<longleftrightarrow> (\<exists>k. fs k = None \<and> fs' k = Some (RestoredBrain (am_archive_id m))))
    \<and> (\<forall>k. fs' k \<noteq> fs k \<longrightarrow> fs k = None
          \<and> (fs' k = Some Stage \<or> fs' k = Some (RestoredDB (am_archive_id m)) \<or> fs' k = Some (RestoredBrain (am_archive_id m))))"
proof -
  let ?D = "''conversation_db'' \<in> set pub" and ?B = "''brain'' \<in> set pub" and ?a = "am_archive_id m"
  have base: "base k = fs k \<or> (fs k = None \<and> base k = Some Stage)" for k using st unfolding staged_def by blast
  have gone: "k \<in> ks \<longrightarrow> fs k = None" for k using conjunct2 [OF st [unfolded staged_def]] by auto
  have fin': "fs' k = fs1 k \<or> (fs' k = None \<and> fs k = None)" for k using fs' gone [of k] by metis
  have at: "fs' db = fs1 db" "fs' br = fs1 br" using fs' out by metis+
  have fs1: "fs1 k = (if k = br \<and> ?B then Some (RestoredBrain ?a) else if k = db \<and> ?D then Some (RestoredDB ?a) else base k)" for k
    using p unfolding published_state_def Let_def by auto
  have free: "?D \<longrightarrow> base db = None" "?B \<longrightarrow> base br = None \<and> ?D \<and> db \<noteq> br"
    using p unfolding published_state_def Let_def by (auto split: if_splits)
  have D: "?D \<longrightarrow> fs db = None \<and> fs' db = Some (RestoredDB ?a)" using fs1 [of db] free base [of db] at by auto
  have B: "?B \<longrightarrow> fs br = None \<and> fs' br = Some (RestoredBrain ?a)" using fs1 [of br] free base [of br] at by auto
  have new: "(fs' k = Some (RestoredDB ?a) \<longrightarrow> ?D) \<and> (fs' k = Some (RestoredBrain ?a) \<longrightarrow> ?B)" if "fs k = None" for k
    using fin' [of k] fs1 [of k] base [of k] that by (auto split: if_splits)
  have same: "fs k = None \<and> (fs' k = Some Stage \<or> fs' k = Some (RestoredDB ?a) \<or> fs' k = Some (RestoredBrain ?a))" if "fs' k \<noteq> fs k" for k
  proof -
    have d: "fs' k = fs1 k" "fs1 k \<noteq> fs k" using fin' [of k] that by auto
    show ?thesis
    proof (cases "(k = br \<and> ?B) \<or> (k = db \<and> ?D)")
      case True
      then show ?thesis using B D by auto
    next
      case False
      then have "fs1 k = base k" using fs1 [of k] by auto
      then show ?thesis using d base [of k] by auto
    qed
  qed
  show ?thesis using D B new same by blast
qed

text \<open>Left alone by other processes, a restoration adds exactly what it reports as published: the database
  and the brain directory of the archive under names that were free, whatever it answers and wherever it
  stopped; everything else is as it was, apart from staging directories that could not be removed.\<close>

theorem published_is_what_was_added:
  assumes "Restore sha jd tt h rb ao again faults ro (\<lambda>_ d. d) now archive_path conv_dir brain_dir fs reg = (res, err, fs', reg')"
  shows "(''conversation_db'' \<in> set (rr_published res) \<longleftrightarrow> (\<exists>k. fs k = None \<and> fs' k = Some (RestoredDB (rr_archive_id res))))
    \<and> (''brain'' \<in> set (rr_published res) \<longleftrightarrow> (\<exists>k. fs k = None \<and> fs' k = Some (RestoredBrain (rr_archive_id res))))
    \<and> (\<forall>k. fs' k \<noteq> fs k \<longrightarrow> fs k = None
          \<and> (fs' k = Some Stage \<or> fs' k = Some (RestoredDB (rr_archive_id res)) \<or> fs' k = Some (RestoredBrain (rr_archive_id res))))"
  using Restore_ends [OF assms]
proof
  assume "\<exists>m0. verifyArchiveDirectory sha jd ao = Inr m0 \<and> ended_run sha jd tt ro (\<lambda>_ d. d) fs m0 res err fs' reg'"
  then obtain m0 r1 status why res0 cs fs1 r2 where m0: "verifyArchiveDirectory sha jd ao = Inr m0"
    and fin: "finish tt ro r1 (status, why, res0) = (res, err, r2)" and fs': "fs' = remove_stages cs fs1"
    and id: "rr_archive_id res0 = am_archive_id m0"
    and run: "(fs1 = fs \<and> cs = [] \<and> rr_published res0 = [])
      \<or> (\<exists>conv brain m res2. verifyArchiveDirectory sha jd (ro_archive ro) = Inr m \<and> am_archive_id m = am_archive_id m0
           \<and> rr_published res2 = []
           \<and> run_outcome sha ro (\<lambda>_ d. d) (db_key conv m0) (brain, am_conversation_id m) m res2 fs fs1 (fst ` set cs) status res0)"
    unfolding ended_run_def by blast
  note f = finish_facts [OF fin]
  show ?thesis using run
  proof
    assume "fs1 = fs \<and> cs = [] \<and> rr_published res0 = []"
    then have "fs' = fs" "rr_published res = []" using fs' f by (simp_all add: remove_stages_def)
    then show ?thesis by auto
  next
    assume "\<exists>conv brain m res2. verifyArchiveDirectory sha jd (ro_archive ro) = Inr m \<and> am_archive_id m = am_archive_id m0
           \<and> rr_published res2 = []
           \<and> run_outcome sha ro (\<lambda>_ d. d) (db_key conv m0) (brain, am_conversation_id m) m res2 fs fs1 (fst ` set cs) status res0"
    then obtain conv brain m res2 where m: "verifyArchiveDirectory sha jd (ro_archive ro) = Inr m" "am_archive_id m = am_archive_id m0"
      "rr_published res2 = []"
      "run_outcome sha ro (\<lambda>_ d. d) (db_key conv m0) (brain, am_conversation_id m) m res2 fs fs1 (fst ` set cs) status res0" by blast
    obtain pub base where pub: "rr_published res0 = pub" and st: "staged fs base (fst ` set cs)"
      and p: "(pub = [] \<and> fs1 = base) \<or> published_state (\<lambda>_ d. d) (db_key conv m0) (brain, am_conversation_id m) m base status pub fs1"
      using m(3,4) unfolding run_outcome_def by auto
    have "db_key conv m0 \<notin> fst ` set cs" "(brain, am_conversation_id m) \<notin> fst ` set cs"
      using st whole_names [OF m0, of _ _ conv "''.db''"] whole_names [OF m(1), of _ _ brain "[]"] unfolding staged_def db_key_def by (metis append_Nil2)+
    moreover have "\<forall>k. fs' k = fs1 k \<or> (k \<in> fst ` set cs \<and> fs' k = None)"
      using remove_stages_either remove_stages_other fs' by metis
    moreover have "am_archive_id m = rr_archive_id res" "rr_published res = pub" using f id m(2) pub by simp_all
    ultimately show ?thesis using published_dirs [OF st _ p] by simp
  qed
qed auto

section \<open>A run\<close>

definition demo_copy :: copy_obs where
  "demo_copy = \<lparr>co_source = demo_look, co_created = True, co_closed = True\<rparr>"

definition demo_db :: db_obs where
  "demo_db = \<lparr>do_mode = Some mode_0600, do_file = demo_look, do_sidecar = (\<lambda>_. Absent), do_snapshot = demo_snapshot\<rparr>"

definition demo_brain :: brain_obs where
  "demo_brain = \<lparr>bo_root = Some (True, mode_0700), bo_walk = [(''.'', BrainDir (Some mode_0700)), (''task'', BrainFile demo_look (Some mode_0600))]\<rparr>"

definition demo_roots :: "(file_stat option \<times> file_stat option) \<times> (file_stat option \<times> file_stat option)" where
  "demo_roots = ((Some demo_stat, Some demo_stat), (Some demo_stat, Some demo_stat))"

definition demo_run :: restore_obs where
  "demo_run = \<lparr>ro_conv_eval = Some ''/c'', ro_conv_root = demo_root, ro_brain_eval = Some ''/b'', ro_brain_root = demo_root,
     ro_stat_fails = (\<lambda>_. False), ro_archive_eval = Some ''/archive'', ro_archive_root = demo_root, ro_archive = demo_archive,
     ro_conv_stage = Some ''1'', ro_conv_chmod = True, ro_copy_main = demo_copy, ro_staged_db = demo_db,
     ro_brain_stage = Some ''2'', ro_brain_chmod = True, ro_brain_payload = True, ro_copy_brain = (\<lambda>_. (True, demo_copy)),
     ro_staged_brain = demo_brain, ro_roots1 = demo_roots, ro_conv_handle = True, ro_rename_db = True, ro_published_db = demo_db,
     ro_roots2 = demo_roots, ro_brain_handle = True, ro_rename_brain = True, ro_published_brain = demo_brain, ro_roots3 = demo_roots,
     ro_event = Some ''e1'', ro_event_fault = False, ro_conv_removed = True, ro_brain_removed = True\<rparr>"

definition demo_dirs :: dirs where
  "demo_dirs = [(''/c'', ''old.db'') \<mapsto> Foreign 7]"

definition demo_restore :: "RestoreResult \<times> string option \<times> dirs \<times> registry option" where
  "demo_restore = Restore demo_sha demo_json demo_times local_host demo_root demo_archive demo_look (False, False) demo_run
     (\<lambda>_ d. d) \<lparr>wnanos = 9, woffset = 0\<rparr> ''/archive'' ''/c'' ''/b'' demo_dirs (Some empty_registry)"

lemma demo_matches: "file_matches demo_sha demo_main demo_look" "file_matches demo_sha demo_task demo_look"
  by (simp_all add: file_matches_def demo_look_def look_before_def look_after_def demo_stat_def demo_main_def demo_task_def
      demo_content_def same_file_def unchanged_def)

lemma demo_copied: "copyRestoreFile demo_sha demo_copy demo_main = None" "copyRestoreFile demo_sha demo_copy demo_task = None"
  by (simp_all add: copyRestoreFile_def demo_copy_def open_error_def look_before_def look_after_def demo_look_def demo_stat_def
      demo_main_def demo_task_def demo_content_def same_file_def unchanged_def)

lemma demo_main_file: "manifestFile demo_manifest ''conversation/main.db'' ''sqlite_snapshot'' = Some demo_main"
  by (simp add: manifestFile_def demo_manifest_def demo_main_def demo_task_def)

lemma demo_brain_files: "manifestRoleFiles demo_manifest ''brain'' = [demo_task]"
  by (simp add: manifestRoleFiles_def demo_manifest_def demo_main_def demo_task_def)

lemma demo_db_verified: "verifyStagedDB demo_sha demo_db demo_manifest demo_main = None"
  unfolding verifyStagedDB_ok using demo_matches(1) demo_inspected
  by (simp add: demo_db_def) (simp add: demo_main_def demo_manifest_def)

lemma demo_brain_verified: "verifyRestoredBrain demo_sha demo_brain [demo_task] = None"
proof -
  have r: "brain_rel demo_task = ''task''" by (simp add: brain_rel_def demo_task_def has_prefix_def)
  have l: "IsLocal ''task''" "has_prefix (af_path demo_task) ''brain/''" by code_simp+
  have w: "brain_want [demo_task] = [(''task'', demo_task)]" by (simp add: brain_want_def r)
  show ?thesis using l file_matches_record [OF demo_matches(2)]
    by (simp add: verifyRestoredBrain_def r w demo_brain_def brain_entry_def)
qed

lemma demo_roots_unchanged: "roots_unchanged demo_roots"
  by (simp add: roots_unchanged_def demo_roots_def restoreRootUnchanged_def unchanged_def)

lemma demo_destinations:
  "\<exists>a b. check_destinations demo_sha local_host demo_run ''/archive'' ''/c'' ''/b'' demo_manifest demo_dirs res
     = Inr (''/c'', ''/b'', res\<lparr>rr_db_ref := a, rr_brain_ref := b\<rparr>)"
proof -
  have a: "Abs local_host ''/c'' = Some ''/c''" "Abs local_host ''/b'' = Some ''/b''" by code_simp+
  have w: "\<not> pathWithin ''/c'' ''/archive''" "\<not> pathWithin ''/b'' ''/archive''" by code_simp+
  have r: "root_safe demo_root" by code_simp
  show ?thesis using a w r demo_abs
    by (simp add: check_destinations_def openRestoreRoot_def demo_run_def restoreTargetAbsent_def demo_dirs_def demo_manifest_def Let_def)
      (intro exI, rule refl)
qed

lemma demo_pinned: "pin_archive demo_sha demo_json local_host demo_run ''/archive'' demo_manifest res = Inr demo_manifest"
proof -
  have "root_safe demo_root" by code_simp
  then show ?thesis using demo_abs demo_archive_verified
    by (simp add: pin_archive_def openRestoreRoot_def demo_run_def)
qed

lemma demo_published:
  "\<exists>fs1 cs res'. stage_and_publish demo_sha demo_run (\<lambda>_ d. d) ''/c'' ''/b'' demo_manifest demo_manifest res demo_dirs = (fs1, cs, RestoreRestored, [], res')
     \<and> rr_restored_at res' = rr_restored_at res"
proof -
  have c: "am_conversation_id demo_manifest = ''c1''" "am_brain demo_manifest" by (simp_all add: demo_manifest_def)
  have run: "ro_conv_stage demo_run = Some ''1''" "ro_conv_chmod demo_run" "ro_copy_main demo_run = demo_copy" "ro_staged_db demo_run = demo_db"
    "ro_brain_stage demo_run = Some ''2''" "ro_brain_chmod demo_run" "ro_brain_payload demo_run" "ro_copy_brain demo_run = (\<lambda>_. (True, demo_copy))"
    "ro_staged_brain demo_run = demo_brain" "ro_roots1 demo_run = demo_roots" "ro_conv_handle demo_run" "ro_rename_db demo_run"
    "ro_published_db demo_run = demo_db" "ro_roots2 demo_run = demo_roots" "ro_brain_handle demo_run" "ro_rename_brain demo_run"
    "ro_published_brain demo_run = demo_brain" "ro_roots3 demo_run = demo_roots"
    by (simp_all add: demo_run_def)
  have "fill_db_stage demo_sha demo_run demo_manifest res = Inr demo_main"
    by (simp add: fill_db_stage_def demo_main_file run demo_copied demo_db_verified)
  moreover have "fill_brain_stage demo_sha demo_run demo_manifest res = None"
    by (simp add: fill_brain_stage_def demo_brain_files run demo_copied demo_brain_verified)
  ultimately show ?thesis
    by (simp add: stage_and_publish_def make_stage_def put_new_def stage_key_def demo_dirs_def run c publish_all_def publish_db_def
        publish_brain_def demo_roots_unchanged db_key_def demo_db_verified demo_brain_files demo_brain_verified Let_def)
qed

lemma demo_restored: "rr_status (fst demo_restore) = RestoreRestored"
proof -
  have v: "VerifyArchive demo_sha demo_json local_host demo_root demo_archive demo_look ''/archive'' (utc \<lparr>wnanos = 9, woffset = 0\<rparr>) = demo_valid"
    by (simp add: demo_valid_def utc_def)
  have rv: "RecordVerification demo_times local_host False False ''/archive'' demo_valid empty_registry = (None, demo_registry)"
    by (simp add: demo_registry_def RecordVerification_def demo_abs demo_valid_fields registerValid_def Let_def empty_registry_def)
  define res where "res = \<lparr>rr_archive_id = am_archive_id demo_manifest, rr_conversation_id = am_conversation_id demo_manifest,
      rr_status = RestoreInvalidArchive, rr_file_status = None, rr_reason = [], rr_published = [], rr_db_ref = [], rr_brain_ref = [],
      rr_summary = am_summary demo_manifest, rr_guidance = [], rr_restored_at = utc \<lparr>wnanos = 9, woffset = 0\<rparr>\<rparr>"
  obtain a b where d: "check_destinations demo_sha local_host demo_run ''/archive'' ''/c'' ''/b'' demo_manifest demo_dirs res
      = Inr (''/c'', ''/b'', res\<lparr>rr_db_ref := a, rr_brain_ref := b\<rparr>)" using demo_destinations by blast
  obtain fs1 cs res' where p: "stage_and_publish demo_sha demo_run (\<lambda>_ d. d) ''/c'' ''/b'' demo_manifest demo_manifest
      (res\<lparr>rr_db_ref := a, rr_brain_ref := b\<rparr>) demo_dirs = (fs1, cs, RestoreRestored, [], res')"
    and at: "rr_restored_at res' = rr_restored_at (res\<lparr>rr_db_ref := a, rr_brain_ref := b\<rparr>)" using demo_published by blast
  have t: "wnanos (rr_restored_at res') = 9" unfolding at by (simp add: res_def utc_def)
  have e: "ro_event demo_run = Some ''e1''" "\<not> ro_event_fault demo_run" "rg_events demo_registry = []"
    by (simp_all add: demo_run_def) (simp add: demo_registry_def RecordVerification_def demo_abs demo_valid_fields registerValid_def
      Let_def empty_registry_def mark_verified_def)
  have run: "demo_restore = (case finish demo_times demo_run demo_registry (RestoreRestored, [], res') of
      (res2, err, r2) \<Rightarrow> (res2, err, remove_stages cs fs1, Some r2))"
    using d p unfolding demo_restore_def Restore_def v by (simp add: demo_valid_fields rv Let_def res_def demo_pinned)
  show ?thesis unfolding run using t e by (simp add: finish_def RecordRestoreEvent_def Let_def zero_time_def)
qed

theorem restored_is_whole_witness:
  "\<exists>m. verifyArchiveDirectory demo_sha demo_json demo_archive = Inr m \<and> rr_published (fst demo_restore) = [''conversation_db'', ''brain'']
     \<and> am_archive_id m = rr_archive_id (fst demo_restore)"
proof -
  obtain res err fs' reg' where r: "demo_restore = (res, err, fs', reg')" by (cases demo_restore)
  have ar: "ro_archive demo_run = demo_archive" by (simp add: demo_run_def)
  have br: "am_brain demo_manifest" by (simp add: demo_manifest_def)
  obtain m where m: "verifyArchiveDirectory demo_sha demo_json demo_archive = Inr m" "am_archive_id m = rr_archive_id res"
    "rr_published res = (if am_brain m then [''conversation_db'', ''brain''] else [''conversation_db''])"
    using restored_is_whole [OF r [unfolded demo_restore_def]] demo_restored unfolding r ar by (auto split: if_splits)
  then have "m = demo_manifest" using demo_archive_verified by simp
  then show ?thesis using m br unfolding r by simp
qed

theorem restore_never_overwrites_witness:
  "\<exists>res err fs' reg'. demo_restore = (res, err, fs', reg') \<and> rr_status res = RestoreRestored \<and> fs' (''/c'', ''old.db'') = Some (Foreign 7)"
proof -
  obtain res err fs' reg' where r: "demo_restore = (res, err, fs', reg')" by (cases demo_restore)
  have "fs' (''/c'', ''old.db'') = Some (Foreign 7)"
    by (rule restore_never_overwrites [OF r [unfolded demo_restore_def]]) (simp_all add: demo_dirs_def)
  then show ?thesis using demo_restored unfolding r by simp
qed

theorem published_is_what_was_added_witness:
  "\<exists>res err fs' reg'. demo_restore = (res, err, fs', reg') \<and>
     (''brain'' \<in> set (rr_published res) \<longleftrightarrow> (\<exists>k. demo_dirs k = None \<and> fs' k = Some (RestoredBrain (rr_archive_id res))))"
proof -
  obtain res err fs' reg' where r: "demo_restore = (res, err, fs', reg')" by (cases demo_restore)
  then show ?thesis using published_is_what_was_added [OF r [unfolded demo_restore_def]] by blast
qed

end
