(* ===== verification/Archive_Create.thy ===== *)
theory Archive_Create
  imports Restore
begin

text \<open>
  Making an archive: Archive, archiveBrain and archiveSummary of internal/inventory/archive.go. The looks
  at the live files, the copies and SQLite's answers are records; the JSON encoding is an argument.
\<close>

section \<open>Observations of the source\<close>

record observed =
  of_stat :: file_stat
  of_links :: bool
  of_digest :: string

record open_look =
  ol_stat :: "(file_stat \<times> bool) option"
  ol_content :: "bytes option" \<comment> \<open>None when Seek or a read fails\<close>

definition observeOpenFile :: "(bytes \<Rightarrow> bytes) \<Rightarrow> open_look \<Rightarrow> observed option" where
  "observeOpenFile sha ol =
     (case ol_stat ol of None \<Rightarrow> None | Some (st, links) \<Rightarrow>
      map_option (\<lambda>content. \<lparr>of_stat = st, of_links = links, of_digest = digest_of sha content\<rparr>) (ol_content ol))"

datatype path_look = NotThere | LookError | There file_stat bool

record optional_look =
  op_lstat :: path_look
  op_open :: bool
  op_read :: open_look
  op_after :: "file_stat option"

text \<open>An optional file: Inr None when it does not exist.\<close>

definition observeOptional :: "(bytes \<Rightarrow> bytes) \<Rightarrow> optional_look \<Rightarrow> archive_error + observed option" where
  "observeOptional sha ol =
     (case op_lstat ol of
        NotThere \<Rightarrow> Inr None
      | LookError \<Rightarrow> Inl (Named ''source_artifact_unsafe'')
      | There st links \<Rightarrow>
          if \<not> fs_regular st \<or> links then Inl (Named ''source_artifact_unsafe'')
          else if \<not> op_open ol then Inl (Named ''source_artifact_unreadable'')
          else (case observeOpenFile sha (op_read ol) of
                  None \<Rightarrow> Inl (Named ''source_changed'')
                | Some got \<Rightarrow> if unchanged st (of_stat got) \<and> same_file st (op_after ol) then Inr (Some got)
                              else Inl (Named ''source_changed'')))"

definition sameObserved :: "observed option \<Rightarrow> observed option \<Rightarrow> bool" where
  "sameObserved a b =
     (case (a, b) of
        (None, None) \<Rightarrow> True
      | (Some x, Some y) \<Rightarrow> of_digest x = of_digest y \<and> unchanged (of_stat x) (of_stat y)
      | _ \<Rightarrow> False)"

text \<open>A database and its sidecars, looked at twice, with the copies in between.\<close>

record source_obs =
  sc_main :: open_look
  sc_path :: "file_stat option"
  sc_wal :: optional_look
  sc_shm :: optional_look
  sc_journal :: optional_look
  sc_copy_main :: bool
  sc_copy_wal :: bool
  sc_main_after :: open_look
  sc_path_after :: "file_stat option"
  sc_wal_after :: optional_look
  sc_shm_after :: optional_look
  sc_journal_after :: optional_look

definition source_steady :: "(bytes \<Rightarrow> bytes) \<Rightarrow> source_obs \<Rightarrow> observed \<Rightarrow> observed option \<Rightarrow> observed option \<Rightarrow> bool" where
  "source_steady sha sc main wal shm \<longleftrightarrow>
     (case (observeOpenFile sha (sc_main_after sc), observeOptional sha (sc_wal_after sc), observeOptional sha (sc_shm_after sc),
            observeOptional sha (sc_journal_after sc)) of
        (Some after, Inr wal2, Inr shm2, Inr None) \<Rightarrow>
          sameObserved (Some main) (Some after) \<and> same_file (of_stat main) (sc_path_after sc)
          \<and> sameObserved wal wal2 \<and> sameObserved shm shm2
      | _ \<Rightarrow> False)"

section \<open>The brain directory\<close>

record brain_observation =
  bn_rel :: string
  bn_stat :: file_stat
  bn_digest :: string

datatype brain_node =
    NodeWalkError archive_error
  | NodeInfoError
  | NodeDir
  | NodeFile file_stat bool bool open_look bool \<comment> \<open>its Info and links, opened, read, closed\<close>
  | NodeOther

definition observe_node :: "(bytes \<Rightarrow> bytes) \<Rightarrow> brain_observation list \<Rightarrow> string \<times> brain_node \<Rightarrow> archive_error + brain_observation list" where
  "observe_node sha acc e =
     (case e of (path, node) \<Rightarrow>
        (case node of
           NodeWalkError err \<Rightarrow> Inl err
         | _ \<Rightarrow> if path = ''.'' then Inr acc else
             (case node of
                NodeInfoError \<Rightarrow> Inl OtherIO
              | NodeDir \<Rightarrow> Inr acc
              | NodeFile st links opened look closed \<Rightarrow>
                  if links then Inl (Named ''brain_source_unsafe'')
                  else if \<not> opened then Inl OtherIO
                  else (case (ol_stat look, ol_content look) of
                          (Some (st2, _), Some content) \<Rightarrow>
                            if closed \<and> unchanged st st2
                            then Inr (acc @ [\<lparr>bn_rel = path, bn_stat = st, bn_digest = digest_of sha content\<rparr>])
                            else Inl (Named ''source_changed'')
                        | _ \<Rightarrow> Inl (Named ''source_changed''))
              | _ \<Rightarrow> Inl (Named ''brain_source_unsafe''))))"

definition observeBrain :: "(bytes \<Rightarrow> bytes) \<Rightarrow> bool \<times> (string \<times> brain_node) list \<Rightarrow> archive_error + brain_observation list" where
  "observeBrain sha look =
     (if \<not> fst look then Inl OtherIO
      else case fold_err (observe_node sha) [] (snd look) of
             Inl e \<Rightarrow> Inl e
           | Inr files \<Rightarrow> Inr (sort_key bn_rel files))"

record brain_copy =
  bc_cancelled :: bool
  bc_open :: bool
  bc_dirs :: bool
  bc_create :: bool
  bc_content :: "bytes option" \<comment> \<open>what was copied\<close>
  bc_closed :: bool \<comment> \<open>both files\<close>

definition copy_brain_file ::
  "(bytes \<Rightarrow> bytes) \<Rightarrow> ArchiveFile list \<Rightarrow> brain_observation \<times> brain_copy \<Rightarrow> archive_error + ArchiveFile list" where
  "copy_brain_file sha acc oc =
     (case oc of (source, bc) \<Rightarrow>
        if bc_cancelled bc then Inl Cancelled
        else if \<not> bc_open bc then Inl (Named ''source_changed'')
        else if \<not> bc_dirs bc \<or> \<not> bc_create bc then Inl (Named ''archive_stage_failed'')
        else case bc_content bc of None \<Rightarrow> Inl (Named ''source_changed'') | Some content \<Rightarrow>
          if \<not> bc_closed bc \<or> int (length content) \<noteq> fs_size (bn_stat source) \<or> digest_of sha content \<noteq> bn_digest source
          then Inl (Named ''source_changed'')
          else Inr (acc @ [\<lparr>af_path = Join [''brain'', bn_rel source], af_size = int (length content), af_sha256 = bn_digest source,
                           af_role = ''brain''\<rparr>]))"

record brain_source =
  br_eval :: "string option"
  br_open :: bool
  br_lstat :: path_look
  br_is_dir :: bool
  br_first :: "bool \<times> (string \<times> brain_node) list"
  br_mkdir :: bool
  br_copies :: "nat \<Rightarrow> brain_copy"
  br_second :: "bool \<times> (string \<times> brain_node) list"

definition same_brain :: "brain_observation \<Rightarrow> brain_observation \<Rightarrow> bool" where
  "same_brain a b \<longleftrightarrow> bn_rel a = bn_rel b \<and> bn_digest a = bn_digest b \<and> unchanged (bn_stat a) (bn_stat b)"

text \<open>Inr None: there is no brain directory.\<close>

definition archiveBrain :: "(bytes \<Rightarrow> bytes) \<Rightarrow> host \<Rightarrow> brain_source \<Rightarrow> string \<Rightarrow> archive_error + ArchiveFile list option" where
  "archiveBrain sha h br root_path =
     (if root_path = [] then Inr None
      else case Abs h root_path of None \<Rightarrow> Inl (Named ''brain_root_unsafe'') | Some p \<Rightarrow>
        if br_eval br \<noteq> Some p then Inl (Named ''brain_root_unsafe'')
        else if \<not> br_open br then Inl (Named ''brain_root_unavailable'')
        else case br_lstat br of
               NotThere \<Rightarrow> Inr None
             | LookError \<Rightarrow> Inl (Named ''brain_source_unsafe'')
             | There _ _ \<Rightarrow>
                 if \<not> br_is_dir br then Inl (Named ''brain_source_unsafe'')
                 else case observeBrain sha (br_first br) of Inl e \<Rightarrow> Inl e | Inr observed \<Rightarrow>
                   if \<not> br_mkdir br then Inl (Named ''archive_stage_failed'')
                   else case fold_err (copy_brain_file sha) [] (zip observed (map (br_copies br) [0..<length observed])) of
                          Inl e \<Rightarrow> Inl e
                        | Inr files \<Rightarrow>
                            (case observeBrain sha (br_second br) of
                               Inl e \<Rightarrow> Inl (Named ''source_changed'')
                             | Inr after \<Rightarrow> if list_all2 same_brain observed after then Inr (Some files)
                                            else Inl (Named ''source_changed'')))"

section \<open>The summary\<close>

text \<open>
  The rows of the query, None when it cannot be run: a row that does not scan is None, one that scans is
  the JSON of its columns, None when it has none (an infinite number).
\<close>

record summary_db =
  sd_open :: bool
  sd_rows :: "bytes option option list option"
  sd_columns :: bool
  sd_rows_err :: bool

record summary_source =
  su_eval :: "string option"
  su_root :: bool
  su_open :: bool
  su_source :: source_obs
  su_mkdir :: bool
  su_backup :: bool
  su_capture_removed :: bool
  su_db :: summary_db
  su_temp_removed :: bool
  su_written :: bool
  su_record :: file_obs

text \<open>The single row, or None; more than one is an error.\<close>

definition summary_row :: "summary_db \<Rightarrow> archive_error + bytes option option" where
  "summary_row sd =
     (if \<not> sd_open sd then Inl (Named ''summary_read_failed'')
      else case sd_rows sd of None \<Rightarrow> Inl (Named ''summary_schema_unsupported'') | Some rows \<Rightarrow>
        if \<not> sd_columns sd then Inl (Named ''summary_read_failed'')
        else case rows of
               [] \<Rightarrow> if sd_rows_err sd then Inl (Named ''summary_read_failed'') else Inr None
             | None # _ \<Rightarrow> Inl (Named ''summary_read_failed'')
             | [Some data] \<Rightarrow> if sd_rows_err sd then Inl (Named ''summary_read_failed'') else Inr (Some data)
             | _ \<Rightarrow> Inl (Named ''summary_identity_ambiguous''))"

definition capture_source :: "(bytes \<Rightarrow> bytes) \<Rightarrow> source_obs \<Rightarrow> bool \<Rightarrow> observed \<Rightarrow> observed option \<Rightarrow> observed option \<Rightarrow> archive_error \<Rightarrow> archive_error option" where
  "capture_source sha sc made main wal shm fail =
     (if \<not> made \<or> \<not> sc_copy_main sc then Some fail
      else if wal \<noteq> None \<and> \<not> sc_copy_wal sc then Some (Named ''source_changed'')
      else if \<not> source_steady sha sc main wal shm then Some (Named ''source_changed'')
      else None)"

definition archiveSummary :: "(bytes \<Rightarrow> bytes) \<Rightarrow> host \<Rightarrow> summary_source \<Rightarrow> string \<Rightarrow> archive_error + ArchiveFile option" where
  "archiveSummary sha h su source_path =
     (if source_path = [] then Inr None
      else case Abs h source_path of None \<Rightarrow> Inl (Named ''summary_source_unsafe'') | Some p \<Rightarrow>
        if su_eval su \<noteq> Some (Dir p) then Inl (Named ''summary_source_unsafe'')
        else if \<not> su_root su \<or> \<not> su_open su then Inl (Named ''summary_source_unavailable'')
        else case observeOpenFile sha (sc_main (su_source su)) of None \<Rightarrow> Inl (Named ''summary_source_unavailable'') | Some main \<Rightarrow>
          if \<not> fs_regular (of_stat main) \<or> of_links main then Inl (Named ''summary_source_unavailable'')
          else case (observeOptional sha (sc_wal (su_source su)), observeOptional sha (sc_shm (su_source su)),
                     observeOptional sha (sc_journal (su_source su))) of
                 (Inr wal, Inr shm, Inr None) \<Rightarrow>
                   (case capture_source sha (su_source su) (su_mkdir su) main wal shm (Named ''summary_snapshot_failed'') of
                      Some e \<Rightarrow> Inl e
                    | None \<Rightarrow>
                        if \<not> su_backup su then Inl (Named ''summary_snapshot_failed'')
                        else if \<not> su_capture_removed su then Inl (Named ''archive_stage_cleanup_failed'')
                        else case summary_row (su_db su) of
                               Inl e \<Rightarrow> Inl e
                             | Inr row \<Rightarrow>
                                 if \<not> su_temp_removed su then Inl (Named ''archive_stage_cleanup_failed'')
                                 else (case row of
                                         None \<Rightarrow> Inr None
                                       | Some None \<Rightarrow> Inl (Named ''summary_encode_failed'')
                                       | Some (Some data) \<Rightarrow>
                                           if \<not> su_written su then Inl (Named ''archive_stage_failed'')
                                           else (case archiveFileRecord sha (su_record su) ''summary/metadata.json'' ''summary_metadata'' of
                                                   Inl e \<Rightarrow> Inl e
                                                 | Inr f \<Rightarrow> Inr (Some f))))
               | _ \<Rightarrow> Inl (Named ''summary_source_unavailable''))"

section \<open>The archive\<close>

datatype ArchiveState = ArchiveConsistentSnapshot | ArchiveBlockedUnstable | ArchiveBlockedChanged | ArchiveBlockedSnapshot

record ArchiveResult =
  ar_archive_id :: string
  ar_conversation_id :: string
  ar_state :: ArchiveState
  ar_manifest_sha256 :: string

datatype made = Existing nat | NewArchive string

type_synonym archive_dir = "string \<Rightarrow> made option"

record archive_run =
  an_eval :: "string option"
  an_parent :: bool
  an_output :: lstat_look
  an_open :: bool
  an_source :: source_obs
  an_staging :: bool \<comment> \<open>MkdirTemp, Chmod, and the directory conversation\<close>
  an_capture :: bool
  an_backup :: bool
  an_capture_removed :: bool
  an_snapshot :: snapshot_obs
  an_record :: file_obs
  an_brain :: brain_source
  an_summary :: summary_source
  an_id :: "bytes option" \<comment> \<open>sixteen random bytes\<close>
  an_written :: bool
  an_verify :: archive_obs
  an_rename :: bool

definition observed_state :: "observed option \<Rightarrow> string" where
  "observed_state wal = (case wal of None \<Rightarrow> ''no_wal'' | Some w \<Rightarrow> if fs_size (of_stat w) = 0 then ''wal_empty'' else ''wal_nonempty'')"

definition blocked :: "ArchiveState \<Rightarrow> string \<Rightarrow> archive_error \<Rightarrow> ArchiveResult \<times> archive_error option" where
  "blocked state conv e =
     (\<lparr>ar_archive_id = [], ar_conversation_id = conv, ar_state = state, ar_manifest_sha256 = []\<rparr>, Some e)"

text \<open>The main file and its sidecars before the capture.\<close>

definition observe_source ::
  "(bytes \<Rightarrow> bytes) \<Rightarrow> bool \<Rightarrow> source_obs \<Rightarrow> (ArchiveState \<times> archive_error) + observed \<times> observed option \<times> observed option" where
  "observe_source sha opened sc =
     (if \<not> opened then Inl (ArchiveBlockedSnapshot, Named ''source_open_failed'')
      else case observeOpenFile sha (sc_main sc) of None \<Rightarrow> Inl (ArchiveBlockedSnapshot, Named ''source_invalid'') | Some main \<Rightarrow>
        if \<not> fs_regular (of_stat main) \<or> fs_size (of_stat main) = 0 \<or> of_links main
        then Inl (ArchiveBlockedSnapshot, Named ''source_invalid'')
        else if \<not> same_file (of_stat main) (sc_path sc) then Inl (ArchiveBlockedChanged, Named ''source_changed'')
        else case observeOptional sha (sc_wal sc) of Inl e \<Rightarrow> Inl (ArchiveBlockedSnapshot, e) | Inr wal \<Rightarrow>
             case observeOptional sha (sc_shm sc) of Inl e \<Rightarrow> Inl (ArchiveBlockedSnapshot, e) | Inr shm \<Rightarrow>
             case observeOptional sha (sc_journal sc) of
               Inr None \<Rightarrow> Inr (main, wal, shm)
             | _ \<Rightarrow> Inl (ArchiveBlockedUnstable, Named ''rollback_journal_present''))"

text \<open>The payload of the archive: the snapshot, the brain directory and the summary, and whether there are any.\<close>

definition archive_payload ::
  "(bytes \<Rightarrow> bytes) \<Rightarrow> host \<Rightarrow> archive_run \<Rightarrow> string \<Rightarrow> string
   \<Rightarrow> (ArchiveState \<times> archive_error) + (string \<times> int) \<times> ArchiveFile \<times> ArchiveFile list option \<times> ArchiveFile option" where
  "archive_payload sha h an brain_dir summaries_db =
     (case inspectArchiveSnapshot (an_snapshot an) of Inl e \<Rightarrow> Inl (ArchiveBlockedSnapshot, e) | Inr schema \<Rightarrow>
      case archiveFileRecord sha (an_record an) ''conversation/main.db'' ''sqlite_snapshot'' of Inl e \<Rightarrow> Inl (ArchiveBlockedSnapshot, e) | Inr main \<Rightarrow>
      case archiveBrain sha h (an_brain an) brain_dir of
        Inl e \<Rightarrow> Inl (if e = Named ''source_changed'' then ArchiveBlockedChanged else ArchiveBlockedSnapshot, e)
      | Inr brain \<Rightarrow>
          (case archiveSummary sha h (an_summary an) summaries_db of
             Inl e \<Rightarrow> Inl (ArchiveBlockedSnapshot, e)
           | Inr summary \<Rightarrow> Inr (schema, main, brain, summary)))"

definition new_manifest ::
  "string \<Rightarrow> wtime \<Rightarrow> string \<Rightarrow> observed \<Rightarrow> observed option \<Rightarrow> (string \<times> int) \<times> ArchiveFile \<times> ArchiveFile list option \<times> ArchiveFile option \<Rightarrow> ArchiveManifest" where
  "new_manifest i now conv main wal payload =
     (case payload of (schema, snap, brain, summary) \<Rightarrow>
        \<lparr>am_format = 1, am_archive_id = i, am_created = utc now, am_conversation_id = conv, am_schema = fst schema,
         am_schema_version = snd schema, am_observed_state = observed_state wal, am_main_sha256 = of_digest main,
         am_snapshot_sha256 = af_sha256 snap, am_size = fs_size (of_stat main),
         am_files = sort_key af_path (snap # (case brain of None \<Rightarrow> [] | Some fs \<Rightarrow> fs) @ (case summary of None \<Rightarrow> [] | Some f \<Rightarrow> [f])),
         am_brain = (brain \<noteq> None), am_summary = (summary \<noteq> None), am_tool = ''agy-db-v2-cp1''\<rparr>)"

text \<open>The manifest is written, the staging directory verified and renamed to the output name (RENAME_NOREPLACE).\<close>

definition publish_archive ::
  "(bytes \<Rightarrow> bytes) \<Rightarrow> archive_json \<Rightarrow> (ArchiveManifest \<Rightarrow> bytes) \<Rightarrow> archive_run \<Rightarrow> string \<Rightarrow> string \<Rightarrow> ArchiveManifest \<Rightarrow> archive_dir
   \<Rightarrow> (ArchiveResult \<times> archive_error option) \<times> archive_dir" where
  "publish_archive sha jd encode an conv name m dir =
     (if \<not> an_written an then (blocked ArchiveBlockedSnapshot conv (Named ''manifest_write_failed''), dir)
      else case verifyArchiveDirectory sha jd (an_verify an) of
             Inl e \<Rightarrow> (blocked ArchiveBlockedSnapshot conv e, dir)
           | Inr _ \<Rightarrow>
               if \<not> an_rename an then (blocked ArchiveBlockedSnapshot conv (Named ''archive_publish_failed''), dir)
               else case put_new name (NewArchive (am_archive_id m)) dir of
                      None \<Rightarrow> (blocked ArchiveBlockedSnapshot conv (Named ''archive_destination_exists''), dir)
                    | Some dir1 \<Rightarrow> ((\<lparr>ar_archive_id = am_archive_id m, ar_conversation_id = conv, ar_state = ArchiveConsistentSnapshot,
                        ar_manifest_sha256 = digest_of sha (encode m @ [10])\<rparr>, None), dir1))"

text \<open>Everything up to the manifest: the output name and the manifest to publish.\<close>

definition archive_prepare ::
  "(bytes \<Rightarrow> bytes) \<Rightarrow> host \<Rightarrow> archive_run \<Rightarrow> wtime \<Rightarrow> string \<Rightarrow> string \<Rightarrow> string \<Rightarrow> string
   \<Rightarrow> (ArchiveState \<times> archive_error) + string \<times> ArchiveManifest" where
  "archive_prepare sha h an now conv brain_dir summaries_db output =
     (if \<not> validConversationID conv \<or> output = [] then Inl (ArchiveBlockedSnapshot, Named ''invalid_archive_arguments'')
      else case Abs h output of None \<Rightarrow> Inl (ArchiveBlockedSnapshot, Named ''invalid_archive_output'') | Some out \<Rightarrow>
        if Base out = ''.'' \<or> Base out = ''/'' then Inl (ArchiveBlockedSnapshot, Named ''invalid_archive_output'')
        else if an_eval an \<noteq> Some (Dir out) \<or> \<not> an_parent an then Inl (ArchiveBlockedSnapshot, Named ''unsafe_archive_output'')
        else if an_output an \<noteq> Absent then Inl (ArchiveBlockedSnapshot, Named ''archive_destination_exists'')
        else case observe_source sha (an_open an) (an_source an) of Inl e \<Rightarrow> Inl e | Inr (main, wal, shm) \<Rightarrow>
          if \<not> an_staging an then Inl (ArchiveBlockedSnapshot, Named ''archive_stage_failed'')
          else case capture_source sha (an_source an) (an_capture an) main wal shm (Named ''archive_stage_failed'') of
                 Some e \<Rightarrow> Inl (if e = Named ''source_changed'' then ArchiveBlockedChanged else ArchiveBlockedSnapshot, e)
               | None \<Rightarrow>
                   if \<not> an_backup an then Inl (ArchiveBlockedUnstable, Named ''consistent_snapshot_unavailable'')
                   else if \<not> an_capture_removed an then Inl (ArchiveBlockedSnapshot, Named ''archive_stage_cleanup_failed'')
                   else case archive_payload sha h an brain_dir summaries_db of
                          Inl e \<Rightarrow> Inl e
                        | Inr payload \<Rightarrow>
                            (case an_id an of
                               None \<Rightarrow> Inl (ArchiveBlockedSnapshot, Named ''archive_id_failed'')
                             | Some raw \<Rightarrow> Inr (Base out, new_manifest (hex_encode raw) now conv main wal payload)))"

definition ArchiveConversation ::
  "(bytes \<Rightarrow> bytes) \<Rightarrow> archive_json \<Rightarrow> (ArchiveManifest \<Rightarrow> bytes) \<Rightarrow> host \<Rightarrow> archive_run \<Rightarrow> wtime \<Rightarrow> string \<Rightarrow> string \<Rightarrow> string \<Rightarrow> string
   \<Rightarrow> archive_dir \<Rightarrow> (ArchiveResult \<times> archive_error option) \<times> archive_dir" where
  "ArchiveConversation sha jd encode h an now conv brain_dir summaries_db output dir =
     (case archive_prepare sha h an now conv brain_dir summaries_db output of
        Inl (state, e) \<Rightarrow> (blocked state conv e, dir)
      | Inr (name, m) \<Rightarrow> publish_archive sha jd encode an conv name m dir)"

section \<open>What an archive is an archive of\<close>

text \<open>Every look at the source that a capture makes, when it went through.\<close>

definition source_held :: "(bytes \<Rightarrow> bytes) \<Rightarrow> source_obs \<Rightarrow> observed \<Rightarrow> observed option \<Rightarrow> observed option \<Rightarrow> bool" where
  "source_held sha sc main wal shm \<longleftrightarrow>
     (\<exists>before after. ol_content (sc_main sc) = Some before \<and> ol_content (sc_main_after sc) = Some after
        \<and> digest_of sha before = of_digest main \<and> digest_of sha after = of_digest main)
     \<and> fs_regular (of_stat main) \<and> fs_size (of_stat main) \<noteq> 0
     \<and> same_file (of_stat main) (sc_path sc) \<and> same_file (of_stat main) (sc_path_after sc)
     \<and> observeOptional sha (sc_wal sc) = Inr wal \<and> (\<exists>w. observeOptional sha (sc_wal_after sc) = Inr w \<and> sameObserved wal w)
     \<and> observeOptional sha (sc_shm sc) = Inr shm \<and> (\<exists>w. observeOptional sha (sc_shm_after sc) = Inr w \<and> sameObserved shm w)
     \<and> op_lstat (sc_journal sc) = NotThere \<and> op_lstat (sc_journal_after sc) = NotThere"

lemma observeOpenFile_Some:
  "observeOpenFile sha ol = Some x \<Longrightarrow> \<exists>content. ol_content ol = Some content \<and> of_digest x = digest_of sha content"
  by (auto simp: observeOpenFile_def split: option.splits prod.splits)

lemma observeOptional_None: "observeOptional sha ol = Inr None \<longleftrightarrow> op_lstat ol = NotThere"
  by (auto simp: observeOptional_def split: path_look.splits option.splits if_splits)

lemma observe_source_ok:
  assumes "observe_source sha opened sc = Inr (main, wal, shm)"
  shows "observeOpenFile sha (sc_main sc) = Some main \<and> fs_regular (of_stat main) \<and> fs_size (of_stat main) \<noteq> 0
    \<and> same_file (of_stat main) (sc_path sc) \<and> observeOptional sha (sc_wal sc) = Inr wal \<and> observeOptional sha (sc_shm sc) = Inr shm
    \<and> observeOptional sha (sc_journal sc) = Inr None"
  using assms by (auto simp: observe_source_def split: option.splits sum.splits if_splits)

lemma source_steady_ok:
  assumes "source_steady sha sc main wal shm"
  shows "\<exists>after w s. observeOpenFile sha (sc_main_after sc) = Some after \<and> of_digest after = of_digest main
    \<and> same_file (of_stat main) (sc_path_after sc) \<and> observeOptional sha (sc_wal_after sc) = Inr w \<and> sameObserved wal w
    \<and> observeOptional sha (sc_shm_after sc) = Inr s \<and> sameObserved shm s \<and> observeOptional sha (sc_journal_after sc) = Inr None"
  using assms by (auto simp: source_steady_def sameObserved_def split: option.splits sum.splits)

lemma captured_held:
  assumes "observe_source sha opened sc = Inr (main, wal, shm)" and "capture_source sha sc made main wal shm fail = None"
  shows "source_held sha sc main wal shm"
proof -
  have st: "source_steady sha sc main wal shm" using assms(2) by (simp add: capture_source_def split: if_splits)
  note a = observe_source_ok [OF assms(1)]
  obtain after w s where b: "observeOpenFile sha (sc_main_after sc) = Some after" "of_digest after = of_digest main"
    "same_file (of_stat main) (sc_path_after sc)" "observeOptional sha (sc_wal_after sc) = Inr w" "sameObserved wal w"
    "observeOptional sha (sc_shm_after sc) = Inr s" "sameObserved shm s" "observeOptional sha (sc_journal_after sc) = Inr None"
    using source_steady_ok [OF st] by blast
  obtain c1 where c1: "ol_content (sc_main sc) = Some c1" "of_digest main = digest_of sha c1" using a observeOpenFile_Some by blast
  obtain c2 where c2: "ol_content (sc_main_after sc) = Some c2" "of_digest after = digest_of sha c2" using observeOpenFile_Some [OF b(1)] by blast
  show ?thesis using a b c1 c2 by (simp add: source_held_def observeOptional_None)
qed

lemma publish_archive_ok:
  assumes "publish_archive sha jd encode an conv name m dir = ((res, err), dir')"
  shows "(err \<noteq> None \<and> ar_state res = ArchiveBlockedSnapshot \<and> dir' = dir)
    \<or> (err = None \<and> ar_state res = ArchiveConsistentSnapshot \<and> ar_archive_id res = am_archive_id m
       \<and> ar_manifest_sha256 res = digest_of sha (encode m @ [10]) \<and> dir name = None \<and> dir' = dir(name \<mapsto> NewArchive (am_archive_id m))
       \<and> (\<exists>v. verifyArchiveDirectory sha jd (an_verify an) = Inr v))"
  using assms by (auto simp: publish_archive_def blocked_def put_new_def split: sum.splits if_splits option.splits)

lemma archive_payload_state: "archive_payload sha h an brain_dir summaries_db = Inl (state, e) \<Longrightarrow> state \<noteq> ArchiveConsistentSnapshot"
  by (auto simp: archive_payload_def split: sum.splits if_splits)

lemma observe_source_state: "observe_source sha opened sc = Inl (state, e) \<Longrightarrow> state \<noteq> ArchiveConsistentSnapshot"
  by (auto simp: observe_source_def split: option.splits sum.splits if_splits)

lemma archive_prepare_state:
  assumes "archive_prepare sha h an now conv brain_dir summaries_db output = Inl (state, e)"
  shows "state \<noteq> ArchiveConsistentSnapshot"
  using assms archive_payload_state [of sha h an brain_dir summaries_db state e] observe_source_state [of sha "an_open an" "an_source an" state e]
  by (auto simp: archive_prepare_def split: option.splits sum.splits if_splits prod.splits)

lemma archive_prepare_ok:
  assumes "archive_prepare sha h an now conv brain_dir summaries_db output = Inr (name, m)"
  shows "\<exists>out main wal shm payload raw. Abs h output = Some out \<and> name = Base out
     \<and> source_held sha (an_source an) main wal shm \<and> m = new_manifest (hex_encode raw) now conv main wal payload"
proof -
  obtain out main wal shm payload raw where p: "Abs h output = Some out" "name = Base out"
    "observe_source sha (an_open an) (an_source an) = Inr (main, wal, shm)"
    "capture_source sha (an_source an) (an_capture an) main wal shm (Named ''archive_stage_failed'') = None"
    "m = new_manifest (hex_encode raw) now conv main wal payload"
    using assms by (auto simp: archive_prepare_def split: option.splits sum.splits if_splits prod.splits)
  then show ?thesis using captured_held [OF p(3,4)] by blast
qed


section \<open>A run\<close>

definition demo_open :: open_look where
  "demo_open = \<lparr>ol_stat = Some (demo_stat, False), ol_content = Some demo_content\<rparr>"

definition no_file :: optional_look where
  "no_file = \<lparr>op_lstat = NotThere, op_open = False, op_read = demo_open, op_after = None\<rparr>"

definition demo_source :: source_obs where
  "demo_source = \<lparr>sc_main = demo_open, sc_path = Some demo_stat, sc_wal = no_file, sc_shm = no_file, sc_journal = no_file,
     sc_copy_main = True, sc_copy_wal = False, sc_main_after = demo_open, sc_path_after = Some demo_stat, sc_wal_after = no_file,
     sc_shm_after = no_file, sc_journal_after = no_file\<rparr>"

definition demo_making :: archive_run where
  "demo_making = \<lparr>an_eval = Some ''/'', an_parent = True, an_output = Absent, an_open = True, an_source = demo_source, an_staging = True,
     an_capture = True, an_backup = True, an_capture_removed = True, an_snapshot = demo_snapshot, an_record = demo_look,
     an_brain = \<lparr>br_eval = None, br_open = False, br_lstat = NotThere, br_is_dir = False, br_first = (False, []), br_mkdir = False,
       br_copies = (\<lambda>_. \<lparr>bc_cancelled = True, bc_open = False, bc_dirs = False, bc_create = False, bc_content = None, bc_closed = False\<rparr>),
       br_second = (False, [])\<rparr>,
     an_summary = \<lparr>su_eval = None, su_root = False, su_open = False, su_source = demo_source, su_mkdir = False, su_backup = False,
       su_capture_removed = False, su_db = \<lparr>sd_open = False, sd_rows = None, sd_columns = False, sd_rows_err = False\<rparr>,
       su_temp_removed = False, su_written = False, su_record = demo_look\<rparr>,
     an_id = Some (replicate 16 170), an_written = True, an_verify = demo_archive, an_rename = True\<rparr>"

lemma demo_capture:
  "observe_source demo_sha True demo_source = Inr (\<lparr>of_stat = demo_stat, of_links = False, of_digest = digest_of demo_sha demo_content\<rparr>, None, None)"
  "capture_source demo_sha demo_source True \<lparr>of_stat = demo_stat, of_links = False, of_digest = digest_of demo_sha demo_content\<rparr> None None e = None"
  by (simp_all add: observe_source_def capture_source_def source_steady_def demo_source_def demo_open_def no_file_def observeOpenFile_def
      observeOptional_def sameObserved_def demo_stat_def same_file_def unchanged_def)

lemma demo_made:
  "snd (fst (ArchiveConversation demo_sha demo_json (\<lambda>_. []) local_host demo_making \<lparr>wnanos = 9, woffset = 0\<rparr> ''c1'' [] [] ''/archive'' (\<lambda>_. None))) = None"
proof -
  have c: "validConversationID ''c1''" "Base ''/archive'' = ''archive''" "Dir ''/archive'' = ''/''" by code_simp+
  have a: "an_eval demo_making = Some ''/''" "an_parent demo_making" "an_output demo_making = Absent" "an_open demo_making"
    "an_source demo_making = demo_source" "an_staging demo_making" "an_capture demo_making" "an_backup demo_making"
    "an_capture_removed demo_making" "an_snapshot demo_making = demo_snapshot" "an_record demo_making = demo_look"
    "an_id demo_making = Some (replicate 16 170)" "an_written demo_making" "an_verify demo_making = demo_archive" "an_rename demo_making"
    by (simp_all add: demo_making_def)
  have p: "archive_payload demo_sha local_host demo_making [] [] = Inr ((''tokei_fixture_v1'', 0),
      \<lparr>af_path = ''conversation/main.db'', af_size = 2, af_sha256 = digest_of demo_sha demo_content, af_role = ''sqlite_snapshot''\<rparr>, None, None)"
    by (simp add: archive_payload_def a demo_inspected demo_record archiveBrain_def archiveSummary_def)
  show ?thesis
    by (simp add: ArchiveConversation_def archive_prepare_def c demo_abs a demo_capture p publish_archive_def demo_archive_verified put_new_def
        del: replicate.simps)
qed


end
