(* ===== verification/Registry_Open.thy ===== *)
theory Registry_Open
  imports Registry
begin

text \<open>
  Opening the registry of archives: DefaultArchiveRegistryPath, OpenArchiveRegistry and its schema
  (internal/inventory/registry.go). A database is its version, application id and tables; a statement
  that SQLite refuses is a Boolean answer.
\<close>

definition DefaultArchiveRegistryPath :: "string \<Rightarrow> string option \<Rightarrow> string option" where
  "DefaultArchiveRegistryPath xdg_state home =
     (if xdg_state \<noteq> [] then if IsAbs xdg_state then Some (Join [xdg_state, ''agy-db'', ''registry.db'']) else None
      else map_option (\<lambda>d. Join [d, ''.local'', ''state'', ''agy-db'', ''registry.db'']) home)"

section \<open>The schema\<close>

type_synonym columns = "(string \<times> string \<times> int) list"

record registry_db =
  rd_version :: int
  rd_application :: int
  rd_tables :: "(string \<times> columns) list"
  rd_rows :: registry

definition registry_application :: int where
  "registry_application = 1095190852"

definition archives_columns :: columns where
  "archives_columns =
     [(''archive_id'', ''TEXT'', 1), (''conversation_id'', ''TEXT'', 0), (''archive_path'', ''TEXT'', 0), (''format_version'', ''INTEGER'', 0),
      (''created_at'', ''TEXT'', 0), (''source_main_sha256'', ''TEXT'', 0), (''source_snapshot_sha256'', ''TEXT'', 0),
      (''manifest_sha256'', ''TEXT'', 0), (''verification_state'', ''TEXT'', 0), (''verified_at'', ''TEXT'', 0), (''registered_at'', ''TEXT'', 0)]"

definition archive_files_columns :: columns where
  "archive_files_columns =
     [(''archive_id'', ''TEXT'', 1), (''path'', ''TEXT'', 2), (''size'', ''INTEGER'', 0), (''sha256'', ''TEXT'', 0), (''role'', ''TEXT'', 0)]"

definition restore_events_columns :: columns where
  "restore_events_columns =
     [(''event_id'', ''TEXT'', 1), (''archive_id'', ''TEXT'', 0), (''conversation_id'', ''TEXT'', 0), (''restored_at'', ''TEXT'', 0),
      (''result'', ''TEXT'', 0), (''destination_ref'', ''TEXT'', 0), (''db_published'', ''INTEGER'', 0), (''brain_published'', ''INTEGER'', 0),
      (''catalog_registered'', ''INTEGER'', 0), (''tool_version'', ''TEXT'', 0)]"

text \<open>What the code compares with, as the text of the columns.\<close>

definition expected_v1 :: "(string \<times> string list) list" where
  "expected_v1 =
     [(''archives'', [''archive_id:TEXT:1'', ''conversation_id:TEXT:0'', ''archive_path:TEXT:0'', ''format_version:INTEGER:0'',
        ''created_at:TEXT:0'', ''source_main_sha256:TEXT:0'', ''source_snapshot_sha256:TEXT:0'', ''manifest_sha256:TEXT:0'',
        ''verification_state:TEXT:0'', ''verified_at:TEXT:0'', ''registered_at:TEXT:0'']),
      (''archive_files'', [''archive_id:TEXT:1'', ''path:TEXT:2'', ''size:INTEGER:0'', ''sha256:TEXT:0'', ''role:TEXT:0''])]"

definition expected_v2 :: "(string \<times> string list) list" where
  "expected_v2 = expected_v1 @
     [(''restore_events'', [''event_id:TEXT:1'', ''archive_id:TEXT:0'', ''conversation_id:TEXT:0'', ''restored_at:TEXT:0'',
        ''result:TEXT:0'', ''destination_ref:TEXT:0'', ''db_published:INTEGER:0'', ''brain_published:INTEGER:0'',
        ''catalog_registered:INTEGER:0'', ''tool_version:TEXT:0''])]"

text \<open>pragma_table_xinfo of a table that does not exist has no rows; the names come in order.\<close>

definition columns_of :: "registry_db \<Rightarrow> string \<Rightarrow> columns option" where
  "columns_of db t = Some (case map_of (rd_tables db) t of None \<Rightarrow> [] | Some cs \<Rightarrow> cs)"

definition schema_is :: "string list \<Rightarrow> (string \<times> string list) list \<Rightarrow> registry_db \<Rightarrow> bool" where
  "schema_is names expected db \<longleftrightarrow>
     rd_application db = registry_application \<and> sort (map fst (rd_tables db)) = names \<and> archiveSchemaMatches (columns_of db) expected"

definition archiveRegistrySchemaMatches :: "registry_db \<Rightarrow> bool" where
  "archiveRegistrySchemaMatches db \<longleftrightarrow> schema_is [''archive_files'', ''archives'', ''restore_events''] expected_v2 db"

definition archiveRegistryV1SchemaMatches :: "registry_db \<Rightarrow> bool" where
  "archiveRegistryV1SchemaMatches db \<longleftrightarrow> schema_is [''archive_files'', ''archives''] expected_v1 db"

definition create_schema :: "registry_db \<Rightarrow> registry_db" where
  "create_schema db = db\<lparr>rd_version := 2, rd_application := registry_application,
     rd_tables := rd_tables db @ [(''archives'', archives_columns), (''archive_files'', archive_files_columns),
       (''restore_events'', restore_events_columns)]\<rparr>"

definition migrate_v1 :: "registry_db \<Rightarrow> registry_db" where
  "migrate_v1 db = db\<lparr>rd_version := 2, rd_tables := rd_tables db @ [(''restore_events'', restore_events_columns)]\<rparr>"

record init_answers =
  ia_pragmas :: bool
  ia_readable :: bool
  ia_create :: bool
  ia_migrate :: bool
  ia_schema :: bool \<comment> \<open>the queries of the schema checks succeed\<close>
  ia_integrity :: "string option"

definition initializeArchiveRegistry :: "init_answers \<Rightarrow> registry_db \<Rightarrow> string option \<times> registry_db" where
  "initializeArchiveRegistry ia db =
     (if \<not> ia_pragmas ia then (Some ''registry initialization failed'', db)
      else if \<not> ia_readable ia then (Some ''registry unreadable'', db)
      else if rd_version db = 0 \<and> rd_tables db = [] \<and> \<not> ia_create ia then (Some ''registry initialization failed'', db)
      else let db1 = (if rd_version db = 0 \<and> rd_tables db = [] then create_schema db else db)
           in if rd_version db1 = 1 \<and> ia_schema ia \<and> archiveRegistryV1SchemaMatches db1 \<and> \<not> ia_migrate ia
              then (Some ''registry migration failed'', db1)
              else let db2 = (if rd_version db1 = 1 \<and> ia_schema ia \<and> archiveRegistryV1SchemaMatches db1 then migrate_v1 db1 else db1)
                   in if rd_version db2 \<noteq> 2 \<or> \<not> (ia_schema ia \<and> archiveRegistrySchemaMatches db2) then (Some ''registry schema unsupported'', db2)
                      else if ia_integrity ia \<noteq> Some ''ok'' then (Some ''registry corrupt'', db2)
                      else (None, db2))"

section \<open>Opening\<close>

record open_answers =
  oa_mkdir :: bool
  oa_eval :: "string option"
  oa_dir :: bool
  oa_file :: "(bool \<times> bool) option option" \<comment> \<open>Lstat: Some None when absent; regular, several links\<close>
  oa_open :: bool
  oa_chmod :: bool

definition OpenArchiveRegistry ::
  "(bytes \<Rightarrow> bytes) \<Rightarrow> host \<Rightarrow> open_answers \<Rightarrow> init_answers \<Rightarrow> string \<Rightarrow> registry_db \<Rightarrow> (string + string) \<times> registry_db" where
  "OpenArchiveRegistry sha h oa ia path db =
     (case Abs h path of None \<Rightarrow> (Inl ''invalid registry path'', db) | Some p \<Rightarrow>
        if path = [] \<or> Base p = ''.'' \<or> Base p = ''/'' then (Inl ''invalid registry path'', db)
        else if \<not> oa_mkdir oa then (Inl ''cannot create registry directory'', db)
        else if oa_eval oa \<noteq> Some (Dir p) \<or> \<not> oa_dir oa then (Inl ''unsafe registry path'', db)
        else (case oa_file oa of
                None \<Rightarrow> (Inl ''cannot inspect registry'', db)
              | Some look \<Rightarrow>
                  if (case look of None \<Rightarrow> False | Some (regular, links) \<Rightarrow> \<not> regular \<or> links) then (Inl ''unsafe registry file'', db)
                  else if \<not> oa_open oa then (Inl ''cannot open registry'', db)
                  else (case initializeArchiveRegistry ia db of
                          (Some e, db1) \<Rightarrow> (Inl e, db1)
                        | (None, db1) \<Rightarrow> if \<not> oa_chmod oa then (Inl ''cannot secure registry'', db1)
                                        else (Inr (''path-sha256:'' @ digest_of sha (map (\<lambda>c. word_of_nat (code c)) p)), db1))))"

section \<open>What opening establishes\<close>

lemma columns_text:
  "map column_text archives_columns = [''archive_id:TEXT:1'', ''conversation_id:TEXT:0'', ''archive_path:TEXT:0'', ''format_version:INTEGER:0'',
     ''created_at:TEXT:0'', ''source_main_sha256:TEXT:0'', ''source_snapshot_sha256:TEXT:0'', ''manifest_sha256:TEXT:0'',
     ''verification_state:TEXT:0'', ''verified_at:TEXT:0'', ''registered_at:TEXT:0'']"
  "map column_text archive_files_columns = [''archive_id:TEXT:1'', ''path:TEXT:2'', ''size:INTEGER:0'', ''sha256:TEXT:0'', ''role:TEXT:0'']"
  "map column_text restore_events_columns = [''event_id:TEXT:1'', ''archive_id:TEXT:0'', ''conversation_id:TEXT:0'', ''restored_at:TEXT:0'',
     ''result:TEXT:0'', ''destination_ref:TEXT:0'', ''db_published:INTEGER:0'', ''brain_published:INTEGER:0'',
     ''catalog_registered:INTEGER:0'', ''tool_version:TEXT:0'']"
  by code_simp+

lemma equal_fold_refl [simp]: "equal_fold s s"
  by (simp add: equal_fold_def)

lemma created_schema: "rd_tables db = [] \<Longrightarrow> archiveRegistrySchemaMatches (create_schema db)"
proof -
  assume e: "rd_tables db = []"
  have n: "sort [''archives'', ''archive_files'', ''restore_events''] = [''archive_files'', ''archives'', ''restore_events'']" by code_simp
  show ?thesis using n
    by (simp add: archiveRegistrySchemaMatches_def schema_is_def create_schema_def e archiveSchemaMatches_def expected_v1_def expected_v2_def
        columns_of_def columns_text)
qed

lemma migrated_schema:
  assumes "archiveRegistryV1SchemaMatches db"
  shows "archiveRegistrySchemaMatches (migrate_v1 db)"
proof -
  have names: "sort (map fst (rd_tables db)) = [''archive_files'', ''archives'']" and app: "rd_application db = registry_application"
    and cols: "archiveSchemaMatches (columns_of db) expected_v1"
    using assms by (simp_all add: archiveRegistryV1SchemaMatches_def schema_is_def)
  have m: "mset (map fst (rd_tables db)) = {#''archive_files'', ''archives''#}" using arg_cong [OF names, of mset] by simp
  have "fst ` set (rd_tables db) = {''archive_files'', ''archives''}" using arg_cong [OF names, of set] by simp
  then have fresh: "''restore_events'' \<notin> fst ` set (rd_tables db)" by simp
  have "sort (map fst (rd_tables (migrate_v1 db))) = [''archive_files'', ''archives'', ''restore_events'']"
    by (rule properties_for_sort) (simp_all add: migrate_v1_def m [simplified])
  moreover have "columns_of (migrate_v1 db) t = columns_of db t" if "t \<noteq> ''restore_events''" for t
    using that by (auto simp: columns_of_def migrate_v1_def map_add_def split: option.split)
  then have "archiveSchemaMatches (columns_of (migrate_v1 db)) expected_v1"
    using cols by (simp add: archiveSchemaMatches_def expected_v1_def)
  moreover have "map_of (rd_tables db) ''restore_events'' = None" using fresh by (simp add: map_of_eq_None_iff)
  then have "columns_of (migrate_v1 db) ''restore_events'' = Some restore_events_columns"
    by (simp add: columns_of_def migrate_v1_def map_add_def)
  ultimately show ?thesis using app
    by (simp add: archiveRegistrySchemaMatches_def schema_is_def expected_v2_def archiveSchemaMatches_def columns_text)
      (simp add: migrate_v1_def)
qed

lemma initialize_outcome:
  assumes "initializeArchiveRegistry ia db = (e, db')"
  shows "(db' = db \<or> (rd_version db = 0 \<and> rd_tables db = [] \<and> db' = create_schema db)
      \<or> (rd_version db = 1 \<and> archiveRegistryV1SchemaMatches db \<and> db' = migrate_v1 db))
    \<and> (e = None \<longrightarrow> rd_version db' = 2 \<and> archiveRegistrySchemaMatches db')"
proof (cases "rd_version db = 0 \<and> rd_tables db = []")
  case True
  have "rd_version (create_schema db) = 2" by (simp add: create_schema_def)
  then show ?thesis using assms True by (auto simp: initializeArchiveRegistry_def Let_def split: if_splits)
next
  case False
  have "rd_version (migrate_v1 db) = 2" by (simp add: migrate_v1_def)
  then show ?thesis using assms False by (auto simp: initializeArchiveRegistry_def Let_def split: if_splits)
qed

text \<open>Whatever file it is given, opening the registry leaves a database as it was, unless it is empty and gets
  the schema, or is exactly of version 1 and gets the table of restore events; what it opens is of
  version 2 with the expected tables and columns, with every row it had.\<close>

theorem opened_registry_is_current:
  assumes "OpenArchiveRegistry sha h oa ia path db = (out, db')"
  shows "(db' = db \<or> (rd_version db = 0 \<and> rd_tables db = [] \<and> db' = create_schema db)
      \<or> (rd_version db = 1 \<and> archiveRegistryV1SchemaMatches db \<and> db' = migrate_v1 db))
    \<and> rd_rows db' = rd_rows db
    \<and> ((\<exists>ref. out = Inr ref) \<longrightarrow> rd_version db' = 2 \<and> archiveRegistrySchemaMatches db')"
proof -
  have "(db' = db \<and> (\<exists>e. out = Inl e)) \<or> (\<exists>e. initializeArchiveRegistry ia db = (e, db') \<and> (e = None \<or> (\<exists>x. out = Inl x)))"
    using assms by (auto simp: OpenArchiveRegistry_def split: option.splits if_splits prod.splits)
  then show ?thesis
  proof
    assume "\<exists>e. initializeArchiveRegistry ia db = (e, db') \<and> (e = None \<or> (\<exists>x. out = Inl x))"
    then obtain e where e: "initializeArchiveRegistry ia db = (e, db')" "e = None \<or> (\<exists>x. out = Inl x)" by blast
    note o = initialize_outcome [OF e(1)]
    have "rd_rows db' = rd_rows db" using o by (auto simp: create_schema_def migrate_v1_def)
    then show ?thesis using o e(2) by auto
  qed auto
qed

lemma fresh_registry_opens: "initializeArchiveRegistry \<lparr>ia_pragmas = True, ia_readable = True, ia_create = True, ia_migrate = True, ia_schema = True, ia_integrity = Some ''ok''\<rparr>
    \<lparr>rd_version = 0, rd_application = 0, rd_tables = [], rd_rows = empty_registry\<rparr>
  = (None, create_schema \<lparr>rd_version = 0, rd_application = 0, rd_tables = [], rd_rows = empty_registry\<rparr>)"
  using created_schema [of "\<lparr>rd_version = 0, rd_application = 0, rd_tables = [], rd_rows = empty_registry\<rparr>"]
  by (simp add: initializeArchiveRegistry_def Let_def) (simp add: create_schema_def)

theorem opened_registry_is_current_witness:
  "\<exists>ref db'. OpenArchiveRegistry demo_sha local_host
      \<lparr>oa_mkdir = True, oa_eval = Some ''/s'', oa_dir = True, oa_file = Some None, oa_open = True, oa_chmod = True\<rparr>
      \<lparr>ia_pragmas = True, ia_readable = True, ia_create = True, ia_migrate = True, ia_schema = True, ia_integrity = Some ''ok''\<rparr>
      ''/s/registry.db'' \<lparr>rd_version = 0, rd_application = 0, rd_tables = [], rd_rows = empty_registry\<rparr> = (Inr ref, db')
    \<and> rd_version db' = 2 \<and> archiveRegistrySchemaMatches db'"
proof -
  have p: "Abs local_host ''/s/registry.db'' = Some ''/s/registry.db''" "Base ''/s/registry.db'' = ''registry.db''" "Dir ''/s/registry.db'' = ''/s''"
    by code_simp+
  obtain ref db' where r: "OpenArchiveRegistry demo_sha local_host
      \<lparr>oa_mkdir = True, oa_eval = Some ''/s'', oa_dir = True, oa_file = Some None, oa_open = True, oa_chmod = True\<rparr>
      \<lparr>ia_pragmas = True, ia_readable = True, ia_create = True, ia_migrate = True, ia_schema = True, ia_integrity = Some ''ok''\<rparr>
      ''/s/registry.db'' \<lparr>rd_version = 0, rd_application = 0, rd_tables = [], rd_rows = empty_registry\<rparr> = (Inr ref, db')"
    by (simp add: OpenArchiveRegistry_def p fresh_registry_opens)
  show ?thesis using opened_registry_is_current [OF r] r by blast
qed

end
