(* ===== verification/Host_Monad.thy ===== *)
theory Host_Monad
  imports Config_Guard "HOL-Library.State_Monad"
begin

text \<open>
  Programs that look at a changing host and act on it, for the daemon control of internal/daemon. The
  world is given for every moment: \<open>w t\<close> is what the system answers at the t-th call, so that
  another process may change anything between two calls. A call that changes the host is recorded
  with its moment. \<open>wp m Q s\<close> says that m, started in s, ends with a reply and a state in Q.
\<close>

datatype read_reply = NotExist | ReadError | Data string
datatype kill_reply = KillOk | KillPerm | KillGone | KillFailed \<comment> \<open>nil, EPERM, ESRCH, other\<close>
datatype remove_reply = Removed | NothingThere | RemoveFailed
datatype lock_reply = LockGranted | LockBusy | LockFailed

record world =
  w_host :: host
  w_guard :: guard_state
  w_file :: "string \<Rightarrow> read_reply"
  w_regular :: "string \<Rightarrow> bool" \<comment> \<open>Stat succeeds and it is no directory\<close>
  w_mtime :: "string \<Rightarrow> int option"
  w_env :: "string \<Rightarrow> string"
  w_now :: int
  w_kill0 :: "int \<Rightarrow> kill_reply"
  w_term :: "int \<Rightarrow> kill_reply"
  w_listening :: "int \<Rightarrow> bool" \<comment> \<open>a connection to 127.0.0.1 succeeds\<close>
  w_remove :: "string \<Rightarrow> remove_reply"
  w_mkdir :: "string \<Rightarrow> bool"
  w_open :: "string \<Rightarrow> bool"
  w_start :: "int option" \<comment> \<open>pid of the child, None when the process does not start\<close>
  w_child_exited :: bool
  w_getpid :: int
  w_flock :: lock_reply
  w_bind :: "int option" \<comment> \<open>the port a listener got\<close>
  w_write :: "string \<Rightarrow> bool" \<comment> \<open>storage.AtomicJSONWrite succeeds\<close>
  w_serve_failed :: bool \<comment> \<open>Serve ends with an error before the context is cancelled\<close>
  w_shutdown :: bool

datatype effect = Terminate int | RemoveFile string | MakeDir string | OpenLog string
  | Spawn string "string list" "string list" | KillChild | ReapChild
  | TryLock string | Unlock string | BindListener string int | CloseListener | WriteFile string | Serve | Shutdown | CloseServer

record run =
  tick :: nat
  effects :: "(nat \<times> effect) list"

type_synonym 'a op = "(run, 'a) state"

abbreviation return :: "'a \<Rightarrow> 'a op" where
  "return \<equiv> State_Monad.return"

definition look :: "(nat \<Rightarrow> world) \<Rightarrow> (world \<Rightarrow> 'a) \<Rightarrow> 'a op" where
  "look w f = State (\<lambda>s. (f (w (tick s)), s\<lparr>tick := Suc (tick s)\<rparr>))"

definition perform :: "(nat \<Rightarrow> world) \<Rightarrow> effect \<Rightarrow> (world \<Rightarrow> 'a) \<Rightarrow> 'a op" where
  "perform w e f =
     State (\<lambda>s. (f (w (tick s)), s\<lparr>tick := Suc (tick s), effects := effects s @ [(tick s, e)]\<rparr>))"

definition start :: run where
  "start = \<lparr>tick = 0, effects = []\<rparr>"

section \<open>Reasoning\<close>

lemma run_look [simp]: "run_state (look w f) s = (f (w (tick s)), s\<lparr>tick := Suc (tick s)\<rparr>)"
  by (simp add: look_def)

lemma run_perform [simp]:
  "run_state (perform w e f) s = (f (w (tick s)), s\<lparr>tick := Suc (tick s), effects := effects s @ [(tick s, e)]\<rparr>)"
  by (simp add: perform_def)

definition wp :: "'a op \<Rightarrow> ('a \<Rightarrow> run \<Rightarrow> bool) \<Rightarrow> run \<Rightarrow> bool" where
  "wp m Q s = (case run_state m s of (x, s') \<Rightarrow> Q x s')"

lemma wp_return [simp]: "wp (return x) Q s = Q x s"
  by (simp add: wp_def)

lemma wp_bind [simp]: "wp (m \<bind> f) Q s = wp m (\<lambda>x. wp (f x) Q) s"
  by (simp add: wp_def split: prod.splits)

lemma wp_bind_fun: "wp (m \<bind> f) Q = wp m (\<lambda>x. wp (f x) Q)"
  by (rule ext) simp

lemma wp_look [simp]: "wp (look w f) Q s = Q (f (w (tick s))) (s\<lparr>tick := Suc (tick s)\<rparr>)"
  by (simp add: wp_def)

lemma wp_perform [simp]:
  "wp (perform w e f) Q s = Q (f (w (tick s))) (s\<lparr>tick := Suc (tick s), effects := effects s @ [(tick s, e)]\<rparr>)"
  by (simp add: wp_def)

lemma wp_mono: "wp m P s \<Longrightarrow> (\<And>x s'. P x s' \<Longrightarrow> Q x s') \<Longrightarrow> wp m Q s"
  by (auto simp: wp_def)

lemma wpD: "wp m Q s \<Longrightarrow> run_state m s = (x, s') \<Longrightarrow> Q x s'"
  by (simp add: wp_def)

lemma wpI: "(\<And>x s'. run_state m s = (x, s') \<Longrightarrow> Q x s') \<Longrightarrow> wp m Q s"
  by (simp add: wp_def split: prod.splits)

text \<open>An operation is quiet when it only looks.\<close>

definition quiet :: "'a op \<Rightarrow> bool" where
  "quiet m \<longleftrightarrow> (\<forall>s. wp m (\<lambda>x s'. effects s' = effects s \<and> tick s \<le> tick s') s)"

named_theorems quiets \<open>operations that only look\<close>

lemma quiet_return [quiets]: "quiet (return x)"
  by (simp add: quiet_def)

lemma quiet_look [quiets]: "quiet (look w f)"
  by (simp add: quiet_def)

lemma quietD: "quiet m \<Longrightarrow> run_state m s = (x, s') \<Longrightarrow> effects s' = effects s \<and> tick s \<le> tick s'"
  unfolding quiet_def by (drule spec [of _ s]) (drule (1) wpD, simp)

lemma quietI: "(\<And>s x s'. run_state m s = (x, s') \<Longrightarrow> effects s' = effects s \<and> tick s \<le> tick s') \<Longrightarrow> quiet m"
  unfolding quiet_def by (intro allI wpI) blast

lemma quiet_bind [quiets]:
  assumes m: "quiet m" and f: "\<And>x. quiet (f x)"
  shows "quiet (m \<bind> f)"
proof (rule quietI)
  fix s y s''
  assume r: "run_state (m \<bind> f) s = (y, s'')"
  obtain x s' where x: "run_state m s = (x, s')" by (cases "run_state m s")
  then have "run_state (f x) s' = (y, s'')" using r by simp
  from quietD [OF m x] quietD [OF f this] show "effects s'' = effects s \<and> tick s \<le> tick s''" by simp
qed

lemma wp_quiet:
  assumes "quiet m"
    and "\<And>x s'. run_state m s = (x, s') \<Longrightarrow> effects s' = effects s \<Longrightarrow> tick s \<le> tick s' \<Longrightarrow> Q x s'"
  shows "wp m Q s"
  using assms by (auto simp: quiet_def wp_def split: prod.splits)

text \<open>A property of the world that was seen from moment a on, before moment b.\<close>

definition seen :: "(nat \<Rightarrow> world) \<Rightarrow> nat \<Rightarrow> nat \<Rightarrow> (world \<Rightarrow> bool) \<Rightarrow> bool" where
  "seen w a b P \<longleftrightarrow> (\<exists>t. a \<le> t \<and> t < b \<and> P (w t))"

lemma seen_mono: "seen w a b P \<Longrightarrow> a' \<le> a \<Longrightarrow> b \<le> b' \<Longrightarrow> seen w a' b' P"
  unfolding seen_def by (meson order_trans less_le_trans)

lemma seen_now: "P (w a) \<Longrightarrow> a < b \<Longrightarrow> seen w a b P"
  by (auto simp: seen_def)

lemma seen_Suc [simp]: "seen w a (Suc b) P \<longleftrightarrow> (a \<le> b \<and> P (w b)) \<or> seen w a b P"
  by (auto simp: seen_def less_Suc_eq)

lemma seen_empty [simp]: "\<not> seen w a a P"
  by (simp add: seen_def)

text \<open>The reply alone; in a host at rest, \<open>\<lambda>_. v\<close>, it does not depend on the moment.\<close>

definition answer :: "'a op \<Rightarrow> run \<Rightarrow> 'a" where
  "answer m s = fst (run_state m s)"

lemma answer_return [simp]: "answer (return x) s = x"
  by (simp add: answer_def)

lemma answer_look [simp]: "answer (look w f) s = f (w (tick s))"
  by (simp add: answer_def)

lemma answer_bind [simp]: "answer (m \<bind> f) s = answer (f (answer m s)) (snd (run_state m s))"
  by (simp add: answer_def split: prod.splits)

lemma answer_run: "run_state m s = (x, s') \<Longrightarrow> answer m s = x"
  by (simp add: answer_def)

text \<open>An operation performs only calls of P.\<close>

definition performs :: "(effect \<Rightarrow> bool) \<Rightarrow> 'a op \<Rightarrow> bool" where
  "performs P m \<longleftrightarrow> (\<forall>s. wp m (\<lambda>x s'. \<exists>es. effects s' = effects s @ es \<and> list_all (P \<circ> snd) es) s)"

named_theorems performing \<open>which calls an operation performs\<close>

lemma performsD:
  assumes "performs P m" and "run_state m s = (x, s')"
  obtains es where "effects s' = effects s @ es" "list_all (P \<circ> snd) es"
proof -
  have "wp m (\<lambda>x s'. \<exists>es. effects s' = effects s @ es \<and> list_all (P \<circ> snd) es) s"
    using assms(1) by (simp add: performs_def)
  from wpD [OF this assms(2)] show thesis using that by blast
qed

lemma performsI:
  "(\<And>s x s'. run_state m s = (x, s') \<Longrightarrow> \<exists>es. effects s' = effects s @ es \<and> list_all (P \<circ> snd) es) \<Longrightarrow> performs P m"
  unfolding performs_def by (intro allI wpI) blast

lemma performs_quiet: "quiet m \<Longrightarrow> performs P m"
  by (rule performsI) (drule (1) quietD, simp)

lemma performs_return [performing]: "performs P (return x)"
  by (intro performs_quiet quiets)

lemma performs_look [performing]: "performs P (look w f)"
  by (intro performs_quiet quiets)

lemma performs_perform [performing]: "P e \<Longrightarrow> performs P (perform w e f)"
  by (rule performsI) auto

lemma performs_bind [performing]:
  assumes m: "performs P m" and f: "\<And>x. performs P (f x)"
  shows "performs P (m \<bind> f)"
proof (rule performsI)
  fix s y s''
  assume r: "run_state (m \<bind> f) s = (y, s'')"
  obtain x s' where x: "run_state m s = (x, s')" by (cases "run_state m s")
  then have y: "run_state (f x) s' = (y, s'')" using r by simp
  obtain es where es: "effects s' = effects s @ es" "list_all (P \<circ> snd) es" by (rule performsD [OF m x])
  obtain fs where "effects s'' = effects s' @ fs" "list_all (P \<circ> snd) fs" by (rule performsD [OF f y])
  then have "effects s'' = effects s @ (es @ fs) \<and> list_all (P \<circ> snd) (es @ fs)" using es by simp
  then show "\<exists>es. effects s'' = effects s @ es \<and> list_all (P \<circ> snd) es" by blast
qed

lemma performs_wp: "performs P m \<Longrightarrow> wp m (\<lambda>x s'. \<exists>es. effects s' = effects s @ es \<and> list_all (P \<circ> snd) es) s"
  by (simp add: performs_def)

lemma wp_performs:
  assumes "performs P m"
    and "\<And>x s' es. run_state m s = (x, s') \<Longrightarrow> effects s' = effects s @ es \<Longrightarrow> list_all (P \<circ> snd) es \<Longrightarrow> Q x s'"
  shows "wp m Q s"
  by (rule wpI) (metis performsD [OF assms(1)] assms(2))

lemma wp_rest:
  "quiet m \<Longrightarrow> (\<And>s. answer m s = x) \<Longrightarrow> (\<And>s'. effects s' = effects s \<Longrightarrow> Q x s') \<Longrightarrow> wp m Q s"
  by (erule wp_quiet) (metis answer_run)

section \<open>A small world\<close>

text \<open>Process 42 runs agy-pool for the data directory /d on port 8899 and ignores SIGTERM.\<close>

definition demo_disk :: host where
  "demo_disk = \<lparr>h_cwd = Some ''/'', h_HOME = ''/home'', h_user_home = [],
     h_eval = (\<lambda>p. if p = ''/d'' then Some ''/d'' else None), h_lstat = (\<lambda>p. NoFile)\<rparr>"

definition demo_world :: world where
  "demo_world = \<lparr>w_host = demo_disk, w_guard = demo_guard,
     w_file = (\<lambda>p. if p = ''/d/agy-pool.pid'' then Data ''42'' else if p = ''/proc/42/cmdline'' then Data ''agy-pool''
        else if p = ''/proc/42/environ'' then Data ''AGY_DATA_DIR=/d'' else NotExist),
     w_regular = (\<lambda>p. False), w_mtime = (\<lambda>p. None), w_env = (\<lambda>x. []), w_now = 0,
     w_kill0 = (\<lambda>p. if p = 42 then KillOk else KillGone), w_term = (\<lambda>p. KillOk), w_listening = (\<lambda>p. p = 8899),
     w_remove = (\<lambda>p. Removed), w_mkdir = (\<lambda>p. True), w_open = (\<lambda>p. True), w_start = Some 43, w_child_exited = False,
     w_getpid = 42, w_flock = LockGranted, w_bind = Some 8899, w_write = (\<lambda>p. True), w_serve_failed = False,
     w_shutdown = True\<rparr>"

lemma demo_world_simps [simp]:
  "w_host demo_world = demo_disk" "w_guard demo_world = demo_guard" "w_file demo_world ''/d/agy-pool.pid'' = Data ''42''"
  "w_file demo_world ''/proc/42/cmdline'' = Data ''agy-pool''" "w_file demo_world ''/proc/42/environ'' = Data ''AGY_DATA_DIR=/d''"
  "w_file demo_world ''/proc/42/status'' = NotExist" "w_regular demo_world x = False" "w_mtime demo_world x = None"
  "w_env demo_world x = []" "w_now demo_world = 0" "w_kill0 demo_world 42 = KillOk" "w_term demo_world i = KillOk"
  "w_listening demo_world i = (i = 8899)" "w_mkdir demo_world x" "w_open demo_world x" "w_flock demo_world = LockGranted"
  "w_bind demo_world = Some 8899" "w_write demo_world x" "w_getpid demo_world = 42" "\<not> w_serve_failed demo_world"
  "w_shutdown demo_world" "g_testMode demo_guard = False"
  by (simp_all add: demo_world_def demo_guard_def)

lemma demo_safe [simp]:
  "AssertSafeWritePath demo_guard demo_disk ''/d/agy-pool.pid'' = None"
  "AssertSafeWritePath demo_guard demo_disk ''/d/agy-pool.pid.lock'' = None"
  "AssertSafeWritePath demo_guard demo_disk ''/d/agy-pool-runtime.json'' = None"
  "AssertSafeWritePath demo_guard demo_disk ''/d/agy-pool.log'' = None"
  by code_simp+

end
