(* ===== verification/Daemon_PID.thy ===== *)
theory Daemon_PID
  imports Host_Monad
begin

text \<open>
  internal/daemon/pid.go and the status functions of server.go: the PID file, whether a process is
  alive and is an agy-pool process, whether the daemon runs and is outdated, and the removal of a PID
  file that is still ours. Signal 0, /proc and the file system answer through the world.
\<close>

section \<open>Data\<close>

record 'stats DaemonInfo =
  i_PID :: int
  i_Version :: string
  i_ScriptMtime :: int
  i_ConfigPath :: string
  i_ConfigHash :: string
  i_DataDir :: string
  i_ListenHost :: string
  i_Listen :: string
  i_Port :: int
  i_Runtime :: "'stats option"

text \<open>What is fixed while the program runs: its version and path, and the decoder of encoding/json.\<close>

record 'stats daemon_std =
  json_info :: "string \<Rightarrow> 'stats DaemonInfo option"
  s_Version :: string
  s_Entrypoint :: string
  s_DefaultPort :: int
  s_PIDFile :: string \<comment> \<open>PIDFileProvider\<close>
  s_DataDir :: string \<comment> \<open>config.GetDataDir\<close>
  s_config :: config_std \<comment> \<open>decoders of the configuration file; files are read from the world\<close>
  s_sha256 :: "string \<Rightarrow> string"

datatype pid_error = PIDNotFound | PIDReadFailed | PIDMalformed | PIDNotOwned | PIDUnsafe guard_error | PIDRemoveFailed

definition legacy_info :: "int \<Rightarrow> 'stats DaemonInfo" where
  "legacy_info p = \<lparr>i_PID = p, i_Version = [], i_ScriptMtime = 0, i_ConfigPath = [], i_ConfigHash = [],
     i_DataDir = [], i_ListenHost = [], i_Listen = [], i_Port = 0, i_Runtime = None\<rparr>"

definition fill_listen :: "'stats DaemonInfo \<Rightarrow> 'stats DaemonInfo" where
  "fill_listen info =
     (let info1 = (if i_ListenHost info = [] \<and> i_Listen info \<noteq> [] then info\<lparr>i_ListenHost := i_Listen info\<rparr> else info)
      in if i_Listen info1 = [] \<and> i_ListenHost info1 \<noteq> [] then info1\<lparr>i_Listen := i_ListenHost info1\<rparr> else info1)"

section \<open>Reading the PID file\<close>

definition decode_pid_file :: "'stats daemon_std \<Rightarrow> read_reply \<Rightarrow> pid_error + 'stats DaemonInfo" where
  "decode_pid_file d r =
     (case r of NotExist \<Rightarrow> Inl PIDNotFound | ReadError \<Rightarrow> Inl PIDReadFailed | Data s \<Rightarrow>
        let trimmed = trim_space s
        in if trimmed = [] then Inl PIDMalformed
           else if has_prefix trimmed ''{'' then
             (case json_info d trimmed of None \<Rightarrow> Inl PIDMalformed | Some info \<Rightarrow>
                if i_PID info \<le> 0 then Inl PIDMalformed else Inr (fill_listen info))
           else (case parse_int64 trimmed of None \<Rightarrow> Inl PIDMalformed | Some p \<Rightarrow>
                if p \<le> 0 then Inl PIDMalformed else Inr (legacy_info p)))"

definition ReadPIDFile :: "'stats daemon_std \<Rightarrow> (nat \<Rightarrow> world) \<Rightarrow> string \<Rightarrow> (pid_error + 'stats DaemonInfo) op" where
  "ReadPIDFile d w path = look w (\<lambda>v. decode_pid_file d (w_file v path))"

section \<open>Processes\<close>

text \<open>strings.Fields.\<close>

fun span_word :: "string \<Rightarrow> string \<times> string" where
  "span_word [] = ([], [])"
| "span_word (c # cs) =
     (if leading_space space_seqs (c # cs) \<noteq> 0 then ([], c # cs)
      else case span_word cs of (u, r) \<Rightarrow> (c # u, r))"

lemma span_word_length: "span_word s = (u, r) \<Longrightarrow> length u + length r = length s"
  by (induction s arbitrary: u r) (auto split: if_splits prod.splits)

lemma trim_left_length: "length (trim_left_with seqs s) \<le> length s"
  by (induction seqs s rule: trim_left_with.induct)
    (subst trim_left_with.simps, auto intro: order_trans)

function Fields :: "string \<Rightarrow> string list" where
  "Fields s =
     (let t = trim_left_with space_seqs s
      in if t = [] then [] else let (u, r) = span_word t in if u = [] then [] else u # Fields r)"
  by pat_completeness auto
termination
proof (relation "measure length")
  fix s t p u r
  assume t: "t = trim_left_with space_seqs s" and p: "p = span_word t" "(u, r) = p" "u \<noteq> []"
  then have "length u + length r = length t" using span_word_length [of t u r] by simp
  then show "(r, s) \<in> measure length"
    using t p(3) trim_left_length [of space_seqs s] by (cases u) auto
qed simp

declare Fields.simps [simp del]

definition proc_file :: "int \<Rightarrow> string \<Rightarrow> string" where
  "proc_file pid name = ''/proc/'' @ int_string pid @ ''/'' @ name"

text \<open>The first line that starts with State: decides.\<close>

definition is_zombie :: "string \<Rightarrow> bool" where
  "is_zombie status =
     (case List.find (\<lambda>l. has_prefix l ''State:'') (split_on (CHR 0x0A) status) of
        None \<Rightarrow> False
      | Some l \<Rightarrow> 2 \<le> length (Fields l) \<and> Fields l ! 1 = ''Z'')"

definition IsProcessAlive :: "(nat \<Rightarrow> world) \<Rightarrow> int \<Rightarrow> bool op" where
  "IsProcessAlive w pid =
     (if pid \<le> 0 then return False
      else do {
        k \<leftarrow> look w (\<lambda>v. w_kill0 v pid);
        case k of
          KillPerm \<Rightarrow> return True
        | KillGone \<Rightarrow> return False
        | KillFailed \<Rightarrow> return False
        | KillOk \<Rightarrow> do {
            st \<leftarrow> look w (\<lambda>v. w_file v (proc_file pid ''status''));
            return (case st of Data s \<Rightarrow> \<not> is_zombie s | _ \<Rightarrow> True)
          }
      })"

definition agy_cmdline :: "read_reply \<Rightarrow> bool" where
  "agy_cmdline r =
     (case r of
        Data s \<Rightarrow> (let cmd = map (\<lambda>c. if c = byte 0 then CHR '' '' else c) s
                   in contains cmd ''agy-pool'' \<or> contains cmd ''python'' \<or> contains cmd ''.test'')
      | _ \<Rightarrow> True)"

definition IsAgyPoolProcess :: "(nat \<Rightarrow> world) \<Rightarrow> int \<Rightarrow> bool op" where
  "IsAgyPoolProcess w pid = do {
     alive \<leftarrow> IsProcessAlive w pid;
     if \<not> alive then return False else look w (\<lambda>v. agy_cmdline (w_file v (proc_file pid ''cmdline'')))
   }"

definition pid_file_or_default :: "'stats daemon_std \<Rightarrow> string \<Rightarrow> string" where
  "pid_file_or_default d f = (if f = [] then s_PIDFile d else f)"

definition GetDaemonInfo :: "'stats daemon_std \<Rightarrow> (nat \<Rightarrow> world) \<Rightarrow> string \<Rightarrow> 'stats DaemonInfo option op" where
  "GetDaemonInfo d w pidFile = do {
     r \<leftarrow> ReadPIDFile d w (pid_file_or_default d pidFile);
     case r of
       Inl e \<Rightarrow> return None
     | Inr info \<Rightarrow> do {
         alive \<leftarrow> IsProcessAlive w (i_PID info);
         if \<not> alive then return None
         else do {
           agy \<leftarrow> IsAgyPoolProcess w (i_PID info);
           return (if agy then Some info else None)
         }
       }
   }"

definition GetDaemonPID :: "'stats daemon_std \<Rightarrow> (nat \<Rightarrow> world) \<Rightarrow> int op" where
  "GetDaemonPID d w = do {
     info \<leftarrow> GetDaemonInfo d w [];
     return (case info of None \<Rightarrow> 0 | Some i \<Rightarrow> i_PID i)
   }"

definition IsPortListening :: "'stats daemon_std \<Rightarrow> (nat \<Rightarrow> world) \<Rightarrow> int \<Rightarrow> bool op" where
  "IsPortListening d w port = look w (\<lambda>v. w_listening v (if port \<le> 0 then s_DefaultPort d else port))"

definition IsDaemonRunning :: "'stats daemon_std \<Rightarrow> (nat \<Rightarrow> world) \<Rightarrow> string \<Rightarrow> int \<Rightarrow> bool op" where
  "IsDaemonRunning d w pidFile port = do {
     info \<leftarrow> GetDaemonInfo d w pidFile;
     case info of
       None \<Rightarrow> return False
     | Some i \<Rightarrow> if i_PID i \<le> 0 then return False else IsPortListening d w port
   }"

definition IsDaemonOutdated :: "'stats daemon_std \<Rightarrow> (nat \<Rightarrow> world) \<Rightarrow> string \<Rightarrow> int \<Rightarrow> bool op" where
  "IsDaemonOutdated d w pidFile port = do {
     info \<leftarrow> GetDaemonInfo d w pidFile;
     case info of
       None \<Rightarrow> return False
     | Some i \<Rightarrow> do {
         listening \<leftarrow> IsPortListening d w port;
         if \<not> listening then return False
         else if i_Version i = [] \<or> i_Version i \<noteq> s_Version d then return True
         else do {
           mt \<leftarrow> look w (\<lambda>v. w_mtime v (s_Entrypoint d));
           return (case mt of None \<Rightarrow> False | Some t \<Rightarrow> 0 < i_ScriptMtime i \<and> i_ScriptMtime i < t)
         }
       }
   }"

section \<open>Removing the PID file\<close>

definition RemovePIDFileIfOwned ::
    "'stats daemon_std \<Rightarrow> (nat \<Rightarrow> world) \<Rightarrow> string \<Rightarrow> int \<Rightarrow> (pid_error + bool) op" where
  "RemovePIDFileIfOwned d w path expectedPID = do {
     unsafe \<leftarrow> look w (\<lambda>v. AssertSafeWritePath (w_guard v) (w_host v) path);
     case unsafe of
       Some e \<Rightarrow> return (Inl (PIDUnsafe e))
     | None \<Rightarrow> do {
         r \<leftarrow> ReadPIDFile d w path;
         case r of
           Inl e \<Rightarrow>
             if e = PIDNotFound then return (Inr True)
             else if expectedPID \<le> 0 then do {
               _ \<leftarrow> perform w (RemoveFile path) (\<lambda>v. w_remove v path);
               return (Inr True)
             }
             else return (Inl e)
         | Inr info \<Rightarrow>
             if i_PID info \<noteq> expectedPID then return (Inl PIDNotOwned)
             else do {
               reply \<leftarrow> perform w (RemoveFile path) (\<lambda>v. w_remove v path);
               return (if reply = RemoveFailed then Inl PIDRemoveFailed else Inr True)
             }
       }
   }"

section \<open>What a reply tells\<close>

lemma quiet_ReadPIDFile [quiets]: "quiet (ReadPIDFile d w path)"
  by (simp add: ReadPIDFile_def quiets)

lemma quiet_IsProcessAlive [quiets]: "quiet (IsProcessAlive w pid)"
  unfolding IsProcessAlive_def by (auto intro!: quiets split: kill_reply.split)

lemma quiet_IsAgyPoolProcess [quiets]: "quiet (IsAgyPoolProcess w pid)"
  unfolding IsAgyPoolProcess_def by (auto intro!: quiets)

lemma quiet_GetDaemonInfo [quiets]: "quiet (GetDaemonInfo d w f)"
  unfolding GetDaemonInfo_def by (auto intro!: quiets split: sum.split)

lemma quiet_IsPortListening [quiets]: "quiet (IsPortListening d w port)"
  unfolding IsPortListening_def by (rule quiets)

lemma quiet_IsDaemonRunning [quiets]: "quiet (IsDaemonRunning d w f port)"
  unfolding IsDaemonRunning_def by (auto intro!: quiets split: option.split)

lemma quiet_IsDaemonOutdated [quiets]: "quiet (IsDaemonOutdated d w f port)"
  unfolding IsDaemonOutdated_def by (auto intro!: quiets split: option.split)

lemmas quiet_performs [performing] = quiet_ReadPIDFile [THEN performs_quiet] quiet_IsProcessAlive [THEN performs_quiet]
  quiet_IsAgyPoolProcess [THEN performs_quiet] quiet_GetDaemonInfo [THEN performs_quiet]
  quiet_IsPortListening [THEN performs_quiet] quiet_IsDaemonRunning [THEN performs_quiet]
  quiet_IsDaemonOutdated [THEN performs_quiet]

lemma decoded_pid_positive: "decode_pid_file d r = Inr info \<Longrightarrow> 0 < i_PID info"
  by (auto simp: decode_pid_file_def Let_def fill_listen_def legacy_info_def
      split: read_reply.splits if_splits option.splits)

lemma read_reply_seen:
  "run_state (ReadPIDFile d w path) s = (r, s') \<Longrightarrow>
   seen w (tick s) (tick s') (\<lambda>v. decode_pid_file d (w_file v path) = r) \<and> effects s' = effects s"
  by (auto simp: ReadPIDFile_def seen_def)

definition answers_signal0 :: "int \<Rightarrow> world \<Rightarrow> bool" where
  "answers_signal0 pid v \<longleftrightarrow> w_kill0 v pid = KillOk \<or> w_kill0 v pid = KillPerm"

lemma alive_seen:
  assumes "run_state (IsProcessAlive w pid) s = (True, s')"
  shows "0 < pid \<and> seen w (tick s) (tick s') (answers_signal0 pid)"
  using assms
  by (auto simp: IsProcessAlive_def seen_def answers_signal0_def split: if_splits kill_reply.splits)

lemma agy_seen:
  assumes "run_state (IsAgyPoolProcess w pid) s = (True, s')"
  shows "0 < pid \<and> seen w (tick s) (tick s') (answers_signal0 pid)
    \<and> seen w (tick s) (tick s') (\<lambda>v. agy_cmdline (w_file v (proc_file pid ''cmdline'')))"
proof -
  obtain s1 where s1: "run_state (IsProcessAlive w pid) s = (True, s1)"
    and c: "agy_cmdline (w_file (w (tick s1)) (proc_file pid ''cmdline''))" "s' = s1\<lparr>tick := Suc (tick s1)\<rparr>"
    using assms by (auto simp: IsAgyPoolProcess_def split: prod.splits if_splits)
  have "tick s \<le> tick s1" using quietD [OF quiet_IsProcessAlive s1] by simp
  then have "seen w (tick s) (tick s') (\<lambda>v. agy_cmdline (w_file v (proc_file pid ''cmdline'')))"
    using c by (auto simp: seen_def)
  moreover have "seen w (tick s) (tick s') (answers_signal0 pid)"
    using alive_seen [OF s1] c(2) by (auto intro: seen_mono)
  ultimately show ?thesis using alive_seen [OF s1] by simp
qed

definition pid_file_names :: "'stats daemon_std \<Rightarrow> string \<Rightarrow> int \<Rightarrow> world \<Rightarrow> bool" where
  "pid_file_names d path pid v \<longleftrightarrow> (\<exists>info. decode_pid_file d (w_file v path) = Inr info \<and> i_PID info = pid)"

definition pid_file_unreadable :: "'stats daemon_std \<Rightarrow> string \<Rightarrow> world \<Rightarrow> bool" where
  "pid_file_unreadable d path v \<longleftrightarrow> (\<exists>e. decode_pid_file d (w_file v path) = Inl e \<and> e \<noteq> PIDNotFound)"

lemma remove_pid_file_effects:
  "wp (RemovePIDFileIfOwned d w path pid)
     (\<lambda>r s'. effects s' = effects s \<or>
        (\<exists>n. effects s' = effects s @ [(n, RemoveFile path)] \<and> tick s \<le> n
          \<and> seen w (tick s) n (\<lambda>v. AssertSafeWritePath (w_guard v) (w_host v) path = None)
          \<and> (seen w (tick s) n (pid_file_names d path pid)
             \<or> pid \<le> 0 \<and> seen w (tick s) n (pid_file_unreadable d path)))) s"
  unfolding RemovePIDFileIfOwned_def ReadPIDFile_def
  by (auto simp: pid_file_names_def pid_file_unreadable_def split: option.split sum.split)

lemma performs_RemovePIDFile [performing]: "P (RemoveFile path) \<Longrightarrow> performs P (RemovePIDFileIfOwned d w path pid)"
  unfolding RemovePIDFileIfOwned_def by (auto intro!: performing split: option.split sum.split)

section \<open>Properties\<close>

text \<open>Removing the PID file touches nothing but that file, once, after the write guard accepted its
  path, and only after a read that showed the expected PID in it (or an unreadable file when
  the caller gave no PID); whatever other processes do in between.\<close>

theorem removed_pid_file_was_ours:
  assumes "run_state (RemovePIDFileIfOwned d w path pid) start = (r, s')" and "(n, e) \<in> set (effects s')"
  shows "e = RemoveFile path \<and> length (effects s') = 1
    \<and> seen w 0 n (\<lambda>v. AssertSafeWritePath (w_guard v) (w_host v) path = None)
    \<and> (seen w 0 n (pid_file_names d path pid) \<or> pid \<le> 0 \<and> seen w 0 n (pid_file_unreadable d path))"
  using wpD [OF remove_pid_file_effects assms(1)] assms(2) by (auto simp: start_def)

definition demo_daemon :: "unit daemon_std" where
  "demo_daemon = \<lparr>json_info = (\<lambda>s. None), s_Version = ''1'', s_Entrypoint = ''/bin/agy-pool'', s_DefaultPort = 8899,
     s_PIDFile = ''/d/agy-pool.pid'', s_DataDir = ''/d'',
     s_config = \<lparr>read_file = (\<lambda>p. None), json_keys = (\<lambda>s. None), json_strict = (\<lambda>s c. None), is_ip = (\<lambda>s. False)\<rparr>,
     s_sha256 = (\<lambda>s. [])\<rparr>"

lemma demo_text [simp]: "trim_space ''42'' = ''42''" "trim_space ''{}'' = ''{}''"
  by (simp_all add: trim_space_def leading_space_def space_seqs_def go_simps)

lemma demo_number [simp]: "parse_int64 ''42'' = Some 42"
  by (simp add: parse_int64_def Let_def is_digit_def digits_value_def code_of_char)

lemma demo_proc [simp]: "proc_file 42 name = ''/proc/42/'' @ name"
proof -
  have "int_string 42 = ''42''" by code_simp
  then show ?thesis by (simp add: proc_file_def)
qed

lemma demo_decode [simp]: "decode_pid_file demo_daemon (Data ''42'') = Inr (legacy_info 42)"
  by (simp add: decode_pid_file_def has_prefix_def)

lemma demo_decode_json: "0 < i_PID i \<Longrightarrow>
  decode_pid_file (demo_daemon\<lparr>json_info := \<lambda>s. Some i\<rparr>) (Data ''{}'') = Inr (fill_listen i)"
  by (simp add: decode_pid_file_def has_prefix_def)

theorem removed_pid_file_was_ours_witness:
  "seen (\<lambda>_. demo_world) 0 2 (pid_file_names demo_daemon ''/d/agy-pool.pid'' 42)"
proof -
  let ?r = "run_state (RemovePIDFileIfOwned demo_daemon (\<lambda>_. demo_world) ''/d/agy-pool.pid'' 42) start"
  have "(2, RemoveFile ''/d/agy-pool.pid'') \<in> set (effects (snd ?r))"
    by (simp add: RemovePIDFileIfOwned_def ReadPIDFile_def start_def legacy_info_def)
  from removed_pid_file_was_ours [OF prod.collapse [symmetric] this] show ?thesis by simp
qed

end
