(* ===== verification/Daemon_Instance.thy ===== *)
theory Daemon_Instance
  imports Daemon_PID
begin

text \<open>
  internal/daemon/instance.go: the identity of an instance, how its paths are made canonical, how the
  PID file of a running daemon is compared with it, and the status that follows. A path is
  resolved at one moment; messages are left out.
\<close>

section \<open>The identity of an instance\<close>

record InstanceContext =
  c_DataDir :: string
  c_ConfigPath :: string
  c_ConfigHash :: string
  c_ListenHost :: string
  c_ListenPort :: int
  c_BinaryPath :: string
  c_Version :: string

definition PIDFile :: "InstanceContext \<Rightarrow> string" where
  "PIDFile ctx = Join [c_DataDir ctx, ''agy-pool.pid'']"

definition LogFile :: "InstanceContext \<Rightarrow> string" where
  "LogFile ctx = Join [c_DataDir ctx, ''agy-pool.log'']"

definition StateDB :: "InstanceContext \<Rightarrow> string" where
  "StateDB ctx = Join [c_DataDir ctx, ''state.db'']"

definition LocksDir :: "InstanceContext \<Rightarrow> string" where
  "LocksDir ctx = Join [c_DataDir ctx, ''locks'']"

definition LockFile :: "InstanceContext \<Rightarrow> string \<Rightarrow> string" where
  "LockFile ctx name = Join [c_DataDir ctx, ''locks'', name]"

definition RuntimeFile :: "InstanceContext \<Rightarrow> string" where
  "RuntimeFile ctx = Join [c_DataDir ctx, ''agy-pool-runtime.json'']"

section \<open>Canonical paths\<close>

text \<open>The loop over the ancestors of a directory that does not exist, for at most n of them.\<close>

fun deepest_existing :: "nat \<Rightarrow> host \<Rightarrow> string \<Rightarrow> string list \<Rightarrow> string option" where
  "deepest_existing 0 h cur rest = None"
| "deepest_existing (Suc n) h cur rest =
     (let parent = Dir cur; rest1 = Base cur # rest
      in if parent = cur then None
         else case h_eval h parent of
                Some e \<Rightarrow> Some (Clean (Join (e # rest1)))
              | None \<Rightarrow> deepest_existing n h parent rest1)"

definition CanonicalizeDir :: "host \<Rightarrow> string \<Rightarrow> string option" where
  "CanonicalizeDir h dir =
     (if dir = [] then None
      else case Abs h (expandUser h dir) of None \<Rightarrow> None | Some a \<Rightarrow>
        let abs = Clean a
        in case h_eval h abs of
             Some e \<Rightarrow> Some (Clean e)
           | None \<Rightarrow> (case deepest_existing (length abs) h abs [] of Some p \<Rightarrow> Some p | None \<Rightarrow> Some abs))"

definition CanonicalizeFile :: "host \<Rightarrow> string \<Rightarrow> string option" where
  "CanonicalizeFile h file =
     (if file = [] then Some []
      else case Abs h (expandUser h file) of None \<Rightarrow> None | Some a \<Rightarrow>
        let abs = Clean a
        in case h_eval h abs of Some e \<Rightarrow> Some (Clean e) | None \<Rightarrow> Some abs)"

text \<open>The callers that ignore the error compare with the empty string.\<close>

definition or_empty :: "string option \<Rightarrow> string" where
  "or_empty r = (case r of None \<Rightarrow> [] | Some s \<Rightarrow> s)"

definition ComputeConfigFileHash :: "'stats daemon_std \<Rightarrow> world \<Rightarrow> string \<Rightarrow> string option" where
  "ComputeConfigFileHash d v path =
     (case Abs (w_host v) (expandUser (w_host v) path) of None \<Rightarrow> None | Some a \<Rightarrow>
        (case w_file v a of Data s \<Rightarrow> Some (s_sha256 d s) | _ \<Rightarrow> None))"

definition ResolveDefaultConfigFile :: "world \<Rightarrow> string" where
  "ResolveDefaultConfigFile v =
     (let h = w_host v; explicit = w_env v ''AGY_CONFIG_FILE'';
          named = (if explicit = [] then None
                   else case Abs h (expandUser h explicit) of None \<Rightarrow> None | Some a \<Rightarrow> if w_regular v a then Some a else None);
          home = home_dir h;
          userCfg = Join [home, ''.config'', ''agy-pool'', ''config.json'']
      in case named of Some a \<Rightarrow> a | None \<Rightarrow>
           if home \<noteq> [] \<and> w_regular v userCfg then userCfg
           else if w_regular v ''/etc/agy-pool/config.json'' then ''/etc/agy-pool/config.json''
           else [])"

definition load_config :: "'stats daemon_std \<Rightarrow> world \<Rightarrow> string \<Rightarrow> StaticConfig option" where
  "load_config d v path =
     (case LoadConfigFile (w_host v)
         ((s_config d)\<lparr>read_file := \<lambda>p. (case w_file v p of Data s \<Rightarrow> Some s | _ \<Rightarrow> None)\<rparr>) path of
        Inl e \<Rightarrow> None | Inr cfg \<Rightarrow> Some cfg)"

text \<open>The configuration file an instance runs with: its path, hash and contents, as far as they resolve.\<close>

definition instance_config ::
    "'stats daemon_std \<Rightarrow> world \<Rightarrow> string \<Rightarrow> (string \<times> string \<times> StaticConfig option) option" where
  "instance_config d v configPath =
     (let found = (\<lambda>can. (can, or_empty (ComputeConfigFileHash d v can), load_config d v can))
      in if configPath \<noteq> [] then map_option found (CanonicalizeFile (w_host v) configPath)
         else let defPath = ResolveDefaultConfigFile v
              in if defPath = [] then Some ([], [], None)
                 else case CanonicalizeFile (w_host v) defPath of None \<Rightarrow> Some ([], [], None) | Some can \<Rightarrow> Some (found can))"

datatype resolve_error = BadDataDir | ProtectedDataDir | BadConfigPath

definition positive_env_port :: "world \<Rightarrow> int option" where
  "positive_env_port v =
     (let s = w_env v ''AGY_POOL_DAEMON_PORT''
      in if s = [] then None
         else case parse_int64 s of None \<Rightarrow> None | Some p \<Rightarrow> if 0 < p then Some p else None)"

definition resolved_port :: "'stats daemon_std \<Rightarrow> world \<Rightarrow> int \<Rightarrow> StaticConfig option \<Rightarrow> int" where
  "resolved_port d v port cfg =
     (if 0 < port then port
      else let port1 = (case cfg of Some c \<Rightarrow> if 0 < Port c then Port c else port | None \<Rightarrow> port)
           in if 0 < port1 then port1
              else case positive_env_port v of Some p \<Rightarrow> p | None \<Rightarrow> s_DefaultPort d)"

definition ResolveInstanceContext ::
    "'stats daemon_std \<Rightarrow> world \<Rightarrow> string \<Rightarrow> string \<Rightarrow> int \<Rightarrow> string \<Rightarrow> resolve_error + InstanceContext" where
  "ResolveInstanceContext d v dataDir configPath port listenHost =
     (case CanonicalizeDir (w_host v) (if dataDir = [] then s_DataDir d else dataDir) of
        None \<Rightarrow> Inl BadDataDir
      | Some can \<Rightarrow>
          if isProtectedProductionDir (w_guard v) can then Inl ProtectedDataDir
          else case instance_config d v configPath of
                 None \<Rightarrow> Inl BadConfigPath
               | Some (cfgPath, cfgHash, cfg) \<Rightarrow>
                   let lh = (case cfg of Some c \<Rightarrow> if listenHost = [] then Listen c else listenHost | None \<Rightarrow> listenHost)
                   in Inr \<lparr>c_DataDir = can, c_ConfigPath = cfgPath, c_ConfigHash = cfgHash,
                        c_ListenHost = (if lh = [] then ''127.0.0.1'' else lh),
                        c_ListenPort = resolved_port d v port cfg,
                        c_BinaryPath = s_Entrypoint d, c_Version = s_Version d\<rparr>)"

section \<open>Comparing a PID file with an instance\<close>

datatype MatchResult = MatchExact | MatchConfigMismatch | MatchPortMismatch | MatchVersionMismatch
  | MatchForeign | MatchStale | MatchLegacy

datatype InstanceStatus = StatusRunningSameInstance | StatusStopped | StatusStalePID | StatusForeignInstance
  | StatusConfigMismatch | StatusPortOccupiedForeign | StatusOutdatedBinary | StatusLegacyPID

definition names_data_dir :: "string \<Rightarrow> read_reply \<Rightarrow> bool" where
  "names_data_dir needle r = (case r of Data s \<Rightarrow> contains s needle | _ \<Rightarrow> False)"

definition isProcessOwnedByDataDir :: "(nat \<Rightarrow> world) \<Rightarrow> int \<Rightarrow> string \<Rightarrow> bool op" where
  "isProcessOwnedByDataDir w pid dataDir =
     (if pid \<le> 0 \<or> dataDir = [] then return False
      else do {
        c \<leftarrow> look w (\<lambda>v. names_data_dir dataDir (w_file v (proc_file pid ''cmdline'')));
        if c then return True
        else look w (\<lambda>v. names_data_dir (''AGY_DATA_DIR='' @ dataDir) (w_file v (proc_file pid ''environ'')))
      })"

definition data_dir_verdict :: "(nat \<Rightarrow> world) \<Rightarrow> 'stats DaemonInfo \<Rightarrow> InstanceContext \<Rightarrow> MatchResult option op" where
  "data_dir_verdict w info ctx =
     (if i_DataDir info \<noteq> [] then do {
        can \<leftarrow> look w (\<lambda>v. or_empty (CanonicalizeDir (w_host v) (i_DataDir info)));
        return (if can \<noteq> c_DataDir ctx then Some MatchForeign else None)
      }
      else do {
        owned \<leftarrow> isProcessOwnedByDataDir w (i_PID info) (c_DataDir ctx);
        return (if \<not> owned then Some MatchLegacy else None)
      })"

definition other_port :: "'stats DaemonInfo \<Rightarrow> InstanceContext \<Rightarrow> bool" where
  "other_port info ctx \<longleftrightarrow> 0 < i_Port info \<and> 0 < c_ListenPort ctx \<and> i_Port info \<noteq> c_ListenPort ctx"

definition config_verdict :: "(nat \<Rightarrow> world) \<Rightarrow> 'stats DaemonInfo \<Rightarrow> InstanceContext \<Rightarrow> bool op" where
  "config_verdict w info ctx =
     (if i_ConfigPath info \<noteq> [] \<and> c_ConfigPath ctx \<noteq> [] then do {
        can \<leftarrow> look w (\<lambda>v. or_empty (CanonicalizeFile (w_host v) (i_ConfigPath info)));
        return (can \<noteq> c_ConfigPath ctx
          \<or> i_ConfigHash info \<noteq> [] \<and> c_ConfigHash ctx \<noteq> [] \<and> i_ConfigHash info \<noteq> c_ConfigHash ctx)
      }
      else return ((i_ConfigPath info = []) \<noteq> (c_ConfigPath ctx = [])))"

definition MatchesInstance :: "(nat \<Rightarrow> world) \<Rightarrow> 'stats DaemonInfo option \<Rightarrow> InstanceContext \<Rightarrow> MatchResult op" where
  "MatchesInstance w i ctx =
     (case i of None \<Rightarrow> return MatchStale | Some info \<Rightarrow>
        if i_PID info \<le> 0 then return MatchStale
        else do {
          alive \<leftarrow> IsProcessAlive w (i_PID info);
          if \<not> alive then return MatchStale
          else do {
            agy \<leftarrow> IsAgyPoolProcess w (i_PID info);
            if \<not> agy then return MatchForeign
            else do {
              dv \<leftarrow> data_dir_verdict w info ctx;
              case dv of
                Some m \<Rightarrow> return m
              | None \<Rightarrow>
                  if other_port info ctx then return MatchPortMismatch
                  else do {
                    cv \<leftarrow> config_verdict w info ctx;
                    return (if cv then MatchConfigMismatch
                      else if i_Version info \<noteq> [] \<and> c_Version ctx \<noteq> [] \<and> i_Version info \<noteq> c_Version ctx
                        then MatchVersionMismatch
                      else MatchExact)
                  }
            }
          }
        })"

definition pid_file_of :: "InstanceContext \<Rightarrow> string \<Rightarrow> string" where
  "pid_file_of ctx pidFile = (if pidFile = [] then PIDFile ctx else pidFile)"

definition CheckStatusWithFile :: "'stats daemon_std \<Rightarrow> (nat \<Rightarrow> world) \<Rightarrow> InstanceContext \<Rightarrow> string
    \<Rightarrow> (InstanceStatus \<times> 'stats DaemonInfo option) op" where
  "CheckStatusWithFile d w ctx pidFile0 = (let pidFile = pid_file_of ctx pidFile0 in do {
     r \<leftarrow> ReadPIDFile d w pidFile;
     case r of
       Inl e \<Rightarrow> do {
         listening \<leftarrow> IsPortListening d w (c_ListenPort ctx);
         return (if listening then StatusPortOccupiedForeign
           else if e = PIDNotFound then StatusStopped else StatusStalePID, None)
       }
     | Inr info \<Rightarrow> do {
         alive \<leftarrow> IsProcessAlive w (i_PID info);
         if \<not> alive then do {
           listening \<leftarrow> IsPortListening d w (c_ListenPort ctx);
           return (if listening then StatusPortOccupiedForeign else StatusStalePID, Some info)
         }
         else do {
           agy \<leftarrow> IsAgyPoolProcess w (i_PID info);
           if \<not> agy then return (StatusForeignInstance, Some info)
           else do {
             res \<leftarrow> MatchesInstance w (Some info) ctx;
             case res of
               MatchForeign \<Rightarrow> return (StatusForeignInstance, Some info)
             | MatchPortMismatch \<Rightarrow> return (StatusPortOccupiedForeign, Some info)
             | MatchConfigMismatch \<Rightarrow> return (StatusConfigMismatch, Some info)
             | MatchVersionMismatch \<Rightarrow> return (StatusOutdatedBinary, Some info)
             | MatchLegacy \<Rightarrow> return (StatusLegacyPID, Some info)
             | MatchStale \<Rightarrow> return (StatusForeignInstance, Some info)
             | MatchExact \<Rightarrow> do {
                 listening \<leftarrow> IsPortListening d w (c_ListenPort ctx);
                 if \<not> listening then return (StatusStalePID, Some info)
                 else do {
                   outdated \<leftarrow> IsDaemonOutdated d w pidFile (c_ListenPort ctx);
                   return (if outdated then StatusOutdatedBinary else StatusRunningSameInstance, Some info)
                 }
               }
           }
         }
       }
   })"

definition CheckInstanceStatus :: "'stats daemon_std \<Rightarrow> (nat \<Rightarrow> world) \<Rightarrow> InstanceContext
    \<Rightarrow> (InstanceStatus \<times> 'stats DaemonInfo option) op" where
  "CheckInstanceStatus d w ctx = CheckStatusWithFile d w ctx (PIDFile ctx)"

section \<open>CheckDaemonMismatch\<close>

datatype mismatch = NoMismatch | PortDiffers | DataDirDiffers | ConfigDiffers | ConfigModified | VersionDiffers

definition config_mismatch :: "'stats daemon_std \<Rightarrow> world \<Rightarrow> 'stats DaemonInfo \<Rightarrow> string \<Rightarrow> mismatch" where
  "config_mismatch d v info expected =
     (if expected \<noteq> [] \<and> i_ConfigPath info \<noteq> [] then
        (if Clean expected \<noteq> Clean (i_ConfigPath info) then ConfigDiffers
         else if i_ConfigHash info \<noteq> [] then
           (case ComputeConfigFileHash d v expected of
              Some h \<Rightarrow> if h \<noteq> i_ConfigHash info then ConfigModified else NoMismatch
            | None \<Rightarrow> NoMismatch)
         else NoMismatch)
      else NoMismatch)"

definition CheckDaemonMismatch :: "'stats daemon_std \<Rightarrow> (nat \<Rightarrow> world) \<Rightarrow> string \<Rightarrow> int \<Rightarrow> string \<Rightarrow> mismatch op" where
  "CheckDaemonMismatch d w pidFile expectedPort expectedConfigPath = do {
     i \<leftarrow> GetDaemonInfo d w pidFile;
     case i of None \<Rightarrow> return NoMismatch | Some info \<Rightarrow>
       if i_PID info \<le> 0 then return NoMismatch
       else do {
         k \<leftarrow> look w (\<lambda>v. w_kill0 v (i_PID info));
         if k \<noteq> KillOk then return NoMismatch
         else if 0 < expectedPort \<and> 0 < i_Port info \<and> i_Port info \<noteq> expectedPort then return PortDiffers
         else if i_DataDir info \<noteq> [] \<and> s_DataDir d \<noteq> [] \<and> Clean (i_DataDir info) \<noteq> Clean (s_DataDir d)
           then return DataDirDiffers
         else do {
           m \<leftarrow> look w (\<lambda>v. config_mismatch d v info expectedConfigPath);
           return (if m \<noteq> NoMismatch then m
             else if i_Version info \<noteq> [] \<and> s_Version d \<noteq> [] \<and> i_Version info \<noteq> s_Version d then VersionDiffers
             else NoMismatch)
         }
       }
   }"

section \<open>Replies of a host at rest\<close>

definition alive_in :: "world \<Rightarrow> int \<Rightarrow> bool" where
  "alive_in v pid \<longleftrightarrow> 0 < pid
     \<and> (w_kill0 v pid = KillPerm
        \<or> w_kill0 v pid = KillOk \<and> (case w_file v (proc_file pid ''status'') of Data s \<Rightarrow> \<not> is_zombie s | _ \<Rightarrow> True))"

definition agy_in :: "world \<Rightarrow> int \<Rightarrow> bool" where
  "agy_in v pid \<longleftrightarrow> alive_in v pid \<and> agy_cmdline (w_file v (proc_file pid ''cmdline''))"

lemma answer_alive [simp]: "answer (IsProcessAlive (\<lambda>_. v) pid) s = alive_in v pid"
  by (auto simp: IsProcessAlive_def alive_in_def split: kill_reply.split read_reply.split)

lemma answer_agy [simp]: "answer (IsAgyPoolProcess (\<lambda>_. v) pid) s = agy_in v pid"
  by (simp add: IsAgyPoolProcess_def agy_in_def)

lemma answer_read [simp]: "answer (ReadPIDFile d (\<lambda>_. v) path) s = decode_pid_file d (w_file v path)"
  by (simp add: ReadPIDFile_def)

lemma answer_listening [simp]:
  "answer (IsPortListening d (\<lambda>_. v) port) s = w_listening v (if port \<le> 0 then s_DefaultPort d else port)"
  by (simp add: IsPortListening_def)

definition info_in :: "'stats daemon_std \<Rightarrow> world \<Rightarrow> string \<Rightarrow> 'stats DaemonInfo option" where
  "info_in d v f =
     (case decode_pid_file d (w_file v f) of Inr info \<Rightarrow> if agy_in v (i_PID info) then Some info else None | Inl e \<Rightarrow> None)"

lemma answer_info [simp]: "answer (GetDaemonInfo d (\<lambda>_. v) f) s = info_in d v (pid_file_or_default d f)"
  by (auto simp: GetDaemonInfo_def info_in_def agy_in_def split: sum.split)

definition binary_current :: "'stats daemon_std \<Rightarrow> world \<Rightarrow> 'stats DaemonInfo \<Rightarrow> bool" where
  "binary_current d v info \<longleftrightarrow> i_Version info \<noteq> [] \<and> i_Version info = s_Version d
     \<and> (\<forall>t. w_mtime v (s_Entrypoint d) = Some t \<longrightarrow> 0 < i_ScriptMtime info \<longrightarrow> t \<le> i_ScriptMtime info)"

lemma answer_outdated:
  "f \<noteq> [] \<Longrightarrow> info_in d v f = Some info \<Longrightarrow> answer (IsPortListening d (\<lambda>_. v) port) start \<Longrightarrow>
   answer (IsDaemonOutdated d (\<lambda>_. v) f port) s \<longleftrightarrow> \<not> binary_current d v info"
  by (auto simp: IsDaemonOutdated_def pid_file_or_default_def binary_current_def split: option.split)

definition owned_in :: "world \<Rightarrow> 'stats DaemonInfo \<Rightarrow> InstanceContext \<Rightarrow> bool" where
  "owned_in v info ctx \<longleftrightarrow>
     (if i_DataDir info \<noteq> [] then or_empty (CanonicalizeDir (w_host v) (i_DataDir info)) = c_DataDir ctx
      else 0 < i_PID info \<and> c_DataDir ctx \<noteq> []
        \<and> (names_data_dir (c_DataDir ctx) (w_file v (proc_file (i_PID info) ''cmdline''))
           \<or> names_data_dir (''AGY_DATA_DIR='' @ c_DataDir ctx) (w_file v (proc_file (i_PID info) ''environ''))))"

definition config_in :: "world \<Rightarrow> 'stats DaemonInfo \<Rightarrow> InstanceContext \<Rightarrow> bool" where
  "config_in v info ctx \<longleftrightarrow>
     (if i_ConfigPath info \<noteq> [] \<and> c_ConfigPath ctx \<noteq> [] then
        or_empty (CanonicalizeFile (w_host v) (i_ConfigPath info)) = c_ConfigPath ctx
        \<and> (i_ConfigHash info = [] \<or> c_ConfigHash ctx = [] \<or> i_ConfigHash info = c_ConfigHash ctx)
      else i_ConfigPath info = c_ConfigPath ctx)"

lemma answer_data_dir: "answer (data_dir_verdict (\<lambda>_. v) info ctx) s = None \<longleftrightarrow> owned_in v info ctx"
  by (simp add: data_dir_verdict_def owned_in_def isProcessOwnedByDataDir_def)

lemma answer_config: "answer (config_verdict (\<lambda>_. v) info ctx) s \<longleftrightarrow> \<not> config_in v info ctx"
  by (auto simp: config_verdict_def config_in_def)

lemma answer_exact:
  assumes "agy_in v (i_PID info)"
  shows "answer (MatchesInstance (\<lambda>_. v) (Some info) ctx) s = MatchExact \<longleftrightarrow>
    owned_in v info ctx \<and> \<not> other_port info ctx \<and> config_in v info ctx
    \<and> (i_Version info = [] \<or> c_Version ctx = [] \<or> i_Version info = c_Version ctx)"
proof -
  have a: "alive_in v (i_PID info)" "0 < i_PID info" using assms by (auto simp: agy_in_def alive_in_def)
  show ?thesis
  proof (cases "owned_in v info ctx")
    case True
    then have "answer (data_dir_verdict (\<lambda>_. v) info ctx) s' = None" for s' by (simp add: answer_data_dir)
    then show ?thesis using a assms True by (auto simp: MatchesInstance_def answer_config)
  next
    case False
    then have none: "answer (data_dir_verdict (\<lambda>_. v) info ctx) s' \<noteq> None" for s' by (simp add: answer_data_dir)
    have exact: "answer (data_dir_verdict (\<lambda>_. v) info ctx) s' \<noteq> Some MatchExact" for s'
      by (simp add: data_dir_verdict_def)
    have "answer (MatchesInstance (\<lambda>_. v) (Some info) ctx) s \<noteq> MatchExact"
      using none exact a assms by (auto simp: MatchesInstance_def simp del: not_None_eq split: option.split)
    then show ?thesis using False by simp
  qed
qed

lemma Clean_nonempty [simp]: "Clean p \<noteq> []"
  by (simp add: Clean_def Let_def)

lemma pid_file_of_nonempty: "pid_file_of ctx f \<noteq> []"
  by (simp add: pid_file_of_def PIDFile_def Join_def Let_def)

section \<open>The ancestor loop ends\<close>

definition weight :: "string list \<Rightarrow> nat" where
  "weight ws = (\<Sum>w\<leftarrow>ws. length w + 1)"

lemma weight_simps [simp]: "weight [] = 0" "weight (w # ws) = length w + 1 + weight ws"
  "weight (us @ ws) = weight us + weight ws" "weight (rev ws) = weight ws"
  by (simp_all add: weight_def rev_map [symmetric])

lemma weight_split: "weight (split_on c s) = length s + 1"
  by (induction s) (auto split: list.split)

lemma weight_join: "ws \<noteq> [] \<Longrightarrow> length (join [c] ws) + 1 = weight ws"
  by (induction ws rule: induct_list012) auto

lemma weight_clean: "weight (foldl (clean_step r) out ws) \<le> weight out + weight (filter (\<lambda>w. w \<noteq> []) ws)"
proof (induction ws arbitrary: out)
  case (Cons w ws)
  have "weight (clean_step r out w) \<le> weight out + (if w = [] then 0 else length w + 1)"
    by (auto simp: clean_step_def split: list.split)
  then show ?case using Cons [of "clean_step r out w"] by (auto split: if_splits)
qed simp

lemma weight_filter: "weight (filter (\<lambda>w. w \<noteq> []) ws) + length (filter (\<lambda>w. w = []) ws) = weight ws"
  by (induction ws) auto

lemma Clean_rooted_shorter:
  assumes "q \<noteq> []"
  shows "length (Clean (CHR ''/'' # q @ ''/'')) < length (CHR ''/'' # q @ ''/'')"
proof -
  let ?p = "CHR ''/'' # q @ ''/''"
  let ?out = "foldl (clean_step True) [] (split_on (CHR ''/'') ?p)"
  have sp: "split_on (CHR ''/'') (q @ ''/'') = split_on (CHR ''/'') q @ [[]]"
    by (induction q) (auto split: list.split)
  have f: "weight (filter (\<lambda>w. w \<noteq> []) (split_on (CHR ''/'') q)) \<le> length q + 1"
    using weight_filter [of "split_on (CHR ''/'') q"] weight_split [of "CHR ''/''" q] by simp
  then have w: "weight ?out \<le> length q + 1"
    using weight_clean [of True "[]" "split_on (CHR ''/'') ?p"] by (simp add: sp)
  have "length (join ''/'' (rev ?out)) \<le> length q"
    using weight_join [of "rev ?out" "CHR ''/''"] w by (cases "rev ?out = []") auto
  then show ?thesis by (simp add: Clean_def IsAbs_slash Let_def)
qed

lemma Dir_shorter:
  assumes "IsAbs p" and "Dir p \<noteq> p"
  shows "length (Dir p) < length p"
proof -
  let ?d = "rev (dropWhile (\<lambda>c. c \<noteq> CHR ''/'') (rev p))"
  obtain r where p: "p = CHR ''/'' # r" using assms(1) by (auto simp: IsAbs_def has_prefix_def prefix_def)
  have le: "length ?d \<le> length p" using length_dropWhile_le [of "\<lambda>c. c \<noteq> CHR ''/''" "rev p"] by simp
  have "\<exists>u. ?d = CHR ''/'' # u" by (simp add: p dropWhile_last)
  then obtain u where u: "?d = CHR ''/'' # u" by blast
  have "dropWhile (\<lambda>c. c \<noteq> CHR ''/'') (rev p) \<noteq> []" using u by auto
  from hd_dropWhile [OF this] have last: "last ?d = CHR ''/''" by (simp add: last_rev)
  show ?thesis
  proof (cases "u = []")
    case True
    then have "Dir p = ''/''" using u by (simp add: Dir_def) code_simp
    then show ?thesis using assms(2) by (cases r) (auto simp: p)
  next
    case False
    then obtain q where q: "u = q @ ''/''" using last u by (metis append_butlast_last_id last_ConsR)
    show ?thesis
    proof (cases "q = []")
      case True
      then have "Dir p = ''/''" using u q by (simp add: Dir_def) code_simp
      then show ?thesis using le u q by simp
    next
      case False
      from Clean_rooted_shorter [OF this] show ?thesis using le u q by (simp add: Dir_def)
    qed
  qed
qed

lemma deepest_existing_ends:
  "IsAbs p \<Longrightarrow> length p \<le> n \<Longrightarrow> deepest_existing n h p rest = deepest_existing (length p + k) h p rest"
proof (induction "length p" arbitrary: n p rest k rule: less_induct)
  case less
  obtain m where m: "n = Suc m" using less.prems by (cases n) (auto simp: IsAbs_def has_prefix_def)
  obtain l where l: "length p = Suc l" using less.prems by (cases p) (auto simp: IsAbs_def has_prefix_def)
  show ?case
  proof (cases "Dir p = p")
    case True
    then show ?thesis by (simp add: m l)
  next
    case False
    have s: "length (Dir p) < length p" "IsAbs (Dir p)" using Dir_shorter [OF less.prems(1) False] IsAbs_Dir less.prems by auto
    have "deepest_existing m h (Dir p) (Base p # rest)
        = deepest_existing (length (Dir p) + (l + k - length (Dir p))) h (Dir p) (Base p # rest)"
      by (rule less.hyps) (use s l m less.prems in auto)
    then have "deepest_existing m h (Dir p) (Base p # rest) = deepest_existing (l + k) h (Dir p) (Base p # rest)"
      using s(1) l by simp
    then show ?thesis using False by (simp add: m l Let_def split: option.split)
  qed
qed

lemma canonical_dir: "IsAbs p \<Longrightarrow> Clean p = p \<Longrightarrow> h_eval h p = Some p \<Longrightarrow> CanonicalizeDir h p = Some p"
  by (auto simp: CanonicalizeDir_def Abs_def expandUser_def IsAbs_def has_prefix_def prefix_def)

lemma canonical_file: "IsAbs p \<Longrightarrow> Clean p = p \<Longrightarrow> h_eval h p = Some p \<Longrightarrow> CanonicalizeFile h p = Some p"
  by (auto simp: CanonicalizeFile_def Abs_def expandUser_def IsAbs_def has_prefix_def prefix_def)

lemma running_iff:
  "fst (answer (CheckStatusWithFile d (\<lambda>_. v) ctx f) s) = StatusRunningSameInstance \<longleftrightarrow>
   (\<exists>info. decode_pid_file d (w_file v (pid_file_of ctx f)) = Inr info \<and> agy_in v (i_PID info)
      \<and> owned_in v info ctx \<and> \<not> other_port info ctx \<and> config_in v info ctx
      \<and> (c_Version ctx = [] \<or> i_Version info = c_Version ctx)
      \<and> w_listening v (if c_ListenPort ctx \<le> 0 then s_DefaultPort d else c_ListenPort ctx)
      \<and> binary_current d v info)"
proof (cases "decode_pid_file d (w_file v (pid_file_of ctx f))")
  case (Inl e)
  then show ?thesis by (simp add: CheckStatusWithFile_def Let_def)
next
  case (Inr info)
  show ?thesis
  proof (cases "agy_in v (i_PID info)")
    case False
    then show ?thesis using Inr by (auto simp: CheckStatusWithFile_def Let_def agy_in_def)
  next
    case True
    have i: "info_in d v (pid_file_of ctx f) = Some info" using Inr True by (simp add: info_in_def)
    have al: "alive_in v (i_PID info)" using True by (simp add: agy_in_def)
    let ?E = "owned_in v info ctx \<and> \<not> other_port info ctx \<and> config_in v info ctx
      \<and> (i_Version info = [] \<or> c_Version ctx = [] \<or> i_Version info = c_Version ctx)"
    show ?thesis
    proof (cases ?E)
      case e: True
      then have "answer (MatchesInstance (\<lambda>_. v) (Some info) ctx) s' = MatchExact" for s'
        using answer_exact [OF True, of ctx s'] by blast
      then show ?thesis
        using True al Inr e answer_outdated [OF pid_file_of_nonempty i, of "c_ListenPort ctx"]
        by (auto simp: CheckStatusWithFile_def Let_def binary_current_def)
    next
      case False
      then have "answer (MatchesInstance (\<lambda>_. v) (Some info) ctx) s' \<noteq> MatchExact" for s'
        using answer_exact [OF True, of ctx s'] by blast
      then show ?thesis
        using True al Inr False by (auto simp: CheckStatusWithFile_def Let_def binary_current_def split: MatchResult.split)
    qed
  qed
qed

lemma resolved_port_positive:
  "(0 < s_DefaultPort d \<longrightarrow> 0 < resolved_port d v port cfg) \<and> (0 < port \<longrightarrow> resolved_port d v port cfg = port)"
proof (cases "positive_env_port v")
  case None
  then show ?thesis by (simp add: resolved_port_def split: option.split)
next
  case (Some p)
  then have "0 < p" by (auto simp: positive_env_port_def Let_def split: option.splits if_splits)
  then show ?thesis using Some by (simp add: resolved_port_def split: option.split)
qed

section \<open>Properties\<close>


text \<open>C32: A resolved instance never lives in a protected directory, listens on some address, has a positive
  port as soon as the default port is one, and takes an explicit port as it is.\<close>

theorem resolved_instance_usable:
  assumes "ResolveInstanceContext d v dataDir configPath port listenHost = Inr ctx"
  shows "\<not> isProtectedProductionDir (w_guard v) (c_DataDir ctx) \<and> c_ListenHost ctx \<noteq> []
    \<and> (0 < s_DefaultPort d \<longrightarrow> 0 < c_ListenPort ctx) \<and> (0 < port \<longrightarrow> c_ListenPort ctx = port)"
proof -
  obtain cfg lh where "\<not> isProtectedProductionDir (w_guard v) (c_DataDir ctx)" "c_ListenPort ctx = resolved_port d v port cfg"
    "c_ListenHost ctx = (if lh = [] then ''127.0.0.1'' else lh)"
    using assms by (auto simp: ResolveInstanceContext_def Let_def simp del: if_split split: option.splits if_split_asm)
  then show ?thesis using resolved_port_positive [of d v port cfg] by simp
qed

definition demo_ctx :: InstanceContext where
  "demo_ctx = \<lparr>c_DataDir = ''/d'', c_ConfigPath = [], c_ConfigHash = [], c_ListenHost = ''127.0.0.1'', c_ListenPort = 8899,
     c_BinaryPath = ''/bin/agy-pool'', c_Version = ''1''\<rparr>"

lemma demo_canonical: "CanonicalizeDir demo_disk ''/d'' = Some ''/d''" "\<not> isProtectedProductionDir demo_guard ''/d''"
proof -
  have "Clean ''/d'' = ''/d''" by code_simp
  then show "CanonicalizeDir demo_disk ''/d'' = Some ''/d''" "\<not> isProtectedProductionDir demo_guard ''/d''"
    by (simp_all add: CanonicalizeDir_def Abs_def expandUser_def IsAbs_slash has_prefix_def demo_disk_def
        isProtectedProductionDir_def under_def demo_guard_def)
qed

lemma demo_no_config: "instance_config d (demo_world\<lparr>w_file := f\<rparr>) [] = Some ([], [], None)"
  "instance_config d demo_world [] = Some ([], [], None)"
proof -
  have "ResolveDefaultConfigFile (demo_world\<lparr>w_file := f\<rparr>) = []" "ResolveDefaultConfigFile demo_world = []"
    by (simp_all add: ResolveDefaultConfigFile_def Let_def)
  then show "instance_config d (demo_world\<lparr>w_file := f\<rparr>) [] = Some ([], [], None)"
    "instance_config d demo_world [] = Some ([], [], None)" by (simp_all add: instance_config_def Let_def)
qed

lemma demo_paths [simp]: "PIDFile demo_ctx = ''/d/agy-pool.pid''" "RuntimeFile demo_ctx = ''/d/agy-pool-runtime.json''"
  "LogFile demo_ctx = ''/d/agy-pool.log''"
proof -
  have "Join [''/d'', ''agy-pool.pid''] = ''/d/agy-pool.pid''" "Join [''/d'', ''agy-pool-runtime.json''] = ''/d/agy-pool-runtime.json''"
    "Join [''/d'', ''agy-pool.log''] = ''/d/agy-pool.log''" by code_simp+
  then show "PIDFile demo_ctx = ''/d/agy-pool.pid''" "RuntimeFile demo_ctx = ''/d/agy-pool-runtime.json''"
    "LogFile demo_ctx = ''/d/agy-pool.log''" by (simp_all add: PIDFile_def RuntimeFile_def LogFile_def demo_ctx_def)
qed

lemma demo_resolves: "ResolveInstanceContext demo_daemon demo_world ''/d'' [] 8899 [] = Inr demo_ctx"
  by (simp add: ResolveInstanceContext_def demo_canonical demo_no_config resolved_port_def demo_ctx_def demo_daemon_def)

theorem resolved_instance_usable_witness:
  "\<not> isProtectedProductionDir (w_guard demo_world) ''/d'' \<and> c_ListenPort demo_ctx = 8899"
  using resolved_instance_usable [OF demo_resolves] by (simp add: demo_ctx_def)

end
