(* ===== verification/Daemon_Server.thy ===== *)
theory Daemon_Server
  imports Daemon_Instance
begin

text \<open>
  internal/daemon/server.go and the lock of pid.go: the life of the gateway process, from the PID lock to
  the deferred releases. Serving is one step that ends with an error of Serve or with the
  cancellation of the context; the goroutines it starts are in other theories or not modelled.
\<close>

section \<open>The PID lock\<close>

datatype lock_error = LockUnsafe guard_error | LockDirFailed | LockOpenFailed | DaemonAlreadyRunning | LockError

definition lock_path :: "string \<Rightarrow> string" where
  "lock_path pidFile = pidFile @ ''.lock''"

definition TryAcquirePIDLock :: "(nat \<Rightarrow> world) \<Rightarrow> string \<Rightarrow> lock_error option op" where
  "TryAcquirePIDLock w pidFile = do {
     u1 \<leftarrow> look w (\<lambda>v. AssertSafeWritePath (w_guard v) (w_host v) pidFile);
     case u1 of Some e \<Rightarrow> return (Some (LockUnsafe e)) | None \<Rightarrow> do {
       u2 \<leftarrow> look w (\<lambda>v. AssertSafeWritePath (w_guard v) (w_host v) (lock_path pidFile));
       case u2 of Some e \<Rightarrow> return (Some (LockUnsafe e)) | None \<Rightarrow> do {
         dir \<leftarrow> perform w (MakeDir (Dir (lock_path pidFile))) (\<lambda>v. w_mkdir v (Dir (lock_path pidFile)));
         if \<not> dir then return (Some LockDirFailed)
         else do {
           opened \<leftarrow> look w (\<lambda>v. w_open v (lock_path pidFile));
           if \<not> opened then return (Some LockOpenFailed)
           else do {
             l \<leftarrow> perform w (TryLock (lock_path pidFile)) w_flock;
             return (case l of LockGranted \<Rightarrow> None | LockBusy \<Rightarrow> Some DaemonAlreadyRunning | LockFailed \<Rightarrow> Some LockError)
           }
         }
       }
     }
   }"

section \<open>Writing the PID file\<close>

definition WritePIDFile :: "(nat \<Rightarrow> world) \<Rightarrow> string \<Rightarrow> 'stats DaemonInfo \<Rightarrow> bool op" where
  "WritePIDFile w path info = do {
     u \<leftarrow> look w (\<lambda>v. AssertSafeWritePath (w_guard v) (w_host v) path);
     if u \<noteq> None then return False else perform w (WriteFile path) (\<lambda>v. w_write v path)
   }"

definition written_info :: "'stats DaemonInfo \<Rightarrow> 'stats DaemonInfo" where
  "written_info = fill_listen"

definition pid_info :: "InstanceContext \<Rightarrow> int \<Rightarrow> int \<Rightarrow> int \<Rightarrow> 'stats \<Rightarrow> 'stats DaemonInfo" where
  "pid_info ctx pid scriptMtime actualPort stats =
     \<lparr>i_PID = pid, i_Version = c_Version ctx, i_ScriptMtime = scriptMtime, i_ConfigPath = c_ConfigPath ctx,
      i_ConfigHash = c_ConfigHash ctx, i_DataDir = c_DataDir ctx, i_ListenHost = c_ListenHost ctx,
      i_Listen = c_ListenHost ctx, i_Port = actualPort, i_Runtime = Some stats\<rparr>"

definition script_mtime :: "world \<Rightarrow> string \<Rightarrow> int" where
  "script_mtime v exe = (case w_mtime v exe of Some t \<Rightarrow> t | None \<Rightarrow> w_now v div 10 ^ 9)"

section \<open>RunForeground\<close>

record ServerOptions =
  so_Port :: int
  so_EphemeralPort :: bool
  so_PIDFile :: string
  so_Instance :: "InstanceContext option"

datatype serve_error = NoInstance resolve_error | ServeUnsafe guard_error | TestPort int | NoLock lock_error
  | PortOccupied | PIDWriteFailed | ServeFailed bool bool \<comment> \<open>of Serve, of Shutdown\<close>

definition server_port :: "ServerOptions \<Rightarrow> InstanceContext \<Rightarrow> int" where
  "server_port opts ctx = (if so_Port opts \<le> 0 \<and> \<not> so_EphemeralPort opts then c_ListenPort ctx else so_Port opts)"

definition server_context :: "'stats daemon_std \<Rightarrow> world \<Rightarrow> ServerOptions \<Rightarrow> resolve_error + InstanceContext" where
  "server_context d v opts =
     (case so_Instance opts of Some ctx \<Rightarrow> Inr ctx
      | None \<Rightarrow> ResolveInstanceContext d v (if so_PIDFile opts = [] then s_DataDir d else Dir (so_PIDFile opts)) []
          (so_Port opts) [])"

text \<open>Serving until the end, then Shutdown; Close only when Shutdown fails.\<close>

definition serve_until_done :: "(nat \<Rightarrow> world) \<Rightarrow> serve_error option op" where
  "serve_until_done w = do {
     failed \<leftarrow> perform w Serve w_serve_failed;
     shut \<leftarrow> perform w Shutdown w_shutdown;
     if shut then return (if failed then Some (ServeFailed True False) else None)
     else do {
       _ \<leftarrow> perform w CloseServer (\<lambda>v. True);
       return (Some (ServeFailed failed True))
     }
   }"

text \<open>From the written PID file on; the deferred calls run in the reverse order.\<close>

definition serve_with_pid_file ::
    "'stats daemon_std \<Rightarrow> (nat \<Rightarrow> world) \<Rightarrow> InstanceContext \<Rightarrow> string \<Rightarrow> int \<Rightarrow> serve_error option op" where
  "serve_with_pid_file d w ctx pidFile pid = do {
     u \<leftarrow> look w (\<lambda>v. AssertSafeWritePath (w_guard v) (w_host v) (RuntimeFile ctx));
     _ \<leftarrow> (if u \<noteq> None then return False else perform w (WriteFile (RuntimeFile ctx)) (\<lambda>v. w_write v (RuntimeFile ctx)));
     err \<leftarrow> serve_until_done w;
     _ \<leftarrow> perform w (RemoveFile (RuntimeFile ctx)) (\<lambda>v. w_remove v (RuntimeFile ctx));
     _ \<leftarrow> RemovePIDFileIfOwned d w pidFile pid;
     return err
   }"

definition serve_listening :: "'stats daemon_std \<Rightarrow> (nat \<Rightarrow> world) \<Rightarrow> 'stats \<Rightarrow> InstanceContext \<Rightarrow> string \<Rightarrow> int
    \<Rightarrow> serve_error option op" where
  "serve_listening d w stats ctx pidFile actualPort = do {
     mt \<leftarrow> look w (\<lambda>v. script_mtime v (c_BinaryPath ctx));
     pid \<leftarrow> look w w_getpid;
     written \<leftarrow> WritePIDFile w pidFile (pid_info ctx pid mt actualPort stats);
     err \<leftarrow> (if written then serve_with_pid_file d w ctx pidFile pid else return (Some PIDWriteFailed));
     _ \<leftarrow> perform w CloseListener (\<lambda>v. True);
     return err
   }"

definition serve_locked :: "'stats daemon_std \<Rightarrow> (nat \<Rightarrow> world) \<Rightarrow> 'stats \<Rightarrow> InstanceContext \<Rightarrow> string \<Rightarrow> int
    \<Rightarrow> serve_error option op" where
  "serve_locked d w stats ctx pidFile port = do {
     b \<leftarrow> perform w (BindListener (c_ListenHost ctx) port) w_bind;
     err \<leftarrow> (case b of None \<Rightarrow> return (Some PortOccupied) | Some actual \<Rightarrow> serve_listening d w stats ctx pidFile actual);
     _ \<leftarrow> perform w (Unlock (lock_path pidFile)) (\<lambda>v. True);
     return err
   }"

definition RunForeground ::
    "'stats daemon_std \<Rightarrow> (nat \<Rightarrow> world) \<Rightarrow> 'stats \<Rightarrow> ServerOptions \<Rightarrow> serve_error option op" where
  "RunForeground d w stats opts = do {
     c \<leftarrow> look w (\<lambda>v. server_context d v opts);
     case c of Inl e \<Rightarrow> return (Some (NoInstance e)) | Inr ctx \<Rightarrow>
       let pidFile = pid_file_of ctx (so_PIDFile opts); port = server_port opts ctx in do {
         u \<leftarrow> look w (\<lambda>v. AssertSafeWritePath (w_guard v) (w_host v) pidFile);
         case u of Some e \<Rightarrow> return (Some (ServeUnsafe e)) | None \<Rightarrow> do {
           test \<leftarrow> look w (\<lambda>v. g_testMode (w_guard v));
           if test \<and> (port = 8899 \<or> port = 8901) then return (Some (TestPort port))
           else do {
             l \<leftarrow> TryAcquirePIDLock w pidFile;
             case l of Some e \<Rightarrow> return (Some (NoLock e)) | None \<Rightarrow> serve_locked d w stats ctx pidFile port
           }
         }
       }
   }"

section \<open>What the phases do\<close>

definition under_lock :: "effect \<Rightarrow> bool" where
  "under_lock e \<longleftrightarrow> (case e of BindListener h p \<Rightarrow> True | CloseListener \<Rightarrow> True | WriteFile p \<Rightarrow> True | RemoveFile p \<Rightarrow> True
     | Serve \<Rightarrow> True | Shutdown \<Rightarrow> True | CloseServer \<Rightarrow> True | _ \<Rightarrow> False)"

lemma under_lock_simps [simp]: "under_lock (BindListener h port)" "under_lock CloseListener" "under_lock (WriteFile p)"
  "under_lock (RemoveFile p)" "under_lock Serve" "under_lock Shutdown" "under_lock CloseServer" "\<not> under_lock (Unlock p)"
  by (simp_all add: under_lock_def)

lemma performs_serve [performing]: "performs under_lock (serve_until_done w)"
  unfolding serve_until_done_def by (auto intro!: performing)

lemma performs_with_pid_file [performing]: "performs under_lock (serve_with_pid_file d w ctx pidFile pid)"
  unfolding serve_with_pid_file_def by (auto intro!: performing)

lemma performs_write_pid [performing]: "performs under_lock (WritePIDFile w path info)"
  unfolding WritePIDFile_def by (auto intro!: performing)

lemma performs_listening [performing]: "performs under_lock (serve_listening d w stats ctx pidFile port)"
  unfolding serve_listening_def by (auto intro!: performing)

definition lock_attempt :: "(nat \<Rightarrow> world) \<Rightarrow> string \<Rightarrow> lock_error option \<Rightarrow> (nat \<times> effect) list \<Rightarrow> bool" where
  "lock_attempt w f r es \<longleftrightarrow>
     r \<noteq> None \<and> es = []
     \<or> r \<noteq> None \<and> (\<exists>m. es = [(m, MakeDir (Dir (lock_path f)))])
     \<or> (\<exists>m n. es = [(m, MakeDir (Dir (lock_path f))), (n, TryLock (lock_path f))] \<and> (r = None \<longleftrightarrow> w_flock (w n) = LockGranted))"

lemma wp_lock: "effects s = [] \<Longrightarrow> wp (TryAcquirePIDLock w f) (\<lambda>r s'. lock_attempt w f r (effects s')) s"
  by (simp add: TryAcquirePIDLock_def lock_attempt_def split: option.split lock_reply.split)

lemma wp_serve_locked:
  "wp (serve_locked d w stats ctx f port)
     (\<lambda>r s'. \<exists>es n. effects s' = effects s @ es @ [(n, Unlock (lock_path f))] \<and> list_all (under_lock \<circ> snd) es) s"
proof -
  have inner: "wp (case b of None \<Rightarrow> return (Some PortOccupied) | Some actual \<Rightarrow> serve_listening d w stats ctx f actual)
      (\<lambda>x s'. \<exists>es. effects s' = effects s1 @ es \<and> list_all (under_lock \<circ> snd) es) s1" for b s1
    using performs_listening [of d w stats ctx f] by (cases b) (simp_all add: performs_def)
  show ?thesis unfolding serve_locked_def wp_bind wp_perform wp_return
  proof (rule wp_mono [OF inner])
    fix x :: "serve_error option" and s' :: run
    let ?b = "BindListener (c_ListenHost ctx) port" and ?u = "Unlock (lock_path f)"
    assume "\<exists>es. effects s' = effects (s\<lparr>tick := Suc (tick s), effects := effects s @ [(tick s, ?b)]\<rparr>) @ es
      \<and> list_all (under_lock \<circ> snd) es"
    then obtain es where "effects s' = effects s @ (tick s, ?b) # es" "list_all (under_lock \<circ> snd) es" by auto
    then show "\<exists>es n. effects (s'\<lparr>tick := Suc (tick s'), effects := effects s' @ [(tick s', ?u)]\<rparr>) = effects s @ es @ [(n, ?u)]
      \<and> list_all (under_lock \<circ> snd) es"
      by (intro exI [of _ "(tick s, ?b) # es"] exI [of _ "tick s'"]) simp
  qed
qed

definition bracketed :: "(nat \<Rightarrow> world) \<Rightarrow> (nat \<times> effect) list \<Rightarrow> bool" where
  "bracketed w es \<longleftrightarrow> (\<exists>f m n body k.
     es = [(m, MakeDir (Dir (lock_path f))), (n, TryLock (lock_path f))] @ body @ [(k, Unlock (lock_path f))]
     \<and> w_flock (w n) = LockGranted \<and> list_all (under_lock \<circ> snd) body)"

definition only_tried :: "(nat \<Rightarrow> world) \<Rightarrow> (nat \<times> effect) list \<Rightarrow> bool" where
  "only_tried w es \<longleftrightarrow> (\<forall>(n, e) \<in> set es. \<exists>f. e = MakeDir (Dir (lock_path f))
     \<or> e = TryLock (lock_path f) \<and> w_flock (w n) \<noteq> LockGranted)"

lemma only_tried_Nil [simp]: "only_tried w []"
  by (simp add: only_tried_def)

lemma wp_lock_then_serve:
  assumes "effects s = []"
  shows "wp (TryAcquirePIDLock w f)
    (\<lambda>l. wp (case l of None \<Rightarrow> serve_locked d w stats ctx f port | Some e \<Rightarrow> return (Some (NoLock e)))
       (\<lambda>r s'. bracketed w (effects s') \<or> r \<noteq> None \<and> only_tried w (effects s'))) s"
proof (rule wp_mono [OF wp_lock [OF assms]])
  fix l :: "lock_error option" and s1 :: run
  assume l: "lock_attempt w f l (effects s1)"
  show "wp (case l of None \<Rightarrow> serve_locked d w stats ctx f port | Some e \<Rightarrow> return (Some (NoLock e)))
    (\<lambda>r s'. bracketed w (effects s') \<or> r \<noteq> None \<and> only_tried w (effects s')) s1"
  proof (cases l)
    case None
    then obtain n m where s1: "effects s1 = [(m, MakeDir (Dir (lock_path f))), (n, TryLock (lock_path f))]"
      "w_flock (w n) = LockGranted" using l by (auto simp: lock_attempt_def)
    have "wp (serve_locked d w stats ctx f port) (\<lambda>r s'. bracketed w (effects s') \<or> r \<noteq> None \<and> only_tried w (effects s')) s1"
    proof (rule wp_mono [OF wp_serve_locked])
      fix r s'
      assume "\<exists>es k. effects s' = effects s1 @ es @ [(k, Unlock (lock_path f))] \<and> list_all (under_lock \<circ> snd) es"
      then have "bracketed w (effects s')" unfolding bracketed_def s1(1) using s1(2) by simp blast
      then show "bracketed w (effects s') \<or> r \<noteq> None \<and> only_tried w (effects s')" ..
    qed
    then show ?thesis using None by simp
  next
    case (Some e)
    then have "only_tried w (effects s1)" using l by (auto simp: only_tried_def lock_attempt_def)
    then show ?thesis using Some by simp
  qed
qed

section \<open>Properties\<close>



abbreviation demo_options :: ServerOptions where
  "demo_options \<equiv> \<lparr>so_Port = 0, so_EphemeralPort = False, so_PIDFile = [], so_Instance = Some demo_ctx\<rparr>"


text \<open>A world in which process 42 left a complete PID file and has the given command line.\<close>

definition demo_json :: "unit daemon_std" where
  "demo_json = demo_daemon\<lparr>json_info := \<lambda>s. Some (pid_info demo_ctx 42 0 8899 ())\<rparr>"

definition demo_up :: "string \<Rightarrow> world" where
  "demo_up c = demo_world\<lparr>w_file := \<lambda>p. if p = ''/d/agy-pool.pid'' then Data ''{}''
     else if p = ''/proc/42/cmdline'' then Data c else NotExist\<rparr>"

lemma demo_info [simp]: "i_PID (pid_info demo_ctx 42 0 8899 x) = 42" "i_DataDir (pid_info demo_ctx 42 0 8899 x) = ''/d''"
  "i_Port (pid_info demo_ctx 42 0 8899 x) = 8899" "i_ConfigPath (pid_info demo_ctx 42 0 8899 x) = []"
  "c_DataDir demo_ctx = ''/d''" "c_ListenPort demo_ctx = 8899" "c_ConfigPath demo_ctx = []"
  "fill_listen (pid_info demo_ctx 42 0 8899 x) = pid_info demo_ctx 42 0 8899 x"
  by (simp_all add: pid_info_def demo_ctx_def fill_listen_def Let_def)

lemma demo_up_simps [simp]:
  "w_host (demo_up c) = demo_disk" "w_guard (demo_up c) = demo_guard" "w_mtime (demo_up c) x = None" "w_now (demo_up c) = 0"
  "w_listening (demo_up c) i = (i = 8899)" "w_file (demo_up c) ''/proc/42/cmdline'' = Data c"
  "w_file (demo_up c) ''/d/agy-pool.pid'' = Data ''{}''" "alive_in (demo_up c) 42"
  "decode_pid_file demo_json (Data ''{}'') = Inr (pid_info demo_ctx 42 0 8899 ())"
  using demo_decode_json [of "pid_info demo_ctx 42 0 8899 ()"]
  by (simp_all add: demo_up_def alive_in_def demo_json_def)


end
