(* ===== verification/Daemon_Control.thy ===== *)
theory Daemon_Control
  imports Daemon_Server
begin

text \<open>
  internal/daemon/control.go and lifecycle.go: stopping, starting and restarting an instance from the
  command line. The wait for a process to end is bounded by the number of polls n; stop_returns
  shows which n is enough when the clock moves.
\<close>

section \<open>Stopping\<close>

datatype stop_error = NoStopContext | BadStopContext resolve_error | StopUnsafe guard_error | NotRunning
  | MalformedWhileListening | PIDReused | ForeignDataDir | UnverifiedLegacy | StopOtherPort | StopConfigMismatch
  | SignalFailed | StillAlive | StillWaiting \<comment> \<open>the n polls of the model are used up\<close>

definition config_refusal :: "(nat \<Rightarrow> world) \<Rightarrow> 'stats DaemonInfo \<Rightarrow> InstanceContext \<Rightarrow> bool op" where
  "config_refusal w info ctx =
     (if c_ConfigPath ctx = [] then return False
      else if i_ConfigPath info = [] then return True
      else look w (\<lambda>v. or_empty (CanonicalizeFile (w_host v) (i_ConfigPath info)) \<noteq> c_ConfigPath ctx))"

text \<open>The validations 2 to 4.\<close>

definition stop_refusal :: "(nat \<Rightarrow> world) \<Rightarrow> 'stats DaemonInfo \<Rightarrow> InstanceContext \<Rightarrow> stop_error option op" where
  "stop_refusal w info ctx = do {
     dv \<leftarrow> data_dir_verdict w info ctx;
     case dv of
       Some m \<Rightarrow> return (Some (if m = MatchForeign then ForeignDataDir else UnverifiedLegacy))
     | None \<Rightarrow>
         if other_port info ctx then return (Some StopOtherPort)
         else do {
           c \<leftarrow> config_refusal w info ctx;
           return (if c then Some StopConfigMismatch else None)
         }
   }"

text \<open>True when the loop ended, by the end of the process or by the deadline.\<close>

fun wait_exit :: "nat \<Rightarrow> (nat \<Rightarrow> world) \<Rightarrow> int \<Rightarrow> int \<Rightarrow> bool op" where
  "wait_exit 0 w deadline pid = return False"
| "wait_exit (Suc n) w deadline pid = do {
     now \<leftarrow> look w w_now;
     if deadline \<le> now then return True
     else do {
       alive \<leftarrow> IsProcessAlive w pid;
       if \<not> alive then return True else wait_exit n w deadline pid
     }
   }"

definition terminate_and_wait :: "'stats daemon_std \<Rightarrow> (nat \<Rightarrow> world) \<Rightarrow> nat \<Rightarrow> string \<Rightarrow> int \<Rightarrow> int \<Rightarrow> stop_error option op" where
  "terminate_and_wait d w n pidFile pid timeout = do {
     k \<leftarrow> perform w (Terminate pid) (\<lambda>v. w_term v pid);
     if k = KillPerm \<or> k = KillFailed then return (Some SignalFailed)
     else do {
       t0 \<leftarrow> look w w_now;
       ended \<leftarrow> wait_exit n w (t0 + (if timeout \<le> 0 then 3000000000 else timeout)) pid;
       if \<not> ended then return (Some StillWaiting)
       else do {
         alive \<leftarrow> IsProcessAlive w pid;
         if alive then return (Some StillAlive)
         else do {
           _ \<leftarrow> RemovePIDFileIfOwned d w pidFile pid;
           return None
         }
       }
     }
   }"

definition remove_file :: "(nat \<Rightarrow> world) \<Rightarrow> string \<Rightarrow> 'a \<Rightarrow> 'a op" where
  "remove_file w path x = do {
     _ \<leftarrow> perform w (RemoveFile path) (\<lambda>v. w_remove v path);
     return x
   }"

text \<open>From a PID file that decodes on.\<close>

definition stop_process :: "'stats daemon_std \<Rightarrow> (nat \<Rightarrow> world) \<Rightarrow> nat \<Rightarrow> InstanceContext \<Rightarrow> string \<Rightarrow> int \<Rightarrow> 'stats DaemonInfo
    \<Rightarrow> stop_error option op" where
  "stop_process d w n ctx pidFile timeout info = do {
     alive \<leftarrow> IsProcessAlive w (i_PID info);
     if \<not> alive then remove_file w pidFile None
     else do {
       agy \<leftarrow> IsAgyPoolProcess w (i_PID info);
       if \<not> agy then remove_file w pidFile (Some PIDReused)
       else do {
         no \<leftarrow> stop_refusal w info ctx;
         case no of Some e \<Rightarrow> return (Some e)
         | None \<Rightarrow> terminate_and_wait d w n pidFile (i_PID info) timeout
       }
     }
   }"

definition stopWithFile :: "'stats daemon_std \<Rightarrow> (nat \<Rightarrow> world) \<Rightarrow> nat \<Rightarrow> InstanceContext \<Rightarrow> string \<Rightarrow> int \<Rightarrow> stop_error option op" where
  "stopWithFile d w n ctx pidFile timeout = do {
     u \<leftarrow> look w (\<lambda>v. AssertSafeWritePath (w_guard v) (w_host v) pidFile);
     case u of Some e \<Rightarrow> return (Some (StopUnsafe e)) | None \<Rightarrow> do {
       r \<leftarrow> ReadPIDFile d w pidFile;
       case r of
         Inl e \<Rightarrow>
           if e = PIDNotFound then return (Some NotRunning)
           else do {
             listening \<leftarrow> IsPortListening d w (c_ListenPort ctx);
             if listening then return (Some MalformedWhileListening) else remove_file w pidFile None
           }
       | Inr info \<Rightarrow> stop_process d w n ctx pidFile timeout info
     }
   }"

definition StopInstance :: "'stats daemon_std \<Rightarrow> (nat \<Rightarrow> world) \<Rightarrow> nat \<Rightarrow> InstanceContext option \<Rightarrow> int \<Rightarrow> stop_error option op" where
  "StopInstance d w n c timeout =
     (case c of None \<Rightarrow> return (Some NoStopContext) | Some ctx \<Rightarrow> stopWithFile d w n ctx (PIDFile ctx) timeout)"

definition StopDaemon :: "'stats daemon_std \<Rightarrow> (nat \<Rightarrow> world) \<Rightarrow> nat \<Rightarrow> string \<Rightarrow> int \<Rightarrow> int \<Rightarrow> stop_error option op" where
  "StopDaemon d w n pidFile0 port timeout = (let pidFile = pid_file_or_default d pidFile0 in do {
     info \<leftarrow> GetDaemonInfo d w pidFile;
     c \<leftarrow> look w (\<lambda>v. ResolveInstanceContext d v (Dir pidFile)
            (case info of None \<Rightarrow> [] | Some i \<Rightarrow> i_ConfigPath i) port []);
     case c of Inl e \<Rightarrow> return (Some (BadStopContext e)) | Inr ctx \<Rightarrow> stopWithFile d w n ctx pidFile timeout
   })"

section \<open>Starting\<close>

record LaunchOptions =
  o_Port :: int
  o_StateDir :: string
  o_ConfigFile :: string
  o_PIDFile :: string
  o_LogFile :: string
  o_EntrypointPath :: string
  o_Foreground :: bool
  o_RequireSameInstance :: bool
  o_NoRestart :: bool
  o_CustomArgs :: "string list"

record StartResult =
  r_PID :: int
  r_AlreadyRun :: bool
  r_WasRestarted :: bool

datatype start_error = NoStartContext | BadStartContext resolve_error | StartUnsafe guard_error | ForegroundEnded serve_error
  | CannotAutoStart InstanceStatus | OutdatedDaemonRunning | StopOutdated stop_error | ForeignPortOccupied
  | StartDirFailed | LogOpenFailed | SpawnFailed | NotReady | CannotRestart InstanceStatus

type_synonym started = "start_error + StartResult"

text \<open>What has to happen before a child is started: nothing more (Inl), or a spawn (Inr), with whether it restarts.\<close>

definition replace_outdated :: "'stats daemon_std \<Rightarrow> (nat \<Rightarrow> world) \<Rightarrow> nat \<Rightarrow> InstanceContext \<Rightarrow> LaunchOptions \<Rightarrow> string
    \<Rightarrow> (started + bool) op" where
  "replace_outdated d w n ctx opts pidFile = do {
     outdated \<leftarrow> IsDaemonOutdated d w pidFile (c_ListenPort ctx);
     if outdated then
       (if o_NoRestart opts then return (Inl (Inl OutdatedDaemonRunning))
        else do {
          e \<leftarrow> stopWithFile d w n ctx pidFile 5000000000;
          return (case e of Some x \<Rightarrow> Inl (Inl (StopOutdated x)) | None \<Rightarrow> Inr True)
        })
     else do {
       info \<leftarrow> GetDaemonInfo d w pidFile;
       return (Inl (Inr \<lparr>r_PID = (case info of None \<Rightarrow> 0 | Some i \<Rightarrow> i_PID i), r_AlreadyRun = True, r_WasRestarted = False\<rparr>))
     }
   }"

definition before_spawn :: "'stats daemon_std \<Rightarrow> (nat \<Rightarrow> world) \<Rightarrow> nat \<Rightarrow> InstanceContext \<Rightarrow> LaunchOptions \<Rightarrow> string
    \<Rightarrow> (started + bool) op" where
  "before_spawn d w n ctx opts pidFile = do {
     running \<leftarrow> IsDaemonRunning d w pidFile (c_ListenPort ctx);
     if running then
       (if o_RequireSameInstance opts then do {
          st \<leftarrow> CheckStatusWithFile d w ctx pidFile;
          case st of (status, i) \<Rightarrow>
            if status = StatusRunningSameInstance
            then return (Inl (Inr \<lparr>r_PID = (case i of None \<Rightarrow> 0 | Some info \<Rightarrow> i_PID info), r_AlreadyRun = True, r_WasRestarted = False\<rparr>))
            else if status = StatusOutdatedBinary then
              (if o_NoRestart opts then return (Inl (Inl OutdatedDaemonRunning)) else replace_outdated d w n ctx opts pidFile)
            else return (Inl (Inl (CannotAutoStart status)))
        }
        else replace_outdated d w n ctx opts pidFile)
     else do {
       listening \<leftarrow> IsPortListening d w (c_ListenPort ctx);
       return (if listening then Inl (Inl ForeignPortOccupied) else Inr False)
     }
   }"

definition child_env :: "InstanceContext \<Rightarrow> LaunchOptions \<Rightarrow> string list" where
  "child_env ctx opts =
     [''AGY_POOL_DAEMON_CHILD=1'', ''AGY_DATA_DIR='' @ c_DataDir ctx]
     @ (if c_ConfigPath ctx \<noteq> [] then [''AGY_CONFIG_FILE='' @ c_ConfigPath ctx] else [])
     @ (if 0 < c_ListenPort ctx then [''AGY_POOL_DAEMON_PORT='' @ int_string (c_ListenPort ctx)] else [])
     @ (if o_PIDFile opts \<noteq> [] then [''AGY_TEST_PID_FILE='' @ o_PIDFile opts] else [])"

text \<open>The readiness handshake, at most n rounds.\<close>

fun handshake :: "nat \<Rightarrow> 'stats daemon_std \<Rightarrow> (nat \<Rightarrow> world) \<Rightarrow> InstanceContext \<Rightarrow> string \<Rightarrow> bool op" where
  "handshake 0 d w ctx pidFile = return False"
| "handshake (Suc n) d w ctx pidFile = do {
     info \<leftarrow> GetDaemonInfo d w pidFile;
     ready \<leftarrow> (case info of
         None \<Rightarrow> return False
       | Some i \<Rightarrow>
           if i_PID i \<le> 0 then return False
           else do {
             alive \<leftarrow> IsProcessAlive w (i_PID i);
             if alive then IsPortListening d w (c_ListenPort ctx) else return False
           });
     if ready then return True
     else do {
       exited \<leftarrow> look w w_child_exited;
       if exited then return False else handshake n d w ctx pidFile
     }
   }"

definition await_child :: "'stats daemon_std \<Rightarrow> (nat \<Rightarrow> world) \<Rightarrow> InstanceContext \<Rightarrow> string \<Rightarrow> int \<Rightarrow> bool \<Rightarrow> started op" where
  "await_child d w ctx pidFile child wasRestarted = do {
     ready \<leftarrow> handshake 20 d w ctx pidFile;
     info \<leftarrow> GetDaemonInfo d w pidFile;
     case (if ready then (case info of Some i \<Rightarrow> if 0 < i_PID i then Some (i_PID i) else None | None \<Rightarrow> None) else None) of
       Some pid \<Rightarrow> return (Inr \<lparr>r_PID = pid, r_AlreadyRun = False, r_WasRestarted = wasRestarted\<rparr>)
     | None \<Rightarrow> do {
         _ \<leftarrow> perform w KillChild (\<lambda>v. True);
         _ \<leftarrow> perform w ReapChild (\<lambda>v. True);
         _ \<leftarrow> RemovePIDFileIfOwned d w pidFile child;
         return (Inl NotReady)
       }
   }"

fun make_dirs :: "(nat \<Rightarrow> world) \<Rightarrow> string list \<Rightarrow> bool op" where
  "make_dirs w [] = return True"
| "make_dirs w (dir # dirs) = do {
     ok \<leftarrow> perform w (MakeDir dir) (\<lambda>v. w_mkdir v dir);
     if ok then make_dirs w dirs else return False
   }"

definition spawn_child :: "'stats daemon_std \<Rightarrow> (nat \<Rightarrow> world) \<Rightarrow> InstanceContext \<Rightarrow> LaunchOptions \<Rightarrow> string \<Rightarrow> string \<Rightarrow> bool
    \<Rightarrow> started op" where
  "spawn_child d w ctx opts pidFile logFile wasRestarted = do {
     dirs \<leftarrow> make_dirs w [Dir pidFile, Dir logFile];
     if \<not> dirs then return (Inl StartDirFailed)
     else do {
       _ \<leftarrow> perform w (MakeDir (LocksDir ctx)) (\<lambda>v. w_mkdir v (LocksDir ctx));
       opened \<leftarrow> perform w (OpenLog logFile) (\<lambda>v. w_open v logFile);
       if \<not> opened then return (Inl LogOpenFailed)
       else do {
         child \<leftarrow> perform w (Spawn (if o_EntrypointPath opts = [] then s_Entrypoint d else o_EntrypointPath opts)
                    (o_CustomArgs opts) (child_env ctx opts)) w_start;
         case child of None \<Rightarrow> return (Inl SpawnFailed)
         | Some pid \<Rightarrow> await_child d w ctx pidFile pid wasRestarted
       }
     }
   }"

text \<open>In the foreground the process serves itself; its result carries its own pid.\<close>

definition start_in_foreground :: "'stats daemon_std \<Rightarrow> (nat \<Rightarrow> world) \<Rightarrow> 'stats \<Rightarrow> InstanceContext \<Rightarrow> string \<Rightarrow> started op" where
  "start_in_foreground d w stats ctx pidFile = do {
     e \<leftarrow> RunForeground d w stats
            \<lparr>so_Port = c_ListenPort ctx, so_EphemeralPort = False, so_PIDFile = pidFile, so_Instance = Some ctx\<rparr>;
     pid \<leftarrow> look w w_getpid;
     return (case e of Some x \<Rightarrow> Inl (ForegroundEnded x)
       | None \<Rightarrow> Inr \<lparr>r_PID = pid, r_AlreadyRun = False, r_WasRestarted = False\<rparr>)
   }"

definition log_file_of :: "InstanceContext \<Rightarrow> string \<Rightarrow> string" where
  "log_file_of ctx logFile = (if logFile = [] then LogFile ctx else logFile)"

definition StartInstance :: "'stats daemon_std \<Rightarrow> (nat \<Rightarrow> world) \<Rightarrow> nat \<Rightarrow> 'stats \<Rightarrow> InstanceContext option \<Rightarrow> LaunchOptions
    \<Rightarrow> started op" where
  "StartInstance d w n stats c opts =
     (case c of None \<Rightarrow> return (Inl NoStartContext) | Some ctx \<Rightarrow>
       let pidFile = pid_file_of ctx (o_PIDFile opts);
           logFile = log_file_of ctx (o_LogFile opts)
       in do {
         u1 \<leftarrow> look w (\<lambda>v. AssertSafeWritePath (w_guard v) (w_host v) pidFile);
         case u1 of Some e \<Rightarrow> return (Inl (StartUnsafe e)) | None \<Rightarrow> do {
           u2 \<leftarrow> look w (\<lambda>v. AssertSafeWritePath (w_guard v) (w_host v) logFile);
           case u2 of Some e \<Rightarrow> return (Inl (StartUnsafe e)) | None \<Rightarrow>
             if o_Foreground opts then start_in_foreground d w stats ctx pidFile
             else do {
               b \<leftarrow> before_spawn d w n ctx opts pidFile;
               case b of Inl res \<Rightarrow> return res
               | Inr wasRestarted \<Rightarrow> spawn_child d w ctx opts pidFile logFile wasRestarted
             }
         }
       })"

definition launch_context :: "'stats daemon_std \<Rightarrow> world \<Rightarrow> LaunchOptions \<Rightarrow> resolve_error + InstanceContext" where
  "launch_context d v opts =
     ResolveInstanceContext d v
       (if o_StateDir opts = [] \<and> o_PIDFile opts \<noteq> [] then Dir (o_PIDFile opts) else o_StateDir opts)
       (o_ConfigFile opts) (o_Port opts) []"

definition StartDaemon :: "'stats daemon_std \<Rightarrow> (nat \<Rightarrow> world) \<Rightarrow> nat \<Rightarrow> 'stats \<Rightarrow> LaunchOptions \<Rightarrow> started op" where
  "StartDaemon d w n stats opts = do {
     c \<leftarrow> look w (\<lambda>v. launch_context d v opts);
     case c of Inl e \<Rightarrow> return (Inl (BadStartContext e)) | Inr ctx \<Rightarrow> StartInstance d w n stats (Some ctx) opts
   }"

section \<open>Restarting\<close>

definition restart_refused :: "LaunchOptions \<Rightarrow> InstanceStatus \<Rightarrow> bool" where
  "restart_refused opts status \<longleftrightarrow>
     status = StatusForeignInstance \<or> status = StatusPortOccupiedForeign
     \<or> o_RequireSameInstance opts \<and> status \<noteq> StatusOutdatedBinary \<and> status \<noteq> StatusStopped \<and> status \<noteq> StatusStalePID"

text \<open>The wait for the port, at most n rounds.\<close>

fun wait_port_free :: "nat \<Rightarrow> 'stats daemon_std \<Rightarrow> (nat \<Rightarrow> world) \<Rightarrow> int \<Rightarrow> unit op" where
  "wait_port_free 0 d w port = return ()"
| "wait_port_free (Suc n) d w port = do {
     listening \<leftarrow> IsPortListening d w port;
     if listening then wait_port_free n d w port else return ()
   }"

definition RestartInstance :: "'stats daemon_std \<Rightarrow> (nat \<Rightarrow> world) \<Rightarrow> nat \<Rightarrow> 'stats \<Rightarrow> InstanceContext option \<Rightarrow> LaunchOptions
    \<Rightarrow> started op" where
  "RestartInstance d w n stats c opts =
     (case c of None \<Rightarrow> return (Inl NoStartContext) | Some ctx \<Rightarrow>
       let pidFile = pid_file_of ctx (o_PIDFile opts) in do {
         st \<leftarrow> CheckStatusWithFile d w ctx pidFile;
         case st of (status, i) \<Rightarrow>
           if o_RequireSameInstance opts \<and> status = StatusRunningSameInstance
           then return (Inr \<lparr>r_PID = (case i of None \<Rightarrow> 0 | Some info \<Rightarrow> i_PID info), r_AlreadyRun = True, r_WasRestarted = False\<rparr>)
           else if restart_refused opts status then return (Inl (CannotRestart status))
           else do {
             _ \<leftarrow> stopWithFile d w n ctx pidFile 5000000000;
             _ \<leftarrow> wait_port_free 30 d w (c_ListenPort ctx);
             res \<leftarrow> StartInstance d w n stats (Some ctx)
               (opts\<lparr>o_StateDir := c_DataDir ctx, o_ConfigFile := c_ConfigPath ctx, o_Port := c_ListenPort ctx, o_PIDFile := pidFile\<rparr>);
             return (case res of Inl e \<Rightarrow> Inl e | Inr r \<Rightarrow> Inr (r\<lparr>r_WasRestarted := True\<rparr>))
           }
       })"

definition RestartDaemon :: "'stats daemon_std \<Rightarrow> (nat \<Rightarrow> world) \<Rightarrow> nat \<Rightarrow> 'stats \<Rightarrow> LaunchOptions \<Rightarrow> started op" where
  "RestartDaemon d w n stats opts = do {
     c \<leftarrow> look w (\<lambda>v. launch_context d v opts);
     case c of Inl e \<Rightarrow> return (Inl (BadStartContext e)) | Inr ctx \<Rightarrow> RestartInstance d w n stats (Some ctx) opts
   }"

section \<open>What the phases do\<close>

lemma quiet_data_dir [quiets]: "quiet (data_dir_verdict w info ctx)"
  unfolding data_dir_verdict_def isProcessOwnedByDataDir_def by (auto intro!: quiets)

lemma quiet_config_verdict [quiets]: "quiet (config_verdict w info ctx)"
  unfolding config_verdict_def by (auto intro!: quiets)

lemma quiet_matches [quiets]: "quiet (MatchesInstance w i ctx)"
  unfolding MatchesInstance_def by (auto intro!: quiets split: option.split)

lemma quiet_status [quiets]: "quiet (CheckStatusWithFile d w ctx f)"
  unfolding CheckStatusWithFile_def Let_def by (auto intro!: quiets split: sum.split MatchResult.split)

lemma quiet_stop_refusal [quiets]: "quiet (stop_refusal w info ctx)"
  unfolding stop_refusal_def config_refusal_def by (auto intro!: quiets split: option.split)

lemma quiet_wait_exit [quiets]: "quiet (wait_exit n w deadline pid)"
  by (induction n) (auto intro!: quiets)

lemma quiet_handshake [quiets]: "quiet (handshake n d w ctx f)"
  by (induction n) (auto intro!: quiets split: option.split)

lemma quiet_wait_port [quiets]: "quiet (wait_port_free n d w port)"
  by (induction n) (auto intro!: quiets)

definition no_signal :: "effect \<Rightarrow> bool" where
  "no_signal e \<longleftrightarrow> (case e of Terminate p \<Rightarrow> False | _ \<Rightarrow> True)"

lemma no_signal_simps [simp]: "no_signal (RemoveFile f)" "\<not> no_signal (Terminate p)" "no_signal (MakeDir f)"
  "no_signal (OpenLog f)" "no_signal (Spawn x as env)" "no_signal KillChild" "no_signal ReapChild"
  by (simp_all add: no_signal_def)

lemma wp_terminate:
  "wp (terminate_and_wait d w n f pid timeout)
     (\<lambda>r s'. \<exists>es. effects s' = effects s @ (tick s, Terminate pid) # es \<and> list_all (no_signal \<circ> snd) es) s"
proof -
  let ?s = "s\<lparr>tick := Suc (tick s), effects := effects s @ [(tick s, Terminate pid)]\<rparr>"
  let ?rest = "do {
      t0 \<leftarrow> look w w_now;
      ended \<leftarrow> wait_exit n w (t0 + (if timeout \<le> 0 then 3000000000 else timeout)) pid;
      if \<not> ended then return (Some StillWaiting)
      else do {
        alive \<leftarrow> IsProcessAlive w pid;
        if alive then return (Some StillAlive)
        else do { _ \<leftarrow> RemovePIDFileIfOwned d w f pid; return None }
      }
    }"
  have "performs no_signal ?rest" by (auto intro!: performing performs_quiet [OF quiet_wait_exit])
  then have "wp ?rest (\<lambda>r s'. \<exists>es. effects s' = effects ?s @ es \<and> list_all (no_signal \<circ> snd) es) ?s"
    unfolding performs_def by blast
  then show ?thesis unfolding terminate_and_wait_def by simp
qed

definition stop_permitted :: "'stats daemon_std \<Rightarrow> (nat \<Rightarrow> world) \<Rightarrow> InstanceContext \<Rightarrow> string \<Rightarrow> int \<Rightarrow> nat \<Rightarrow> nat \<Rightarrow> bool" where
  "stop_permitted d w ctx f p a b \<longleftrightarrow> (\<exists>info. seen w a b (\<lambda>v. decode_pid_file d (w_file v f) = Inr info) \<and> p = i_PID info \<and> 0 < p
     \<and> seen w a b (answers_signal0 p) \<and> seen w a b (\<lambda>v. agy_cmdline (w_file v (proc_file p ''cmdline'')))
     \<and> (if i_DataDir info \<noteq> [] then seen w a b (\<lambda>v. or_empty (CanonicalizeDir (w_host v) (i_DataDir info)) = c_DataDir ctx)
        else c_DataDir ctx \<noteq> [] \<and> (seen w a b (\<lambda>v. names_data_dir (c_DataDir ctx) (w_file v (proc_file p ''cmdline'')))
          \<or> seen w a b (\<lambda>v. names_data_dir (''AGY_DATA_DIR='' @ c_DataDir ctx) (w_file v (proc_file p ''environ'')))))
     \<and> \<not> other_port info ctx
     \<and> (c_ConfigPath ctx \<noteq> [] \<longrightarrow> i_ConfigPath info \<noteq> []
        \<and> seen w a b (\<lambda>v. or_empty (CanonicalizeFile (w_host v) (i_ConfigPath info)) = c_ConfigPath ctx)))"

lemma no_refusal:
  assumes "run_state (stop_refusal w info ctx) s = (None, s')"
  shows "(if i_DataDir info \<noteq> [] then seen w (tick s) (tick s') (\<lambda>v. or_empty (CanonicalizeDir (w_host v) (i_DataDir info)) = c_DataDir ctx)
      else c_DataDir ctx \<noteq> [] \<and> (seen w (tick s) (tick s') (\<lambda>v. names_data_dir (c_DataDir ctx) (w_file v (proc_file (i_PID info) ''cmdline'')))
        \<or> seen w (tick s) (tick s') (\<lambda>v. names_data_dir (''AGY_DATA_DIR='' @ c_DataDir ctx) (w_file v (proc_file (i_PID info) ''environ'')))))
    \<and> \<not> other_port info ctx
    \<and> (c_ConfigPath ctx \<noteq> [] \<longrightarrow> i_ConfigPath info \<noteq> []
        \<and> seen w (tick s) (tick s') (\<lambda>v. or_empty (CanonicalizeFile (w_host v) (i_ConfigPath info)) = c_ConfigPath ctx))"
  using assms
  by (auto simp: stop_refusal_def data_dir_verdict_def isProcessOwnedByDataDir_def config_refusal_def split: if_splits)

lemma performs_data: "performs P (stop_refusal w info ctx)"
  by (rule performs_quiet [OF quiet_stop_refusal])

definition stop_trace :: "'stats daemon_std \<Rightarrow> (nat \<Rightarrow> world) \<Rightarrow> InstanceContext \<Rightarrow> string \<Rightarrow> nat \<Rightarrow> (nat \<times> effect) list \<Rightarrow> bool" where
  "stop_trace d w ctx f a es \<longleftrightarrow> list_all (no_signal \<circ> snd) es
     \<or> (\<exists>k p fs. es = (k, Terminate p) # fs \<and> list_all (no_signal \<circ> snd) fs \<and> stop_permitted d w ctx f p a k)"

lemma wp_remove_file: "effects s = effects s0 \<Longrightarrow>
  wp (remove_file w f x) (\<lambda>r s'. \<exists>es. effects s' = effects s0 @ es \<and> stop_trace d w ctx g a es) s"
  by (simp add: remove_file_def stop_trace_def)

lemma wp_stop_process:
  assumes read: "seen w a (tick s) (\<lambda>v. decode_pid_file d (w_file v f) = Inr info)" and a: "a \<le> tick s"
  shows "wp (stop_process d w n ctx f timeout info) (\<lambda>r s'. \<exists>es. effects s' = effects s @ es \<and> stop_trace d w ctx f a es) s"
    (is "wp _ ?Q s")
  unfolding stop_process_def wp_bind
proof (rule wp_quiet [OF quiet_IsProcessAlive])
  fix alive s1
  assume s1: "run_state (IsProcessAlive w (i_PID info)) s = (alive, s1)" "effects s1 = effects s" "tick s \<le> tick s1"
  let ?rest = "IsAgyPoolProcess w (i_PID info) \<bind> (\<lambda>agy. if \<not> agy then remove_file w f (Some PIDReused)
     else stop_refusal w info ctx \<bind> (\<lambda>no. case no of None \<Rightarrow> terminate_and_wait d w n f (i_PID info) timeout | Some e \<Rightarrow> return (Some e)))"
  have "wp ?rest ?Q s1"
    unfolding wp_bind
  proof (rule wp_quiet [OF quiet_IsAgyPoolProcess])
    fix agy s2
    assume s2: "run_state (IsAgyPoolProcess w (i_PID info)) s1 = (agy, s2)" "effects s2 = effects s1" "tick s1 \<le> tick s2"
    have "wp (stop_refusal w info ctx) (\<lambda>no. wp (case no of None \<Rightarrow> terminate_and_wait d w n f (i_PID info) timeout
        | Some e \<Rightarrow> return (Some e)) ?Q) s2" if agy
    proof (rule wp_quiet [OF quiet_stop_refusal])
      fix no s3
      assume s3: "run_state (stop_refusal w info ctx) s2 = (no, s3)" "effects s3 = effects s2" "tick s2 \<le> tick s3"
      show "wp (case no of None \<Rightarrow> terminate_and_wait d w n f (i_PID info) timeout | Some e \<Rightarrow> return (Some e)) ?Q s3"
      proof (cases no)
        case (Some e)
        then show ?thesis using s1 s2 s3 by (simp add: stop_trace_def)
      next
        case None
        have t: "a \<le> tick s" "tick s \<le> tick s1" "tick s1 \<le> tick s2" "tick s2 \<le> tick s3" using a s1 s2 s3 by auto
        note late = seen_mono [where a' = a and b' = "tick s3" and w = w]
        have "stop_permitted d w ctx f (i_PID info) a (tick s3)"
          unfolding stop_permitted_def
          using agy_seen [of w "i_PID info" s1 s2] no_refusal [of w info ctx s2 s3] s2(1) s3(1) None \<open>agy\<close> t read
          by (intro exI [of _ info] conjI) (auto intro: late split: if_splits)
        then show ?thesis using None wp_mono [OF wp_terminate [of d w n f "i_PID info" timeout s3], of ?Q] s1 s2 s3
          by (auto simp: stop_trace_def)
      qed
    qed
    then show "wp (if \<not> agy then remove_file w f (Some PIDReused) else stop_refusal w info ctx \<bind>
        (\<lambda>no. case no of None \<Rightarrow> terminate_and_wait d w n f (i_PID info) timeout | Some e \<Rightarrow> return (Some e))) ?Q s2"
      using wp_remove_file [of s2 s] s1 s2 by (cases agy) simp_all
  qed
  then show "wp (if \<not> alive then remove_file w f None else ?rest) ?Q s1"
    using wp_remove_file [of s1 s] s1 by (cases alive) simp_all
qed

lemma wp_stop:
  "wp (stopWithFile d w n ctx f timeout) (\<lambda>r s'. \<exists>es. effects s' = effects s @ es \<and> stop_trace d w ctx f (tick s) es) s"
    (is "wp _ ?Q s")
proof -
  have nothing: "\<exists>es. effects s = effects s @ es \<and> stop_trace d w ctx f (tick s) es"
    by (simp add: stop_trace_def)
  have "wp (stop_process d w n ctx f timeout info) ?Q s1"
    if "decode_pid_file d (w_file (w (Suc (tick s))) f) = Inr info" "effects s1 = effects s" "tick s1 = Suc (Suc (tick s))" for info s1
    using wp_stop_process [of w "tick s" s1 d f info n ctx timeout] that by simp
  then show ?thesis
    by (auto simp: stopWithFile_def ReadPIDFile_def IsPortListening_def remove_file_def stop_trace_def split: option.split sum.split)
qed

subsection \<open>The wait ends\<close>

definition clock_moves :: "(nat \<Rightarrow> world) \<Rightarrow> bool" where
  "clock_moves w \<longleftrightarrow> (\<forall>t. w_now (w t) < w_now (w (Suc t)))"

lemma clock_mono:
  assumes "clock_moves w"
  shows "a \<le> b \<Longrightarrow> w_now (w a) + int (b - a) \<le> w_now (w b)"
proof (induction "b - a" arbitrary: b)
  case (Suc k)
  then obtain c where b: "b = Suc c" "a \<le> c" "k = c - a" by (cases b) auto
  have "w_now (w a) + int (c - a) \<le> w_now (w c)" using Suc.hyps(1) [OF b(3,2)] .
  moreover have "w_now (w c) < w_now (w b)" using assms b(1) by (simp add: clock_moves_def)
  ultimately show ?case using b by simp
qed simp

lemma wait_exit_ends:
  assumes "clock_moves w"
  shows "0 < n \<Longrightarrow> deadline - w_now (w (tick s)) < int n \<Longrightarrow> wp (wait_exit n w deadline pid) (\<lambda>r s'. r) s"
proof (induction n arbitrary: s)
  case (Suc n)
  show ?case
  proof (cases "deadline \<le> w_now (w (tick s))")
    case False
    have "wp (IsProcessAlive w pid) (\<lambda>alive. wp (if \<not> alive then return True else wait_exit n w deadline pid) (\<lambda>r s'. r)) (s\<lparr>tick := Suc (tick s)\<rparr>)"
    proof (rule wp_quiet [OF quiet_IsProcessAlive])
      fix alive and s1 :: run
      assume "tick (s\<lparr>tick := Suc (tick s)\<rparr>) \<le> tick s1"
      then have "w_now (w (tick s)) + 1 \<le> w_now (w (tick s1))"
        using clock_mono [OF assms, of "tick s" "tick s1"] by simp
      then have "0 < n" "deadline - w_now (w (tick s1)) < int n" using Suc.prems(2) False by auto
      from Suc.IH [OF this] show "wp (if \<not> alive then return True else wait_exit n w deadline pid) (\<lambda>r s'. r) s1" by simp
    qed
    then show ?thesis using False by simp
  qed simp
qed simp

lemma terminate_returns:
  assumes "clock_moves w" and "0 < n" and "(if timeout \<le> 0 then 3000000000 else timeout) \<le> int n"
  shows "wp (terminate_and_wait d w n f pid timeout) (\<lambda>r s'. r \<noteq> Some StillWaiting) s"
proof -
  let ?T = "if timeout \<le> 0 then 3000000000 else timeout :: int"
  let ?cont = "\<lambda>ended. if \<not> ended then return (Some StillWaiting)
      else do { alive \<leftarrow> IsProcessAlive w pid; if alive then return (Some StillAlive)
        else do { _ \<leftarrow> RemovePIDFileIfOwned d w f pid; return None } }"
  have ended: "wp (?cont True) (\<lambda>r s'. r \<noteq> Some StillWaiting) s1" for s1
    by (auto simp: wp_def split: prod.splits if_splits)
  have "wp (wait_exit n w (w_now (w k) + ?T) pid) (\<lambda>ended. wp (?cont ended) (\<lambda>r s'. r \<noteq> Some StillWaiting)) s1"
    if "tick s1 = Suc k" for k s1
  proof (rule wp_mono [OF wait_exit_ends])
    show "clock_moves w" "0 < n" by fact+
    have "w_now (w k) + 1 \<le> w_now (w (tick s1))" using clock_mono [OF assms(1), of k "tick s1"] that by simp
    then show "w_now (w k) + ?T - w_now (w (tick s1)) < int n" using assms(3) by linarith
    show "wp (?cont b) (\<lambda>r s'. r \<noteq> Some StillWaiting) s2" if b for b s2
      using ended [of s2] that by simp
  qed
  then show ?thesis unfolding terminate_and_wait_def by simp
qed

lemma stop_process_returns:
  assumes "clock_moves w" and "0 < n" and "(if timeout \<le> 0 then 3000000000 else timeout) \<le> int n"
  shows "wp (stop_process d w n ctx f timeout info) (\<lambda>r s'. r \<noteq> Some StillWaiting) s"
proof -
  let ?Q = "\<lambda>(r :: stop_error option) (s' :: run). r \<noteq> Some StillWaiting"
  have refusal: "run_state (stop_refusal w info ctx) s1 = (no, s2) \<Longrightarrow> no \<noteq> Some StillWaiting" for no s1 s2
    by (auto simp: stop_refusal_def split: prod.splits option.splits if_splits)
  have r3: "wp (stop_refusal w info ctx) (\<lambda>no. wp (case no of None \<Rightarrow> terminate_and_wait d w n f (i_PID info) timeout
      | Some e \<Rightarrow> return (Some e)) ?Q) s2" for s2
    by (rule wpI) (use terminate_returns [OF assms] in \<open>auto dest: refusal split: option.split\<close>)
  have r2: "wp (IsAgyPoolProcess w (i_PID info)) (\<lambda>agy. wp (if \<not> agy then remove_file w f (Some PIDReused)
      else stop_refusal w info ctx \<bind> (\<lambda>no. case no of None \<Rightarrow> terminate_and_wait d w n f (i_PID info) timeout
        | Some e \<Rightarrow> return (Some e))) ?Q) s1" for s1
    by (rule wpI) (simp add: r3 remove_file_def)
  show ?thesis unfolding stop_process_def wp_bind
    by (rule wpI) (simp add: r2 remove_file_def)
qed

subsection \<open>Starting a child\<close>

definition no_spawn :: "effect \<Rightarrow> bool" where
  "no_spawn e \<longleftrightarrow> (case e of Spawn x as env \<Rightarrow> False | _ \<Rightarrow> True)"

lemma no_spawn_simps [simp]: "no_spawn (RemoveFile f)" "no_spawn (Terminate p)" "no_spawn (MakeDir f)"
  "no_spawn (OpenLog f)" "\<not> no_spawn (Spawn x as env)" "no_spawn KillChild" "no_spawn ReapChild"
  by (simp_all add: no_spawn_def)

lemma performs_stop_refusal [performing]: "performs P (stop_refusal w info ctx)"
  by (rule performs_quiet [OF quiet_stop_refusal])

lemma performs_status [performing]: "performs P (CheckStatusWithFile d w ctx f)"
  by (rule performs_quiet [OF quiet_status])

lemma performs_wait [performing]: "performs P (wait_exit n w deadline pid)"
  by (rule performs_quiet [OF quiet_wait_exit])

lemma performs_stop [performing]:
  assumes "\<And>p. P (Terminate p)" and "P (RemoveFile f)"
  shows "performs P (stopWithFile d w n ctx f timeout)"
  unfolding stopWithFile_def stop_process_def terminate_and_wait_def remove_file_def
  using assms by (auto intro!: performing split: option.split sum.split)

lemma before_spawn_no_spawn: "performs no_spawn (before_spawn d w n ctx opts f)"
  unfolding before_spawn_def replace_outdated_def by (auto intro!: performing split: prod.split)

lemma before_spawn_no_signal: "o_NoRestart opts \<Longrightarrow> performs no_signal (before_spawn d w n ctx opts f)"
  unfolding before_spawn_def replace_outdated_def by (auto intro!: performing split: prod.split)

lemma make_dirs_performs: "(\<And>dir. P (MakeDir dir)) \<Longrightarrow> performs P (make_dirs w dirs)"
  by (induction dirs) (auto intro!: performing)

lemma performs_handshake [performing]: "performs P (handshake n d w ctx f)"
  by (rule performs_quiet [OF quiet_handshake])

lemma await_child_no_signal [performing]: "performs no_signal (await_child d w ctx f child r)"
  unfolding await_child_def by (auto intro!: performing split: option.split)

lemma spawn_child_no_signal: "performs no_signal (spawn_child d w ctx opts f lf r)"
  unfolding spawn_child_def by (auto intro!: performing make_dirs_performs simp del: make_dirs.simps split: option.split)

text \<open>What a spawn leaves behind: a daemon that answered, or the child killed and reaped.\<close>

definition child_settled :: "started \<Rightarrow> (nat \<times> effect) list \<Rightarrow> bool" where
  "child_settled r es \<longleftrightarrow>
     (\<exists>res. r = Inr res \<and> \<not> r_AlreadyRun res \<and> es = [])
     \<or> r = Inl NotReady \<and> (\<exists>k1 k2 vs. es = (k1, KillChild) # (k2, ReapChild) # vs \<and> list_all (no_spawn \<circ> snd) vs)"

lemma wp_not_ready:
  "wp (do { _ \<leftarrow> perform w KillChild (\<lambda>v. True); _ \<leftarrow> perform w ReapChild (\<lambda>v. True);
        _ \<leftarrow> RemovePIDFileIfOwned d w f child; return (Inl NotReady) })
     (\<lambda>r s'. \<exists>es. effects s' = effects s @ es \<and> child_settled r es) s"
proof -
  have "performs no_spawn (RemovePIDFileIfOwned d w f child)" by (auto intro!: performing)
  note quiet = performs_wp [OF this]
  show ?thesis unfolding wp_bind wp_perform wp_return
  proof (rule wp_mono [OF quiet])
    fix x and s' :: run
    assume "\<exists>es. effects s' = effects (s\<lparr>tick := Suc (tick s), effects := effects s @ [(tick s, KillChild)],
        tick := Suc (tick (s\<lparr>tick := Suc (tick s), effects := effects s @ [(tick s, KillChild)]\<rparr>)),
        effects := effects (s\<lparr>tick := Suc (tick s), effects := effects s @ [(tick s, KillChild)]\<rparr>)
          @ [(tick (s\<lparr>tick := Suc (tick s), effects := effects s @ [(tick s, KillChild)]\<rparr>), ReapChild)]\<rparr>) @ es
      \<and> list_all (no_spawn \<circ> snd) es"
    then obtain es where "effects s' = effects s @ (tick s, KillChild) # (Suc (tick s), ReapChild) # es"
      "list_all (no_spawn \<circ> snd) es" by auto
    then show "\<exists>es. effects s' = effects s @ es \<and> child_settled (Inl NotReady) es"
      unfolding child_settled_def by blast
  qed
qed

lemma wp_await_child:
  fixes d :: "'stats daemon_std"
  shows "wp (await_child d w ctx f child wr) (\<lambda>r s'. \<exists>es. effects s' = effects s @ es \<and> child_settled r es) s"
    (is "wp _ ?Q s")
  unfolding await_child_def wp_bind [of "handshake 20 d w ctx f"]
proof (rule wp_quiet [OF quiet_handshake])
  fix ready and s1 :: run
  assume s1: "effects s1 = effects s"
  show "wp (GetDaemonInfo d w f \<bind> (\<lambda>info. case (if ready then (case info of None \<Rightarrow> None
        | Some i \<Rightarrow> if 0 < i_PID i then Some (i_PID i) else None) else None) of
       None \<Rightarrow> perform w KillChild (\<lambda>v. True) \<bind> (\<lambda>_. perform w ReapChild (\<lambda>v. True) \<bind> (\<lambda>_.
         RemovePIDFileIfOwned d w f child \<bind> (\<lambda>_. return (Inl NotReady))))
     | Some pid \<Rightarrow> return (Inr \<lparr>r_PID = pid, r_AlreadyRun = False, r_WasRestarted = wr\<rparr>))) ?Q s1"
    unfolding wp_bind [of "GetDaemonInfo d w f"]
  proof (rule wp_quiet [OF quiet_GetDaemonInfo])
    fix info :: "'stats DaemonInfo option" and s2 :: run
    assume s2: "effects s2 = effects s1"
    show "wp (case (if ready then (case info of None \<Rightarrow> None | Some i \<Rightarrow> if 0 < i_PID i then Some (i_PID i) else None) else None) of
       None \<Rightarrow> perform w KillChild (\<lambda>v. True) \<bind> (\<lambda>_. perform w ReapChild (\<lambda>v. True) \<bind> (\<lambda>_.
         RemovePIDFileIfOwned d w f child \<bind> (\<lambda>_. return (Inl NotReady))))
     | Some pid \<Rightarrow> return (Inr \<lparr>r_PID = pid, r_AlreadyRun = False, r_WasRestarted = wr\<rparr>)) ?Q s2"
      using wp_not_ready [of w d f child s2] s1 s2
      by (cases "if ready then (case info of None \<Rightarrow> None | Some i \<Rightarrow> if 0 < i_PID i then Some (i_PID i) else None) else None")
        (simp_all add: child_settled_def del: wp_bind)
  qed
qed

definition spawn_settled :: "(nat \<Rightarrow> world) \<Rightarrow> started \<Rightarrow> (nat \<times> effect) list \<Rightarrow> bool" where
  "spawn_settled w r es \<longleftrightarrow>
     list_all (no_spawn \<circ> snd) es
     \<or> (\<exists>us k x as env vs. es = us @ (k, Spawn x as env) # vs \<and> list_all (no_spawn \<circ> snd) us
          \<and> (if w_start (w k) = None then vs = [] \<and> r = Inl SpawnFailed else child_settled r vs))"

lemma wp_spawn:
  fixes s0 :: run
  assumes "effects s = effects s0 @ us" and "list_all (no_spawn \<circ> snd) us"
  shows "wp (do { child \<leftarrow> perform w (Spawn x as env) w_start;
      case child of None \<Rightarrow> return (Inl SpawnFailed) | Some pid \<Rightarrow> await_child d w ctx f pid wr })
    (\<lambda>r s'. \<exists>es. effects s' = effects s0 @ es \<and> spawn_settled w r es) s" (is "wp _ ?Q s")
proof -
  let ?s = "s\<lparr>tick := Suc (tick s), effects := effects s @ [(tick s, Spawn x as env)]\<rparr>"
  have "wp (case w_start (w (tick s)) of None \<Rightarrow> return (Inl SpawnFailed) | Some pid \<Rightarrow> await_child d w ctx f pid wr) ?Q ?s"
  proof (cases "w_start (w (tick s))")
    case None
    then have "spawn_settled w (Inl SpawnFailed) (us @ [(tick s, Spawn x as env)])"
      using assms(2) unfolding spawn_settled_def
      by (intro disjI2 exI [of _ us] exI [of _ "tick s"] exI [of _ x] exI [of _ as] exI [of _ env] exI [of _ "[]"]) simp
    then show ?thesis using None assms(1) by simp
  next
    case (Some pid)
    have "wp (await_child d w ctx f pid wr) ?Q ?s"
    proof (rule wp_mono [OF wp_await_child])
      fix r and s' :: run
      assume "\<exists>es. effects s' = effects ?s @ es \<and> child_settled r es"
      then obtain es where es: "effects s' = effects s0 @ us @ (tick s, Spawn x as env) # es" "child_settled r es"
        using assms(1) by auto
      then have "spawn_settled w r (us @ (tick s, Spawn x as env) # es)"
        using assms(2) Some unfolding spawn_settled_def
        by (intro disjI2 exI [of _ us] exI [of _ "tick s"] exI [of _ x] exI [of _ as] exI [of _ env] exI [of _ es]) simp
      then show "?Q r s'" using es(1) by blast
    qed
    then show ?thesis using Some by simp
  qed
  then show ?thesis by simp
qed

lemma wp_spawn_child:
  fixes s0 :: run
  assumes "effects s = effects s0 @ us" and "list_all (no_spawn \<circ> snd) us"
  shows "wp (spawn_child d w ctx opts f lf wr) (\<lambda>r s'. \<exists>es. effects s' = effects s0 @ es \<and> spawn_settled w r es) s"
    (is "wp _ ?Q s")
  unfolding spawn_child_def wp_bind [of "make_dirs w [Dir f, Dir lf]"]
proof (rule wp_performs [OF make_dirs_performs [of no_spawn]])
  fix dirs es and s1 :: run
  assume s1: "effects s1 = effects s @ es" "list_all (no_spawn \<circ> snd) es"
  have no: "spawn_settled w r es'" if "list_all (no_spawn \<circ> snd) es'" for r es'
    using that by (simp add: spawn_settled_def)
  have spawn: "wp (perform w (Spawn x as env) w_start \<bind> case_option (return (Inl SpawnFailed)) (\<lambda>pid. await_child d w ctx f pid wr)) ?Q s3"
    if "effects s3 = effects s0 @ us @ es @ [(m1, MakeDir (LocksDir ctx)), (m2, OpenLog lf)]" for x as env m1 m2 s3
    by (rule wp_spawn [of s3 s0 "us @ es @ [(m1, MakeDir (LocksDir ctx)), (m2, OpenLog lf)]"]) (use that assms(2) s1(2) in auto)
  show "wp (if \<not> dirs then return (Inl StartDirFailed)
     else perform w (MakeDir (LocksDir ctx)) (\<lambda>v. w_mkdir v (LocksDir ctx)) \<bind> (\<lambda>_.
       perform w (OpenLog lf) (\<lambda>v. w_open v lf) \<bind> (\<lambda>opened.
         if \<not> opened then return (Inl LogOpenFailed)
         else perform w (Spawn (if o_EntrypointPath opts = [] then s_Entrypoint d else o_EntrypointPath opts)
                    (o_CustomArgs opts) (child_env ctx opts)) w_start \<bind> (\<lambda>child.
           case child of None \<Rightarrow> return (Inl SpawnFailed) | Some pid \<Rightarrow> await_child d w ctx f pid wr)))) ?Q s1"
    using s1 assms no
    by (auto simp del: wp_bind simp: wp_bind [of "perform w (MakeDir _) _"] wp_bind [of "perform w (OpenLog _) _"]
        intro!: spawn)
qed simp

lemma wp_background:
  assumes "\<not> o_Foreground opts"
    and "\<And>s1. effects s1 = [] \<Longrightarrow> wp (before_spawn d w n ctx opts (pid_file_of ctx (o_PIDFile opts)))
      (\<lambda>b. wp (case b of Inl res \<Rightarrow> return res
         | Inr wr \<Rightarrow> spawn_child d w ctx opts (pid_file_of ctx (o_PIDFile opts)) (log_file_of ctx (o_LogFile opts)) wr) Q) s1"
    and "\<And>r s1. effects s1 = [] \<Longrightarrow> Q r s1"
  shows "wp (StartInstance d w n stats (Some ctx) opts) Q start"
  using assms(1) by (auto simp: StartInstance_def Let_def start_def intro!: assms(2,3) split: option.split)

subsection \<open>A host at rest\<close>

definition refused_config :: "world \<Rightarrow> 'stats DaemonInfo \<Rightarrow> InstanceContext \<Rightarrow> bool" where
  "refused_config v info ctx \<longleftrightarrow> c_ConfigPath ctx \<noteq> []
     \<and> (i_ConfigPath info = [] \<or> or_empty (CanonicalizeFile (w_host v) (i_ConfigPath info)) \<noteq> c_ConfigPath ctx)"

lemma answer_stop_refusal:
  assumes "owned_in v info ctx" and "\<not> other_port info ctx"
  shows "answer (stop_refusal (\<lambda>_. v) info ctx) s = (if refused_config v info ctx then Some StopConfigMismatch else None)"
proof -
  have "answer (data_dir_verdict (\<lambda>_. v) info ctx) s = None" using assms(1) by (simp add: answer_data_dir)
  then show ?thesis using assms(2) by (auto simp: stop_refusal_def config_refusal_def refused_config_def)
qed

lemma answer_status_config:
  assumes "decode_pid_file d (w_file v (pid_file_of ctx f)) = Inr info" and "agy_in v (i_PID info)"
    and "owned_in v info ctx" and "\<not> other_port info ctx" and "\<not> config_in v info ctx"
  shows "answer (CheckStatusWithFile d (\<lambda>_. v) ctx f) s = (StatusConfigMismatch, Some info)"
proof -
  have a: "alive_in v (i_PID info)" "0 < i_PID info" using assms(2) by (auto simp: agy_in_def alive_in_def)
  have "answer (data_dir_verdict (\<lambda>_. v) info ctx) s' = None" for s' using assms(3) by (simp add: answer_data_dir)
  then have "answer (MatchesInstance (\<lambda>_. v) (Some info) ctx) s' = MatchConfigMismatch" for s'
    using a assms by (simp add: MatchesInstance_def answer_config)
  then show ?thesis using a assms by (simp add: CheckStatusWithFile_def Let_def)
qed

lemma wp_stop_at_rest:
  assumes "AssertSafeWritePath (w_guard v) (w_host v) f = None"
    and "decode_pid_file d (w_file v f) = Inr info" and "agy_in v (i_PID info)"
    and "owned_in v info ctx" and "\<not> other_port info ctx"
    and "\<And>s'. effects s' = effects s \<Longrightarrow>
      wp (if refused_config v info ctx then return (Some StopConfigMismatch)
          else terminate_and_wait d (\<lambda>_. v) n f (i_PID info) timeout) Q s'"
  shows "wp (stopWithFile d (\<lambda>_. v) n ctx f timeout) Q s"
proof -
  have al: "alive_in v (i_PID info)" using assms(3) by (simp add: agy_in_def)
  have "wp (stop_process d (\<lambda>_. v) n ctx f timeout info) Q s1" if "effects s1 = effects s" for s1
    unfolding stop_process_def wp_bind
    by (rule wp_rest [OF quiet_IsProcessAlive answer_alive], simp add: al,
        rule wp_rest [OF quiet_IsAgyPoolProcess answer_agy], simp add: assms(3),
        rule wp_rest [OF quiet_stop_refusal answer_stop_refusal [OF assms(4,5)]])
      (use assms(6) that in \<open>auto split: if_splits\<close>)
  then show ?thesis using assms(1,2) by (simp add: stopWithFile_def ReadPIDFile_def)
qed

lemma contains_no_nul: "contains cmd ''python'' \<Longrightarrow> agy_cmdline (Data cmd)"
  using map_mono_sublist [of "''python''" cmd "\<lambda>c. if c = byte 0 then CHR '' '' else c"]
  by (simp add: agy_cmdline_def contains_def Let_def byte_eq_iff code_of_char)

lemma wp_start_already:
  assumes "AssertSafeWritePath (w_guard v) (w_host v) (pid_file_of ctx (o_PIDFile opts)) = None"
    and "AssertSafeWritePath (w_guard v) (w_host v) (log_file_of ctx (o_LogFile opts)) = None"
    and "info_in d v (pid_file_of ctx (o_PIDFile opts)) = Some info" and "0 < i_PID info"
    and "w_listening v (if c_ListenPort ctx \<le> 0 then s_DefaultPort d else c_ListenPort ctx)" and "binary_current d v info"
    and "\<not> o_Foreground opts" and "\<not> o_RequireSameInstance opts"
  shows "wp (StartInstance d (\<lambda>_. v) n stats (Some ctx) opts)
    (\<lambda>r s'. r = Inr \<lparr>r_PID = i_PID info, r_AlreadyRun = True, r_WasRestarted = False\<rparr> \<and> effects s' = effects s) s"
proof -
  let ?f = "pid_file_of ctx (o_PIDFile opts)" and ?r = "Inl (Inr \<lparr>r_PID = i_PID info, r_AlreadyRun = True, r_WasRestarted = False\<rparr>)"
  have f: "pid_file_or_default d ?f = ?f" using pid_file_of_nonempty by (simp add: pid_file_or_default_def)
  have running: "answer (IsDaemonRunning d (\<lambda>_. v) ?f (c_ListenPort ctx)) s1" for s1
    using assms(3-5) by (simp add: IsDaemonRunning_def f)
  have outdated: "\<not> answer (IsDaemonOutdated d (\<lambda>_. v) ?f (c_ListenPort ctx)) s1" for s1
    using answer_outdated [OF pid_file_of_nonempty assms(3), of "c_ListenPort ctx"] assms(5,6) by simp
  have info: "answer (GetDaemonInfo d (\<lambda>_. v) ?f) s1 = Some info" for s1
    using assms(3) by (simp add: f)
  have replace: "wp (replace_outdated d (\<lambda>_. v) n ctx opts ?f) (\<lambda>b s'. b = ?r \<and> effects s' = e) s1"
    if "effects s1 = e" for e s1
    unfolding replace_outdated_def wp_bind
    by (rule wp_rest [OF quiet_IsDaemonOutdated, of _ _ _ _ False], simp add: outdated, simp,
        rule wp_rest [OF quiet_GetDaemonInfo info]) (use that in simp)
  have before: "wp (before_spawn d (\<lambda>_. v) n ctx opts ?f) (\<lambda>b s'. b = ?r \<and> effects s' = e) s1"
    if "effects s1 = e" for e s1
    unfolding before_spawn_def wp_bind
  proof (rule wp_rest [OF quiet_IsDaemonRunning, where x = True])
    fix s' :: run
    assume "effects s' = effects s1"
    then show "wp (if True then if o_RequireSameInstance opts
           then CheckStatusWithFile d (\<lambda>_. v) ctx ?f \<bind> (\<lambda>st. case st of (status, i) \<Rightarrow>
             if status = StatusRunningSameInstance
             then return (Inl (Inr \<lparr>r_PID = (case i of None \<Rightarrow> 0 | Some info \<Rightarrow> i_PID info), r_AlreadyRun = True, r_WasRestarted = False\<rparr>))
             else if status = StatusOutdatedBinary then
               (if o_NoRestart opts then return (Inl (Inl OutdatedDaemonRunning)) else replace_outdated d (\<lambda>_. v) n ctx opts ?f)
             else return (Inl (Inl (CannotAutoStart status))))
           else replace_outdated d (\<lambda>_. v) n ctx opts ?f
         else IsPortListening d (\<lambda>_. v) (c_ListenPort ctx) \<bind> (\<lambda>listening.
           return (if listening then Inl (Inl ForeignPortOccupied) else Inr False)))
      (\<lambda>b s'. b = ?r \<and> effects s' = e) s'"
      using replace [of s' e] that assms(8) by simp
  qed (simp add: running)
  show ?thesis
    using assms(1,2,7) by (simp add: StartInstance_def Let_def) (rule wp_mono [OF before], simp, simp)
qed

section \<open>Properties\<close>


text \<open>C17: Stopping returns: when every call takes at least a nanosecond, as many polls as the timeout has
  nanoseconds are enough, whatever the process does.\<close>

theorem stop_returns:
  assumes "clock_moves w" and "0 < n" and "(if timeout \<le> 0 then 3000000000 else timeout) \<le> int n"
    and "run_state (stopWithFile d w n ctx f timeout) s = (r, s')"
  shows "r \<noteq> Some StillWaiting"
proof -
  have "wp (stopWithFile d w n ctx f timeout) (\<lambda>r s'. r \<noteq> Some StillWaiting) s"
    unfolding stopWithFile_def ReadPIDFile_def IsPortListening_def remove_file_def
    using stop_process_returns [OF assms(1-3)] by (auto split: option.split sum.split)
  from wpD [OF this assms(4)] show ?thesis .
qed

text \<open>C14: Starting in the background leaves no child behind when it fails: at most one child is spawned, and
  unless the result is a fresh daemon the child of this attempt is killed and then reaped.\<close>

theorem failed_start_leaves_no_child:
  assumes "run_state (StartInstance d w n stats c opts) start = (r, s')" and "\<not> o_Foreground opts"
  shows "spawn_settled w r (effects s')"
proof (cases c)
  case None
  then show ?thesis using assms(1) by (auto simp: StartInstance_def spawn_settled_def start_def)
next
  case (Some ctx)
  have "wp (StartInstance d w n stats (Some ctx) opts) (\<lambda>r s'. spawn_settled w r (effects s')) start"
  proof (rule wp_background [OF assms(2)])
    fix s1 :: run
    let ?f = "pid_file_of ctx (o_PIDFile opts)" and ?lf = "log_file_of ctx (o_LogFile opts)"
    assume s1: "effects s1 = []"
    show "wp (before_spawn d w n ctx opts ?f) (\<lambda>b. wp (case b of Inl res \<Rightarrow> return res
         | Inr wr \<Rightarrow> spawn_child d w ctx opts ?f ?lf wr) (\<lambda>r s'. spawn_settled w r (effects s'))) s1"
    proof (rule wp_performs [OF before_spawn_no_spawn])
      fix b es and s2 :: run
      assume s2: "effects s2 = effects s1 @ es" "list_all (no_spawn \<circ> snd) es"
      then show "wp (case b of Inl res \<Rightarrow> return res | Inr wr \<Rightarrow> spawn_child d w ctx opts ?f ?lf wr)
          (\<lambda>r s'. spawn_settled w r (effects s')) s2"
        using wp_spawn_child [OF s2, where w = w and d = d and ctx = ctx and opts = opts and f = "?f" and lf = "?lf"] s1
        by (cases b) (simp_all add: spawn_settled_def [of _ _ es])
    qed
  qed (simp add: spawn_settled_def)
  from wpD [OF this] show ?thesis using assms(1) Some by simp
qed

text \<open>With NoRestart a start in the background sends no signal, whatever it finds.\<close>

theorem no_restart_never_signals:
  assumes "run_state (StartInstance d w n stats c opts) start = (r, s')" and "\<not> o_Foreground opts" and "o_NoRestart opts"
  shows "list_all (\<lambda>(k, e). no_signal e) (effects s')"
proof (cases c)
  case None
  then show ?thesis using assms(1) by (auto simp: StartInstance_def start_def)
next
  case (Some ctx)
  have "wp (StartInstance d w n stats (Some ctx) opts) (\<lambda>r s'. list_all (no_signal \<circ> snd) (effects s')) start"
  proof (rule wp_background [OF assms(2)])
    fix s1 :: run
    let ?f = "pid_file_of ctx (o_PIDFile opts)" and ?lf = "log_file_of ctx (o_LogFile opts)"
    let ?m = "before_spawn d w n ctx opts ?f \<bind> (\<lambda>b. case b of Inl res \<Rightarrow> return res
         | Inr wr \<Rightarrow> spawn_child d w ctx opts ?f ?lf wr)"
    assume s1: "effects s1 = []"
    have "performs no_signal ?m"
      by (rule performs_bind [OF before_spawn_no_signal [OF assms(3)]])
        (auto intro!: spawn_child_no_signal performs_return split: sum.split)
    then have "wp ?m (\<lambda>r s'. list_all (no_signal \<circ> snd) (effects s')) s1"
      by (rule wp_performs) (use s1 in simp)
    then show "wp (before_spawn d w n ctx opts ?f) (\<lambda>b. wp (case b of Inl res \<Rightarrow> return res
         | Inr wr \<Rightarrow> spawn_child d w ctx opts ?f ?lf wr) (\<lambda>r s'. list_all (no_signal \<circ> snd) (effects s'))) s1"
      by simp
  qed simp
  from wpD [OF this] show ?thesis using assms(1) Some by (auto simp: list_all_iff)
qed

text \<open>C33: The identity check lets foreign processes through: a process that inherited the PID of a dead daemon
  and has the word python anywhere in its command line is sent SIGTERM, since the data directory and
  the port that are compared come from the stale PID file and not from the process.\<close>

theorem foreign_python_process_is_signalled:
  assumes "AssertSafeWritePath (w_guard v) (w_host v) f = None"
    and "decode_pid_file d (w_file v f) = Inr info" and "alive_in v (i_PID info)"
    and "w_file v (proc_file (i_PID info) ''cmdline'') = Data cmd" and "contains cmd ''python''"
    and "i_DataDir info \<noteq> []" and "CanonicalizeDir (w_host v) (i_DataDir info) = Some (c_DataDir ctx)"
    and "i_Port info = c_ListenPort ctx" and "c_ConfigPath ctx = []"
  shows "\<exists>k. (k, Terminate (i_PID info)) \<in> set (effects (snd (run_state (stopWithFile d (\<lambda>_. v) n ctx f timeout) start)))"
proof -
  have agy: "agy_in v (i_PID info)" using assms(3-5) contains_no_nul by (simp add: agy_in_def)
  have own: "owned_in v info ctx" using assms(6,7) by (simp add: owned_in_def or_empty_def)
  have port: "\<not> other_port info ctx" using assms(8) by (simp add: other_port_def)
  have "wp (stopWithFile d (\<lambda>_. v) n ctx f timeout) (\<lambda>r s'. \<exists>k. (k, Terminate (i_PID info)) \<in> set (effects s')) start"
  proof (rule wp_stop_at_rest [OF assms(1,2) agy own port])
    fix s' :: run
    show "wp (if refused_config v info ctx then return (Some StopConfigMismatch)
        else terminate_and_wait d (\<lambda>_. v) n f (i_PID info) timeout)
      (\<lambda>r s'. \<exists>k. (k, Terminate (i_PID info)) \<in> set (effects s')) s'"
      using assms(9) by (simp add: refused_config_def) (rule wp_mono [OF wp_terminate], auto)
  qed
  then show ?thesis by (simp add: wp_def split: prod.splits)
qed

text \<open>C34: Restarting a healthy daemon that was started without a configuration file, from an instance that has
  one, does nothing at all and reports that the daemon was restarted: the refusal of the stop is ignored.\<close>

theorem restart_reports_success_without_restarting:
  assumes "f = pid_file_of ctx (o_PIDFile opts)" and "AssertSafeWritePath (w_guard v) (w_host v) f = None"
    and "AssertSafeWritePath (w_guard v) (w_host v) (log_file_of ctx (o_LogFile opts)) = None"
    and "decode_pid_file d (w_file v f) = Inr info" and "agy_in v (i_PID info)" and "owned_in v info ctx"
    and "\<not> other_port info ctx" and "i_ConfigPath info = []" and "c_ConfigPath ctx \<noteq> []"
    and "w_listening v (if c_ListenPort ctx \<le> 0 then s_DefaultPort d else c_ListenPort ctx)" and "binary_current d v info"
    and "\<not> o_Foreground opts" and "\<not> o_RequireSameInstance opts"
  shows "\<exists>s'. run_state (RestartInstance d (\<lambda>_. v) n stats (Some ctx) opts) start
      = (Inr \<lparr>r_PID = i_PID info, r_AlreadyRun = True, r_WasRestarted = True\<rparr>, s') \<and> effects s' = []"
proof -
  let ?R = "Inr \<lparr>r_PID = i_PID info, r_AlreadyRun = True, r_WasRestarted = True\<rparr>"
  let ?opts = "opts\<lparr>o_StateDir := c_DataDir ctx, o_ConfigFile := c_ConfigPath ctx, o_Port := c_ListenPort ctx, o_PIDFile := f\<rparr>"
  have f: "f \<noteq> []" "pid_file_of ctx f = f" using assms(1) pid_file_of_nonempty [of ctx "o_PIDFile opts"]
    by (simp_all add: pid_file_of_def)
  have cfg: "\<not> config_in v info ctx" "refused_config v info ctx"
    using assms(8,9) by (auto simp: config_in_def refused_config_def)
  have i: "info_in d v f = Some info" using assms(4,5) by (simp add: info_in_def)
  have pos: "0 < i_PID info" using assms(5) by (simp add: agy_in_def alive_in_def)
  have begun: "wp (StartInstance d (\<lambda>_. v) n stats (Some ctx) ?opts)
      (\<lambda>r s'. r = Inr \<lparr>r_PID = i_PID info, r_AlreadyRun = True, r_WasRestarted = False\<rparr> \<and> effects s' = effects s1) s1" for s1
    by (rule wp_start_already) (use assms f i pos in simp_all)
  have start: "wp (StartInstance d (\<lambda>_. v) n stats (Some ctx) ?opts) (\<lambda>res. wp (return
      (case res of Inl e \<Rightarrow> Inl e | Inr r \<Rightarrow> Inr (r\<lparr>r_WasRestarted := True\<rparr>))) (\<lambda>r s'. r = ?R \<and> effects s' = [])) s1"
    if "effects s1 = []" for s1
    by (rule wp_mono [OF begun]) (use that in auto)
  have stop: "wp (stopWithFile d (\<lambda>_. v) n ctx f 5000000000) (\<lambda>_. wp (wait_port_free 30 d (\<lambda>_. v) (c_ListenPort ctx)) (\<lambda>_.
      wp (StartInstance d (\<lambda>_. v) n stats (Some ctx) ?opts) (\<lambda>res. wp (return
        (case res of Inl e \<Rightarrow> Inl e | Inr r \<Rightarrow> Inr (r\<lparr>r_WasRestarted := True\<rparr>))) (\<lambda>r s'. r = ?R \<and> effects s' = [])))) s1"
    if "effects s1 = []" for s1
    by (rule wp_stop_at_rest [OF assms(2,4,5,6,7)], simp add: cfg, rule wp_quiet [OF quiet_wait_port], rule start)
      (use that in simp)
  have "wp (RestartInstance d (\<lambda>_. v) n stats (Some ctx) opts) (\<lambda>r s'. r = ?R \<and> effects s' = []) start"
    unfolding RestartInstance_def option.case Let_def assms(1) [symmetric] wp_bind
  proof (rule wp_rest [OF quiet_status answer_status_config [where info = info]])
    show "decode_pid_file d (w_file v (pid_file_of ctx f)) = Inr info" using assms(4) f by simp
  qed (use assms(2-13) cfg stop in \<open>simp_all add: restart_refused_def start_def wp_bind_fun del: wait_port_free.simps\<close>)
  then show ?thesis by (simp add: wp_def split: prod.splits)
qed

definition demo_launch :: LaunchOptions where
  "demo_launch = \<lparr>o_Port = 0, o_StateDir = [], o_ConfigFile = [], o_PIDFile = [], o_LogFile = [], o_EntrypointPath = [],
     o_Foreground = False, o_RequireSameInstance = False, o_NoRestart = True, o_CustomArgs = []\<rparr>"


theorem stop_returns_witness:
  "fst (run_state (stopWithFile demo_daemon (\<lambda>t. demo_world\<lparr>w_now := int t\<rparr>) 5 demo_ctx ''/d/agy-pool.pid'' 5) start) \<noteq> Some StillWaiting"
  by (rule stop_returns [OF _ _ _ prod.collapse [symmetric]]) (simp_all add: clock_moves_def)

definition demo_empty :: world where
  "demo_empty = demo_world\<lparr>w_file := \<lambda>p. NotExist, w_listening := \<lambda>p. False, w_child_exited := True\<rparr>"

theorem failed_start_leaves_no_child_witness:
  "spawn_settled (\<lambda>_. demo_empty)
     (fst (run_state (StartInstance demo_daemon (\<lambda>_. demo_empty) 1 () (Some demo_ctx) demo_launch) start))
     (effects (snd (run_state (StartInstance demo_daemon (\<lambda>_. demo_empty) 1 () (Some demo_ctx) demo_launch) start)))"
  by (rule failed_start_leaves_no_child [OF prod.collapse [symmetric]]) (simp add: demo_launch_def)

theorem no_restart_never_signals_witness:
  "list_all (\<lambda>(k, e). no_signal e)
     (effects (snd (run_state (StartInstance demo_daemon (\<lambda>_. demo_world) 1 () (Some demo_ctx) demo_launch) start)))"
  by (rule no_restart_never_signals [OF prod.collapse [symmetric]]) (simp_all add: demo_launch_def)

theorem foreign_python_process_is_signalled_witness:
  "\<exists>k. (k, Terminate 42) \<in> set (effects (snd (run_state (stopWithFile demo_json (\<lambda>_. demo_up ''python3 train.py'') 1 demo_ctx
     ''/d/agy-pool.pid'' 0) start)))"
proof -
  have "contains ''python3 train.py'' ''python''" by code_simp
  then show ?thesis
    using foreign_python_process_is_signalled [where info = "pid_info demo_ctx 42 0 8899 ()" and cmd = "''python3 train.py''"
        and f = "''/d/agy-pool.pid''" and v = "demo_up ''python3 train.py''" and d = demo_json and ctx = demo_ctx and n = 1 and timeout = 0]
      demo_canonical by simp
qed

theorem restart_reports_success_without_restarting_witness:
  "\<exists>s'. run_state (RestartInstance demo_json (\<lambda>_. demo_up ''agy-pool'') 1 () (Some (demo_ctx\<lparr>c_ConfigPath := ''/d/config.json''\<rparr>))
     demo_launch) start
   = (Inr \<lparr>r_PID = i_PID (pid_info demo_ctx 42 0 8899 ()), r_AlreadyRun = True, r_WasRestarted = True\<rparr>, s') \<and> effects s' = []"
proof (rule restart_reports_success_without_restarting [where f = "''/d/agy-pool.pid''"])
  let ?c = "demo_ctx\<lparr>c_ConfigPath := ''/d/config.json''\<rparr>" and ?i = "pid_info demo_ctx 42 0 8899 () :: unit DaemonInfo"
  let ?v = "demo_up ''agy-pool''"
  have c: "PIDFile ?c = PIDFile demo_ctx" "LogFile ?c = LogFile demo_ctx" "c_DataDir ?c = ''/d''" "c_ListenPort ?c = 8899"
    by (simp_all add: PIDFile_def LogFile_def)
  show "''/d/agy-pool.pid'' = pid_file_of ?c (o_PIDFile demo_launch)"
    "AssertSafeWritePath (w_guard ?v) (w_host ?v) (log_file_of ?c (o_LogFile demo_launch)) = None"
    by (simp_all add: pid_file_of_def log_file_of_def demo_launch_def c)
  have "agy_cmdline (Data ''agy-pool'')" by code_simp
  then show "agy_in ?v (i_PID ?i)" by (simp add: agy_in_def)
  show "owned_in ?v ?i ?c" using demo_canonical by (simp add: owned_in_def or_empty_def c)
  show "\<not> other_port ?i ?c" by (simp add: other_port_def)
  show "binary_current demo_json ?v ?i"
    by (simp add: binary_current_def demo_json_def demo_daemon_def) (simp add: pid_info_def demo_ctx_def)
  show "\<not> o_Foreground demo_launch" "\<not> o_RequireSameInstance demo_launch" by (simp_all add: demo_launch_def)
qed simp_all

end
