(* ===== verification/Daemon_Log.thy ===== *)
theory Daemon_Log
  imports Config_Guard Float64
begin

text \<open>
  internal/daemon/log.go: rotation and clearing of the gateway log, and the rate limit of the
  rotation check. Files are their contents by path; the outcome of every system call that
  can fail is an argument.
\<close>

section \<open>Files and faults\<close>

type_synonym files = "string \<Rightarrow> string option"

datatype copy_outcome = CopyDone | CopyNotStarted | CopyStopped nat \<comment> \<open>after that many bytes\<close>

record log_faults =
  lf_stat_ok :: bool \<comment> \<open>Stat before the lock, of a file that exists\<close>
  lf_restat_ok :: bool \<comment> \<open>Stat under the lock\<close>
  lf_lock_ok :: bool
  lf_rename_ok :: "nat \<Rightarrow> bool"
  lf_copy :: copy_outcome
  lf_open_ok :: bool
  lf_truncate_ok :: bool

datatype log_error = LogUnsafe guard_error | LogStat | LogLock | LogCopy | LogOpen | LogTruncate

definition backup_path :: "string \<Rightarrow> nat \<Rightarrow> string" where
  "backup_path logPath i = logPath @ ''.'' @ nat_string i"

definition log_size :: "string \<Rightarrow> int" where
  "log_size s = int (length s)"

section \<open>Rotation\<close>

text \<open>Step 1: i runs from backupCount - 1 down to 1.\<close>

fun shift_backups :: "(nat \<Rightarrow> bool) \<Rightarrow> string \<Rightarrow> nat \<Rightarrow> files \<Rightarrow> files" where
  "shift_backups ok logPath 0 fs = fs"
| "shift_backups ok logPath (Suc i) fs =
     (let src = backup_path logPath (Suc i); dst = backup_path logPath (Suc (Suc i))
      in shift_backups ok logPath i
           (if fs src \<noteq> None \<and> ok (Suc i) then fs(dst := fs src, src := None) else fs))"

definition copyFile :: "copy_outcome \<Rightarrow> string \<Rightarrow> string \<Rightarrow> files \<Rightarrow> bool \<times> files" where
  "copyFile c src dst fs =
     (case (c, fs src) of
        (CopyDone, Some s) \<Rightarrow> (True, fs(dst := Some s))
      | (CopyStopped n, Some s) \<Rightarrow> (False, fs(dst := Some (take n s)))
      | _ \<Rightarrow> (False, fs))"

definition truncate_log :: "log_faults \<Rightarrow> string \<Rightarrow> files \<Rightarrow> (log_error + bool) \<times> files" where
  "truncate_log fl logPath fs =
     (if \<not> lf_open_ok fl \<or> fs logPath = None then (Inl LogOpen, fs)
      else if \<not> lf_truncate_ok fl then (Inl LogTruncate, fs)
      else (Inr True, fs(logPath := Some [])))"

text \<open>What runs under the file lock; the log is looked at again.\<close>

definition rotate_locked :: "log_faults \<Rightarrow> string \<Rightarrow> int \<Rightarrow> nat \<Rightarrow> bool \<Rightarrow> files \<Rightarrow> (log_error + bool) \<times> files" where
  "rotate_locked fl logPath maxBytes backupCount force fs =
     (case fs logPath of
        None \<Rightarrow> (Inr False, fs)
      | Some s \<Rightarrow>
          if \<not> lf_restat_ok fl then (Inl LogStat, fs)
          else if \<not> force \<and> log_size s < maxBytes then (Inr False, fs)
          else let fs1 = shift_backups (lf_rename_ok fl) logPath (backupCount - 1) fs
               in if 0 < backupCount then
                    (case copyFile (lf_copy fl) logPath (backup_path logPath 1) fs1 of
                       (ok, fs2) \<Rightarrow> if \<not> ok then (Inl LogCopy, fs2) else truncate_log fl logPath fs2)
                  else truncate_log fl logPath fs1)"

definition with_default_max :: "int \<Rightarrow> int" where
  "with_default_max maxBytes = (if maxBytes \<le> 0 then 5242880 else maxBytes)"

definition with_default_count :: "int \<Rightarrow> nat" where
  "with_default_count backupCount = (if backupCount < 0 then 1 else nat backupCount)"

text \<open>\<open>before\<close> are the files at the first Stat, \<open>fs\<close> those at the time the lock is held.\<close>

definition RotateLogIfNeeded :: "guard_state \<Rightarrow> host \<Rightarrow> log_faults \<Rightarrow> string \<Rightarrow> files \<Rightarrow> string \<Rightarrow> int \<Rightarrow> int \<Rightarrow> bool \<Rightarrow> files
    \<Rightarrow> (log_error + bool) \<times> files" where
  "RotateLogIfNeeded g h fl defaultLog before logPath0 maxBytes0 backupCount0 force fs =
     (let logPath = (if logPath0 = [] then defaultLog else logPath0);
          maxBytes = with_default_max maxBytes0; backupCount = with_default_count backupCount0
      in case AssertSafeWritePath g h logPath of Some e \<Rightarrow> (Inl (LogUnsafe e), fs) | None \<Rightarrow>
         case before logPath of None \<Rightarrow> (Inr False, fs) | Some s \<Rightarrow>
           if \<not> lf_stat_ok fl then (Inl LogStat, fs)
           else if \<not> force \<and> log_size s < maxBytes then (Inr False, fs)
           else if \<not> lf_lock_ok fl then (Inl LogLock, fs)
           else rotate_locked fl logPath maxBytes backupCount force fs)"

definition ClearLog :: "guard_state \<Rightarrow> host \<Rightarrow> log_faults \<Rightarrow> string \<Rightarrow> string \<Rightarrow> int \<Rightarrow> files \<Rightarrow> log_error option \<times> files" where
  "ClearLog g h fl defaultLog logPath0 backupCount0 fs =
     (let logPath = (if logPath0 = [] then defaultLog else logPath0); backupCount = with_default_count backupCount0
      in case AssertSafeWritePath g h logPath of Some e \<Rightarrow> (Some (LogUnsafe e), fs) | None \<Rightarrow>
         if \<not> lf_lock_ok fl then (Some LogLock, fs)
         else let fs1 = (if fs logPath \<noteq> None \<and> lf_open_ok fl \<and> lf_truncate_ok fl then fs(logPath := Some []) else fs)
              in (None, foldl (\<lambda>m i. if lf_rename_ok fl i then m(backup_path logPath i := None) else m) fs1 [1..<backupCount + 3]))"

text \<open>MaybeRotateLog: whether a check is due at this time, and the time of the last check.\<close>

definition rotate_check_due :: "int \<Rightarrow> int \<Rightarrow> bool \<times> int" where
  "rotate_check_due now checked = (if now - checked < 30000000000 then (False, checked) else (True, now))"

section \<open>Durations\<close>

text \<open>int64(d.Seconds()) of internal/daemon/runtime.go: whole seconds plus the float64 fraction of the rest.\<close>

definition duration_seconds :: "int \<Rightarrow> int" where
  "duration_seconds d =
     (case fround (of_int (d mod 10 ^ 9) / 10 ^ 9) of
        Fin r \<Rightarrow> (case fround (of_int (d div 10 ^ 9) + r) of Fin x \<Rightarrow> \<lfloor>x\<rfloor> | _ \<Rightarrow> 0)
      | _ \<Rightarrow> 0)"

definition two_units :: "int \<Rightarrow> char \<Rightarrow> int \<Rightarrow> char \<Rightarrow> string" where
  "two_units a u b v = int_string a @ [u] @ (if 0 < b then '' '' @ int_string b @ [v] else [])"

definition format_seconds :: "int \<Rightarrow> string" where
  "format_seconds secs =
     (if secs < 60 then int_string secs @ ''s''
      else let mins = secs div 60
           in if mins < 60 then two_units mins (CHR ''m'') (secs mod 60) (CHR ''s'')
              else let hours = mins div 60
                   in if hours < 24 then two_units hours (CHR ''h'') (mins mod 60) (CHR ''m'')
                      else two_units (hours div 24) (CHR ''d'') (hours mod 24) (CHR ''h''))"

definition FormatUptime :: "int \<Rightarrow> string" where
  "FormatUptime d = format_seconds (duration_seconds (max 0 d))"

section \<open>Sizes\<close>

text \<open>fmt's %.1f of a float64 that is not negative: the exact value rounded to one decimal, ties to even.\<close>

definition fixed1 :: "float64 \<Rightarrow> string" where
  "fixed1 x =
     (case x of
        Fin r \<Rightarrow> (let n = round_even (10 * r) in int_string (n div 10) @ ''.'' @ int_string (n mod 10))
      | PInf \<Rightarrow> ''+Inf'' | NInf \<Rightarrow> ''-Inf'' | NaN \<Rightarrow> ''NaN'')"

definition fdiv :: "int \<Rightarrow> rat \<Rightarrow> float64" where
  "fdiv n d = (case fround (of_int n) of Fin r \<Rightarrow> fround (r / d) | x \<Rightarrow> x)"

definition FormatSize :: "int \<Rightarrow> string" where
  "FormatSize bytes =
     (if bytes < 1024 then int_string bytes @ '' B''
      else if bytes < 1024 * 1024 then fixed1 (fdiv bytes 1024) @ '' KB''
      else fixed1 (fdiv bytes (1024 * 1024)) @ '' MB'')"

section \<open>Backups\<close>

lemma backup_path_inj [simp]: "backup_path l i = backup_path l j \<longleftrightarrow> i = j"
  by (simp add: backup_path_def)

lemma backup_path_other [simp]: "backup_path l i \<noteq> l" "l \<noteq> backup_path l i"
  by (simp_all add: backup_path_def)

text \<open>The shift of n backups by one place: the oldest may be overwritten, nothing else changes.\<close>

definition shifted :: "string \<Rightarrow> nat \<Rightarrow> files \<Rightarrow> files \<Rightarrow> bool" where
  "shifted l n old new \<longleftrightarrow>
     (\<forall>p. (\<forall>i. 0 < i \<and> i \<le> Suc n \<longrightarrow> p \<noteq> backup_path l i) \<longrightarrow> new p = old p)
     \<and> (if n = 0 then new = old
        else new (backup_path l 1) = None
          \<and> (\<forall>i. 0 < i \<and> i < n \<longrightarrow> new (backup_path l (Suc i)) = old (backup_path l i))
          \<and> new (backup_path l (Suc n)) = (if old (backup_path l n) = None then old (backup_path l (Suc n)) else old (backup_path l n)))"

lemma shift_other: "(\<forall>i. 0 < i \<and> i \<le> Suc n \<longrightarrow> p \<noteq> backup_path l i) \<Longrightarrow> shift_backups ok l n fs p = fs p"
proof (induction n arbitrary: fs)
  case (Suc n)
  have "p \<noteq> backup_path l (Suc n)" "p \<noteq> backup_path l (Suc (Suc n))" using Suc.prems by auto
  moreover have "\<forall>i. 0 < i \<and> i \<le> Suc n \<longrightarrow> p \<noteq> backup_path l i" using Suc.prems by auto
  ultimately show ?case using Suc.IH by (simp add: Let_def)
qed simp

lemma shift_shifted: "shifted l n fs (shift_backups (\<lambda>i. True) l n fs)"
proof (induction n arbitrary: fs)
  case 0
  then show ?case by (simp add: shifted_def)
next
  case (Suc n)
  let ?fs = "if fs (backup_path l (Suc n)) \<noteq> None
      then fs(backup_path l (Suc (Suc n)) := fs (backup_path l (Suc n)), backup_path l (Suc n) := None) else fs"
  let ?new = "shift_backups (\<lambda>i. True) l n ?fs"
  have new: "shift_backups (\<lambda>i. True) l (Suc n) fs = ?new" by (simp add: Let_def)
  have ih: "shifted l n ?fs ?new" by (rule Suc.IH)
  have top: "?new (backup_path l (Suc (Suc n))) = ?fs (backup_path l (Suc (Suc n)))"
    by (rule shift_other) simp
  have low: "?fs (backup_path l i) = fs (backup_path l i)" if "i \<le> n" for i using that by simp
  have gone: "?fs (backup_path l (Suc n)) = None" by simp
  have other: "?new p = fs p" if "\<forall>i. 0 < i \<and> i \<le> Suc (Suc n) \<longrightarrow> p \<noteq> backup_path l i" for p
    using shift_other [of "Suc n" p l "\<lambda>i. True" fs] that new by simp
  show ?case
  proof (cases "n = 0")
    case True
    then show ?thesis using other new by (simp add: shifted_def)
  next
    case False
    have "?new (backup_path l 1) = None" using ih False by (simp add: shifted_def)
    moreover have "?new (backup_path l (Suc i)) = fs (backup_path l i)" if "0 < i" "i < Suc n" for i
    proof (cases "i = n")
      case True
      then have "?new (backup_path l (Suc i)) = (if ?fs (backup_path l n) = None then ?fs (backup_path l (Suc n)) else ?fs (backup_path l n))"
        using ih False by (simp add: shifted_def del: not_None_eq)
      then show ?thesis using True gone low [of n] by (simp del: not_None_eq)
    next
      case ne: False
      then have "?new (backup_path l (Suc i)) = ?fs (backup_path l i)"
        using ih False that by (simp add: shifted_def)
      then show ?thesis using low [of i] that by simp
    qed
    moreover have "?new (backup_path l (Suc (Suc n)))
        = (if fs (backup_path l (Suc n)) = None then fs (backup_path l (Suc (Suc n))) else fs (backup_path l (Suc n)))"
      unfolding top by simp
    ultimately show ?thesis using other unfolding shifted_def new by simp
  qed
qed

section \<open>Properties\<close>

text \<open>When nothing fails, a rotation that is due empties the log, makes its contents the first backup and
  moves every backup up by one place; only the oldest one is given up and no other file changes.\<close>

theorem rotation_shifts_backups:
  assumes "fs l = Some s" and "force \<or> maxBytes \<le> log_size s" and "0 < n"
    and "lf_restat_ok fl" and "lf_rename_ok fl = (\<lambda>i. True)" and "lf_copy fl = CopyDone" and "lf_open_ok fl" and "lf_truncate_ok fl"
  shows "\<exists>mid fs'. rotate_locked fl l maxBytes n force fs = (Inr True, fs') \<and> shifted l (n - 1) fs mid
    \<and> fs' = mid(backup_path l 1 := Some s, l := Some [])"
proof -
  let ?mid = "shift_backups (\<lambda>i. True) l (n - 1) fs"
  have "?mid l = Some s" using assms(1) by (simp add: shift_other)
  then have "rotate_locked fl l maxBytes n force fs = (Inr True, ?mid(backup_path l 1 := Some s, l := Some []))"
    using assms by (auto simp: rotate_locked_def copyFile_def truncate_log_def Let_def)
  then show ?thesis using shift_shifted [of l "n - 1" fs] by blast
qed


text \<open>The rotation check runs at most once in any 30 seconds.\<close>

lemma rotation_checks_spaced:
  assumes "rotate_check_due now0 c0 = (True, c1)" and "rotate_check_due now c1 = (True, c2)"
  shows "now0 + 30000000000 \<le> now"
  using assms by (auto simp: rotate_check_due_def split: if_splits)

definition demo_files :: files where
  "demo_files = [''l'' \<mapsto> ''new'', ''l.1'' \<mapsto> ''old'']"

definition demo_faults :: log_faults where
  "demo_faults = \<lparr>lf_stat_ok = True, lf_restat_ok = True, lf_lock_ok = True, lf_rename_ok = (\<lambda>i. True), lf_copy = CopyDone,
     lf_open_ok = True, lf_truncate_ok = True\<rparr>"

theorem rotation_shifts_backups_witness:
  "\<exists>mid fs'. rotate_locked demo_faults ''l'' 1 2 False demo_files = (Inr True, fs') \<and> shifted ''l'' (2 - 1) demo_files mid
    \<and> fs' = mid(backup_path ''l'' 1 := Some ''new'', ''l'' := Some [])"
  by (rule rotation_shifts_backups) (simp_all add: demo_files_def demo_faults_def log_size_def)


end
