(* ===== verification/Daemon_Runtime.thy ===== *)
theory Daemon_Runtime
  imports Daemon_Instance Daemon_Log
begin

text \<open>
  internal/daemon/runtime.go: the runtime statistics a gateway leaves for other processes, how they are
  read back, how they are shown, and the writer that coalesces bursts of changes. Times are
  nanoseconds; None is the zero time.
\<close>

section \<open>Reading statistics\<close>

record RuntimeStats =
  rs_PID :: int
  rs_StartedAt :: "int option"
  rs_UpdatedAt :: int
  rs_Goroutines :: int
  rs_AllocBytes :: int
  rs_HeapBytes :: int
  rs_SysBytes :: int
  rs_NumGC :: int
  rs_GoVersion :: string
  rs_InFlight :: "(string \<times> int) list"

datatype stats_error = StatsUnsafe guard_error | StatsNotFound | StatsUnreadable | StatsEmpty | StatsCorrupt
  | StatsIncomplete | StatsMismatch | StatsStale

definition ReadRuntimeStats :: "(string \<Rightarrow> RuntimeStats option) \<Rightarrow> world \<Rightarrow> string \<Rightarrow> stats_error + RuntimeStats" where
  "ReadRuntimeStats json_stats v path =
     (case AssertSafeReadPath (w_guard v) (w_host v) path of Some e \<Rightarrow> Inl (StatsUnsafe e) | None \<Rightarrow>
      case w_file v path of NotExist \<Rightarrow> Inl StatsNotFound | ReadError \<Rightarrow> Inl StatsUnreadable | Data s \<Rightarrow>
        let trimmed = trim_space s
        in if trimmed = [] then Inl StatsEmpty
           else case json_stats trimmed of None \<Rightarrow> Inl StatsCorrupt | Some st \<Rightarrow>
             if rs_PID st \<le> 0 \<or> rs_StartedAt st = None then Inl StatsIncomplete else Inr st)"

definition StaleRuntimeThreshold :: int where
  "StaleRuntimeThreshold = 60000000000"

text \<open>What was read from the runtime file is r; the PID file is the fallback.\<close>

definition stats_or_fallback :: "RuntimeStats daemon_std \<Rightarrow> world \<Rightarrow> InstanceContext \<Rightarrow> int \<Rightarrow> stats_error + RuntimeStats
    \<Rightarrow> stats_error + RuntimeStats" where
  "stats_or_fallback d v ctx expectedPID r =
     (case r of
        Inr st \<Rightarrow>
          if 0 < expectedPID \<and> rs_PID st \<noteq> expectedPID then Inl StatsMismatch
          else if StaleRuntimeThreshold < w_now v - rs_UpdatedAt st then Inl StatsStale
          else Inr st
      | Inl e \<Rightarrow>
          (case decode_pid_file d (w_file v (PIDFile ctx)) of
             Inr info \<Rightarrow>
               (case i_Runtime info of
                  None \<Rightarrow> Inl e
                | Some st \<Rightarrow> if 0 < expectedPID \<and> rs_PID st \<noteq> expectedPID then Inl StatsMismatch else Inr st)
           | Inl x \<Rightarrow> Inl e))"

definition GetRuntimeStats :: "RuntimeStats daemon_std \<Rightarrow> (string \<Rightarrow> RuntimeStats option) \<Rightarrow> world \<Rightarrow> InstanceContext \<Rightarrow> int
    \<Rightarrow> stats_error + RuntimeStats" where
  "GetRuntimeStats d json_stats v ctx expectedPID =
     stats_or_fallback d v ctx expectedPID (ReadRuntimeStats json_stats v (RuntimeFile ctx))"

section \<open>Showing numbers\<close>

text \<open>The loop of FormatMemoryBytes: the exponent for n with the divisor so far.\<close>

function unit_loop :: "nat \<Rightarrow> nat \<Rightarrow> nat \<Rightarrow> nat \<times> nat" where
  "unit_loop n d e = (if n < 1024 then (d, e) else unit_loop (n div 1024) (d * 1024) (Suc e))"
  by pat_completeness auto
termination by (relation "measure (\<lambda>(n, d, e). n)") auto

declare unit_loop.simps [simp del]

definition FormatMemoryBytes :: "nat \<Rightarrow> string" where
  "FormatMemoryBytes b =
     (if b < 1024 then nat_string b @ '' B''
      else let (d, e) = unit_loop (b div 1024) 1024 0
           in fixed1 (fdiv (int b) (of_nat d)) @ '' ''
              @ (if e = 0 then ''KiB'' else if e = 1 then ''MiB'' else if e = 2 then ''GiB'' else ''TiB''))"

definition FormatGoVersion :: "string \<Rightarrow> string" where
  "FormatGoVersion v =
     (if v = [] then ''Go (unknown)''
      else let t = trim_space v in if has_prefix (to_lower t) ''go'' then ''Go '' @ trim_space (drop 2 t) else t)"

section \<open>The coalescing writer\<close>

datatype cause = ByTicker | ByTimer | ByTrigger | ByCancel

text \<open>A write is recorded with its time, the time of the last write before it and its cause.\<close>

record Writer =
  wr_now :: int
  lastWrite :: int
  pendingWrite :: bool
  coalesceTimer :: "int option" \<comment> \<open>when it fires\<close>
  triggerCh :: bool \<comment> \<open>the buffer of one element is full\<close>
  wr_returned :: bool
  writes :: "(int \<times> int \<times> cause) list"

definition writer_start :: "int \<Rightarrow> Writer" where
  "writer_start t = \<lparr>wr_now = t, lastWrite = t, pendingWrite = False, coalesceTimer = None, triggerCh = False,
     wr_returned = False, writes = []\<rparr>"

definition writer_throttle :: "int \<Rightarrow> int" where
  "writer_throttle throttle = (if throttle \<le> 0 then 200000000 else throttle)"

definition flush :: "cause \<Rightarrow> int \<Rightarrow> Writer \<Rightarrow> Writer" where
  "flush c t s = s\<lparr>wr_now := t, pendingWrite := False, writes := (t, lastWrite s, c) # writes s, lastWrite := t\<rparr>"

definition Trigger :: "int \<Rightarrow> Writer \<Rightarrow> Writer" where
  "Trigger t s = s\<lparr>wr_now := t, triggerCh := True\<rparr>"

definition on_cancel :: "int \<Rightarrow> Writer \<Rightarrow> Writer" where
  "on_cancel t s =
     (let s1 = s\<lparr>wr_now := t, coalesceTimer := None, wr_returned := True\<rparr> in if pendingWrite s then flush ByCancel t s1 else s1)"

definition on_ticker :: "int \<Rightarrow> Writer \<Rightarrow> Writer" where
  "on_ticker t s = flush ByTicker t (s\<lparr>coalesceTimer := None\<rparr>)"

definition on_timer :: "int \<Rightarrow> Writer \<Rightarrow> Writer" where
  "on_timer t s = flush ByTimer t (s\<lparr>coalesceTimer := None\<rparr>)"

definition on_trigger :: "int \<Rightarrow> int \<Rightarrow> Writer \<Rightarrow> Writer" where
  "on_trigger throttle t s =
     (let s1 = s\<lparr>wr_now := t, triggerCh := False\<rparr>; elapsed = t - lastWrite s
      in if throttle \<le> elapsed then flush ByTrigger t (s1\<lparr>coalesceTimer := None\<rparr>)
         else s1\<lparr>pendingWrite := True,
                 coalesceTimer := (case coalesceTimer s of
                     Some due \<Rightarrow> Some due
                   | None \<Rightarrow> Some (t + max 5000000 (throttle - elapsed)))\<rparr>)"

inductive writer_step :: "int \<Rightarrow> Writer \<Rightarrow> Writer \<Rightarrow> bool" for throttle where
  trigger: "wr_now s \<le> t \<Longrightarrow> writer_step throttle s (Trigger t s)"
| cancel: "\<not> wr_returned s \<Longrightarrow> wr_now s \<le> t \<Longrightarrow> writer_step throttle s (on_cancel t s)"
| ticker: "\<not> wr_returned s \<Longrightarrow> wr_now s \<le> t \<Longrightarrow> writer_step throttle s (on_ticker t s)"
| timer: "\<not> wr_returned s \<Longrightarrow> wr_now s \<le> t \<Longrightarrow> coalesceTimer s = Some due \<Longrightarrow> due \<le> t \<Longrightarrow> writer_step throttle s (on_timer t s)"
| take: "\<not> wr_returned s \<Longrightarrow> wr_now s \<le> t \<Longrightarrow> triggerCh s \<Longrightarrow> writer_step throttle s (on_trigger throttle t s)"

definition writer_inv :: "int \<Rightarrow> Writer \<Rightarrow> bool" where
  "writer_inv throttle s \<longleftrightarrow>
     lastWrite s \<le> wr_now s
     \<and> (pendingWrite s \<longleftrightarrow> coalesceTimer s \<noteq> None)
     \<and> (\<forall>due. coalesceTimer s = Some due \<longrightarrow> lastWrite s + throttle \<le> due \<and> due \<le> lastWrite s + throttle + 5000000)
     \<and> (wr_returned s \<longrightarrow> \<not> pendingWrite s)
     \<and> (\<forall>(t, prev, c) \<in> set (writes s). c = ByTimer \<or> c = ByTrigger \<longrightarrow> throttle \<le> t - prev)"

lemma writer_inv_start: "writer_inv throttle (writer_start t)"
  by (simp add: writer_inv_def writer_start_def)

lemma writer_inv_step:
  assumes "writer_step throttle s s'" and "writer_inv throttle s" and "0 < throttle"
  shows "writer_inv throttle s'"
  using assms
  by (cases rule: writer_step.cases)
    (auto simp: writer_inv_def Trigger_def on_cancel_def on_ticker_def on_timer_def on_trigger_def flush_def Let_def
      split: option.splits)

lemma writer_inv_reachable:
  assumes "(writer_step throttle)\<^sup>*\<^sup>* (writer_start t0) s" and "0 < throttle"
  shows "writer_inv throttle s"
  using assms(1) by induction (use writer_inv_start writer_inv_step assms(2) in blast)+

section \<open>Properties\<close>

text \<open>The statistics that are reported for a process carry its PID and the file they come from is at most a
  minute old; statistics of the PID file, taken when the gateway started, are used only without such a file.\<close>

theorem reported_stats_match:
  assumes "GetRuntimeStats d json_stats v ctx pid = Inr st"
  shows "(0 < pid \<longrightarrow> rs_PID st = pid)
    \<and> (ReadRuntimeStats json_stats v (RuntimeFile ctx) = Inr st \<and> w_now v - rs_UpdatedAt st \<le> StaleRuntimeThreshold
       \<or> (\<exists>e info. ReadRuntimeStats json_stats v (RuntimeFile ctx) = Inl e
            \<and> decode_pid_file d (w_file v (PIDFile ctx)) = Inr info \<and> i_Runtime info = Some st))"
  using assms
  by (auto simp: GetRuntimeStats_def stats_or_fallback_def split: sum.splits option.splits if_splits)

text \<open>C30: However changes, ticks and the timer interleave, a write caused by a change comes at least a
  throttle interval after the write before it, a change that is held back is due within the interval
  and 5 ms of the last write, and none is held back when the writer has returned.\<close>

theorem writer_coalesces:
  assumes "(writer_step throttle)\<^sup>*\<^sup>* (writer_start t0) s" and "0 < throttle"
  shows "(\<forall>(t, prev, c) \<in> set (writes s). c = ByTimer \<or> c = ByTrigger \<longrightarrow> throttle \<le> t - prev)
    \<and> (pendingWrite s \<longrightarrow> (\<exists>due \<le> lastWrite s + throttle + 5000000. coalesceTimer s = Some due
         \<and> (\<forall>t. wr_now s \<le> t \<and> due \<le> t \<longrightarrow> writer_step throttle s (on_timer t s) \<and> \<not> pendingWrite (on_timer t s))))
    \<and> (wr_returned s \<longrightarrow> \<not> pendingWrite s)"
proof -
  have inv: "writer_inv throttle s" using writer_inv_reachable [OF assms] .
  have "\<exists>due \<le> lastWrite s + throttle + 5000000. coalesceTimer s = Some due
      \<and> (\<forall>t. wr_now s \<le> t \<and> due \<le> t \<longrightarrow> writer_step throttle s (on_timer t s) \<and> \<not> pendingWrite (on_timer t s))"
    if p: "pendingWrite s"
  proof -
    from p inv obtain due where d: "coalesceTimer s = Some due" "due \<le> lastWrite s + throttle + 5000000" "\<not> wr_returned s"
      by (auto simp: writer_inv_def)
    moreover have "\<not> pendingWrite (on_timer t s)" for t by (simp add: on_timer_def flush_def)
    ultimately show ?thesis using timer [OF d(3) _ d(1)] by blast
  qed
  with inv show ?thesis unfolding writer_inv_def by blast
qed

text \<open>From one PiB on the unit is wrong: 2 ^ 50 bytes are shown as one TiB.\<close>

theorem pebibyte_shown_as_tebibyte:
  "FormatMemoryBytes (2 ^ 40) = ''1.0 TiB'' \<and> FormatMemoryBytes (2 ^ 50) = ''1.0 TiB''"
proof -
  have l: "unit_loop (2 ^ 30) 1024 0 = (2 ^ 40, 3)" "unit_loop (2 ^ 40) 1024 0 = (2 ^ 50, 4)"
    by (simp_all add: unit_loop.simps)
  have f: "fround (2 ^ 40) = Fin (2 ^ 40)" "fround (2 ^ 50) = Fin (2 ^ 50)"
    using fround_int [of "2 ^ 40"] fround_int [of "2 ^ 50"] by simp_all
  have d: "fixed1 (Fin 1) = ''1.0''" by code_simp
  show ?thesis using l f by (simp add: FormatMemoryBytes_def fdiv_def d)
qed

definition demo_stats :: RuntimeStats where
  "demo_stats = \<lparr>rs_PID = 42, rs_StartedAt = Some 1, rs_UpdatedAt = 0, rs_Goroutines = 1, rs_AllocBytes = 0, rs_HeapBytes = 0,
     rs_SysBytes = 0, rs_NumGC = 0, rs_GoVersion = ''go1.22'', rs_InFlight = []\<rparr>"

definition demo_stats_std :: "RuntimeStats daemon_std" where
  "demo_stats_std = \<lparr>json_info = (\<lambda>s. None), s_Version = ''1'', s_Entrypoint = ''/bin/agy-pool'', s_DefaultPort = 8899,
     s_PIDFile = ''/d/agy-pool.pid'', s_DataDir = ''/d'', s_config = s_config demo_daemon, s_sha256 = (\<lambda>s. [])\<rparr>"

theorem reported_stats_match_witness:
  "rs_PID demo_stats = 42 \<and> w_now (demo_world\<lparr>w_file := \<lambda>p. Data ''{}''\<rparr>) - rs_UpdatedAt demo_stats \<le> StaleRuntimeThreshold"
proof -
  let ?v = "demo_world\<lparr>w_file := \<lambda>p. Data ''{}''\<rparr>"
  have r: "ReadRuntimeStats (\<lambda>s. Some demo_stats) ?v (RuntimeFile demo_ctx) = Inr demo_stats"
    by (simp add: ReadRuntimeStats_def AssertSafeReadPath_def demo_world_def demo_guard_def demo_stats_def)
  then have "GetRuntimeStats demo_stats_std (\<lambda>s. Some demo_stats) ?v demo_ctx 42 = Inr demo_stats"
    by (simp add: GetRuntimeStats_def stats_or_fallback_def demo_stats_def demo_world_def StaleRuntimeThreshold_def)
  from reported_stats_match [OF this] r show ?thesis by simp
qed

theorem writer_coalesces_witness:
  "\<exists>due \<le> 10 + 5000000. coalesceTimer (on_trigger 10 1 (Trigger 1 (writer_start 0))) = Some due"
proof -
  let ?s = "on_trigger 10 1 (Trigger 1 (writer_start 0))"
  have "writer_step 10 (writer_start 0) (Trigger 1 (writer_start 0))" by (rule trigger) (simp add: writer_start_def)
  moreover have "writer_step 10 (Trigger 1 (writer_start 0)) ?s"
    by (rule take) (simp_all add: writer_start_def Trigger_def)
  ultimately have "(writer_step 10)\<^sup>*\<^sup>* (writer_start 0) ?s" by (meson converse_rtranclp_into_rtranclp r_into_rtranclp)
  moreover have "pendingWrite ?s" "lastWrite ?s = 0"
    by (simp_all add: on_trigger_def Trigger_def writer_start_def flush_def Let_def)
  ultimately show ?thesis using writer_coalesces [of 10 0 ?s] by auto
qed

end
