(* ===== verification/Spec2Isabelle.thy ===== *)
theory Spec2Isabelle
  imports Proxy Round_Robin Request_Audit Accounts Usage State_DB Ledger Retention Config_Guard Backup Archive_Create Registry_Open Daemon_Control Daemon_Runtime
begin

text \<open>
  agy-go is a local proxy and account manager for a pool of accounts, with a usage ledger fed from
  the conversation databases of the client. This library models its core and proves what makes it
  correct. Each theory is one component; names are those of the Go sources where possible.

  \<^bold>\<open>The program.\<close> A request enters HandleProxy (internal/proxy/proxy.go), which reads the body,
  loads the pool (internal/storage), orders the accounts (internal/scheduler, on the quota data of
  internal/quota) and tries them in order: refresh the token (internal/auth), forward the request,
  and record the outcome in the pool (internal/proxy/failover.go). It moves on to the next account
  only after an explicit retryable refusal. Audit events go to bounded buffers. The account commands
  (internal/accounts) write the same pool document. Separately, internal/tokei decodes the protobuf
  rows of the conversation databases, merges the usage reports of each generation and keeps them in a
  ledger; internal/inventory inspects the same databases, decides which could be reclaimed, and
  archives, verifies, registers and restores conversations.
  internal/daemon starts, stops and identifies the background gateway by its PID file.
  internal/config loads the static configuration and guards every write against protected paths.

  \<^bold>\<open>The theories.\<close>
  \<^item> Prelude: strings as byte lists with the functions of package strings, decimal numbers,
    \<open>wrap64\<close>; Stable_Sort: sort.SliceStable, with the locale \<open>weak_order_on\<close>; Float64: float64 with
    its rounding.
  \<^item> Storage_Types, Pool_Store: types.go, and FindAccount, NextAccountID and PoolTransaction of
    storage.go. The pool document is a record, a transaction a function from the pool to an error or a
    new pool (locale \<open>atomic_store\<close>, interpreted on PoolTransaction). \<open>pool_wf\<close> is the pool invariant.
  \<^item> Quota: quota.go, and the compatibility fields of refresh.go and format.go. Properties: bounds of
    the capacity state, depletion, ageing of the freshness rank, bounds of Retry-After.
  \<^item> Scheduler: scheduler.go. OrderCandidates only reorders, puts servable accounts first, and is
    sorted by one reference ranking unless a reset time is the float NaN.
  \<^item> Tables: a SQL table with a primary key (locale \<open>keyed_table\<close>); State_DB: the tables of storage/db.go, SavePoolToTx and LoadPoolFromTx. Saving and loading keeps
    what the columns can hold; over every reachable database the tables refine the pool document.
  \<^item> Round_Robin: the reservation of storage/db.go with the cursor; fairness over any run.
  \<^item> Observability: metrics.go; the in-flight table is balanced.
  \<^item> Http: request bodies, header filters, the response committer, buffered and streamed responses.
  \<^item> Auth: auth.go; the token refresh is a compare-and-set against other processes.
  \<^item> Accounts: selection, removal, switching, renaming, import and login of accounts.go.
  \<^item> Failover, Request_Audit, Proxy: failover.go, the audit fan-out, and the request handler with
    the properties that span them: no replay, one response, order of attempts.
  \<^item> Wire, Usage: proto.go, types.go and reader.go of internal/tokei: decoding inverts encoding; the
    union-find of aliases computes the least equivalence; merged counters are maxima.
  \<^item> Ledger: ledger.go, service.go and the catalogue of reader.go. A commit replaces one conversation; every
    reachable ledger passes Verify; a second run over unchanged sources changes nothing.
  \<^item> Paths, Config_Guard: path/filepath; config.go's configuration file and its guards on an abstract file
    system: a guarded write does not land in a protected directory, whatever links lie on the way, but
    for one chain of dangling links that the guard misses.
  \<^item> Inventory, Retention: inventory.go, policy.go and plan.go of internal/inventory: an entry without
    blocker is a steady file with its digest; a source is eligible exactly when every gate is open.
  \<^item> Archive (verify.go and the verifier of archive.go), Archive_Create (the rest of archive.go), Registry and
    Registry_Open (registry.go), Restore (restore.go): the verifier accepts exactly the whole archives; an
    archive is made only of a source that held still; the registry keeps identities and always lists; a
    restoration overwrites nothing, adds what it reports, and says restored only of what it read back.
    Looks at files are records of answers; the destinations are a map that others may change meanwhile.
  \<^item> Host_Monad: programs that look at a host which others change meanwhile (State_Monad over the moments of
    the calls), with a weakest precondition calculus; Daemon_PID (pid.go), Daemon_Instance (instance.go),
    Daemon_Server (server.go), Daemon_Control (control.go, lifecycle.go): what is signalled, when the status
    is running, what a failed start leaves behind, and that the gateway acts only under its lock.
  \<^item> Daemon_Log (log.go), Daemon_Runtime (runtime.go): rotation loses no log; the coalescing writer of the
    statistics as a step relation.
  \<^item> Base64, Backup: encoding/base64 and crypto.go of internal/accounts: backups open again, export and
    import restore the pool, a merge keeps e-mail addresses unique; the tag leaves a boundary open.
  \<^item> This theory: the step relation of all pool transactions, its invariant, and the database under it.

  \<^bold>\<open>Conventions.\<close> A Go string is the list of its bytes. int64 and int are integers, wrapped where the
  code increments without a bound; uint64 is \<open>64 word\<close>. A float64 is a rational, an infinity or NaN,
  with round to nearest even; the sign of zero is not represented. What is not in the repository is
  an argument: strconv.ParseFloat, time.Parse and out-of-range float conversion (record \<open>go_std\<close>), the
  JSON decoders of error bodies, the answers of upstream, the clock and the failures of transactions
  (the environment records). Error texts are shortened; errors.Is and errors.As are modelled.

  \<^bold>\<open>Fuel.\<close> Only \<open>root_loop\<close> of Usage has fuel: parents are larger than their children in byte order,
  so the entries of the table and two more steps suffice (\<open>root_returns\<close>), and \<open>dedup_returns\<close> shows
  that its error is never the result. The polls of \<open>stopWithFile\<close> are bounded by an argument, and
  \<open>stop_returns\<close> says which bound is enough; the loop of CanonicalizeDir over the ancestors gets the length
  of the path, which \<open>deepest_existing_ends\<close> shows to be enough. All other loops are structural or have a measure.

  \<^bold>\<open>Not modelled.\<close> Files, locks, the SQL engine (its answers are inputs), JSON (an argument of State_DB and
  Backup), migration of databases and of the legacy document, the OAuth browser flow, quota probing
  over HTTP, the hooks of the tests in the restoration, derived path getters, the goroutines
  for signals and quota inside the gateway, diagnostics, installation and the command line with its terminal output: I/O, or left for later.
  Goroutines are interleaved only where state is shared: the pool (arbitrary writes of other processes
  before and during a refresh and a switch), the audit and the in-flight table.
\<close>

section \<open>The life of an account pool\<close>

text \<open>
  Every transaction the program runs on the pool document, as a step relation: the token refresh and
  its field writes (Auth), the account commands (Accounts), the proxy's outcome handlers (Failover)
  and the round-robin reservation (Round_Robin). A transaction that returns an error writes nothing
  (Pool_Store), so only the successful ones are steps.
\<close>

inductive pool_step :: "go_std \<Rightarrow> Pool \<Rightarrow> Pool \<Rightarrow> bool" for std where
  step_fields: "persist_fields account ut us uq p = Inr (r1, q) \<Longrightarrow> pool_step std p q"
| step_tokens: "store_tokens account rf x p = Inr (r2, q) \<Longrightarrow> pool_step std p q"
| step_remove: "remove_from_pool t p = Inr (r3, q) \<Longrightarrow> pool_step std p q"
| step_activate: "activate i p = Inr (r4, q) \<Longrightarrow> pool_step std p q"
| step_rename: "rename_in_pool t n p = Inr (r5, q) \<Longrightarrow> pool_step std p q"
| step_import: "import_account c now p = Inr (r6, q) \<Longrightarrow> pool_step std p q"
| step_login: "login_account c l now p = Inr (r7, q) \<Longrightarrow> pool_step std p q"
| step_success: "record_success account g now p = Inr (r8, q) \<Longrightarrow> pool_step std p q"
| step_quota: "record_quota_error account d now p = Inr (r9, q) \<Longrightarrow> pool_step std p q"
| step_validation: "record_validation_error account v now p = Inr (r10, q) \<Longrightarrow> pool_step std p q"
| step_auth: "record_auth_error account now p = Inr (r11, q) \<Longrightarrow> pool_step std p q"
| step_reserve: "reserve_candidates std now p = Inr (cs, q) \<Longrightarrow> pool_step std p q"
| step_merge: "merge_accounts now skip items p = Inr (r12, q) \<Longrightarrow> pool_step std p q"

inductive reachable :: "go_std \<Rightarrow> Pool \<Rightarrow> bool" for std where
  reach_new: "reachable std NewEmptyPool"
| reach_step: "reachable std p \<Longrightarrow> pool_step std p q \<Longrightarrow> reachable std q"
| reach_replace: "reachable std p \<Longrightarrow> replace_accounts std now items strategy email p = Inr (r, q) \<Longrightarrow> reachable std q"

lemmas pool_wf_transactions = pool_wf_persist_fields pool_wf_store_tokens pool_wf_remove pool_wf_activate
  pool_wf_rename pool_wf_import pool_wf_login pool_wf_record_success pool_wf_record_errors pool_wf_reserve pool_wf_merge

lemma pool_step_wf: "pool_step std p q \<Longrightarrow> pool_wf p \<Longrightarrow> pool_wf q"
  by (induction rule: pool_step.induct) (blast intro: pool_wf_transactions)+

lemma pool_wf_new: "pool_wf NewEmptyPool"
  by (simp add: pool_wf_def NewEmptyPool_def ids_def)

text \<open>C3: In every pool the program can reach from an empty one, by any sequence of logins, imports,
  removals, switches, renames, token refreshes, request outcomes, round-robin reservations and restored backups, account
  ids are non-empty and pairwise distinct, and the active account is one of the accounts.\<close>

theorem reachable_pools_well_formed:
  assumes "reachable std p"
  shows "distinct (ids p) \<and> [] \<notin> set (ids p)
    \<and> (case ActiveAccountID p of None \<Rightarrow> True | Some i \<Rightarrow> i \<in> set (ids p))"
proof -
  have "pool_wf p" using assms by (induction rule: reachable.induct) (auto intro: pool_wf_new pool_step_wf pool_wf_replace)
  then show ?thesis by (simp add: pool_wf_def)
qed

definition sample_login :: "string \<Rightarrow> credentials" where
  "sample_login mail = \<lparr>c_email = mail, c_access = ''a'', c_refresh = ''r'', c_id = ''i''\<rparr>"

theorem reachable_pools_well_formed_witness:
  "\<exists>p. reachable demo_std p \<and> length (Accounts p) = 2 \<and> distinct (ids p) \<and> [] \<notin> set (ids p)"
proof -
  define p1 where "p1 = snd (projr (import_account (sample_login ''x'') 0 NewEmptyPool))"
  define p2 where "p2 = snd (projr (import_account (sample_login ''y'') 0 p1))"
  have i1: "import_account (sample_login ''x'') 0 NewEmptyPool
      = Inr (fst (projr (import_account (sample_login ''x'') 0 NewEmptyPool)), p1)"
    and n1: "map Email (Accounts p1) = [''x'']"
    by (simp_all add: p1_def import_account_def sample_login_def NewEmptyPool_def Let_def)
  obtain a where a: "Accounts p1 = [a]" "Email a = ''x''" using n1 by auto
  have i2: "import_account (sample_login ''y'') 0 p1
      = Inr (fst (projr (import_account (sample_login ''y'') 0 p1)), p2)"
    and n2: "length (Accounts p2) = 2"
    by (simp_all add: p2_def import_account_def sample_login_def Let_def a)
  have "reachable demo_std p2"
    by (rule reach_step [OF reach_step [OF reach_new step_import [OF i1]] step_import [OF i2]])
  then show ?thesis using reachable_pools_well_formed [of demo_std p2] n2 by blast
qed

section \<open>The database under the pool\<close>

text \<open>
  The same steps on the tables: a transaction loads the document, changes it and saves it. Each step
  keeps the accounts it does not remove in their order and leaves the unknown fields alone, which is
  what a faithful save needs.
\<close>

definition kept :: "Pool \<Rightarrow> Pool \<Rightarrow> bool" where
  "kept p q \<longleftrightarrow> keeps_order (ids p) (ids q) \<and> PExtra q = PExtra p"

lemma kept_same: "kept p p"
  by (simp add: kept_def keeps_order_same)

lemma kept_frame [simp]:
  "kept p (q\<lparr>ActiveAccountID := x\<rparr>) = kept p q" "kept p (q\<lparr>RoundRobinLastAccountID := x\<rparr>) = kept p q"
  by (simp_all add: kept_def)

lemma kept_update: "(\<And>a. ID (f a) = ID a) \<Longrightarrow> kept p (update_account x f p)"
  by (simp add: kept_def keeps_order_same) (simp add: update_account_def)

lemma kept_update_first: "(\<And>a. ID (f a) = ID a) \<Longrightarrow> kept p (p\<lparr>Accounts := update_first P f (Accounts p)\<rparr>)"
  by (simp add: kept_def ids_def map_update_first keeps_order_same)

lemma kept_append: "kept p (p\<lparr>Accounts := Accounts p @ as\<rparr>)"
  by (simp add: kept_def ids_def keeps_order_append)

lemma kept_filter: "kept p (p\<lparr>Accounts := filter (\<lambda>a. ID a \<noteq> i) (Accounts p)\<rparr>)"
  using keeps_order_filter [of "ids p" "\<lambda>j. j \<noteq> i"] by (simp add: kept_def ids_def map_filter_ID)

lemma kept_fields: "persist_fields account ut us uq p = Inr (r, q) \<Longrightarrow> kept p q"
  by (auto simp: persist_fields_def copy_fields_def Let_def intro!: kept_update split: option.splits)

lemma kept_tokens: "store_tokens account rf x p = Inr (r, q) \<Longrightarrow> kept p q"
  by (auto simp: store_tokens_def intro!: kept_update split: option.splits if_splits)

lemma kept_remove: "remove_from_pool t p = Inr (r, q) \<Longrightarrow> kept p q"
  by (auto simp: remove_from_pool_def Let_def kept_filter split: option.splits)

lemma kept_activate: "activate i p = Inr (r, q) \<Longrightarrow> kept p q"
  by (auto simp: activate_def kept_same split: option.splits)

lemma kept_rename: "rename_in_pool t n p = Inr (r, q) \<Longrightarrow> kept p q"
  by (auto simp: rename_in_pool_def intro!: kept_update_first split: option.splits)

lemma kept_import: "import_account c now p = Inr (r, q) \<Longrightarrow> kept p q"
  by (auto simp: import_account_def Let_def kept_append intro!: kept_update_first split: option.splits if_splits)

lemma kept_login: "login_account c l now p = Inr (r, q) \<Longrightarrow> kept p q"
  by (auto simp: login_account_def Let_def kept_append intro!: kept_update_first split: option.splits if_splits)

lemma kept_success: "record_success account g now p = Inr (r, q) \<Longrightarrow> kept p q"
  by (auto simp: record_success_def Let_def kept_same intro!: kept_update split: option.splits if_splits)

lemma kept_errors:
  "record_quota_error account d now p = Inr (r, q) \<Longrightarrow> kept p q"
  "record_validation_error account v now p = Inr (r, q) \<Longrightarrow> kept p q"
  "record_auth_error account now p = Inr (r, q) \<Longrightarrow> kept p q"
  by (auto simp: record_quota_error_def record_validation_error_def record_auth_error_def intro!: kept_update)

lemma kept_reserve: "reserve_candidates std now p = Inr (cs, q) \<Longrightarrow> kept p q"
  by (auto simp: reserve_candidates_def Let_def kept_same split: if_splits)

lemma kept_merge: "merge_accounts now skip items p = Inr (r, q) \<Longrightarrow> pool_wf p \<Longrightarrow> kept p q"
  using merge_accounts_ids [of now skip items p r q] by (auto simp: kept_def keeps_order_append)

lemmas kept_transactions = kept_fields kept_tokens kept_remove kept_activate kept_rename kept_import kept_login
  kept_success kept_errors kept_reserve

lemma pool_step_kept: "pool_step std p q \<Longrightarrow> pool_wf p \<Longrightarrow> kept p q"
  by (induction rule: pool_step.induct) (blast intro: kept_transactions kept_merge)+

inductive db_reachable :: "go_std \<Rightarrow> json_codec \<Rightarrow> state_db \<Rightarrow> bool" for std j where
  db_new: "db_reachable std j fresh_db"
| db_step: "db_reachable std j db \<Longrightarrow> pool_step std (LoadPoolFromTx j db) q \<Longrightarrow>
     db_reachable std j (SavePoolToTx j q db)"

definition db_inv :: "json_codec \<Rightarrow> state_db \<Rightarrow> bool" where
  "db_inv j db \<longleftrightarrow> db_wf db \<and> pool_wf (LoadPoolFromTx j db) \<and> PExtra (LoadPoolFromTx j db) = []"

lemma db_step_saves:
  assumes "db_inv j db" and "pool_step std (LoadPoolFromTx j db) q"
  shows "LoadPoolFromTx j (SavePoolToTx j q db) = persisted_pool j q \<and> db_inv j (SavePoolToTx j q db)"
proof -
  have wf: "pool_wf q" using assms pool_step_wf by (auto simp: db_inv_def)
  have k: "kept (LoadPoolFromTx j db) q" using assms by (auto simp: db_inv_def intro: pool_step_kept)
  have q: "db_wf db" "distinct (ids q)" "[] \<notin> set (ids q)" "keeps_order (map ar_id (accounts db)) (ids q)"
    using assms(1) wf k by (auto simp: db_inv_def pool_wf_def kept_def ids_load)
  have x: "PExtra q = []" using assms(1) k by (simp add: db_inv_def kept_def)
  have l: "LoadPoolFromTx j (SavePoolToTx j q db) = persisted_pool j q" using q x by (intro load_save) simp_all
  then show ?thesis using wf x db_wf_save [OF q] by (simp add: db_inv_def pool_wf_persisted persisted_extra)
qed

lemma db_reachable_inv: "db_reachable std j db \<Longrightarrow> db_inv j db"
proof (induction rule: db_reachable.induct)
  case db_new
  have "PExtra NewEmptyPool = []" by (simp add: NewEmptyPool_def)
  then show ?case by (simp add: db_inv_def db_wf_fresh load_fresh pool_wf_new)
next
  case (db_step db q)
  then show ?case using db_step_saves by blast
qed



end
